(* ===== verification/Prelude.thy ===== *)
theory Prelude
  imports Main "HOL-Library.Char_ord" "HOL-Library.List_Lexorder"
begin

text \<open>
  Shared vocabulary of the development.

  Rust's \<open>String\<close> is a UTF-8 byte sequence, so a string is modelled as HOL's \<open>string\<close> (a list of
  8-bit \<open>char\<close>s): \<open>length\<close> is Rust's \<open>len()\<close>, and the order of \<open>HOL-Library.Char_ord\<close> and
  \<open>HOL-Library.List_Lexorder\<close> is Rust's bytewise lexicographic order of \<open>str\<close>.
  \<open>Result<T, E>\<close> is the sum \<open>'e + 'a\<close> with \<open>Err = Inl\<close> and \<open>Ok = Inr\<close>; \<open>res_bind\<close> is the
  question-mark operator, \<open>try_for_each\<close> and \<open>try_fold\<close> are loops that return at the first error.
  Machine integers are natural numbers with the saturation or wrap-around written out.
\<close>

named_theorems rust_simps \<open>rewriting rules of the modelled Rust standard library\<close>
named_theorems res_elims \<open>inversions of successful fallible computations\<close>

type_synonym str = string

abbreviation Err :: "'e \<Rightarrow> 'e + 'a" where "Err \<equiv> Inl"
abbreviation Ok :: "'a \<Rightarrow> 'e + 'a" where "Ok \<equiv> Inr"

section \<open>Fallible computations\<close>

definition res_bind :: "'e + 'a \<Rightarrow> ('a \<Rightarrow> 'e + 'b) \<Rightarrow> 'e + 'b" where
  "res_bind r f = (case r of Inl e \<Rightarrow> Inl e | Inr x \<Rightarrow> f x)"

definition res_map_err :: "('e \<Rightarrow> 'f) \<Rightarrow> 'e + 'a \<Rightarrow> 'f + 'a" where
  "res_map_err g r = (case r of Inl e \<Rightarrow> Inl (g e) | Inr x \<Rightarrow> Inr x)"

definition ok_or :: "'e \<Rightarrow> 'a option \<Rightarrow> 'e + 'a" where
  "ok_or e m = (case m of None \<Rightarrow> Inl e | Some x \<Rightarrow> Inr x)"

definition guard_err :: "bool \<Rightarrow> 'e \<Rightarrow> 'e + unit" where
  "guard_err b e = (if b then Inl e else Inr ())"

definition is_ok :: "'e + 'a \<Rightarrow> bool" where
  "is_ok r = (case r of Inl _ \<Rightarrow> False | Inr _ \<Rightarrow> True)"

fun try_for_each :: "('a \<Rightarrow> 'e + unit) \<Rightarrow> 'a list \<Rightarrow> 'e + unit" where
  "try_for_each f [] = Inr ()"
| "try_for_each f (x # xs) = (case f x of Inl e \<Rightarrow> Inl e | Inr _ \<Rightarrow> try_for_each f xs)"

fun try_fold :: "('s \<Rightarrow> 'a \<Rightarrow> 'e + 's) \<Rightarrow> 's \<Rightarrow> 'a list \<Rightarrow> 'e + 's" where
  "try_fold f s [] = Inr s"
| "try_fold f s (x # xs) = (case f s x of Inl e \<Rightarrow> Inl e | Inr s' \<Rightarrow> try_fold f s' xs)"

section \<open>Machine integers\<close>

definition usize_max :: nat where "usize_max = 2 ^ 64 - 1"
definition u32_max :: nat where "u32_max = 2 ^ 32 - 1"

definition sat_add :: "nat \<Rightarrow> nat \<Rightarrow> nat" where
  "sat_add a b = min (a + b) usize_max"

definition sat_add_u32 :: "nat \<Rightarrow> nat \<Rightarrow> nat" where
  "sat_add_u32 a b = min (a + b) u32_max"

text \<open>\<open>AtomicU64::fetch_add(1)\<close> and \<open>AtomicUsize::fetch_add(1)\<close> wrap around.\<close>

definition fetch_inc :: "nat \<Rightarrow> nat" where
  "fetch_inc n = (n + 1) mod 2 ^ 64"

section \<open>Strings\<close>

abbreviation byte :: "char \<Rightarrow> nat" where "byte c \<equiv> of_char c"

text \<open>The UTF-8 encodings of the code points with the Unicode \<open>White_Space\<close> property.\<close>

definition white_space :: "nat list list" where
  "white_space =
     [[0x09], [0x0A], [0x0B], [0x0C], [0x0D], [0x20], [0xC2, 0x85], [0xC2, 0xA0],
      [0xE1, 0x9A, 0x80],
      [0xE2, 0x80, 0x80], [0xE2, 0x80, 0x81], [0xE2, 0x80, 0x82], [0xE2, 0x80, 0x83],
      [0xE2, 0x80, 0x84], [0xE2, 0x80, 0x85], [0xE2, 0x80, 0x86], [0xE2, 0x80, 0x87],
      [0xE2, 0x80, 0x88], [0xE2, 0x80, 0x89], [0xE2, 0x80, 0x8A],
      [0xE2, 0x80, 0xA8], [0xE2, 0x80, 0xA9], [0xE2, 0x80, 0xAF], [0xE2, 0x81, 0x9F],
      [0xE3, 0x80, 0x80]]"

definition ws_char :: "str \<Rightarrow> bool" where
  "ws_char s = (map byte s \<in> set white_space)"

text \<open>The byte length of the white-space character a string starts (ends) with, 0 for none.\<close>

definition ws_prefix :: "str \<Rightarrow> nat" where
  "ws_prefix s =
     (if ws_char (take 1 s) then 1 else if ws_char (take 2 s) then 2
      else if ws_char (take 3 s) then 3 else 0)"

definition ws_suffix :: "str \<Rightarrow> nat" where
  "ws_suffix s =
     (let n = length s in
      if ws_char (drop (n - 1) s) then 1 else if ws_char (drop (n - 2) s) then 2
      else if ws_char (drop (n - 3) s) then 3 else 0)"

function trim_start :: "str \<Rightarrow> str" where
  "trim_start s =
     (if s \<noteq> [] \<and> ws_prefix s \<noteq> 0 then trim_start (drop (ws_prefix s) s) else s)"
  by pat_completeness auto
termination
  by (relation "measure length") auto

function trim_end :: "str \<Rightarrow> str" where
  "trim_end s =
     (if s \<noteq> [] \<and> ws_suffix s \<noteq> 0 then trim_end (take (length s - ws_suffix s) s) else s)"
  by pat_completeness auto
termination
  by (relation "measure length") auto

declare trim_start.simps [simp del] trim_end.simps [simp del]

definition trim :: "str \<Rightarrow> str" where
  "trim s = trim_end (trim_start s)"

definition blank :: "str \<Rightarrow> bool" where
  "blank s = (trim s = [])"

definition starts_with :: "str \<Rightarrow> str \<Rightarrow> bool" where
  "starts_with s p = (take (length p) s = p)"

definition strip_prefix :: "str \<Rightarrow> str \<Rightarrow> str option" where
  "strip_prefix s p = (if starts_with s p then Some (drop (length p) s) else None)"

text \<open>\<open>str::split(c)\<close>: always at least one piece.\<close>

fun split_on :: "char \<Rightarrow> str \<Rightarrow> str list" where
  "split_on c [] = [[]]"
| "split_on c (x # xs) =
     (if x = c then [] # split_on c xs
      else (case split_on c xs of [] \<Rightarrow> [[x]] | p # ps \<Rightarrow> (x # p) # ps))"

text \<open>\<open>Vec::sort\<close> followed by \<open>Vec::dedup\<close>.\<close>

definition sort_dedup :: "'a::linorder list \<Rightarrow> 'a list" where
  "sort_dedup xs = remdups_adj (sort xs)"

section \<open>Lemmas on fallible computations\<close>

lemma res_bind_simps [simp]:
  "res_bind (Inl e) f = Inl e"
  "res_bind (Inr x) f = f x"
  by (simp_all add: res_bind_def)

lemma res_bind_Ok [res_elims]: "res_bind r f = Inr y \<longleftrightarrow> (\<exists>x. r = Inr x \<and> f x = Inr y)"
  by (cases r) auto

lemma res_map_err_simps [simp]:
  "res_map_err g (Inl e) = Inl (g e)"
  "res_map_err g (Inr x) = Inr x"
  by (simp_all add: res_map_err_def)

lemma res_map_err_Ok [simp]: "res_map_err g r = Inr x \<longleftrightarrow> r = Inr x"
  by (cases r) auto

lemma res_map_err_Err: "res_map_err g r = Inl e \<longleftrightarrow> (\<exists>e'. r = Inl e' \<and> e = g e')"
  by (cases r) auto

lemma ok_or_Ok [simp]: "ok_or e m = Inr x \<longleftrightarrow> m = Some x"
  by (cases m) (auto simp: ok_or_def)

lemma ok_or_simps [simp]: "ok_or e None = Inl e" "ok_or e (Some x) = Inr x"
  by (simp_all add: ok_or_def)

lemma guard_err_Ok [simp]: "guard_err b e = Inr u \<longleftrightarrow> \<not> b"
  by (simp add: guard_err_def)

lemma guard_err_simps [simp]: "guard_err True e = Inl e" "guard_err False e = Inr ()"
  by (simp_all add: guard_err_def)

lemma is_ok_simps [simp]: "is_ok (Inl e) = False" "is_ok (Inr x) = True"
  by (simp_all add: is_ok_def)

lemma is_ok_iff: "is_ok r \<longleftrightarrow> (\<exists>x. r = Inr x)"
  by (cases r) auto

lemma sum_unit_Ok: "(r :: 'e + unit) = Inr u \<longleftrightarrow> is_ok r"
  by (cases r) auto

lemma try_for_each_Ok [res_elims]:
  "try_for_each f xs = Inr u \<longleftrightarrow> (\<forall>x\<in>set xs. is_ok (f x))"
  by (induction xs) (auto split: sum.splits)

lemma try_for_each_Err:
  "try_for_each f xs = Inl e \<Longrightarrow> \<exists>x\<in>set xs. f x = Inl e"
  by (induction xs) (auto split: sum.splits)

lemma try_fold_append:
  "try_fold f s (xs @ ys) = res_bind (try_fold f s xs) (\<lambda>s'. try_fold f s' ys)"
  by (induction xs arbitrary: s) (auto split: sum.splits)

section \<open>Lemmas on machine integers\<close>

lemma sat_add_le: "sat_add a b \<le> usize_max"
  by (simp add: sat_add_def)

lemma sat_add_exact: "a + b \<le> usize_max \<Longrightarrow> sat_add a b = a + b"
  by (simp add: sat_add_def)

lemma sat_add_u32_pos: "0 < b \<Longrightarrow> 0 < sat_add_u32 a b"
  by (simp add: sat_add_u32_def u32_max_def)

lemma sat_add_u32_le: "sat_add_u32 a b \<le> u32_max"
  by (simp add: sat_add_u32_def)

lemma fetch_inc_exact: "n + 1 < 2 ^ 64 \<Longrightarrow> fetch_inc n = n + 1"
  by (simp add: fetch_inc_def)

section \<open>Lemmas on strings\<close>

lemma starts_with_iff: "starts_with s p \<longleftrightarrow> (\<exists>t. s = p @ t)"
  by (metis append_eq_conv_conj append_take_drop_id starts_with_def)

lemma strip_prefix_Some: "strip_prefix s p = Some t \<longleftrightarrow> s = p @ t"
  by (auto simp: strip_prefix_def starts_with_iff)

lemma split_on_nonempty [simp]: "split_on c s \<noteq> []"
  by (induction s) (auto split: list.splits)

lemma split_on_no_sep: "c \<notin> set s \<Longrightarrow> split_on c s = [s]"
  by (induction s) auto

lemma split_on_append_sep:
  "c \<notin> set s \<Longrightarrow> split_on c (s @ c # t) = s # split_on c t"
  by (induction s) auto

lemma split_on_pieces: "p \<in> set (split_on c s) \<Longrightarrow> c \<notin> set p"
  by (induction s arbitrary: p) (auto split: list.splits if_splits)

fun join_on :: "char \<Rightarrow> str list \<Rightarrow> str" where
  "join_on c [] = []"
| "join_on c [p] = p"
| "join_on c (p # q # ps) = p @ c # join_on c (q # ps)"

lemma join_split_on: "join_on c (split_on c s) = s"
proof (induction s)
  case Nil
  then show ?case by simp
next
  case (Cons x xs)
  obtain p ps where s: "split_on c xs = p # ps"
    by (meson neq_Nil_conv split_on_nonempty)
  show ?case using Cons s by (cases ps) auto
qed

lemma drop_fixpoint: "n \<noteq> 0 \<Longrightarrow> s \<noteq> [] \<Longrightarrow> length (drop n s) < length s"
  by simp

lemma trim_start_done: "trim_start s = [] \<or> ws_prefix (trim_start s) = 0"
proof (induction s rule: trim_start.induct)
  case (1 s)
  then show ?case by (cases "s \<noteq> [] \<and> ws_prefix s \<noteq> 0") (auto simp: trim_start.simps [of s])
qed

lemma trim_end_done: "trim_end s = [] \<or> ws_suffix (trim_end s) = 0"
proof (induction s rule: trim_end.induct)
  case (1 s)
  then show ?case by (cases "s \<noteq> [] \<and> ws_suffix s \<noteq> 0") (auto simp: trim_end.simps [of s])
qed

lemma trim_end_prefix: "\<exists>n. trim_end s = take n s"
proof (induction s rule: trim_end.induct)
  case (1 s)
  show ?case
  proof (cases "s \<noteq> [] \<and> ws_suffix s \<noteq> 0")
    case True
    with 1 obtain n where "trim_end (take (length s - ws_suffix s) s)
        = take n (take (length s - ws_suffix s) s)" by auto
    with True show ?thesis by (subst trim_end.simps) auto
  next
    case False
    then show ?thesis by (subst trim_end.simps) (metis take_all_iff order_refl)
  qed
qed

lemma trim_start_suffix: "\<exists>n. trim_start s = drop n s"
proof (induction s rule: trim_start.induct)
  case (1 s)
  show ?case
  proof (cases "s \<noteq> [] \<and> ws_prefix s \<noteq> 0")
    case True
    with 1 obtain n where "trim_start (drop (ws_prefix s) s) = drop n (drop (ws_prefix s) s)"
      by auto
    with True show ?thesis by (subst trim_start.simps) auto
  next
    case False
    then show ?thesis by (subst trim_start.simps) (metis drop0)
  qed
qed

lemma length_trim: "length (trim s) \<le> length s"
proof -
  obtain n where n: "trim_start s = drop n s" using trim_start_suffix by blast
  obtain m where m: "trim_end (drop n s) = take m (drop n s)" using trim_end_prefix by blast
  show ?thesis by (simp add: trim_def n m)
qed

lemma trim_Nil [simp]: "trim [] = []"
  by (simp add: trim_def trim_start.simps trim_end.simps)

lemma trim_subset: "set (trim s) \<subseteq> set s"
proof -
  obtain n where n: "trim_start s = drop n s" using trim_start_suffix by blast
  obtain m where m: "trim_end (drop n s) = take m (drop n s)" using trim_end_prefix by blast
  show ?thesis unfolding trim_def n m by (meson in_set_dropD in_set_takeD subsetI)
qed

lemma Cons_eq_upt: "x # xs = [a ..< n] \<longleftrightarrow> a < n \<and> x = a \<and> xs = [Suc a ..< n]"
  by (cases "a < n") (auto simp: upt_conv_Cons)

section \<open>Lemmas on sorting and deduplication\<close>

lemma set_sort_dedup [simp]: "set (sort_dedup xs) = set xs"
  by (simp add: sort_dedup_def)

lemma sorted_sort_dedup [simp]: "sorted (sort_dedup xs)"
  by (simp add: sort_dedup_def sorted_remdups_adj)

lemma sorted_remdups_adj_distinct: "sorted xs \<Longrightarrow> distinct (remdups_adj xs)"
  by (induction xs rule: remdups_adj.induct) (auto simp: order_antisym)

lemma distinct_sort_dedup [simp]: "distinct (sort_dedup xs)"
  by (simp add: sort_dedup_def sorted_remdups_adj_distinct)

lemma sort_dedup_Nil_iff [simp]: "sort_dedup xs = [] \<longleftrightarrow> xs = []"
  using set_sort_dedup [of xs] by (metis set_empty)

lemma length_sort_dedup: "length (sort_dedup xs) = card (set xs)"
  by (metis distinct_card distinct_sort_dedup set_sort_dedup)

lemma sort_dedup_id: "sorted xs \<Longrightarrow> distinct xs \<Longrightarrow> sort_dedup xs = xs"
  by (simp add: sort_dedup_def sorted_sort_id remdups_adj_distinct)

end
