(* ===== verification/Json.thy ===== *)
theory Json
  imports Prelude
begin

text \<open>
  \<open>serde_json::Value\<close> as the bridge uses it: the JSON data model and the accessors \<open>get\<close>,
  \<open>as_str\<close>, \<open>as_bool\<close>, \<open>as_u64\<close>, \<open>as_i64\<close>, \<open>as_array\<close> and \<open>as_object\<close>. An object is a key-value list.
  Integral numbers carry their value (serde keeps those of \<open>i64\<close> and \<open>u64\<close>); any other number is kept as its
  literal text, which no modelled accessor reads. How a value is printed and parsed belongs to
  serde and is a parameter (\<open>serde\<close>) of the operations that need it.
\<close>

datatype json =
    JNull
  | JBool bool
  | JInt int
  | JFloat str
  | JString str
  | JArray "json list"
  | JObject "(str \<times> json) list"

definition json_get :: "json \<Rightarrow> str \<Rightarrow> json option" where
  "json_get v k = (case v of JObject kvs \<Rightarrow> map_of kvs k | _ \<Rightarrow> None)"

definition as_str :: "json \<Rightarrow> str option" where
  "as_str v = (case v of JString s \<Rightarrow> Some s | _ \<Rightarrow> None)"

definition as_bool :: "json \<Rightarrow> bool option" where
  "as_bool v = (case v of JBool b \<Rightarrow> Some b | _ \<Rightarrow> None)"

definition as_u64 :: "json \<Rightarrow> nat option" where
  "as_u64 v = (case v of JInt n \<Rightarrow> if 0 \<le> n \<and> n < 2 ^ 64 then Some (nat n) else None | _ \<Rightarrow> None)"

definition as_i64 :: "json \<Rightarrow> int option" where
  "as_i64 v =
     (case v of JInt n \<Rightarrow> if - (2 ^ 63) \<le> n \<and> n < 2 ^ 63 then Some n else None | _ \<Rightarrow> None)"

definition as_array :: "json \<Rightarrow> json list option" where
  "as_array v = (case v of JArray vs \<Rightarrow> Some vs | _ \<Rightarrow> None)"

definition as_object :: "json \<Rightarrow> (str \<times> json) list option" where
  "as_object v = (case v of JObject kvs \<Rightarrow> Some kvs | _ \<Rightarrow> None)"

text \<open>An \<open>Option\<close> is printed as its value or as \<open>null\<close>.\<close>

definition ser_option :: "('a \<Rightarrow> json) \<Rightarrow> 'a option \<Rightarrow> json" where
  "ser_option f x = (case x of None \<Rightarrow> JNull | Some y \<Rightarrow> f y)"

text \<open>\<open>Map::insert\<close>: replace the value of an existing key in place, otherwise add the key.\<close>

fun object_insert :: "str \<Rightarrow> json \<Rightarrow> (str \<times> json) list \<Rightarrow> (str \<times> json) list" where
  "object_insert k v [] = [(k, v)]"
| "object_insert k v ((k', v') # kvs) =
     (if k = k' then (k, v) # kvs else (k', v') # object_insert k v kvs)"

text \<open>Decimal notation of a natural number, as \<open>format!\<close> prints an unsigned integer.\<close>

fun show_nat :: "nat \<Rightarrow> str" where
  "show_nat n =
     (if n < 10 then [char_of (48 + n)] else show_nat (n div 10) @ [char_of (48 + n mod 10)])"

declare show_nat.simps [simp del]

text \<open>\<open>str::parse::<u64>()\<close>: an optional plus sign, then one or more ASCII digits, in range.\<close>

definition is_digit :: "char \<Rightarrow> bool" where
  "is_digit c = (48 \<le> byte c \<and> byte c \<le> 57)"

fun read_digits :: "nat \<Rightarrow> str \<Rightarrow> nat option" where
  "read_digits acc [] = Some acc"
| "read_digits acc (c # cs) =
     (if is_digit c then
        let acc' = acc * 10 + (byte c - 48)
        in if acc' < 2 ^ 64 then read_digits acc' cs else None
      else None)"

definition parse_u64 :: "str \<Rightarrow> nat option" where
  "parse_u64 s =
     (let ds = (case s of c # cs \<Rightarrow> if c = CHR ''+'' then cs else s | [] \<Rightarrow> s)
      in if ds = [] then None else read_digits 0 ds)"

lemma map_of_object_insert [simp]:
  "map_of (object_insert k v kvs) = (map_of kvs)(k \<mapsto> v)"
  by (induction kvs) auto

lemma read_digits_bound: "acc < 2 ^ 64 \<Longrightarrow> read_digits acc s = Some n \<Longrightarrow> n < 2 ^ 64"
  by (induction s arbitrary: acc) (auto simp: Let_def split: if_splits)

lemma read_digits_mono: "read_digits acc s = Some n \<Longrightarrow> acc \<le> n"
proof (induction s arbitrary: acc)
  case Nil
  then show ?case by simp
next
  case (Cons c s)
  then have "acc * 10 + (byte c - 48) \<le> n" by (auto simp: Let_def split: if_splits)
  then show ?case by simp
qed

lemma show_nat_nonempty [simp]: "show_nat n \<noteq> []"
  by (subst show_nat.simps) simp

lemma byte_digit: "d < 10 \<Longrightarrow> byte (char_of (48 + d)) = 48 + (d::nat)"
  by simp

lemma show_nat_digits: "c \<in> set (show_nat n) \<Longrightarrow> is_digit c"
proof (induction n rule: show_nat.induct)
  case (1 n)
  show ?case
  proof (cases "n < 10")
    case True
    with 1 show ?thesis by (simp add: show_nat.simps [of n] is_digit_def)
  next
    case False
    with 1 show ?thesis
      by (subst (asm) (2) show_nat.simps) (auto simp: is_digit_def byte_digit)
  qed
qed

lemma read_digits_append:
  "read_digits acc (s @ t) = (case read_digits acc s of None \<Rightarrow> None | Some a \<Rightarrow> read_digits a t)"
  by (induction s arbitrary: acc) (auto simp: Let_def)

lemma read_show_nat: "n < 2 ^ 64 \<Longrightarrow> read_digits 0 (show_nat n) = Some n"
proof (induction n rule: show_nat.induct)
  case (1 n)
  show ?case
  proof (cases "n < 10")
    case True
    then show ?thesis by (simp add: show_nat.simps [of n] is_digit_def)
  next
    case False
    then have "n div 10 < 2 ^ 64" using 1 by auto
    with 1 False have "read_digits 0 (show_nat (n div 10)) = Some (n div 10)" by simp
    moreover have "n div 10 * 10 + n mod 10 = n" by simp
    ultimately show ?thesis using 1 False
      by (subst show_nat.simps) (simp add: read_digits_append is_digit_def byte_digit Let_def)
  qed
qed

lemma foldl_show_nat: "foldl (\<lambda>a c. a * 10 + (byte c - 48)) 0 (show_nat n) = n"
proof (induction n rule: show_nat.induct)
  case (1 n)
  then show ?case by (cases "n < 10") (simp_all add: show_nat.simps [of n])
qed

lemma show_nat_inj [simp]: "show_nat m = show_nat n \<longleftrightarrow> m = n"
  by (metis foldl_show_nat)

lemma parse_show_nat: "n < 2 ^ 64 \<Longrightarrow> parse_u64 (show_nat n) = Some n"
proof -
  assume n: "n < 2 ^ 64"
  obtain c cs where s: "show_nat n = c # cs" by (meson neq_Nil_conv show_nat_nonempty)
  then have "is_digit c" using show_nat_digits [of c n] by simp
  then have "c \<noteq> CHR ''+''" by (auto simp: is_digit_def)
  then show ?thesis using read_show_nat [OF n] s by (simp add: parse_u64_def Let_def)
qed

end
