(* ===== verification/Resource_Limits.thy ===== *)
theory Resource_Limits
  imports Json
begin

text \<open>
  The crate \<open>services/rust-bridge/crates/core\<close>: the protocol constants, the resource limits,
  the bridge's error values, and \<open>truncate_utf8_bytes\<close> with the part of Rust's \<open>str\<close> it rests on
  (well-formed UTF-8 and character boundaries).
\<close>

section \<open>Constants\<close>

definition BRIDGE_PROTOCOL_VERSION :: nat where "BRIDGE_PROTOCOL_VERSION = 2"
definition NOTIFICATION_REPLAY_BUFFER_SIZE :: nat where "NOTIFICATION_REPLAY_BUFFER_SIZE = 2000"
definition QUEUE_MAX_CONTENT_BYTES :: nat where "QUEUE_MAX_CONTENT_BYTES = 64 * 1024"
definition QUEUE_MAX_ITEM_BYTES :: nat where "QUEUE_MAX_ITEM_BYTES = 256 * 1024"
definition PUSH_ID_MAX_BYTES :: nat where "PUSH_ID_MAX_BYTES = 128"
definition UI_SURFACE_MAX_BYTES :: nat where "UI_SURFACE_MAX_BYTES = 256 * 1024"
definition UI_SURFACE_MAX_BLOCKS :: nat where "UI_SURFACE_MAX_BLOCKS = 50"
definition UI_SURFACE_MAX_ACTIONS :: nat where "UI_SURFACE_MAX_ACTIONS = 20"
definition UI_SURFACE_MAX_ITEMS_PER_BLOCK :: nat where "UI_SURFACE_MAX_ITEMS_PER_BLOCK = 100"
definition UI_SURFACE_MAX_TEXT_BYTES :: nat where "UI_SURFACE_MAX_TEXT_BYTES = 64 * 1024"
definition NOTIFICATION_MAX_BYTES :: nat where "NOTIFICATION_MAX_BYTES = 256 * 1024"
definition REPLAY_MAX_BYTES :: nat where "REPLAY_MAX_BYTES = 16 * 1024 * 1024"
definition REPLAY_RESPONSE_MAX_BYTES :: nat where "REPLAY_RESPONSE_MAX_BYTES = 4 * 1024 * 1024"

lemmas limit_defs =
  BRIDGE_PROTOCOL_VERSION_def NOTIFICATION_REPLAY_BUFFER_SIZE_def QUEUE_MAX_CONTENT_BYTES_def
  QUEUE_MAX_ITEM_BYTES_def PUSH_ID_MAX_BYTES_def UI_SURFACE_MAX_BYTES_def
  UI_SURFACE_MAX_BLOCKS_def UI_SURFACE_MAX_ACTIONS_def UI_SURFACE_MAX_ITEMS_PER_BLOCK_def
  UI_SURFACE_MAX_TEXT_BYTES_def NOTIFICATION_MAX_BYTES_def REPLAY_MAX_BYTES_def
  REPLAY_RESPONSE_MAX_BYTES_def

section \<open>Error values\<close>

record bridge_error =
  code :: int
  message :: str
  data :: "json option"

definition method_not_found :: "str \<Rightarrow> bridge_error" where
  "method_not_found msg = \<lparr>code = -32601, message = msg, data = None\<rparr>"

definition invalid_params :: "str \<Rightarrow> bridge_error" where
  "invalid_params msg = \<lparr>code = -32602, message = msg, data = None\<rparr>"

definition resource_limit :: "str \<Rightarrow> nat \<Rightarrow> nat \<Rightarrow> bridge_error" where
  "resource_limit resource limit actual =
     \<lparr>code = -32602,
      message = resource @ '' exceeds limit of '' @ show_nat limit,
      data = Some (JObject
        [(''error'', JString ''resource_limit_exceeded''),
         (''resource'', JString resource),
         (''limit'', JInt (int limit)),
         (''actual'', JInt (int actual))])\<rparr>"

definition server_error :: "str \<Rightarrow> bridge_error" where
  "server_error msg = \<lparr>code = -32000, message = msg, data = None\<rparr>"

definition forbidden :: "str \<Rightarrow> str \<Rightarrow> bridge_error" where
  "forbidden err msg =
     \<lparr>code = -32003, message = msg, data = Some (JObject [(''error'', JString err)])\<rparr>"

section \<open>UTF-8\<close>

definition is_cont :: "char \<Rightarrow> bool" where
  "is_cont c = (0x80 \<le> byte c \<and> byte c \<le> 0xBF)"

text \<open>
  The table of well-formed UTF-8 sequences that \<open>core::str::from_utf8\<close> accepts, for two, three
  and four bytes; \<open>utf8_head\<close> is the byte length of the well-formed character at the front of a
  byte string, 0 for none.
\<close>

definition utf8_two :: "char \<Rightarrow> char \<Rightarrow> bool" where
  "utf8_two a b = (0xC2 \<le> byte a \<and> byte a \<le> 0xDF \<and> is_cont b)"

definition utf8_three :: "char \<Rightarrow> char \<Rightarrow> char \<Rightarrow> bool" where
  "utf8_three a b c =
     ((byte a = 0xE0 \<and> 0xA0 \<le> byte b \<or> 0xE1 \<le> byte a \<and> byte a \<le> 0xEC
       \<or> byte a = 0xED \<and> byte b \<le> 0x9F \<or> 0xEE \<le> byte a \<and> byte a \<le> 0xEF)
      \<and> is_cont b \<and> is_cont c)"

definition utf8_four :: "char \<Rightarrow> char \<Rightarrow> char \<Rightarrow> char \<Rightarrow> bool" where
  "utf8_four a b c d =
     ((byte a = 0xF0 \<and> 0x90 \<le> byte b \<or> 0xF1 \<le> byte a \<and> byte a \<le> 0xF3
       \<or> byte a = 0xF4 \<and> byte b \<le> 0x8F)
      \<and> is_cont b \<and> is_cont c \<and> is_cont d)"

fun utf8_head :: "str \<Rightarrow> nat" where
  "utf8_head [] = 0"
| "utf8_head [a] = (if byte a < 0x80 then 1 else 0)"
| "utf8_head [a, b] = (if byte a < 0x80 then 1 else if utf8_two a b then 2 else 0)"
| "utf8_head [a, b, c] =
     (if byte a < 0x80 then 1 else if utf8_two a b then 2 else if utf8_three a b c then 3 else 0)"
| "utf8_head (a # b # c # d # _) =
     (if byte a < 0x80 then 1 else if utf8_two a b then 2 else if utf8_three a b c then 3
      else if utf8_four a b c d then 4 else 0)"

function utf8_valid :: "str \<Rightarrow> bool" where
  "utf8_valid s =
     (if s = [] then True else if utf8_head s = 0 then False
      else utf8_valid (drop (utf8_head s) s))"
  by pat_completeness auto
termination
  by (relation "measure length") auto

declare utf8_valid.simps [simp del]

definition is_char_boundary :: "str \<Rightarrow> nat \<Rightarrow> bool" where
  "is_char_boundary s i =
     (i = 0 \<or> (if i < length s then \<not> is_cont (s ! i) else i = length s))"

section \<open>Truncation at a character boundary\<close>

fun back_to_boundary :: "str \<Rightarrow> nat \<Rightarrow> nat" where
  "back_to_boundary s 0 = 0"
| "back_to_boundary s (Suc n) =
     (if is_char_boundary s (Suc n) then Suc n else back_to_boundary s n)"

definition truncate_utf8_bytes :: "str \<Rightarrow> nat \<Rightarrow> str \<times> bool" where
  "truncate_utf8_bytes v max_bytes =
     (if length v \<le> max_bytes then (v, False)
      else (take (back_to_boundary v (min max_bytes (length v))) v, True))"

section \<open>Lemmas\<close>

lemma utf8_head_le: "utf8_head s \<le> length s"
  by (cases s rule: utf8_head.cases) auto

lemma utf8_head_small: "utf8_head s \<le> 4"
  by (cases s rule: utf8_head.cases) auto

lemma utf8_head_take: "utf8_head s \<noteq> 0 \<Longrightarrow> utf8_head s \<le> k \<Longrightarrow> utf8_head (take k s) = utf8_head s"
proof (cases s rule: utf8_head.cases)
  case (5 a b c d t)
  assume h: "utf8_head s \<noteq> 0" "utf8_head s \<le> k"
  consider "k = 0" | "k = 1" | "k = 2" | "k = 3" | "4 \<le> k" by linarith
  then show ?thesis
  proof cases
    case 5
    then have "take k s = a # b # c # d # take (k - 4) t"
      using \<open>s = a # b # c # d # t\<close> by (simp add: take_Cons' eval_nat_numeral)
    with \<open>s = a # b # c # d # t\<close> show ?thesis by simp
  qed (use h \<open>s = a # b # c # d # t\<close> in \<open>auto simp: take_Cons' split: if_splits\<close>)
qed (auto simp: take_Cons split: nat.splits if_splits)

lemma utf8_head_cont: "0 < i \<Longrightarrow> i < utf8_head s \<Longrightarrow> is_cont (s ! i)"
  by (cases s rule: utf8_head.cases)
     (auto simp: nth_Cons utf8_two_def utf8_three_def utf8_four_def split: if_splits nat.splits)

lemma utf8_valid_Nil [simp]: "utf8_valid []"
  by (simp add: utf8_valid.simps)

lemma is_char_boundary_drop:
  "0 < n \<Longrightarrow> n \<le> k \<Longrightarrow> is_char_boundary s k \<Longrightarrow> is_char_boundary (drop n s) (k - n)"
  by (auto simp: is_char_boundary_def split: if_splits)

lemma utf8_valid_take:
  "utf8_valid s \<Longrightarrow> is_char_boundary s k \<Longrightarrow> utf8_valid (take k s)"
proof (induction s arbitrary: k rule: utf8_valid.induct)
  case (1 s)
  let ?n = "utf8_head s"
  show ?case
  proof (cases "s = [] \<or> k = 0")
    case False
    then have n: "?n \<noteq> 0" and rest: "utf8_valid (drop ?n s)"
      using "1.prems"(1) by (auto simp: utf8_valid.simps [of s] split: if_splits)
    have "k \<le> length s" using "1.prems"(2) False by (auto simp: is_char_boundary_def split: if_splits)
    then have k: "?n \<le> k"
      using "1.prems"(2) False utf8_head_cont [of k s] utf8_head_le [of s]
      by (cases "?n \<le> k") (auto simp: is_char_boundary_def split: if_splits)
    have "utf8_valid (take (k - ?n) (drop ?n s))"
      using "1.IH" [of "k - ?n"] False n rest is_char_boundary_drop [of ?n k s] k "1.prems"(2) by simp
    then show ?thesis
      using n k utf8_head_take [OF n k] by (subst utf8_valid.simps) (simp add: drop_take)
  qed auto
qed

lemma back_to_boundary_le: "back_to_boundary s n \<le> n"
  by (induction n) auto

lemma back_to_boundary_boundary: "is_char_boundary s (back_to_boundary s n)"
  by (induction n) (auto simp: is_char_boundary_def)

lemma back_to_boundary_max: "k \<le> n \<Longrightarrow> is_char_boundary s k \<Longrightarrow> k \<le> back_to_boundary s n"
  by (induction n) (auto simp: le_Suc_eq)

lemma length_truncate_utf8_bytes: "length (fst (truncate_utf8_bytes v n)) \<le> n"
  using back_to_boundary_le [of v "min n (length v)"]
  by (auto simp: truncate_utf8_bytes_def)

section \<open>Properties\<close>

text \<open>
  \<open>truncate_utf8_bytes\<close> on a Rust string gives a prefix that is again well-formed UTF-8 and
  within the budget, reports a cut exactly when the string was too long, and cuts no more than it
  must: no longer character boundary fits the budget.
\<close>

theorem truncate_utf8_bytes_longest_valid_prefix:
  assumes "utf8_valid v" "truncate_utf8_bytes v n = (t, was_cut)"
  shows "utf8_valid t \<and> length t \<le> n \<and> (\<exists>u. v = t @ u) \<and> (was_cut \<longleftrightarrow> n < length v)
    \<and> (\<forall>k\<le>n. is_char_boundary v k \<longrightarrow> k \<le> length t)"
proof (cases "length v \<le> n")
  case True
  then have "t = v" "\<not> was_cut" using assms(2) by (auto simp: truncate_utf8_bytes_def)
  with True assms(1) show ?thesis by (auto simp: is_char_boundary_def split: if_splits)
next
  case False
  let ?b = "back_to_boundary v n"
  have t: "t = take ?b v" "was_cut" using False assms(2) by (auto simp: truncate_utf8_bytes_def min_def)
  have "?b \<le> n" by (rule back_to_boundary_le)
  moreover have "\<exists>u. v = t @ u" using t by (metis append_take_drop_id)
  moreover have "utf8_valid t"
    unfolding t by (rule utf8_valid_take [OF assms(1) back_to_boundary_boundary])
  ultimately show ?thesis using t False back_to_boundary_max by simp
qed

theorem truncate_utf8_bytes_longest_valid_prefix_witness:
  "let v = ''a'' @ [char_of (0xC3::nat), char_of (0xA9::nat)] @ ''z'' in
   utf8_valid v \<and> truncate_utf8_bytes v 2 = (''a'', True) \<and> utf8_valid ''a''"
proof -
  let ?v = "''a'' @ [char_of (0xC3::nat), char_of (0xA9::nat)] @ ''z''"
  have "utf8_valid ?v" by code_simp
  moreover have "truncate_utf8_bytes ?v 2 = (''a'', True)" by code_simp
  ultimately show ?thesis
    using truncate_utf8_bytes_longest_valid_prefix [of ?v 2 "''a''" True] by (simp add: Let_def)
qed

end
