(* ===== verification/Replay.thy ===== *)
theory Replay
  imports Resource_Limits
begin

text \<open>
  \<open>services/rust-bridge/src/replay.rs\<close>: the bounded buffer of published notifications from which
  a reconnecting client catches up. The payload is the serialized text; parsing it back is the
  parameter \<open>from_str\<close> (serde). A panic (\<open>unreachable!\<close>, \<open>expect\<close>) is the value \<open>None\<close>.
  The two counters are atomic 64-bit integers and wrap around.
\<close>

datatype message = Text str | Binary str

record replayable_notification =
  event_id :: nat
  payload :: message
  bytes :: nat

record notification_replay =
  capacity :: nat
  max_bytes :: nat
  entries :: "replayable_notification list"
  dropped_oversize :: nat
  evicted :: nat

record replay_status =
  st_capacity :: nat
  st_max_bytes :: nat
  st_entries :: nat
  st_bytes :: nat
  st_earliest_event_id :: "nat option"
  st_latest_event_id :: "nat option"
  st_dropped_oversize :: nat
  st_evicted :: nat
  st_client_queue_drops :: nat

definition replay_new :: "nat \<Rightarrow> nat \<Rightarrow> notification_replay" where
  "replay_new cap mx =
     \<lparr>capacity = cap, max_bytes = mx, entries = [], dropped_oversize = 0, evicted = 0\<rparr>"

definition total_bytes :: "replayable_notification list \<Rightarrow> nat" where
  "total_bytes es = sum_list (map bytes es)"

text \<open>
  The eviction loop. \<open>None\<close> is the panic of \<open>expect\<close> when the buffer is empty; \<open>tot\<close> is the
  running \<open>total_bytes\<close> of the source, \<open>n\<close> the counter \<open>evicted\<close>.
\<close>

fun evict_loop ::
  "nat \<Rightarrow> nat \<Rightarrow> replayable_notification list \<Rightarrow> nat \<Rightarrow> nat
     \<Rightarrow> (replayable_notification list \<times> nat) option" where
  "evict_loop cap mx [] tot n = (if mx < tot then None else Some ([], n))"
| "evict_loop cap mx (e # es) tot n =
     (if cap < length (e # es) \<or> mx < tot
      then evict_loop cap mx es (tot - bytes e) (fetch_inc n)
      else Some (e # es, n))"

definition replay_push ::
  "notification_replay \<Rightarrow> nat \<Rightarrow> message \<Rightarrow> nat \<Rightarrow> notification_replay option" where
  "replay_push r eid msg n =
     (if capacity r = 0 \<or> max_bytes r < n
      then Some (r\<lparr>dropped_oversize := fetch_inc (dropped_oversize r)\<rparr>)
      else
        let es = entries r @ [\<lparr>event_id = eid, payload = msg, bytes = n\<rparr>] in
        (case evict_loop (capacity r) (max_bytes r) es (total_bytes es) (evicted r) of
           None \<Rightarrow> None
         | Some (es', ev) \<Rightarrow> Some (r\<lparr>entries := es', evicted := ev\<rparr>)))"

text \<open>
  The loop of \<open>since\<close>: \<open>acc\<close> the events so far, \<open>rb\<close> the response bytes so far. \<open>None\<close> is a panic:
  a payload that is not text, or text that does not parse.
\<close>

fun since_loop ::
  "(str \<Rightarrow> 'v option) \<Rightarrow> nat \<Rightarrow> nat \<Rightarrow> nat \<Rightarrow> replayable_notification list \<Rightarrow> 'v list \<Rightarrow> nat
     \<Rightarrow> ('v list \<times> bool \<times> nat) option" where
  "since_loop from_str after limit mx [] acc rb = Some (acc, False, rb)"
| "since_loop from_str after limit mx (e # es) acc rb =
     (if event_id e \<le> after then since_loop from_str after limit mx es acc rb
      else if limit \<le> length acc \<or> mx < sat_add rb (bytes e) then Some (acc, True, rb)
      else (case payload e of
              Binary _ \<Rightarrow> None
            | Text t \<Rightarrow>
                (case from_str t of
                   None \<Rightarrow> None
                 | Some v \<Rightarrow> since_loop from_str after limit mx es (acc @ [v]) (rb + bytes e))))"

definition replay_since ::
  "(str \<Rightarrow> 'v option) \<Rightarrow> notification_replay \<Rightarrow> nat option \<Rightarrow> nat \<Rightarrow> nat
     \<Rightarrow> ('v list \<times> bool \<times> nat) option" where
  "replay_since from_str r after_event_id limit mx =
     since_loop from_str (case after_event_id of None \<Rightarrow> 0 | Some a \<Rightarrow> a) limit mx (entries r) [] 0"

definition earliest_event_id :: "notification_replay \<Rightarrow> nat option" where
  "earliest_event_id r = (case entries r of [] \<Rightarrow> None | e # _ \<Rightarrow> Some (event_id e))"

definition latest_entry_id :: "notification_replay \<Rightarrow> nat option" where
  "latest_entry_id r = (if entries r = [] then None else Some (event_id (last (entries r))))"

definition status :: "notification_replay \<Rightarrow> nat \<Rightarrow> replay_status" where
  "status r drops =
     \<lparr>st_capacity = capacity r, st_max_bytes = max_bytes r, st_entries = length (entries r),
      st_bytes = total_bytes (entries r), st_earliest_event_id = earliest_event_id r,
      st_latest_event_id = latest_entry_id r, st_dropped_oversize = dropped_oversize r,
      st_evicted = evicted r, st_client_queue_drops = drops\<rparr>"

section \<open>The bounds of the buffer\<close>

definition within_budget :: "notification_replay \<Rightarrow> bool" where
  "within_budget r = (length (entries r) \<le> capacity r \<and> total_bytes (entries r) \<le> max_bytes r)"

lemma total_bytes_simps [simp]:
  "total_bytes [] = 0" "total_bytes (e # es) = bytes e + total_bytes es"
  "total_bytes (es @ fs) = total_bytes es + total_bytes fs"
  by (simp_all add: total_bytes_def)

text \<open>The loop never panics, and drops the shortest front that restores the bounds.\<close>

lemma evict_loop_spec:
  "\<exists>k n'. evict_loop cap mx es (total_bytes es) n = Some (drop k es, n') \<and> k \<le> length es
     \<and> length (drop k es) \<le> cap \<and> total_bytes (drop k es) \<le> mx
     \<and> (\<forall>j<k. cap < length (drop j es) \<or> mx < total_bytes (drop j es))"
proof (induction es arbitrary: n)
  case Nil
  then show ?case by simp
next
  case (Cons e es)
  show ?case
  proof (cases "cap < length (e # es) \<or> mx < total_bytes (e # es)")
    case True
    from Cons [of "fetch_inc n"] obtain k n' where k:
      "evict_loop cap mx es (total_bytes es) (fetch_inc n) = Some (drop k es, n')" "k \<le> length es"
      "length (drop k es) \<le> cap" "total_bytes (drop k es) \<le> mx"
      "\<forall>j<k. cap < length (drop j es) \<or> mx < total_bytes (drop j es)" by blast
    have "\<forall>j<Suc k. cap < length (drop j (e # es)) \<or> mx < total_bytes (drop j (e # es))"
      using True k(5) by (auto simp: less_Suc_eq_0_disj)
    with True k(1-4) show ?thesis by (intro exI [of _ "Suc k"] exI [of _ n']) auto
  next
    case False
    then show ?thesis by (intro exI [of _ 0] exI [of _ n]) auto
  qed
qed

lemma replay_push_entries:
  fixes eid :: nat and msg :: message
  assumes "capacity r \<noteq> 0" "n \<le> max_bytes r"
  defines "es \<equiv> entries r @ [\<lparr>event_id = eid, payload = msg, bytes = n\<rparr>]"
  obtains r' k where "replay_push r eid msg n = Some r'" "entries r' = drop k es" "k \<le> length (entries r)"
    "capacity r' = capacity r" "max_bytes r' = max_bytes r" "within_budget r'"
    "dropped_oversize r' = dropped_oversize r"
    "\<forall>j<k. capacity r < length (drop j es) \<or> max_bytes r < total_bytes (drop j es)"
proof -
  obtain k n' where k: "evict_loop (capacity r) (max_bytes r) es (total_bytes es) (evicted r)
      = Some (drop k es, n')" "k \<le> length es" "length (drop k es) \<le> capacity r"
      "total_bytes (drop k es) \<le> max_bytes r"
      "\<forall>j<k. capacity r < length (drop j es) \<or> max_bytes r < total_bytes (drop j es)"
    using evict_loop_spec [of "capacity r" "max_bytes r" es "evicted r"] by blast
  have newest: "k \<le> length (entries r)"
  proof (rule ccontr)
    assume "\<not> k \<le> length (entries r)"
    then have "capacity r < length (drop (length (entries r)) es)
      \<or> max_bytes r < total_bytes (drop (length (entries r)) es)"
      using k(5) by (meson not_less)
    then show False using assms(1,2) by (simp add: es_def)
  qed
  show ?thesis
    by (rule that [of "r\<lparr>entries := drop k es, evicted := n'\<rparr>" k])
       (use assms k newest in \<open>auto simp: replay_push_def Let_def within_budget_def\<close>)
qed

lemma replay_push_total: "\<exists>r'. replay_push r eid msg n = Some r'"
proof (cases "capacity r = 0 \<or> max_bytes r < n")
  case True
  then show ?thesis by (simp add: replay_push_def)
next
  case False
  then show ?thesis using replay_push_entries [of r n eid msg] by (metis not_less)
qed

lemma replay_push_params:
  "replay_push r eid msg n = Some r' \<Longrightarrow> capacity r' = capacity r \<and> max_bytes r' = max_bytes r"
  by (auto simp: replay_push_def Let_def split: if_splits option.splits)

lemma replay_push_dropped:
  "capacity r = 0 \<or> max_bytes r < n \<Longrightarrow> replay_push r eid msg n = Some r' \<Longrightarrow> entries r' = entries r"
  by (auto simp: replay_push_def)

lemma replay_push_within_budget:
  assumes "within_budget r" "replay_push r eid msg n = Some r'"
  shows "within_budget r'"
proof (cases "capacity r = 0 \<or> max_bytes r < n")
  case True
  then show ?thesis using assms by (auto simp: replay_push_def within_budget_def)
next
  case False
  then show ?thesis using replay_push_entries [of r n eid msg] assms(2)
    by (metis not_less option.inject)
qed

section \<open>Reading back\<close>

text \<open>What a page should be: the longest run of newer entries within the limits.\<close>

definition newer :: "nat \<Rightarrow> replayable_notification list \<Rightarrow> replayable_notification list" where
  "newer after es = filter (\<lambda>e. after < event_id e) es"

fun page :: "nat \<Rightarrow> nat \<Rightarrow> replayable_notification list \<Rightarrow> replayable_notification list" where
  "page limit mx [] = []"
| "page limit mx (e # es) =
     (if limit = 0 \<or> mx < bytes e then [] else e # page (limit - 1) (mx - bytes e) es)"

definition readable :: "(str \<Rightarrow> 'v option) \<Rightarrow> (replayable_notification \<Rightarrow> 'v) \<Rightarrow>
    replayable_notification list \<Rightarrow> bool" where
  "readable from_str val es =
     (\<forall>e\<in>set es. \<exists>t. payload e = Text t \<and> from_str t = Some (val e))"

lemma newer_simps [simp]:
  "newer after [] = []"
  "newer after (e # es) = (if after < event_id e then e # newer after es else newer after es)"
  by (simp_all add: newer_def)

lemma page_take: "page limit mx es = take (length (page limit mx es)) es"
  by (induction limit mx es rule: page.induct) auto

lemma page_limits:
  "length (page limit mx es) \<le> limit" "total_bytes (page limit mx es) \<le> mx"
  by (induction limit mx es rule: page.induct) auto

lemma page_maximal:
  assumes "length (page limit mx es) < length es"
  shows "length (page limit mx es) = limit
    \<or> mx < total_bytes (take (Suc (length (page limit mx es))) es)"
  using assms by (induction limit mx es rule: page.induct) auto

lemma since_loop_page:
  assumes "readable from_str val (newer after es)" "total_bytes es + rb \<le> usize_max"
    "length acc \<le> limit" "rb \<le> mx"
  shows "since_loop from_str after limit mx es acc rb =
    (let p = page (limit - length acc) (mx - rb) (newer after es)
     in Some (acc @ map val p, length p < length (newer after es), rb + total_bytes p))"
  using assms
proof (induction es arbitrary: acc rb)
  case Nil
  then show ?case by simp
next
  case (Cons e es)
  show ?case
  proof (cases "after < event_id e")
    case False
    then show ?thesis using Cons by simp
  next
    case newer_e: True
    obtain t where t: "payload e = Text t" "from_str t = Some (val e)"
      using Cons.prems(1) newer_e by (auto simp: readable_def)
    have sat: "sat_add rb (bytes e) = rb + bytes e"
      using Cons.prems(2) by (intro sat_add_exact) simp
    show ?thesis
    proof (cases "limit \<le> length acc \<or> mx < rb + bytes e")
      case True
      then have "page (limit - length acc) (mx - rb) (newer after (e # es)) = []"
        using newer_e Cons.prems by auto
      then show ?thesis using newer_e True sat by auto
    next
      case False
      have r: "readable from_str val (newer after es)"
        using Cons.prems(1) newer_e by (auto simp: readable_def)
      have IH: "since_loop from_str after limit mx es (acc @ [val e]) (rb + bytes e) =
        (let p = page (limit - length (acc @ [val e])) (mx - (rb + bytes e)) (newer after es)
         in Some ((acc @ [val e]) @ map val p, length p < length (newer after es),
              rb + bytes e + total_bytes p))"
        using Cons.IH [OF r, of "rb + bytes e" "acc @ [val e]"] Cons.prems False by simp
      show ?thesis using newer_e False sat t IH by (auto simp: Let_def)
    qed
  qed
qed

section \<open>Properties\<close>

text \<open>
  C5: storing a notification never panics and keeps the buffer within its two budgets; it is
  dropped only if it can never fit, and otherwise the newest notification is always kept and no
  older one is evicted unless the buffer would still be over a budget with it.
\<close>

theorem replay_push_bounded_and_minimal:
  assumes "within_budget r"
  shows "\<exists>r'. replay_push r eid msg n = Some r' \<and> within_budget r' \<and>
    (if capacity r = 0 \<or> max_bytes r < n then entries r' = entries r
     else \<exists>k\<le>length (entries r).
       let es = entries r @ [\<lparr>event_id = eid, payload = msg, bytes = n\<rparr>] in
       entries r' = drop k es
       \<and> (\<forall>j<k. capacity r < length (drop j es) \<or> max_bytes r < total_bytes (drop j es)))"
proof (cases "capacity r = 0 \<or> max_bytes r < n")
  case True
  then show ?thesis
    using replay_push_total [of r eid msg n] replay_push_within_budget [OF assms]
      replay_push_dropped by metis
next
  case False
  then have "capacity r \<noteq> 0" "n \<le> max_bytes r" by auto
  from replay_push_entries [OF this, of eid msg] obtain r' k where k:
    "replay_push r eid msg n = Some r'" "within_budget r'" "k \<le> length (entries r)"
    "entries r' = drop k (entries r @ [\<lparr>event_id = eid, payload = msg, bytes = n\<rparr>])"
    "\<forall>j<k. capacity r < length (drop j (entries r @ [\<lparr>event_id = eid, payload = msg, bytes = n\<rparr>]))
       \<or> max_bytes r < total_bytes (drop j (entries r @ [\<lparr>event_id = eid, payload = msg, bytes = n\<rparr>]))"
    by metis
  then show ?thesis
    unfolding Let_def if_not_P [OF False] by (intro exI [of _ r'] conjI exI [of _ k]) simp_all
qed

theorem replay_push_bounded_and_minimal_witness:
  "let r = (replay_new 10 10)\<lparr>entries := [\<lparr>event_id = 1, payload = Text ''a'', bytes = 6\<rparr>,
              \<lparr>event_id = 2, payload = Text ''b'', bytes = 4\<rparr>]\<rparr> in
   within_budget r \<and> (\<exists>r'. replay_push r 3 (Text ''c'') 1 = Some r' \<and> within_budget r'
     \<and> map event_id (entries r') = [2, 3])"
proof -
  let ?r = "(replay_new 10 10)\<lparr>entries := [\<lparr>event_id = 1, payload = Text ''a'', bytes = 6\<rparr>,
              \<lparr>event_id = 2, payload = Text ''b'', bytes = 4\<rparr>]\<rparr>"
  have b: "within_budget ?r" by code_simp
  have "map_option (\<lambda>r. map event_id (entries r)) (replay_push ?r 3 (Text ''c'') 1) = Some [2, 3]"
    by (simp add: replay_push_def replay_new_def)
  moreover have "\<exists>r'. replay_push ?r 3 (Text ''c'') 1 = Some r' \<and> within_budget r'"
    using replay_push_bounded_and_minimal [OF b, of 3 "Text ''c''" 1] by metis
  ultimately show ?thesis unfolding Let_def using b by (metis option.simps(9) option.inject)
qed

text \<open>
  A page of the replay is the longest run of the entries newer than the cursor that respects
  the entry limit and the byte limit, in order, and \<open>has_more\<close> says whether an entry is left.
\<close>

theorem replay_since_is_longest_page:
  assumes "readable from_str val (newer (case after of None \<Rightarrow> 0 | Some a \<Rightarrow> a) (entries r))"
    and "total_bytes (entries r) \<le> usize_max"
  shows "let todo = newer (case after of None \<Rightarrow> 0 | Some a \<Rightarrow> a) (entries r) in
    \<exists>k\<le>length todo. replay_since from_str r after limit mx
        = Some (map val (take k todo), k < length todo, total_bytes (take k todo))
      \<and> k \<le> limit \<and> total_bytes (take k todo) \<le> mx
      \<and> (k < length todo \<longrightarrow> k = limit \<or> mx < total_bytes (take (Suc k) todo))"
proof -
  let ?todo = "newer (case after of None \<Rightarrow> 0 | Some a \<Rightarrow> a) (entries r)"
  let ?p = "page limit mx ?todo"
  have p: "take (length ?p) ?todo = ?p" by (rule page_take [symmetric])
  have "length ?p \<le> length ?todo" by (metis length_take min.cobounded1 p)
  moreover have "replay_since from_str r after limit mx
      = Some (map val ?p, length ?p < length ?todo, total_bytes ?p)"
    using since_loop_page [OF assms(1), of 0 "[]" limit mx] assms(2)
    by (simp add: replay_since_def Let_def)
  ultimately show ?thesis
    using page_limits [of limit mx ?todo] page_maximal [of limit mx ?todo]
    by (auto simp: Let_def p intro!: exI [of _ "length ?p"])
qed

theorem replay_since_is_longest_page_witness:
  "let r = (replay_new 3 100)\<lparr>entries := map (\<lambda>i. \<lparr>event_id = i, payload = Text [char_of i], bytes = 2\<rparr>)
              [1, 2, 3]\<rparr>;
       todo = newer 1 (entries r)
   in length todo = 2 \<and> (\<exists>k\<le>length todo. replay_since Some r (Some 1) 1 100
        = Some (map (\<lambda>e. [char_of (event_id e)]) (take k todo), k < length todo, total_bytes (take k todo))
      \<and> k \<le> 1)"
proof -
  let ?r = "(replay_new 3 100)\<lparr>entries := map (\<lambda>i. \<lparr>event_id = i, payload = Text [char_of i], bytes = 2\<rparr>)
              [1, 2, 3]\<rparr>"
  let ?val = "\<lambda>e. [char_of (event_id e)] :: str"
  have "readable Some ?val (newer (case Some 1 of None \<Rightarrow> 0 | Some a \<Rightarrow> a) (entries ?r))"
    by (simp add: readable_def replay_new_def)
  moreover have "total_bytes (entries ?r) \<le> usize_max" by (simp add: replay_new_def usize_max_def)
  moreover have "length (newer 1 (entries ?r)) = 2" by (simp add: replay_new_def)
  ultimately show ?thesis
    using replay_since_is_longest_page [of Some ?val "Some 1" ?r 1 100]
    unfolding Let_def option.case by blast
qed

end
