(* ===== verification/Client_Outbox.thy ===== *)
theory Client_Outbox
  imports Replay
begin

text \<open>
  \<open>services/rust-bridge/src/client_outbox.rs\<close>: the bounded queue of messages to one WebSocket
  client, with a cancellation token that refuses every message after a disconnect. The channel
  is tokio's \<open>mpsc\<close>: a parameter (\<open>mpsc\<close>) with the documented laws of a bounded queue as the
  locale \<open>bounded_channel\<close>. All clones of an outbox share one channel and one token, so an outbox
  is one value of the state and its operations return it updated.
\<close>

datatype try_send_error = Full message | Closed message

record 'c mpsc =
  mpsc_channel :: "nat \<Rightarrow> 'c"
  mpsc_try_send :: "'c \<Rightarrow> message \<Rightarrow> (try_send_error + unit) \<times> 'c"
  mpsc_recv :: "'c \<Rightarrow> message option \<times> 'c"

text \<open>
  \<open>queued\<close> is the abstract content of a channel, \<open>room\<close> whether it accepts a message now and
  \<open>receiver_dropped\<close> whether its receiver is gone.
\<close>

locale bounded_channel =
  fixes M :: "'c mpsc"
    and queued :: "'c \<Rightarrow> message list"
    and size_of :: "'c \<Rightarrow> nat"
    and receiver_dropped :: "'c \<Rightarrow> bool"
  assumes queued_new: "queued (mpsc_channel M n) = []"
    and size_new: "size_of (mpsc_channel M n) = n"
    and open_new: "\<not> receiver_dropped (mpsc_channel M n)"
    and send_closed: "receiver_dropped c \<Longrightarrow> mpsc_try_send M c m = (Err (Closed m), c)"
    and send_full: "\<not> receiver_dropped c \<Longrightarrow> size_of c \<le> length (queued c) \<Longrightarrow>
       mpsc_try_send M c m = (Err (Full m), c)"
    and send_ok: "\<not> receiver_dropped c \<Longrightarrow> length (queued c) < size_of c \<Longrightarrow>
       \<exists>c'. mpsc_try_send M c m = (Ok (), c') \<and> queued c' = queued c @ [m]
         \<and> size_of c' = size_of c \<and> \<not> receiver_dropped c'"
    and recv_empty: "queued c = [] \<Longrightarrow> fst (mpsc_recv M c) = None"
    and recv_head: "queued c = m # ms \<Longrightarrow>
       \<exists>c'. mpsc_recv M c = (Some m, c') \<and> queued c' = ms \<and> size_of c' = size_of c
         \<and> receiver_dropped c' = receiver_dropped c"

record 'c client_outbox =
  sender :: 'c
  cancellation :: bool

definition client_outbox :: "'c mpsc \<Rightarrow> nat \<Rightarrow> 'c client_outbox" where
  "client_outbox M cap = \<lparr>sender = mpsc_channel M cap, cancellation = False\<rparr>"

definition outbox_try_send ::
  "'c mpsc \<Rightarrow> 'c client_outbox \<Rightarrow> message \<Rightarrow> (try_send_error + unit) \<times> 'c client_outbox" where
  "outbox_try_send M out m =
     (if cancellation out then (Err (Closed m), out)
      else case mpsc_try_send M (sender out) m of (r, c) \<Rightarrow> (r, out\<lparr>sender := c\<rparr>))"

text \<open>
  One poll of the future \<open>send\<close>: \<open>None\<close> while it waits for room. The \<open>select!\<close> is biased, so a
  cancellation wins over a permit.
\<close>

definition outbox_poll_send ::
  "'c mpsc \<Rightarrow> 'c client_outbox \<Rightarrow> message \<Rightarrow> (unit + unit) option \<times> 'c client_outbox" where
  "outbox_poll_send M out m =
     (if cancellation out then (Some (Err ()), out)
      else case mpsc_try_send M (sender out) m of
             (Inr _, c) \<Rightarrow> (Some (Ok ()), out\<lparr>sender := c\<rparr>)
           | (Inl (Closed _), _) \<Rightarrow> (Some (Err ()), out)
           | (Inl (Full _), _) \<Rightarrow> (None, out))"

text \<open>
  \<open>timeout(d, outbox.send(m))\<close>: \<open>others\<close> lists what the other tasks do to the outbox between two
  polls; when it is used up, the time is over (\<open>None\<close>).
\<close>

fun outbox_send_timeout ::
  "'c mpsc \<Rightarrow> ('c client_outbox \<Rightarrow> 'c client_outbox) list \<Rightarrow> 'c client_outbox \<Rightarrow> message
     \<Rightarrow> (unit + unit) option \<times> 'c client_outbox" where
  "outbox_send_timeout M [] out m = outbox_poll_send M out m"
| "outbox_send_timeout M (w # ws) out m =
     (case outbox_poll_send M out m of
        (Some r, out') \<Rightarrow> (Some r, out')
      | (None, out') \<Rightarrow> outbox_send_timeout M ws (w out') m)"

definition outbox_disconnect :: "'c client_outbox \<Rightarrow> 'c client_outbox" where
  "outbox_disconnect out = out\<lparr>cancellation := True\<rparr>"

definition outbox_recv :: "'c mpsc \<Rightarrow> 'c client_outbox \<Rightarrow> message option \<times> 'c client_outbox" where
  "outbox_recv M out = (case mpsc_recv M (sender out) of (r, c) \<Rightarrow> (r, out\<lparr>sender := c\<rparr>))"

section \<open>Lemmas\<close>

lemma outbox_cancelled_rejects:
  "cancellation out \<Longrightarrow> outbox_try_send M out m = (Err (Closed m), out)"
  "cancellation out \<Longrightarrow> outbox_send_timeout M ws out m = (Some (Err ()), out)"
  by (cases ws; simp add: outbox_try_send_def outbox_poll_send_def)+

context bounded_channel
begin

lemma try_send_cases:
  obtains (closed) "receiver_dropped c" "mpsc_try_send M c m = (Err (Closed m), c)"
  | (full) "\<not> receiver_dropped c" "mpsc_try_send M c m = (Err (Full m), c)"
      "size_of c \<le> length (queued c)"
  | (sent) c' where "mpsc_try_send M c m = (Ok (), c')" "queued c' = queued c @ [m]"
      "size_of c' = size_of c" "length (queued c) < size_of c" "\<not> receiver_dropped c"
  by (metis send_closed send_full send_ok not_less)

lemma outbox_bounded:
  assumes "length (queued (sender out)) \<le> size_of (sender out)"
    "outbox_try_send M out m = (r, out')"
  shows "length (queued (sender out')) \<le> size_of (sender out')
    \<and> size_of (sender out') = size_of (sender out)"
proof (cases "cancellation out")
  case True
  with assms show ?thesis by (simp add: outbox_try_send_def)
next
  case False
  with assms show ?thesis
    by (cases rule: try_send_cases [of "sender out" m]) (auto simp: outbox_try_send_def)
qed

end

section \<open>A channel\<close>

record list_channel =
  chan_queue :: "message list"
  chan_size :: nat
  chan_receiver_dropped :: bool

definition list_mpsc :: "list_channel mpsc" where
  "list_mpsc =
     \<lparr>mpsc_channel = (\<lambda>n. \<lparr>chan_queue = [], chan_size = n, chan_receiver_dropped = False\<rparr>),
      mpsc_try_send = (\<lambda>c m.
        if chan_receiver_dropped c then (Err (Closed m), c)
        else if chan_size c \<le> length (chan_queue c) then (Err (Full m), c)
        else (Ok (), c\<lparr>chan_queue := chan_queue c @ [m]\<rparr>)),
      mpsc_recv = (\<lambda>c. case chan_queue c of
        [] \<Rightarrow> (None, c) | m # ms \<Rightarrow> (Some m, c\<lparr>chan_queue := ms\<rparr>))\<rparr>"

interpretation lch: bounded_channel list_mpsc chan_queue chan_size chan_receiver_dropped
  by unfold_locales (auto simp: list_mpsc_def)

end
