(* ===== verification/Canonical_Events.thy ===== *)
theory Canonical_Events
  imports Json
begin

text \<open>
  \<open>services/rust-bridge/src/acp/events.rs\<close> and the pending-interaction values of
  \<open>bridge_protocol.rs\<close> that it embeds: the canonical events every agent session is translated to,
  with the source's constructors and fields, the accessor \<open>thread_id\<close>, and the mailbox that
  carries the events with its flush markers. The enumerations of the ACP schema crate
  (stop reason, tool kind, tool status) appear as their serialized names.
\<close>

datatype message_role = User | Agent | Thought

datatype 'a field_update = Unchanged | Clear | Set 'a | Append 'a

record plan_entry =
  plan_content :: str
  plan_priority :: str
  plan_status :: str

record config_option_value =
  option_value :: str
  option_name :: str
  option_description :: "str option"

record config_entry =
  config_id :: str
  config_value :: str
  config_name :: str
  config_description :: "str option"
  config_category :: "str option"
  config_options :: "config_option_value list"

record command_entry =
  command_name :: str
  command_description :: str

record pending_approval_option =
  approval_option_id :: str
  approval_option_label :: str
  approval_option_kind :: "str option"

record pending_approval =
  approval_request_id :: str
  approval_agent_id :: str
  approval_kind :: str
  approval_thread_id :: str
  approval_turn_id :: str
  approval_item_id :: str
  approval_title :: str
  approval_message :: str
  approval_requested_at :: str
  approval_reason :: "str option"
  approval_command :: "str option"
  approval_cwd :: "str option"
  approval_grant_root :: "str option"
  approval_proposed_execpolicy_amendment :: "str list option"
  approval_options :: "pending_approval_option list"

record pending_user_input_question_option =
  question_option_value :: str
  question_option_label :: str
  question_option_description :: str

record pending_user_input_question =
  question_id :: str
  question_header :: str
  question_text :: str
  question_is_other :: bool
  question_is_secret :: bool
  question_required :: bool
  question_field_type :: str
  question_default_value :: "json option"
  question_options :: "pending_user_input_question_option list option"

record pending_user_input_request =
  input_request_id :: str
  input_agent_id :: "str option"
  input_thread_id :: str
  input_turn_id :: str
  input_item_id :: str
  input_message :: str
  input_requested_at :: str
  input_questions :: "pending_user_input_question list"

datatype agent_relation_kind = Parent | SubAgent

datatype agent_message_disposition =
  Message_Sent | Message_Steering | Message_Queued | Message_Cancelled

datatype agent_message_direction = Direction_Sent | Direction_Received

record agent_message_origin =
  origin_message_id :: str
  origin_direction :: agent_message_direction
  origin_related_thread_id :: str
  origin_related_title :: "str option"
  origin_relation :: agent_relation_kind
  origin_disposition :: agent_message_disposition
  origin_body :: str

text \<open>Fields in the order of the source; \<open>agent_id\<close> and \<open>thread_id\<close> come first.\<close>

datatype canonical_event =
    RunStarted str str (run: str) (source_turn: str) (generation: nat)
  | RunFinished str str str str nat (stop_reason: str)
  | RunFailed str str str str nat (failure: str)
  | MessageChunk str str "str option" "str option" "nat option" message_role str str "json option"
  | AgentMessage str str agent_message_origin
  | Tool str str "str option" "str option" "nat option" str str str str
      "str field_update" "json list field_update" "json list field_update"
  | Plan str str "plan_entry list"
  | Usage str str nat nat "str option"
  | TurnTokenUsage str str nat nat "nat option" "nat option" "nat option" nat
  | Mode str str str
  | Config str str "config_entry list"
  | SessionInfo str str "str field_update" "str field_update"
  | Commands str str "command_entry list"
  | PermissionRequested pending_approval
  | PermissionResolved str str str str
  | ElicitationRequested pending_user_input_request
  | ElicitationResolved str str str str
  | Ignored str "str option" str

fun event_thread_id :: "canonical_event \<Rightarrow> str option" where
  "event_thread_id (RunStarted _ t _ _ _) = Some t"
| "event_thread_id (RunFinished _ t _ _ _ _) = Some t"
| "event_thread_id (RunFailed _ t _ _ _ _) = Some t"
| "event_thread_id (MessageChunk _ t _ _ _ _ _ _ _) = Some t"
| "event_thread_id (AgentMessage _ t _) = Some t"
| "event_thread_id (Tool _ t _ _ _ _ _ _ _ _ _ _) = Some t"
| "event_thread_id (Plan _ t _) = Some t"
| "event_thread_id (Usage _ t _ _ _) = Some t"
| "event_thread_id (TurnTokenUsage _ t _ _ _ _ _ _) = Some t"
| "event_thread_id (Mode _ t _) = Some t"
| "event_thread_id (Config _ t _) = Some t"
| "event_thread_id (SessionInfo _ t _ _) = Some t"
| "event_thread_id (Commands _ t _) = Some t"
| "event_thread_id (PermissionRequested a) = Some (approval_thread_id a)"
| "event_thread_id (PermissionResolved _ t _ _) = Some t"
| "event_thread_id (ElicitationRequested r) = Some (input_thread_id r)"
| "event_thread_id (ElicitationResolved _ t _ _) = Some t"
| "event_thread_id (Ignored _ t _) = t"

section \<open>The mailbox\<close>

text \<open>
  The channel between an agent session and the hub: events and flush markers in one queue. A
  marker is numbered; answering it is adding its number to the answered ones.
\<close>

datatype canonical_mailbox_item = Event canonical_event | Flush nat

record canonical_mailbox =
  mailbox_items :: "canonical_mailbox_item list"
  mailbox_senders_closed :: bool
  mailbox_receiver_closed :: bool
  mailbox_flushed :: "nat list"

definition mailbox_send :: "canonical_mailbox \<Rightarrow> canonical_event \<Rightarrow> (unit + unit) \<times> canonical_mailbox" where
  "mailbox_send m e =
     (if mailbox_receiver_closed m then (Err (), m)
      else (Ok (), m\<lparr>mailbox_items := mailbox_items m @ [Event e]\<rparr>))"

text \<open>The first half of \<open>flush\<close>: the marker is enqueued, and the caller waits for its number.\<close>

definition mailbox_flush :: "canonical_mailbox \<Rightarrow> nat \<Rightarrow> (unit + unit) \<times> canonical_mailbox" where
  "mailbox_flush m n =
     (if mailbox_receiver_closed m then (Err (), m)
      else (Ok (), m\<lparr>mailbox_items := mailbox_items m @ [Flush n]\<rparr>))"

fun recv_loop :: "canonical_mailbox_item list \<Rightarrow> nat list
    \<Rightarrow> canonical_event option \<times> canonical_mailbox_item list \<times> nat list" where
  "recv_loop [] fl = (None, [], fl)"
| "recv_loop (Event e # is) fl = (Some e, is, fl)"
| "recv_loop (Flush n # is) fl = recv_loop is (fl @ [n])"

definition mailbox_recv :: "canonical_mailbox \<Rightarrow> canonical_event option \<times> canonical_mailbox" where
  "mailbox_recv m =
     (case recv_loop (mailbox_items m) (mailbox_flushed m) of
        (r, is, fl) \<Rightarrow> (r, m\<lparr>mailbox_items := is, mailbox_flushed := fl\<rparr>))"

section \<open>Lemmas\<close>

lemma recv_loop_split:
  "recv_loop items fl = (r, rest, fl') \<Longrightarrow>
     \<exists>ns. fl' = fl @ ns \<and>
       items = map Flush ns @ (case r of None \<Rightarrow> [] | Some e \<Rightarrow> [Event e]) @ rest
       \<and> (r = None \<longrightarrow> rest = [])"
proof (induction items fl rule: recv_loop.induct)
  case (3 n items fl)
  then obtain ns where "fl' = (fl @ [n]) @ ns"
      "items = map Flush ns @ (case r of None \<Rightarrow> [] | Some e \<Rightarrow> [Event e]) @ rest"
      "r = None \<longrightarrow> rest = []" by auto
  then show ?case by (intro exI [of _ "n # ns"]) auto
qed auto

end
