(* ===== verification/Btree_Map.thy ===== *)
theory Btree_Map
  imports Prelude
begin

text \<open>
  \<open>std::collections::BTreeMap\<close>: an association list sorted by strictly increasing keys, so that
  iteration order is key order, as in Rust. \<open>map_of\<close> is \<open>get\<close>. The locale \<open>finite_map\<close> is the
  interface the clients' proofs use; the sorted list is its interpretation. The same
  representation serves a \<open>HashMap\<close> whose iteration order no result depends on.
\<close>

type_synonym ('k, 'v) btree = "('k \<times> 'v) list"

fun bt_insert :: "'k::linorder \<Rightarrow> 'v \<Rightarrow> ('k, 'v) btree \<Rightarrow> ('k, 'v) btree" where
  "bt_insert k v [] = [(k, v)]"
| "bt_insert k v ((k', v') # m) =
     (if k < k' then (k, v) # (k', v') # m
      else if k = k' then (k, v) # m else (k', v') # bt_insert k v m)"

definition bt_remove :: "'k \<Rightarrow> ('k, 'v) btree \<Rightarrow> ('k, 'v) btree" where
  "bt_remove k m = filter (\<lambda>(k', _). k' \<noteq> k) m"

definition bt_retain :: "('k \<Rightarrow> 'v \<Rightarrow> bool) \<Rightarrow> ('k, 'v) btree \<Rightarrow> ('k, 'v) btree" where
  "bt_retain P m = filter (\<lambda>(k, v). P k v) m"

text \<open>\<open>if let Some(entry) = map.get_mut(k)\<close> with an update of the entry.\<close>

definition bt_adjust :: "'k \<Rightarrow> ('v \<Rightarrow> 'v) \<Rightarrow> ('k, 'v) btree \<Rightarrow> ('k, 'v) btree" where
  "bt_adjust k f m = map (\<lambda>(k', v). (k', if k' = k then f v else v)) m"

definition bt_contains :: "('k, 'v) btree \<Rightarrow> 'k \<Rightarrow> bool" where
  "bt_contains m k = (map_of m k \<noteq> None)"

definition bt_wf :: "('k::linorder, 'v) btree \<Rightarrow> bool" where
  "bt_wf m = (sorted (map fst m) \<and> distinct (map fst m))"

section \<open>The interface\<close>

locale finite_map =
  fixes empty :: 'm
    and lookup :: "'m \<Rightarrow> 'k \<Rightarrow> 'v option"
    and insert_map :: "'k \<Rightarrow> 'v \<Rightarrow> 'm \<Rightarrow> 'm"
    and remove_map :: "'k \<Rightarrow> 'm \<Rightarrow> 'm"
    and entries :: "'m \<Rightarrow> ('k \<times> 'v) set"
    and wf_map :: "'m \<Rightarrow> bool"
  assumes lookup_empty: "lookup empty k = None"
    and lookup_insert: "lookup (insert_map k v m) = (lookup m)(k \<mapsto> v)"
    and lookup_remove: "lookup (remove_map k m) = (lookup m)(k := None)"
    and entries_lookup: "wf_map m \<Longrightarrow> (k, v) \<in> entries m \<longleftrightarrow> lookup m k = Some v"
    and wf_empty: "wf_map empty"
    and wf_insert: "wf_map m \<Longrightarrow> wf_map (insert_map k v m)"
    and wf_remove: "wf_map m \<Longrightarrow> wf_map (remove_map k m)"
begin

lemma entries_insert:
  "wf_map m \<Longrightarrow>
     e \<in> entries (insert_map k v m) \<longleftrightarrow> e = (k, v) \<or> e \<in> entries m \<and> fst e \<noteq> k"
  by (cases e) (auto simp: entries_lookup wf_insert lookup_insert split: if_splits)

lemma entries_remove:
  "wf_map m \<Longrightarrow> e \<in> entries (remove_map k m) \<longleftrightarrow> e \<in> entries m \<and> fst e \<noteq> k"
  by (cases e) (auto simp: entries_lookup wf_remove lookup_remove split: if_splits)

lemma insert_remove_lookup:
  "lookup (remove_map k (insert_map k v m)) = lookup (remove_map k m)"
  by (simp add: lookup_insert lookup_remove)

end

section \<open>The sorted list\<close>

lemma map_of_bt_insert [simp]: "map_of (bt_insert k v m) = (map_of m)(k \<mapsto> v)"
  by (induction m) (auto simp: fun_upd_twist)

lemma map_of_bt_remove [simp]: "map_of (bt_remove k m) = (map_of m)(k := None)"
  by (induction m) (auto simp: bt_remove_def fun_eq_iff)

lemma map_of_bt_adjust:
  "map_of (bt_adjust k f m) k' = (if k' = k then map_option f (map_of m k') else map_of m k')"
  by (induction m) (auto simp: bt_adjust_def)

lemma fst_bt_insert: "set (map fst (bt_insert k v m)) = insert k (set (map fst m))"
  by (induction k v m rule: bt_insert.induct) (simp_all add: insert_commute)

lemma bt_wf_insert [intro]: "bt_wf m \<Longrightarrow> bt_wf (bt_insert k v m)"
proof (induction m)
  case Nil
  then show ?case by (simp add: bt_wf_def)
next
  case (Cons e m)
  obtain k' v' where e: "e = (k', v')" by fastforce
  have s: "set (map fst (bt_insert k v m)) = insert k (fst ` set m)"
    using fst_bt_insert [of k v m] by simp
  consider "k < k'" | "k = k'" | "k' < k" by (rule linorder_less_linear [of k k', THEN disjE]) auto
  then show ?case
  proof cases
    case 1
    then show ?thesis using Cons.prems e by (force simp: bt_wf_def)
  next
    case 2
    then show ?thesis using Cons.prems e by (auto simp: bt_wf_def)
  next
    case 3
    have "bt_wf m" using Cons.prems by (auto simp: bt_wf_def e)
    then have "bt_wf (bt_insert k v m)" by (rule Cons.IH)
    with 3 Cons.prems e s show ?thesis by (auto simp: bt_wf_def)
  qed
qed

lemma bt_wf_filter: "bt_wf m \<Longrightarrow> bt_wf (filter P m)"
  unfolding bt_wf_def by (auto simp: sorted_wrt_map sorted_wrt_filter distinct_map_filter)

lemma bt_wf_remove [intro]: "bt_wf m \<Longrightarrow> bt_wf (bt_remove k m)"
  unfolding bt_remove_def by (rule bt_wf_filter)

lemma bt_wf_retain [intro]: "bt_wf m \<Longrightarrow> bt_wf (bt_retain P m)"
  unfolding bt_retain_def by (rule bt_wf_filter)

lemma map_fst_bt_adjust [simp]: "map fst (bt_adjust k f m) = map fst m"
  by (auto simp: bt_adjust_def)

lemma bt_wf_adjust [intro]: "bt_wf m \<Longrightarrow> bt_wf (bt_adjust k f m)"
  by (simp add: bt_wf_def)

lemma bt_wf_Nil [simp]: "bt_wf []"
  by (simp add: bt_wf_def)

lemma bt_entries: "bt_wf m \<Longrightarrow> (k, v) \<in> set m \<longleftrightarrow> map_of m k = Some v"
  by (simp add: bt_wf_def)

interpretation bt: finite_map "[]" map_of bt_insert bt_remove set bt_wf
  by unfold_locales (auto simp: bt_entries)

lemma bt_insert_set:
  "bt_wf m \<Longrightarrow> e \<in> set (bt_insert k v m) \<longleftrightarrow> e = (k, v) \<or> e \<in> set m \<and> fst e \<noteq> k"
  by (rule bt.entries_insert)

lemma bt_remove_set: "e \<in> set (bt_remove k m) \<longleftrightarrow> e \<in> set m \<and> fst e \<noteq> k"
  by (auto simp: bt_remove_def)

lemma bt_retain_set: "(k, v) \<in> set (bt_retain P m) \<longleftrightarrow> (k, v) \<in> set m \<and> P k v"
  by (auto simp: bt_retain_def)

lemma bt_adjust_set:
  "(k', v') \<in> set (bt_adjust k f m) \<longleftrightarrow>
     (\<exists>v. (k', v) \<in> set m \<and> v' = (if k' = k then f v else v))"
  unfolding bt_adjust_def by (induction m) auto

lemma length_bt_adjust [simp]: "length (bt_adjust k f m) = length m"
  by (simp add: bt_adjust_def)

lemma length_bt_insert:
  "length (bt_insert k v m) \<le> Suc (length m)"
  by (induction m) auto

lemma length_bt_insert_new: "map_of m k = None \<Longrightarrow> length (bt_insert k v m) = Suc (length m)"
  by (induction m) (auto split: if_splits)

lemma length_bt_insert_old:
  "bt_wf m \<Longrightarrow> map_of m k \<noteq> None \<Longrightarrow> length (bt_insert k v m) = length m"
proof -
  assume wf: "bt_wf m" and k: "map_of m k \<noteq> None"
  have "k \<in> set (map fst m)" using k by (metis map_of_eq_None_iff set_map)
  then have "set (map fst (bt_insert k v m)) = set (map fst m)"
    by (simp only: fst_bt_insert insert_absorb)
  moreover have "distinct (map fst m)" "distinct (map fst (bt_insert k v m))"
    using wf bt_wf_insert [OF wf, of k v] by (simp_all add: bt_wf_def)
  ultimately show ?thesis by (metis distinct_card length_map)
qed

text \<open>Removing several keys.\<close>

lemma fold_bt_remove: "fold bt_remove ks m = filter (\<lambda>(k, _). k \<notin> set ks) m"
proof (induction ks arbitrary: m)
  case Nil
  then show ?case by (simp add: case_prod_unfold)
next
  case (Cons k ks)
  then show ?case by (auto simp: bt_remove_def intro!: filter_cong)
qed

lemma map_of_fold_bt_remove:
  "map_of (fold bt_remove ks m) k = (if k \<in> set ks then None else map_of m k)"
  by (induction ks arbitrary: m) auto

lemma bt_wf_fold_bt_remove: "bt_wf m \<Longrightarrow> bt_wf (fold bt_remove ks m)"
  by (simp add: fold_bt_remove bt_wf_filter)

end
