(* ===== verification/Json_Text.thy ===== *)
theory Json_Text
  imports Json
begin

text \<open>
  Printing and parsing JSON, which the bridge leaves to \<open>serde_json\<close>: the parameter \<open>json_text\<close>
  and the law the bridge relies on (what is printed parses back to the same value) as the locale
  \<open>json_codec\<close>. The second half is a complete self-delimiting text format for JSON values that
  satisfies the law.
\<close>

record json_text =
  to_string :: "json \<Rightarrow> str"
  from_str :: "str \<Rightarrow> json option"

locale json_codec =
  fixes J :: json_text
  assumes parse_print: "from_str J (to_string J v) = Some v"
begin

lemma print_inj: "to_string J v = to_string J w \<longleftrightarrow> v = w"
  using parse_print by (metis option.inject)

end

section \<open>A text format\<close>

fun enc_nat :: "nat \<Rightarrow> str" where
  "enc_nat n =
     (if n = 0 then '';'' else (if odd n then CHR ''1'' else CHR ''0'') # enc_nat (n div 2))"

declare enc_nat.simps [simp del]

fun dec_nat :: "str \<Rightarrow> (nat \<times> str) option" where
  "dec_nat [] = None"
| "dec_nat (c # s) =
     (if c = CHR '';'' then Some (0, s)
      else if c = CHR ''1'' then map_option (\<lambda>(n, r). (2 * n + 1, r)) (dec_nat s)
      else if c = CHR ''0'' then map_option (\<lambda>(n, r). (2 * n, r)) (dec_nat s) else None)"

definition enc_str :: "str \<Rightarrow> str" where
  "enc_str s = concat (map (\<lambda>c. [CHR ''.'', c]) s) @ '';''"

fun dec_str :: "str \<Rightarrow> (str \<times> str) option" where
  "dec_str (c # s) =
     (if c = CHR '';'' then Some ([], s)
      else if c = CHR ''.'' then
        (case s of [] \<Rightarrow> None | d # r \<Rightarrow> map_option (\<lambda>(t, r'). (d # t, r')) (dec_str r))
      else None)"
| "dec_str [] = None"

fun enc_json :: "json \<Rightarrow> str" where
  "enc_json JNull = ''n''"
| "enc_json (JBool b) = (if b then ''t'' else ''f'')"
| "enc_json (JInt i) = (if i < 0 then ''-'' else ''+'') @ enc_nat (nat \<bar>i\<bar>)"
| "enc_json (JFloat s) = ''d'' @ enc_str s"
| "enc_json (JString s) = ''s'' @ enc_str s"
| "enc_json (JArray vs) = ''['' @ concat (map (\<lambda>v. '','' @ enc_json v) vs) @ '']''"
| "enc_json (JObject kvs) =
     ''{'' @ concat (map (\<lambda>(k, v). '','' @ enc_str k @ enc_json v) kvs) @ ''}''"

fun dec_json :: "nat \<Rightarrow> str \<Rightarrow> (json \<times> str) option"
  and dec_items :: "nat \<Rightarrow> str \<Rightarrow> (json list \<times> str) option"
  and dec_members :: "nat \<Rightarrow> str \<Rightarrow> ((str \<times> json) list \<times> str) option" where
  "dec_json 0 s = None"
| "dec_json (Suc f) [] = None"
| "dec_json (Suc f) (c # s) =
     (if c = CHR ''n'' then Some (JNull, s)
      else if c = CHR ''t'' then Some (JBool True, s)
      else if c = CHR ''f'' then Some (JBool False, s)
      else if c = CHR ''+'' then map_option (\<lambda>(n, r). (JInt (int n), r)) (dec_nat s)
      else if c = CHR ''-'' then map_option (\<lambda>(n, r). (JInt (- int n), r)) (dec_nat s)
      else if c = CHR ''d'' then map_option (\<lambda>(t, r). (JFloat t, r)) (dec_str s)
      else if c = CHR ''s'' then map_option (\<lambda>(t, r). (JString t, r)) (dec_str s)
      else if c = CHR ''['' then map_option (\<lambda>(vs, r). (JArray vs, r)) (dec_items f s)
      else if c = CHR ''{'' then map_option (\<lambda>(kvs, r). (JObject kvs, r)) (dec_members f s)
      else None)"
| "dec_items 0 s = None"
| "dec_items (Suc f) [] = None"
| "dec_items (Suc f) (c # s) =
     (if c = CHR '']'' then Some ([], s)
      else case dec_json f s of
             None \<Rightarrow> None
           | Some (v, r) \<Rightarrow> map_option (\<lambda>(vs, r'). (v # vs, r')) (dec_items f r))"
| "dec_members 0 s = None"
| "dec_members (Suc f) [] = None"
| "dec_members (Suc f) (c # s) =
     (if c = CHR ''}'' then Some ([], s)
      else case dec_str s of
             None \<Rightarrow> None
           | Some (k, r0) \<Rightarrow>
               (case dec_json f r0 of
                  None \<Rightarrow> None
                | Some (v, r) \<Rightarrow> map_option (\<lambda>(kvs, r'). ((k, v) # kvs, r')) (dec_members f r)))"

definition parse_json :: "str \<Rightarrow> json option" where
  "parse_json s =
     (case dec_json (length s) s of Some (v, []) \<Rightarrow> Some v | _ \<Rightarrow> None)"

definition plain_json :: json_text where
  "plain_json = \<lparr>to_string = enc_json, from_str = parse_json\<rparr>"

lemma dec_enc_nat: "dec_nat (enc_nat n @ r) = Some (n, r)"
proof (induction n rule: enc_nat.induct)
  case (1 n)
  then show ?case by (cases "n = 0") (auto simp: enc_nat.simps [of 0] enc_nat.simps [of n])
qed

lemma dec_enc_str: "dec_str (enc_str s @ r) = Some (s, r)"
  by (induction s) (auto simp: enc_str_def)

lemma dec_enc_items:
  assumes "\<And>v f r. v \<in> set vs \<Longrightarrow> length (enc_json v) \<le> f \<Longrightarrow> dec_json f (enc_json v @ r) = Some (v, r)"
    and "length (concat (map (\<lambda>v. '','' @ enc_json v) vs)) < f"
  shows "dec_items f (concat (map (\<lambda>v. '','' @ enc_json v) vs) @ '']'' @ r) = Some (vs, r)"
  using assms
proof (induction vs arbitrary: f)
  case Nil
  then show ?case by (cases f) auto
next
  case (Cons v vs)
  then obtain f' where "f = Suc f'" by (cases f) auto
  with Cons show ?case by simp
qed

lemma dec_enc_members:
  assumes "\<And>k v f r. (k, v) \<in> set kvs \<Longrightarrow> length (enc_json v) \<le> f \<Longrightarrow>
      dec_json f (enc_json v @ r) = Some (v, r)"
    and "length (concat (map (\<lambda>(k, v). '','' @ enc_str k @ enc_json v) kvs)) < f"
  shows "dec_members f (concat (map (\<lambda>(k, v). '','' @ enc_str k @ enc_json v) kvs) @ ''}'' @ r)
    = Some (kvs, r)"
  using assms
proof (induction kvs arbitrary: f)
  case Nil
  then show ?case by (cases f) auto
next
  case (Cons kv kvs)
  obtain k v where kv: "kv = (k, v)" by fastforce
  obtain f' where f: "f = Suc f'" using Cons.prems(2) by (cases f) auto
  have v: "dec_json f' (enc_json v @ t) = Some (v, t)" for t
    using Cons.prems(1) [of k v f' t] Cons.prems(2) kv f by simp
  have "dec_members f' (concat (map (\<lambda>(k, v). '','' @ enc_str k @ enc_json v) kvs) @ ''}'' @ r)
      = Some (kvs, r)"
    by (rule Cons.IH) (use Cons.prems kv f in auto)
  then show ?case by (simp add: kv f v dec_enc_str)
qed

lemma dec_enc_json: "length (enc_json v) \<le> f \<Longrightarrow> dec_json f (enc_json v @ r) = Some (v, r)"
proof (induction v arbitrary: f r rule: enc_json.induct)
  case 1
  then show ?case by (cases f) auto
next
  case (2 b)
  then show ?case by (cases f) (auto split: if_splits)
next
  case (3 i)
  then show ?case by (cases f) (auto simp: dec_enc_nat split: if_splits)
next
  case (4 s)
  then show ?case by (cases f) (auto simp: dec_enc_str)
next
  case (5 s)
  then show ?case by (cases f) (auto simp: dec_enc_str)
next
  case (6 vs)
  then obtain f' where f: "f = Suc f'" by (cases f) auto
  have "dec_items f' (concat (map (\<lambda>v. '','' @ enc_json v) vs) @ '']'' @ r) = Some (vs, r)"
    by (rule dec_enc_items) (use 6 f in auto)
  then show ?case by (simp add: f)
next
  case (7 kvs)
  then obtain f' where f: "f = Suc f'" by (cases f) auto
  have "dec_members f' (concat (map (\<lambda>(k, v). '','' @ enc_str k @ enc_json v) kvs) @ ''}'' @ r)
      = Some (kvs, r)"
    by (rule dec_enc_members) (use 7 f in auto)
  then show ?case by (simp add: f)
qed

interpretation plain: json_codec plain_json
  by unfold_locales
     (use dec_enc_json [of _ _ "[]"] in \<open>auto simp: plain_json_def parse_json_def\<close>)

end
