(* ===== verification/Client_Hub.thy ===== *)
theory Client_Hub
  imports Client_Outbox Canonical_Events Btree_Map Json_Text
begin

text \<open>
  \<open>services/rust-bridge/src/client_hub.rs\<close>: the hub that numbers, stores and broadcasts every
  notification, keeps the connected clients and their presence, and tracks which push candidates
  a foreground phone has already seen; with \<open>sanitize_client_metadata\<close> of \<open>app_state.rs\<close>.

  Every operation runs under the locks of the source, so it is one function from hub to hub; a
  panic is \<open>None\<close>. The outbox of a client is shared with its WebSocket task, so outboxes live in a
  store addressed by client number and \<open>clients\<close> lists the registered numbers. The clock, the
  JSON printer and parser, the channel and the AG-UI projector are parameters (\<open>hub_ext\<close>).
\<close>

section \<open>State\<close>

definition MOBILE_CLIENT_TYPE :: str where "MOBILE_CLIENT_TYPE = ''mobile''"
definition MOBILE_FOREGROUND_LEASE_TIMEOUT :: nat where "MOBILE_FOREGROUND_LEASE_TIMEOUT = 30000"
definition PUSH_OBSERVATION_LIMIT :: nat where "PUSH_OBSERVATION_LIMIT = 1024"
definition PUSH_CANDIDATE_METHOD :: str where "PUSH_CANDIDATE_METHOD = ''bridge/push/candidate''"

record client_connection_metadata =
  md_client_type :: str
  md_client_name :: str
  md_foreground :: bool

record bridge_device_connection =
  client_id :: nat
  client_type :: str
  client_name :: str
  connected_at :: str
  last_seen_at :: str
  foreground :: bool
  foreground_sequence :: nat
  foreground_updated_at :: nat

record canonical_hub_event =
  che_event_id :: nat
  che_event :: canonical_event
  che_foreground_mobile_present :: bool

record canonical_subscriber =
  sub_closed :: bool
  sub_events :: "canonical_hub_event list"

text \<open>
  \<open>obs_entries\<close> are the keys of the tracker's map, \<open>obs_observed\<close> the watch values, which outlive
  the map entry because a waiting reader holds them too.
\<close>

record push_observation_tracker =
  obs_entries :: "nat list"
  obs_order :: "nat list"
  obs_observed :: "nat \<Rightarrow> bool"

datatype mobile_presence_update = Applied | Stale | NotMobile

datatype push_observation_update =
  Observed | UnknownCandidate | NotForeground | ObserverNotMobile

record ('c, 'p) client_hub =
  next_client_id :: nat
  next_event_id :: nat
  next_canonical_event_id :: nat
  stream_id :: str
  clients :: "nat list"
  outboxes :: "nat \<Rightarrow> 'c client_outbox option"
  client_infos :: "(nat, bridge_device_connection) btree"
  replay :: notification_replay
  canonical_subscribers :: "canonical_subscriber list"
  client_queue_drops :: nat
  latest_published_event_id :: nat
  ag_ui_projector :: 'p
  push_observations :: push_observation_tracker

record ('c, 'p) hub_ext =
  hub_mpsc :: "'c mpsc"
  hub_json :: json_text
  project_canonical :: "'p \<Rightarrow> canonical_event \<Rightarrow> 'p \<times> json list \<times> (str \<times> json) list"

record hub_replay_snapshot =
  snap_events :: "json list"
  snap_has_more :: bool
  snap_returned_bytes :: nat
  snap_earliest_event_id :: "nat option"
  snap_latest_event_id :: nat

definition with_replay_capacity :: "str \<Rightarrow> 'p \<Rightarrow> nat \<Rightarrow> ('c, 'p) client_hub" where
  "with_replay_capacity stream projector cap =
     \<lparr>next_client_id = 1, next_event_id = 1, next_canonical_event_id = 1, stream_id = stream,
      clients = [], outboxes = (\<lambda>_. None), client_infos = [],
      replay = replay_new cap REPLAY_MAX_BYTES, canonical_subscribers = [],
      client_queue_drops = 0, latest_published_event_id = 0, ag_ui_projector = projector,
      push_observations = \<lparr>obs_entries = [], obs_order = [], obs_observed = (\<lambda>_. False)\<rparr>\<rparr>"

definition hub_new :: "str \<Rightarrow> 'p \<Rightarrow> ('c, 'p) client_hub" where
  "hub_new stream projector = with_replay_capacity stream projector NOTIFICATION_REPLAY_BUFFER_SIZE"

section \<open>Connection metadata\<close>

function utf8_chars :: "str \<Rightarrow> str list" where
  "utf8_chars s =
     (if s = [] then [] else
      let n = max 1 (utf8_head s) in take n s # utf8_chars (drop n s))"
  by pat_completeness auto
termination
  by (relation "measure length") (auto simp: Let_def)

declare utf8_chars.simps [simp del]

definition is_control :: "str \<Rightarrow> bool" where
  "is_control c =
     (case map byte c of
        [a] \<Rightarrow> a < 0x20 \<or> a = 0x7F
      | [a, b] \<Rightarrow> a = 0xC2 \<and> 0x80 \<le> b \<and> b \<le> 0x9F
      | _ \<Rightarrow> False)"

definition sanitize_client_metadata :: "str option \<Rightarrow> str \<Rightarrow> nat \<Rightarrow> str" where
  "sanitize_client_metadata value fallback max_chars =
     (case map_option trim value of
        None \<Rightarrow> fallback
      | Some v \<Rightarrow>
          if v = [] then fallback else
          let sanitized = trim (concat (take max_chars (filter (\<lambda>c. \<not> is_control c) (utf8_chars v))))
          in if sanitized = [] then fallback else sanitized)"

definition parse_client_foreground :: "str \<Rightarrow> bool option" where
  "parse_client_foreground v =
     (if trim v = ''true'' then Some True else if trim v = ''false'' then Some False else None)"

record rpc_query =
  q_client_type :: "str option"
  q_client_name :: "str option"
  q_client_foreground :: "bool option"

definition opt_or :: "'a option \<Rightarrow> 'a option \<Rightarrow> 'a option" where
  "opt_or a b = (case a of None \<Rightarrow> b | Some _ \<Rightarrow> a)"

definition metadata_from_request ::
  "rpc_query \<Rightarrow> (str \<Rightarrow> str option) \<Rightarrow> client_connection_metadata" where
  "metadata_from_request query headers =
     (let ctype = opt_or (headers ''x-dappercode-client-type'') (q_client_type query);
          cname = opt_or (headers ''x-dappercode-client-name'') (q_client_name query);
          ct = sanitize_client_metadata ctype ''unknown'' 32;
          fg = (case opt_or (Option.bind (headers ''x-dappercode-client-foreground'')
                       parse_client_foreground) (q_client_foreground query) of
                  None \<Rightarrow> False | Some b \<Rightarrow> b)
      in \<lparr>md_client_type = ct,
          md_client_name = sanitize_client_metadata cname ''Unknown device'' 64,
          md_foreground = (ct = MOBILE_CLIENT_TYPE \<and> fg)\<rparr>)"

section \<open>Clients and presence\<close>

definition add_client_with_metadata ::
  "str \<Rightarrow> nat \<Rightarrow> ('c, 'p) client_hub \<Rightarrow> 'c client_outbox \<Rightarrow> client_connection_metadata
     \<Rightarrow> nat \<times> ('c, 'p) client_hub" where
  "add_client_with_metadata now instant h out md =
     (let i = next_client_id h in
      (i, h\<lparr>next_client_id := fetch_inc i,
            clients := (if i \<in> set (clients h) then clients h else clients h @ [i]),
            outboxes := (outboxes h)(i \<mapsto> out),
            client_infos := bt_insert i
              \<lparr>client_id = i, client_type = md_client_type md, client_name = md_client_name md,
               connected_at = now, last_seen_at = now,
               foreground = (md_client_type md = MOBILE_CLIENT_TYPE \<and> md_foreground md),
               foreground_sequence = 0, foreground_updated_at = instant\<rparr> (client_infos h)\<rparr>))"

definition disconnect_client ::
  "('c, 'p) client_hub \<Rightarrow> nat \<Rightarrow> bool \<Rightarrow> ('c, 'p) client_hub" where
  "disconnect_client h i queue_drop =
     (let h1 = (if i \<in> set (clients h) then
                  h\<lparr>clients := removeAll i (clients h),
                    client_queue_drops := (if queue_drop then fetch_inc (client_queue_drops h)
                                           else client_queue_drops h),
                    outboxes := (outboxes h)(i := map_option outbox_disconnect (outboxes h i))\<rparr>
                else h)
      in h1\<lparr>client_infos := bt_remove i (client_infos h1)\<rparr>)"

definition remove_client :: "('c, 'p) client_hub \<Rightarrow> nat \<Rightarrow> ('c, 'p) client_hub" where
  "remove_client h i = disconnect_client h i False"

definition disconnect_saturated_client :: "('c, 'p) client_hub \<Rightarrow> nat \<Rightarrow> ('c, 'p) client_hub" where
  "disconnect_saturated_client h i = disconnect_client h i True"

definition mark_client_seen :: "str \<Rightarrow> ('c, 'p) client_hub \<Rightarrow> nat \<Rightarrow> ('c, 'p) client_hub" where
  "mark_client_seen now h i =
     h\<lparr>client_infos := bt_adjust i (\<lambda>c. c\<lparr>last_seen_at := now\<rparr>) (client_infos h)\<rparr>"

definition client_connections :: "('c, 'p) client_hub \<Rightarrow> bridge_device_connection list" where
  "client_connections h = sort_key client_id (map snd (client_infos h))"

definition set_mobile_client_foreground ::
  "nat \<Rightarrow> ('c, 'p) client_hub \<Rightarrow> nat \<Rightarrow> bool \<Rightarrow> nat
     \<Rightarrow> mobile_presence_update \<times> ('c, 'p) client_hub" where
  "set_mobile_client_foreground instant h i fg sequence =
     (case map_of (client_infos h) i of
        None \<Rightarrow> (NotMobile, h)
      | Some c \<Rightarrow>
          if client_type c \<noteq> MOBILE_CLIENT_TYPE then (NotMobile, h)
          else if sequence \<le> foreground_sequence c then (Stale, h)
          else (Applied, h\<lparr>client_infos := bt_adjust i
                  (\<lambda>c. c\<lparr>foreground := fg, foreground_sequence := sequence,
                         foreground_updated_at := instant\<rparr>) (client_infos h)\<rparr>))"

definition has_foreground_mobile_client :: "nat \<Rightarrow> ('c, 'p) client_hub \<Rightarrow> bool" where
  "has_foreground_mobile_client instant h =
     list_ex (\<lambda>(_, c). client_type c = MOBILE_CLIENT_TYPE \<and> foreground c
        \<and> instant - foreground_updated_at c < MOBILE_FOREGROUND_LEASE_TIMEOUT) (client_infos h)"

section \<open>Push observations\<close>

fun evict_observations :: "nat list \<Rightarrow> nat list \<Rightarrow> nat list \<times> nat list" where
  "evict_observations es [] = (es, [])"
| "evict_observations es (oldest # order) =
     (if PUSH_OBSERVATION_LIMIT \<le> length es
      then evict_observations (removeAll oldest es) order else (es, oldest # order))"

definition prepare_push_observation ::
  "push_observation_tracker \<Rightarrow> nat \<Rightarrow> push_observation_tracker" where
  "prepare_push_observation t cand =
     (if cand \<in> set (obs_entries t) then t
      else case evict_observations (obs_entries t) (obs_order t) of
        (es, order) \<Rightarrow>
          t\<lparr>obs_entries := es @ [cand], obs_order := order @ [cand],
            obs_observed := (obs_observed t)(cand := False)\<rparr>)"

definition observe_push_candidate ::
  "nat \<Rightarrow> ('c, 'p) client_hub \<Rightarrow> nat \<Rightarrow> nat \<Rightarrow> nat \<Rightarrow> push_observation_update \<times> ('c, 'p) client_hub" where
  "observe_push_candidate instant h i cand presence_sequence =
     (case map_of (client_infos h) i of
        None \<Rightarrow> (ObserverNotMobile, h)
      | Some c \<Rightarrow>
          if client_type c \<noteq> MOBILE_CLIENT_TYPE then (ObserverNotMobile, h)
          else if \<not> foreground c \<or> foreground_sequence c \<noteq> presence_sequence
             \<or> MOBILE_FOREGROUND_LEASE_TIMEOUT \<le> instant - foreground_updated_at c
          then (NotForeground, h)
          else let t = push_observations h in
            if cand \<notin> set (obs_entries t) then (UnknownCandidate, h)
            else (Observed, h\<lparr>push_observations := t\<lparr>obs_observed := (obs_observed t)(cand := True)\<rparr>\<rparr>))"

definition drop_observation :: "push_observation_tracker \<Rightarrow> nat \<Rightarrow> push_observation_tracker" where
  "drop_observation t cand =
     t\<lparr>obs_entries := removeAll cand (obs_entries t), obs_order := removeAll cand (obs_order t)\<rparr>"

definition discard_push_observation :: "('c, 'p) client_hub \<Rightarrow> nat \<Rightarrow> ('c, 'p) client_hub" where
  "discard_push_observation h cand =
     h\<lparr>push_observations := drop_observation (push_observations h) cand\<rparr>"

text \<open>\<open>meanwhile\<close> is what other tasks do to the hub while the caller waits for a change.\<close>

definition take_push_observation ::
  "(('c, 'p) client_hub \<Rightarrow> ('c, 'p) client_hub) \<Rightarrow> ('c, 'p) client_hub \<Rightarrow> nat \<Rightarrow> nat
     \<Rightarrow> bool \<times> ('c, 'p) client_hub" where
  "take_push_observation meanwhile h cand wait =
     (if cand \<notin> set (obs_entries (push_observations h)) then (False, h)
      else
        let h1 = (if \<not> obs_observed (push_observations h) cand \<and> wait \<noteq> 0 then meanwhile h else h)
        in (obs_observed (push_observations h1) cand, discard_push_observation h1 cand))"

section \<open>Sending and broadcasting\<close>

definition send_json ::
  "('c, 'p) hub_ext \<Rightarrow> ('c client_outbox \<Rightarrow> 'c client_outbox) list \<Rightarrow> ('c, 'p) client_hub \<Rightarrow> nat \<Rightarrow> json
     \<Rightarrow> ('c, 'p) client_hub" where
  "send_json X others h i v =
     (let text = to_string (hub_json X) v in
      case (if i \<in> set (clients h) then outboxes h i else None) of
        None \<Rightarrow> h
      | Some out \<Rightarrow>
          (case outbox_try_send (hub_mpsc X) out (Text text) of
             (Inr _, out') \<Rightarrow> h\<lparr>outboxes := (outboxes h)(i \<mapsto> out')\<rparr>
           | (Inl (Closed _), out') \<Rightarrow>
               disconnect_client (h\<lparr>outboxes := (outboxes h)(i \<mapsto> out')\<rparr>) i False
           | (Inl (Full m), out') \<Rightarrow>
               (case outbox_send_timeout (hub_mpsc X) others out' m of
                  (r, out'') \<Rightarrow>
                    let h' = h\<lparr>outboxes := (outboxes h)(i \<mapsto> out'')\<rparr> in
                    (case r of
                       Some (Inr _) \<Rightarrow> h'
                     | Some (Inl _) \<Rightarrow> disconnect_client h' i False
                     | None \<Rightarrow> disconnect_client h' i True))))"

text \<open>One pass over the registered clients; the failed ones are collected and removed after it.\<close>

fun offer_all ::
  "'c mpsc \<Rightarrow> message \<Rightarrow> nat list \<Rightarrow> (nat \<Rightarrow> 'c client_outbox option) \<times> (nat \<times> bool) list
     \<Rightarrow> (nat \<Rightarrow> 'c client_outbox option) \<times> (nat \<times> bool) list" where
  "offer_all M m [] s = s"
| "offer_all M m (i # is) (outs, stale) =
     (case outs i of
        None \<Rightarrow> offer_all M m is (outs, stale)
      | Some out \<Rightarrow>
          (case outbox_try_send M out m of
             (Inr _, out') \<Rightarrow> offer_all M m is (outs(i \<mapsto> out'), stale)
           | (Inl (Closed _), out') \<Rightarrow> offer_all M m is (outs(i \<mapsto> out'), stale @ [(i, False)])
           | (Inl (Full _), out') \<Rightarrow> offer_all M m is (outs(i \<mapsto> out'), stale @ [(i, True)])))"

definition broadcast_message ::
  "('c, 'p) hub_ext \<Rightarrow> ('c, 'p) client_hub \<Rightarrow> message \<Rightarrow> ('c, 'p) client_hub" where
  "broadcast_message X h m =
     (case offer_all (hub_mpsc X) m (clients h) (outboxes h, []) of
        (outs, stale) \<Rightarrow>
          fold (\<lambda>(i, queue_drop) h. disconnect_client h i queue_drop) stale (h\<lparr>outboxes := outs\<rparr>))"

definition notification_payload :: "('c, 'p) client_hub \<Rightarrow> str \<Rightarrow> nat \<Rightarrow> json \<Rightarrow> json" where
  "notification_payload h method eid params =
     JObject
       [(''method'', JString method),
        (''protocolVersion'', JInt (int BRIDGE_PROTOCOL_VERSION)),
        (''streamId'', JString (stream_id h)),
        (''eventId'', JInt (int eid)),
        (''params'', params)]"

definition truncated_payload :: "('c, 'p) client_hub \<Rightarrow> str \<Rightarrow> nat \<Rightarrow> nat \<Rightarrow> json" where
  "truncated_payload h method eid original_bytes =
     notification_payload h ''bridge/notification.truncated'' eid
       (JObject
         [(''originalMethod'', JString method), (''truncated'', JBool True),
          (''originalBytes'', JInt (int original_bytes)),
          (''maxBytes'', JInt (int NOTIFICATION_MAX_BYTES))])"

definition published_payload ::
  "('c, 'p) hub_ext \<Rightarrow> ('c, 'p) client_hub \<Rightarrow> str \<Rightarrow> nat \<Rightarrow> json \<Rightarrow> json" where
  "published_payload X h method eid params =
     (let payload = notification_payload h method eid params;
          n = length (to_string (hub_json X) payload)
      in if NOTIFICATION_MAX_BYTES < n then truncated_payload h method eid n else payload)"

definition broadcast_external_notification ::
  "('c, 'p) hub_ext \<Rightarrow> ('c, 'p) client_hub \<Rightarrow> str \<Rightarrow> json \<Rightarrow> ('c, 'p) client_hub option" where
  "broadcast_external_notification X h method params =
     (let eid = next_event_id h;
          serialized = to_string (hub_json X) (published_payload X h method eid params)
      in case replay_push (replay h) eid (Text serialized) (length serialized) of
           None \<Rightarrow> None
         | Some r \<Rightarrow>
             Some (broadcast_message X
               (h\<lparr>next_event_id := fetch_inc eid, replay := r, latest_published_event_id := eid\<rparr>)
               (Text serialized)))"

definition broadcast_ephemeral_notification ::
  "('c, 'p) hub_ext \<Rightarrow> ('c, 'p) client_hub \<Rightarrow> str \<Rightarrow> json \<Rightarrow> ('c, 'p) client_hub" where
  "broadcast_ephemeral_notification X h method params =
     broadcast_message X h (Text (to_string (hub_json X) (JObject
       [(''method'', JString method),
        (''protocolVersion'', JInt (int BRIDGE_PROTOCOL_VERSION)),
        (''streamId'', JString (stream_id h)),
        (''params'', params)])))"

fun broadcast_each ::
  "('c, 'p) hub_ext \<Rightarrow> (str \<times> json) list \<Rightarrow> ('c, 'p) client_hub \<Rightarrow> ('c, 'p) client_hub option" where
  "broadcast_each X [] h = Some h"
| "broadcast_each X ((method, params) # ns) h =
     (case broadcast_external_notification X h method params of
        None \<Rightarrow> None | Some h' \<Rightarrow> broadcast_each X ns h')"

fun push_candidate_event_type :: "canonical_event \<Rightarrow> str option" where
  "push_candidate_event_type (RunFinished _ _ _ _ _ _) = Some ''turn_completed''"
| "push_candidate_event_type (RunFailed _ _ _ _ _ _) = Some ''turn_completed''"
| "push_candidate_event_type (PermissionRequested _) = Some ''approval_requested''"
| "push_candidate_event_type _ = None"

definition offer_push_candidate ::
  "('c, 'p) hub_ext \<Rightarrow> nat \<Rightarrow> str \<Rightarrow> ('c, 'p) client_hub \<Rightarrow> ('c, 'p) client_hub" where
  "offer_push_candidate X eid event_type h =
     (let h1 = h\<lparr>push_observations := prepare_push_observation (push_observations h) eid\<rparr>
      in broadcast_ephemeral_notification X h1 PUSH_CANDIDATE_METHOD
           (JObject
             [(''candidateId'', JString (show_nat eid)), (''event'', JString event_type),
              (''afterEventId'', JInt (int (latest_published_event_id h1)))]))"

definition AG_UI_EVENT_METHOD :: str where "AG_UI_EVENT_METHOD = ''bridge/agui.event''"

text \<open>Delivery to a subscriber waits for room in its mailbox and fails only if it is closed.\<close>

definition notify_subscriber :: "canonical_hub_event \<Rightarrow> canonical_subscriber \<Rightarrow> canonical_subscriber" where
  "notify_subscriber e s = (if sub_closed s then s else s\<lparr>sub_events := sub_events s @ [e]\<rparr>)"

definition subscribe_canonical_events :: "('c, 'p) client_hub \<Rightarrow> ('c, 'p) client_hub" where
  "subscribe_canonical_events h =
     h\<lparr>canonical_subscribers := canonical_subscribers h @ [\<lparr>sub_closed = False, sub_events = []\<rparr>]\<rparr>"

definition broadcast_canonical_event ::
  "('c, 'p) hub_ext \<Rightarrow> nat \<Rightarrow> ('c, 'p) client_hub \<Rightarrow> canonical_event \<Rightarrow> ('c, 'p) client_hub option" where
  "broadcast_canonical_event X instant h event =
     (let eid = next_canonical_event_id h;
          h0 = h\<lparr>next_canonical_event_id := fetch_inc eid\<rparr>;
          canonical = \<lparr>che_event_id = eid, che_event = event,
                       che_foreground_mobile_present = has_foreground_mobile_client instant h0\<rparr>
      in case project_canonical X (ag_ui_projector h0) event of
        (p, envelopes, controls) \<Rightarrow>
          (case broadcast_each X
                  (map (\<lambda>v. (AG_UI_EVENT_METHOD, v)) envelopes @ controls)
                  (h0\<lparr>ag_ui_projector := p\<rparr>) of
             None \<Rightarrow> None
           | Some h1 \<Rightarrow>
               let h2 = (case push_candidate_event_type event of
                           Some ty \<Rightarrow> if envelopes \<noteq> [] \<or> controls \<noteq> []
                                      then offer_push_candidate X eid ty h1 else h1
                         | None \<Rightarrow> h1)
               in Some (h2\<lparr>canonical_subscribers :=
                     filter (\<lambda>s. \<not> sub_closed s)
                       (map (notify_subscriber canonical) (canonical_subscribers h2))\<rparr>)))"

definition replay_snapshot ::
  "('c, 'p) hub_ext \<Rightarrow> ('c, 'p) client_hub \<Rightarrow> nat option \<Rightarrow> nat \<Rightarrow> hub_replay_snapshot option" where
  "replay_snapshot X h after_event_id limit =
     (case replay_since (from_str (hub_json X)) (replay h) after_event_id limit REPLAY_RESPONSE_MAX_BYTES of
        None \<Rightarrow> None
      | Some (events, has_more, n) \<Rightarrow>
          Some \<lparr>snap_events = events, snap_has_more = has_more, snap_returned_bytes = n,
                snap_earliest_event_id = earliest_event_id (replay h),
                snap_latest_event_id = latest_published_event_id h\<rparr>)"

definition hub_replay_status :: "('c, 'p) client_hub \<Rightarrow> replay_status" where
  "hub_replay_status h = status (replay h) (client_queue_drops h)"

end
