(* ===== verification/Client_Hub_Props.thy ===== *)
theory Client_Hub_Props
  imports Client_Hub
begin

text \<open>
  What the hub guarantees: the event log is gapless and a client that kept its position gets
  exactly the events it missed; the registry of clients, their outboxes and their presence stay
  consistent; the push-observation tracker stays bounded. The invariants are proved for every
  operation and lifted to all reachable hubs of the step relation \<open>hub_step\<close>.
\<close>

section \<open>What an operation leaves alone\<close>

definition log_of :: "('c, 'p) client_hub \<Rightarrow> notification_replay \<times> nat \<times> nat \<times> str" where
  "log_of h = (replay h, next_event_id h, latest_published_event_id h, stream_id h)"

named_theorems frame \<open>frame properties of the hub operations\<close>

lemma disconnect_client_frame [frame]:
  "log_of (disconnect_client h i q) = log_of h"
  "push_observations (disconnect_client h i q) = push_observations h"
  "canonical_subscribers (disconnect_client h i q) = canonical_subscribers h"
  "next_client_id (disconnect_client h i q) = next_client_id h"
  by (simp_all add: disconnect_client_def Let_def log_of_def)

lemma fold_disconnect_frame [frame]:
  "log_of (fold (\<lambda>(i, q) h. disconnect_client h i q) stale h) = log_of h"
  "push_observations (fold (\<lambda>(i, q) h. disconnect_client h i q) stale h) = push_observations h"
  "canonical_subscribers (fold (\<lambda>(i, q) h. disconnect_client h i q) stale h)
     = canonical_subscribers h"
  "next_client_id (fold (\<lambda>(i, q) h. disconnect_client h i q) stale h) = next_client_id h"
  by (induction stale arbitrary: h) (auto simp: frame)

lemma set_outboxes_frame [frame]:
  "log_of (h\<lparr>outboxes := f\<rparr>) = log_of h"
  by (simp add: log_of_def)

lemma broadcast_message_frame [frame]:
  "log_of (broadcast_message X h m) = log_of h"
  "push_observations (broadcast_message X h m) = push_observations h"
  "canonical_subscribers (broadcast_message X h m) = canonical_subscribers h"
  "next_client_id (broadcast_message X h m) = next_client_id h"
  by (simp_all add: broadcast_message_def frame split: prod.splits)

lemma send_json_frame [frame]:
  "log_of (send_json X ws h i v) = log_of h"
  "push_observations (send_json X ws h i v) = push_observations h"
  "next_client_id (send_json X ws h i v) = next_client_id h"
  by (auto simp: send_json_def Let_def frame split: option.splits prod.splits sum.splits
      try_send_error.splits)

section \<open>The event log\<close>

definition entry_ok :: "('c, 'p) hub_ext \<Rightarrow> replayable_notification \<Rightarrow> bool" where
  "entry_ok X e =
     (\<exists>v. payload e = Text (to_string (hub_json X) v)
        \<and> bytes e = length (to_string (hub_json X) v) \<and> bytes e \<le> NOTIFICATION_MAX_BYTES
        \<and> json_get v ''eventId'' = Some (JInt (int (event_id e))))"

definition log_inv :: "('c, 'p) hub_ext \<Rightarrow> ('c, 'p) client_hub \<Rightarrow> bool" where
  "log_inv X h =
     (let es = entries (replay h); n = next_event_id h in
      0 < capacity (replay h) \<and> max_bytes (replay h) = REPLAY_MAX_BYTES \<and> within_budget (replay h)
      \<and> length es < n \<and> map event_id es = [n - length es ..< n]
      \<and> latest_published_event_id h = n - 1 \<and> (es = [] \<longrightarrow> n = 1)
      \<and> (\<forall>e\<in>set es. entry_ok X e))"

lemma log_inv_cong: "log_of h = log_of h' \<Longrightarrow> log_inv X h \<longleftrightarrow> log_inv X h'"
  by (simp add: log_inv_def log_of_def)

lemma log_inv_new: "0 < cap \<Longrightarrow> log_inv X (with_replay_capacity s p cap)"
  by (simp add: log_inv_def with_replay_capacity_def replay_new_def within_budget_def)

text \<open>What is published fits the size limit of a notification.\<close>

definition publishable :: "('c, 'p) hub_ext \<Rightarrow> ('c, 'p) client_hub \<Rightarrow> str \<Rightarrow> json \<Rightarrow> bool" where
  "publishable X h meth params =
     (next_event_id h + 1 < 2 ^ 64 \<and>
      length (to_string (hub_json X) (published_payload X h meth (next_event_id h) params))
        \<le> NOTIFICATION_MAX_BYTES)"

lemma published_payload_event_id:
  "json_get (published_payload X h meth eid params) ''eventId'' = Some (JInt (int eid))"
  by (simp add: published_payload_def truncated_payload_def notification_payload_def json_get_def
      Let_def)

lemma publish_log:
  assumes "broadcast_external_notification X h meth params = Some h'"
    "next_event_id h + 1 < 2 ^ 64"
  shows "\<exists>r. replay_push (replay h) (next_event_id h)
       (Text (to_string (hub_json X) (published_payload X h meth (next_event_id h) params)))
       (length (to_string (hub_json X) (published_payload X h meth (next_event_id h) params)))
       = Some r
     \<and> log_of h' = (r, next_event_id h + 1, next_event_id h, stream_id h)"
  using assms
  by (auto simp: broadcast_external_notification_def Let_def broadcast_message_frame(1)
      fetch_inc_def split: option.splits) (simp_all add: log_of_def)

lemma suffix_ids:
  assumes "map event_id es = [n - length es ..< n]" "k \<le> length es" "length es < n"
    "event_id e = n"
  shows "map event_id (drop k (es @ [e])) = [n + 1 - length (drop k (es @ [e])) ..< n + 1]"
proof -
  have "map event_id (es @ [e]) = [n - length es ..< n + 1]" using assms(1,4) by simp
  then show ?thesis using assms(2,3) by (simp only: drop_map [symmetric] drop_upt) auto
qed

lemma log_inv_publish:
  assumes inv: "log_inv X h" and fits: "publishable X h meth params"
    and pub: "broadcast_external_notification X h meth params = Some h'"
  shows "log_inv X h'" and "next_event_id h' = next_event_id h + 1"
    and "latest_published_event_id h' = next_event_id h"
    and "\<exists>e\<in>set (entries (replay h')). event_id e = next_event_id h"
proof -
  let ?n = "next_event_id h" and ?es = "entries (replay h)"
  let ?v = "published_payload X h meth ?n params"
  let ?text = "to_string (hub_json X) ?v"
  let ?new = "\<lparr>event_id = ?n, payload = Text ?text, bytes = length ?text\<rparr>"
  have cap: "capacity (replay h) \<noteq> 0" and mx: "max_bytes (replay h) = REPLAY_MAX_BYTES"
    and len: "length ?es < ?n" and ids: "map event_id ?es = [?n - length ?es ..< ?n]"
    and ok: "\<forall>e\<in>set ?es. entry_ok X e"
    using inv by (auto simp: log_inv_def Let_def)
  have size: "length ?text \<le> NOTIFICATION_MAX_BYTES" "?n + 1 < 2 ^ 64"
    using fits by (auto simp: publishable_def)
  have small: "length ?text \<le> max_bytes (replay h)"
    using size by (simp add: mx NOTIFICATION_MAX_BYTES_def REPLAY_MAX_BYTES_def)
  obtain r where r: "replay_push (replay h) ?n (Text ?text) (length ?text) = Some r"
      "log_of h' = (r, ?n + 1, ?n, stream_id h)" using publish_log [OF pub size(2)] by blast
  obtain k where push: "entries r = drop k (?es @ [?new])" "k \<le> length ?es"
    "capacity r = capacity (replay h)" "max_bytes r = max_bytes (replay h)" "within_budget r"
    using replay_push_entries [OF cap small, of ?n "Text ?text"] r(1) by (metis option.inject)
  have "entry_ok X ?new"
    using size published_payload_event_id [of X h meth ?n params]
    by (auto simp: entry_ok_def intro!: exI [of _ ?v])
  then have "\<forall>e\<in>set (entries r). entry_ok X e"
    using ok by (auto simp: push(1) dest: in_set_dropD)
  moreover have "map event_id (entries r) = [?n + 1 - length (entries r) ..< ?n + 1]"
    using suffix_ids [OF ids push(2) len, of ?new] push(1) by simp
  moreover have "length (entries r) < ?n + 1" "entries r \<noteq> []" using push len by auto
  ultimately show "log_inv X h'" "next_event_id h' = ?n + 1" "latest_published_event_id h' = ?n"
    using r(2) cap mx push(3-5) by (auto simp: log_inv_def log_of_def Let_def)
  show "\<exists>e\<in>set (entries (replay h')). event_id e = ?n"
    using push r(2) by (auto simp: log_of_def intro!: bexI [of _ ?new])
qed

text \<open>Publishing never panics.\<close>

lemma publish_total: "\<exists>h'. broadcast_external_notification X h meth params = Some h'"
  using replay_push_total
  by (auto simp: broadcast_external_notification_def Let_def split: option.splits)

section \<open>Catching up\<close>

definition entry_value :: "('c, 'p) hub_ext \<Rightarrow> replayable_notification \<Rightarrow> json" where
  "entry_value X e =
     (case payload e of
        Text t \<Rightarrow> (case from_str (hub_json X) t of Some v \<Rightarrow> v | None \<Rightarrow> JNull)
      | Binary _ \<Rightarrow> JNull)"

lemma newer_consecutive:
  "map event_id es = [a ..< n] \<Longrightarrow> newer after es = drop (Suc after - a) es"
proof (induction es arbitrary: a)
  case (Cons e es)
  have a: "event_id e = a" "a < n" "map event_id es = [Suc a ..< n]"
    using Cons.prems by (auto simp: Cons_eq_upt)
  show ?case
  proof (cases "after < a")
    case True
    have "newer after es = es" using Cons.IH [OF a(3)] True by simp
    then show ?thesis using True a(1) by simp
  next
    case False
    then have "Suc after - a = Suc (Suc after - Suc a)" by simp
    then show ?thesis using Cons.IH [OF a(3)] False a(1) by simp
  qed
qed simp

lemma entry_value_event_id:
  assumes "json_codec (hub_json X)" "entry_ok X e"
  shows "json_get (entry_value X e) ''eventId'' = Some (JInt (int (event_id e)))"
    and "readable (from_str (hub_json X)) (entry_value X) [e]"
  using assms by (auto simp: entry_ok_def entry_value_def readable_def json_codec.parse_print)

lemma replay_snapshot_page:
  fixes after limit :: nat
  assumes codec: "json_codec (hub_json X)" and inv: "log_inv X h"
  defines "p \<equiv> page limit REPLAY_RESPONSE_MAX_BYTES (newer after (entries (replay h)))"
  shows "replay_snapshot X h (Some after) limit =
    Some \<lparr>snap_events = map (entry_value X) p,
          snap_has_more = (length p < length (newer after (entries (replay h)))),
          snap_returned_bytes = total_bytes p,
          snap_earliest_event_id = earliest_event_id (replay h),
          snap_latest_event_id = latest_published_event_id h\<rparr>"
proof -
  let ?es = "entries (replay h)"
  have ok: "\<forall>e\<in>set ?es. entry_ok X e" and b: "total_bytes ?es \<le> REPLAY_MAX_BYTES"
    using inv by (auto simp: log_inv_def Let_def within_budget_def)
  have "readable (from_str (hub_json X)) (entry_value X) (newer after ?es)"
    using entry_value_event_id(2) [OF codec] ok by (auto simp: readable_def newer_def)
  moreover have "total_bytes ?es + 0 \<le> usize_max"
    using b by (simp add: REPLAY_MAX_BYTES_def usize_max_def)
  ultimately show ?thesis
    using since_loop_page [of "from_str (hub_json X)" "entry_value X" after ?es 0 "[]" limit
        REPLAY_RESPONSE_MAX_BYTES]
    by (simp add: replay_snapshot_def replay_since_def Let_def p_def)
qed

lemma page_progress:
  "es \<noteq> [] \<Longrightarrow> 1 \<le> limit \<Longrightarrow> bytes (hd es) \<le> mx \<Longrightarrow> page limit mx es \<noteq> []"
  by (cases es) auto

lemma map_event_id_newer:
  assumes "map event_id es = [a ..< n]" "a \<le> Suc after"
  shows "map event_id (newer after es) = [Suc after ..< n]"
  using assms by (simp add: newer_consecutive [OF assms(1)] drop_map [symmetric] drop_upt)

lemma map_event_id_page:
  assumes "map event_id es = [a ..< n]"
  shows "map event_id (page limit mx es) = [a ..< a + length (page limit mx es)]"
proof -
  let ?k = "length (page limit mx es)"
  have le: "?k \<le> length es" by (metis page_take length_take min.cobounded1)
  have "map event_id (page limit mx es) = take ?k (map event_id es)"
    by (metis page_take take_map)
  moreover have "length es = n - a" using assms by (metis length_map length_upt)
  ultimately show ?thesis using assms le by (cases "?k = 0") (auto simp: take_upt)
qed

lemma log_earliest:
  assumes "log_inv X h" "\<forall>a. earliest_event_id (replay h) = Some a \<longrightarrow> a \<le> Suc after"
  shows "next_event_id h - length (entries (replay h)) \<le> Suc after"
  using assms by (cases "entries (replay h)")
    (auto simp: log_inv_def Let_def earliest_event_id_def Cons_eq_upt)

text \<open>
  The client knows the event \<open>after\<close> and the buffer still reaches back to it: the page holds the
  next events, numbered without a gap, and more is announced exactly when something is left.
\<close>

lemma replay_snapshot_gapless:
  assumes codec: "json_codec (hub_json X)" and inv: "log_inv X h" and limit: "1 \<le> limit"
    and kept: "\<forall>a. earliest_event_id (replay h) = Some a \<longrightarrow> a \<le> Suc after"
    and known: "after < next_event_id h"
  obtains s k where "replay_snapshot X h (Some after) limit = Some s" "length (snap_events s) = k"
    "map (\<lambda>v. json_get v ''eventId'') (snap_events s)
       = map (\<lambda>i. Some (JInt (int i))) [Suc after ..< Suc after + k]"
    "snap_has_more s \<longleftrightarrow> after + k < snap_latest_event_id s"
    "snap_has_more s \<longrightarrow> 0 < k" "k \<le> limit"
    "snap_returned_bytes s \<le> REPLAY_RESPONSE_MAX_BYTES"
proof -
  let ?es = "entries (replay h)" and ?n = "next_event_id h"
  let ?new = "newer after ?es"
  let ?p = "page limit REPLAY_RESPONSE_MAX_BYTES ?new"
  have ids: "map event_id ?es = [?n - length ?es ..< ?n]"
    and latest: "latest_published_event_id h = ?n - 1" and ok: "\<forall>e\<in>set ?es. entry_ok X e"
    using inv by (auto simp: log_inv_def Let_def)
  have new: "map event_id ?new = [Suc after ..< ?n]"
    by (rule map_event_id_newer [OF ids log_earliest [OF inv kept]])
  then have len: "length ?new = ?n - Suc after" by (metis length_map length_upt)
  have pids: "map event_id ?p = [Suc after ..< Suc after + length ?p]"
    by (rule map_event_id_page [OF new])
  have pok: "\<forall>e\<in>set ?p. entry_ok X e"
    using ok page_take [of limit REPLAY_RESPONSE_MAX_BYTES ?new]
    by (metis in_set_takeD newer_def filter_is_subset subsetD)
  have "map (\<lambda>v. json_get v ''eventId'') (map (entry_value X) ?p)
      = map (\<lambda>i. Some (JInt (int i))) (map event_id ?p)"
    using entry_value_event_id(1) [OF codec] pok by simp
  moreover have "?new \<noteq> [] \<Longrightarrow> ?p \<noteq> []"
  proof (rule page_progress [OF _ limit])
    assume "?new \<noteq> []"
    then have "hd ?new \<in> set ?es" by (metis hd_in_set newer_def filter_is_subset subsetD)
    then show "bytes (hd ?new) \<le> REPLAY_RESPONSE_MAX_BYTES"
      using ok by (auto simp: entry_ok_def limit_defs)
  qed
  ultimately show ?thesis
    using replay_snapshot_page [OF codec inv, of after limit] that pids len latest known
      page_limits [of limit REPLAY_RESPONSE_MAX_BYTES ?new] by (fastforce simp del: upt_Suc)
qed

section \<open>The registry of clients\<close>

definition reg_inv :: "('c, 'p) client_hub \<Rightarrow> bool" where
  "reg_inv h =
     (bt_wf (client_infos h) \<and> distinct (clients h)
      \<and> set (clients h) = fst ` set (client_infos h)
      \<and> (\<forall>i\<in>set (clients h). outboxes h i \<noteq> None)
      \<and> (\<forall>(i, c)\<in>set (client_infos h).
           client_id c = i \<and> (foreground c \<longrightarrow> client_type c = MOBILE_CLIENT_TYPE))
      \<and> (\<forall>i out. outboxes h i = Some out \<longrightarrow> i \<notin> set (clients h) \<longrightarrow> cancellation out))"

lemma reg_inv_new: "reg_inv (with_replay_capacity s p cap)"
  by (simp add: reg_inv_def with_replay_capacity_def)

lemma set_fst_bt_remove: "fst ` set (bt_remove i m) = fst ` set m - {i}"
  by (auto simp: bt_remove_def image_iff)

lemma reg_inv_disconnect: "reg_inv h \<Longrightarrow> reg_inv (disconnect_client h i q)"
  by (auto simp: reg_inv_def disconnect_client_def Let_def bt_wf_remove bt_remove_set
      outbox_disconnect_def set_fst_bt_remove distinct_removeAll)

lemma set_fst_bt_insert: "fst ` set (bt_insert k v m) = insert k (fst ` set m)"
  using fst_bt_insert [of k v m] by simp

lemma reg_inv_add:
  assumes "reg_inv h"
  shows "reg_inv (snd (add_client_with_metadata now t h out md))"
proof -
  let ?i = "next_client_id h"
  let ?h = "snd (add_client_with_metadata now t h out md)"
  obtain c where c: "client_infos ?h = bt_insert ?i c (client_infos h)" "client_id c = ?i"
      "foreground c \<longrightarrow> client_type c = MOBILE_CLIENT_TYPE"
    by (auto simp: add_client_with_metadata_def Let_def)
  have cs: "set (clients ?h) = insert ?i (set (clients h))" "distinct (clients ?h)"
    using assms by (auto simp: add_client_with_metadata_def Let_def reg_inv_def)
  have os: "outboxes ?h = (outboxes h)(?i \<mapsto> out)"
    by (simp add: add_client_with_metadata_def Let_def)
  have wf: "bt_wf (client_infos h)" and sets: "set (clients h) = fst ` set (client_infos h)"
    and some: "\<And>i. i \<in> set (clients h) \<Longrightarrow> outboxes h i \<noteq> None"
    and dev: "\<And>i c. (i, c) \<in> set (client_infos h) \<Longrightarrow>
      client_id c = i \<and> (foreground c \<longrightarrow> client_type c = MOBILE_CLIENT_TYPE)"
    and cancelled: "\<And>i out. outboxes h i = Some out \<Longrightarrow> i \<notin> set (clients h) \<Longrightarrow> cancellation out"
    using assms by (auto simp: reg_inv_def)
  show ?thesis
    unfolding reg_inv_def c(1) cs os set_fst_bt_insert sets
    using cs(2) bt_wf_insert [OF wf] some dev cancelled c(2,3)
    by (auto simp: bt_insert_set [OF wf] sets split: if_splits)
qed

lemma set_fst_bt_adjust: "fst ` set (bt_adjust k f m) = fst ` set m"
  by (metis map_fst_bt_adjust set_map)

lemma reg_inv_adjust:
  assumes "reg_inv h"
    and "\<And>c. client_id (f c) = client_id c"
    and "\<And>c. map_of (client_infos h) i = Some c \<Longrightarrow>
      foreground (f c) \<longrightarrow> client_type (f c) = MOBILE_CLIENT_TYPE"
  shows "reg_inv (h\<lparr>client_infos := bt_adjust i f (client_infos h)\<rparr>)"
proof -
  have wf: "bt_wf (client_infos h)"
    and dev: "\<And>j c. (j, c) \<in> set (client_infos h) \<Longrightarrow>
      client_id c = j \<and> (foreground c \<longrightarrow> client_type c = MOBILE_CLIENT_TYPE)"
    using assms(1) by (auto simp: reg_inv_def)
  have "client_id c = j \<and> (foreground c \<longrightarrow> client_type c = MOBILE_CLIENT_TYPE)"
    if c: "(j, c) \<in> set (bt_adjust i f (client_infos h))" for j c
  proof -
    obtain d where d: "(j, d) \<in> set (client_infos h)" "c = (if j = i then f d else d)"
      using c by (auto simp: bt_adjust_set)
    show ?thesis
      using dev [OF d(1)] d assms(2) [of d] assms(3) [of d] bt_entries [OF wf, of j d] by auto
  qed
  with assms(1) show ?thesis
    by (auto simp: reg_inv_def bt_wf_adjust set_fst_bt_adjust)
qed

lemma reg_inv_seen: "reg_inv h \<Longrightarrow> reg_inv (mark_client_seen now h i)"
  unfolding mark_client_seen_def
  by (rule reg_inv_adjust) (auto simp: reg_inv_def bt_entries)

lemma reg_inv_presence:
  "reg_inv h \<Longrightarrow> reg_inv (snd (set_mobile_client_foreground t h i fg n))"
  by (auto simp: set_mobile_client_foreground_def split: option.splits intro!: reg_inv_adjust)

lemma outbox_try_send_cancellation:
  "cancellation (snd (outbox_try_send M out m)) = cancellation out"
  by (auto simp: outbox_try_send_def split: prod.splits)

text \<open>One pass over the clients: every outbox is offered the message once, failures are listed.\<close>

definition offer_failed :: "'c mpsc \<Rightarrow> 'c client_outbox \<Rightarrow> message \<Rightarrow> bool option" where
  "offer_failed M out m =
     (case fst (outbox_try_send M out m) of
        Inr _ \<Rightarrow> None | Inl (Full _) \<Rightarrow> Some True | Inl (Closed _) \<Rightarrow> Some False)"

lemma offer_all_Cons:
  "offer_all M m (i # is) (outs, stale) =
     offer_all M m is
       (case outs i of None \<Rightarrow> (outs, stale)
        | Some out \<Rightarrow> (outs(i \<mapsto> snd (outbox_try_send M out m)),
            stale @ (case offer_failed M out m of None \<Rightarrow> [] | Some q \<Rightarrow> [(i, q)])))"
  by (auto simp: offer_failed_def split: option.splits prod.splits sum.splits
      try_send_error.splits)

lemma offer_all_outs:
  assumes "distinct is" "offer_all M m is (outs, stale) = (outs', stale')"
  shows "outs' i = (if i \<in> set is then map_option (\<lambda>out. snd (outbox_try_send M out m)) (outs i)
           else outs i)"
  using assms
proof (induction "is" arbitrary: outs stale)
  case (Cons j "is")
  show ?case
  proof (cases "outs j")
    case None
    then have "offer_all M m is (outs, stale) = (outs', stale')"
      using Cons.prems(2) by (simp only: offer_all_Cons option.case)
    from Cons.IH [OF _ this] None Cons.prems(1) show ?thesis by simp
  next
    case (Some out)
    let ?new = "case offer_failed M out m of None \<Rightarrow> [] | Some q \<Rightarrow> [(j, q)]"
    have "offer_all M m is (outs(j \<mapsto> snd (outbox_try_send M out m)), stale @ ?new)
        = (outs', stale')"
      using Cons.prems(2) Some by (simp only: offer_all_Cons option.case)
    from Cons.IH [OF _ this] Some Cons.prems(1) show ?thesis by simp
  qed
qed simp

lemma offer_all_stale:
  assumes "distinct is" "offer_all M m is (outs, stale) = (outs', stale')"
  shows "(i, q) \<in> set stale' \<longleftrightarrow> (i, q) \<in> set stale \<or>
      i \<in> set is \<and> (\<exists>out. outs i = Some out \<and> offer_failed M out m = Some q)"
  using assms
proof (induction "is" arbitrary: outs stale)
  case (Cons j "is")
  show ?case
  proof (cases "outs j")
    case None
    then have "offer_all M m is (outs, stale) = (outs', stale')"
      using Cons.prems(2) by (simp only: offer_all_Cons option.case)
    from Cons.IH [OF _ this] None Cons.prems(1) show ?thesis by auto
  next
    case (Some out)
    let ?new = "case offer_failed M out m of None \<Rightarrow> [] | Some q \<Rightarrow> [(j, q)]"
    have "offer_all M m is (outs(j \<mapsto> snd (outbox_try_send M out m)), stale @ ?new)
        = (outs', stale')"
      using Cons.prems(2) Some by (simp only: offer_all_Cons option.case)
    from Cons.IH [OF _ this] Some Cons.prems(1) show ?thesis
      by (cases "i = j") (auto split: option.splits)
  qed
qed simp

lemmas offer_all_spec = offer_all_outs offer_all_stale

lemma fold_disconnect_clients:
  "clients (fold (\<lambda>(i, q) h. disconnect_client h i q) stale h)
     = filter (\<lambda>i. i \<notin> fst ` set stale) (clients h)"
proof (induction stale arbitrary: h)
  case (Cons iq stale)
  have "clients (disconnect_client h i q) = filter (\<lambda>j. j \<noteq> i) (clients h)" for i q
    by (auto simp: disconnect_client_def Let_def removeAll_filter_not_eq intro!: filter_cong
        filter_True [symmetric])
  with Cons show ?case by (cases iq) (auto intro!: filter_cong)
qed simp

lemma fold_disconnect_outbox:
  "i \<notin> fst ` set stale \<Longrightarrow>
     outboxes (fold (\<lambda>(i, q) h. disconnect_client h i q) stale h) i = outboxes h i"
proof (induction stale arbitrary: h)
  case (Cons jq stale)
  have "i \<noteq> j \<Longrightarrow> outboxes (disconnect_client h j q) i = outboxes h i" for j q h
    by (simp add: disconnect_client_def Let_def)
  with Cons show ?case by (cases jq) auto
qed simp

lemma reg_inv_fold_disconnect:
  "reg_inv h \<Longrightarrow> reg_inv (fold (\<lambda>(i, q) h. disconnect_client h i q) stale h)"
  by (induction stale arbitrary: h) (auto simp: reg_inv_disconnect)

lemma reg_inv_set_outboxes:
  assumes "reg_inv h" "\<And>i. f i = None \<longleftrightarrow> outboxes h i = None"
    "\<And>i. i \<notin> set (clients h) \<Longrightarrow> f i = outboxes h i"
  shows "reg_inv (h\<lparr>outboxes := f\<rparr>)"
  using assms by (auto simp: reg_inv_def)

lemma reg_inv_broadcast:
  assumes "reg_inv h"
  shows "reg_inv (broadcast_message X h m)"
proof -
  obtain outs stale where o: "offer_all (hub_mpsc X) m (clients h) (outboxes h, []) = (outs, stale)"
    by fastforce
  have "distinct (clients h)" using assms by (simp add: reg_inv_def)
  note outs = offer_all_spec(1) [OF this o]
  have "reg_inv (h\<lparr>outboxes := outs\<rparr>)"
    by (rule reg_inv_set_outboxes [OF assms]) (auto simp: outs)
  then show ?thesis by (simp add: broadcast_message_def o reg_inv_fold_disconnect)
qed

lemma broadcast_message_clients:
  assumes "reg_inv h"
  shows "i \<in> set (clients (broadcast_message X h m)) \<longleftrightarrow>
      i \<in> set (clients h) \<and> (\<exists>out. outboxes h i = Some out \<and> offer_failed (hub_mpsc X) out m = None)"
    and "i \<in> set (clients (broadcast_message X h m)) \<Longrightarrow> outboxes h i = Some out \<Longrightarrow>
      outboxes (broadcast_message X h m) i = Some (snd (outbox_try_send (hub_mpsc X) out m))"
proof -
  obtain outs stale where o: "offer_all (hub_mpsc X) m (clients h) (outboxes h, []) = (outs, stale)"
    by fastforce
  have d: "distinct (clients h)" and some: "\<And>i. i \<in> set (clients h) \<Longrightarrow> outboxes h i \<noteq> None"
    using assms by (auto simp: reg_inv_def)
  note spec = offer_all_spec [OF d o]
  have stale_iff: "i \<in> fst ` set stale \<longleftrightarrow> (\<exists>q. i \<in> set (clients h) \<and>
      (\<exists>out. outboxes h i = Some out \<and> offer_failed (hub_mpsc X) out m = Some q))"
  proof -
    have "i \<in> fst ` set stale \<longleftrightarrow> (\<exists>q. (i, q) \<in> set stale)" by force
    then show ?thesis by (simp only: spec(2) list.set empty_iff simp_thms)
  qed
  have c: "clients (broadcast_message X h m) = filter (\<lambda>i. i \<notin> fst ` set stale) (clients h)"
    by (simp add: broadcast_message_def o fold_disconnect_clients)
  have "i \<in> fst ` set stale \<longleftrightarrow>
      i \<in> set (clients h) \<and> (\<exists>out q. outboxes h i = Some out \<and> offer_failed (hub_mpsc X) out m = Some q)"
    unfolding stale_iff by blast
  then show "i \<in> set (clients (broadcast_message X h m)) \<longleftrightarrow>
      i \<in> set (clients h) \<and> (\<exists>out. outboxes h i = Some out \<and> offer_failed (hub_mpsc X) out m = None)"
    using some [of i] by (auto simp: c)
  show "outboxes (broadcast_message X h m) i = Some (snd (outbox_try_send (hub_mpsc X) out m))"
    if "i \<in> set (clients (broadcast_message X h m))" "outboxes h i = Some out"
  proof -
    have "i \<in> set (clients h)" "i \<notin> fst ` set stale" using that(1) by (auto simp: c)
    then show ?thesis using that(2) fold_disconnect_outbox [of i stale "h\<lparr>outboxes := outs\<rparr>"]
      by (simp add: broadcast_message_def o spec(1))
  qed
qed

lemma disconnect_keeps_outbox: "outboxes (disconnect_client h i q) j = None \<longleftrightarrow> outboxes h j = None"
  by (simp add: disconnect_client_def Let_def)

lemma fold_disconnect_keeps_outbox:
  "outboxes (fold (\<lambda>(i, q) h. disconnect_client h i q) stale h) j = None \<longleftrightarrow> outboxes h j = None"
  by (induction stale arbitrary: h) (auto simp: disconnect_keeps_outbox)

lemma broadcast_message_keeps_outbox:
  assumes "reg_inv h" "outboxes h i \<noteq> None"
  shows "outboxes (broadcast_message X h m) i \<noteq> None"
proof -
  obtain outs stale where o: "offer_all (hub_mpsc X) m (clients h) (outboxes h, []) = (outs, stale)"
    by fastforce
  have "distinct (clients h)" using assms(1) by (simp add: reg_inv_def)
  from offer_all_outs [OF this o, of i] assms(2) show ?thesis
    by (simp add: broadcast_message_def o fold_disconnect_keeps_outbox)
qed

section \<open>Push observations\<close>

definition obs_inv :: "push_observation_tracker \<Rightarrow> bool" where
  "obs_inv t =
     (distinct (obs_entries t) \<and> distinct (obs_order t) \<and> set (obs_order t) = set (obs_entries t)
      \<and> length (obs_entries t) \<le> PUSH_OBSERVATION_LIMIT)"

lemma evict_observations_spec:
  assumes "distinct es" "distinct order" "set order = set es"
    "evict_observations es order = (es', order')"
  shows "distinct es' \<and> distinct order' \<and> set order' = set es' \<and> set es' \<subseteq> set es
    \<and> length es' < PUSH_OBSERVATION_LIMIT"
  using assms
proof (induction es order rule: evict_observations.induct)
  case (2 es oldest order)
  show ?case
  proof (cases "PUSH_OBSERVATION_LIMIT \<le> length es")
    case True
    have "set order = set (removeAll oldest es)" using 2(3,4) by auto
    with 2 True show ?thesis by (auto simp: distinct_removeAll)
  next
    case False
    then have "es' = es \<and> order' = oldest # order" using "2.prems"(4) by simp
    with False "2.prems"(1-3) show ?thesis by simp
  qed
qed (auto simp: PUSH_OBSERVATION_LIMIT_def)

lemma obs_inv_prepare:
  assumes "obs_inv t"
  shows "obs_inv (prepare_push_observation t cand)"
proof (cases "cand \<in> set (obs_entries t)")
  case False
  obtain es order where e: "evict_observations (obs_entries t) (obs_order t) = (es, order)"
    by fastforce
  have "distinct es \<and> distinct order \<and> set order = set es \<and> set es \<subseteq> set (obs_entries t)
      \<and> length es < PUSH_OBSERVATION_LIMIT"
    using evict_observations_spec [OF _ _ _ e] assms by (simp add: obs_inv_def)
  with False show ?thesis by (auto simp: prepare_push_observation_def e obs_inv_def)
qed (use assms in \<open>simp add: prepare_push_observation_def\<close>)

lemma prepare_push_observation_entry: "cand \<in> set (obs_entries (prepare_push_observation t cand))"
  by (auto simp: prepare_push_observation_def split: prod.splits)

lemma obs_inv_drop: "obs_inv t \<Longrightarrow> obs_inv (drop_observation t cand)"
  by (auto simp: obs_inv_def drop_observation_def distinct_removeAll
      intro: order_trans [OF length_removeAll_less_eq])

lemma obs_inv_observed: "obs_inv (t\<lparr>obs_observed := f\<rparr>) \<longleftrightarrow> obs_inv t"
  by (simp add: obs_inv_def)

lemma obs_inv_observe:
  "obs_inv (push_observations h) \<Longrightarrow>
     obs_inv (push_observations (snd (observe_push_candidate t h i cand n)))"
  by (auto simp: observe_push_candidate_def Let_def obs_inv_observed split: option.splits)

section \<open>Presence\<close>

text \<open>The presence data of one client after a run of reports: a report counts if its number is higher.\<close>

definition apply_report ::
  "bridge_device_connection \<Rightarrow> nat \<times> bool \<times> nat \<Rightarrow> bridge_device_connection" where
  "apply_report c r =
     (case r of (t, fg, n) \<Rightarrow>
        if n \<le> foreground_sequence c then c
        else c\<lparr>foreground := fg, foreground_sequence := n, foreground_updated_at := t\<rparr>)"

lemma presence_step:
  assumes "map_of (client_infos h) i = Some c" "client_type c = MOBILE_CLIENT_TYPE"
  shows "map_of (client_infos (snd (set_mobile_client_foreground t h i fg n))) i
    = Some (apply_report c (t, fg, n))"
  using assms by (auto simp: set_mobile_client_foreground_def apply_report_def map_of_bt_adjust)

lemma apply_report_type [simp]: "client_type (apply_report c r) = client_type c"
  by (simp add: apply_report_def split: prod.splits)

lemma presence_run:
  assumes "map_of (client_infos h) i = Some c" "client_type c = MOBILE_CLIENT_TYPE"
  shows "map_of (client_infos (fold (\<lambda>(t, fg, n) h. snd (set_mobile_client_foreground t h i fg n))
        rs h)) i = Some (foldl apply_report c rs)"
  using assms by (induction rs arbitrary: h c) (auto simp: presence_step)

lemma foldl_report_settled:
  "\<forall>(t, fg, n) \<in> set rs. n \<le> foreground_sequence c \<Longrightarrow> foldl apply_report c rs = c"
  by (induction rs) (auto simp: apply_report_def)

lemma foldl_report_sequence:
  "\<forall>(t, fg, n) \<in> set rs. n < m \<Longrightarrow> foreground_sequence c < m \<Longrightarrow>
     foreground_sequence (foldl apply_report c rs) < m"
  by (induction rs arbitrary: c) (auto simp: apply_report_def)

lemma foldl_report_type [simp]: "client_type (foldl apply_report c rs) = client_type c"
  by (induction rs arbitrary: c) auto

lemma presence_run_newest:
  assumes "map_of (client_infos h) i = Some c" "client_type c = MOBILE_CLIENT_TYPE"
    and "distinct (map (\<lambda>(t, fg, n). n) reports)" "(t, fg, n) \<in> set reports"
    and "foreground_sequence c < n" "\<forall>(t', fg', n') \<in> set reports. n' \<le> n"
  shows "\<exists>c'. map_of (client_infos (fold (\<lambda>(t, fg, n) h. snd (set_mobile_client_foreground t h i fg n))
        reports h)) i = Some c'
     \<and> foreground c' = fg \<and> foreground_sequence c' = n \<and> foreground_updated_at c' = t
     \<and> client_type c' = MOBILE_CLIENT_TYPE"
proof -
  obtain as bs where rs: "reports = as @ (t, fg, n) # bs" using assms(4) by (meson split_list)
  let ?c1 = "foldl apply_report c as"
  have fresh: "n \<notin> (\<lambda>(t, fg, n). n) ` set as" using assms(3) by (simp add: rs)
  have "n' < n" if r: "(t', fg', n') \<in> set as" for t' fg' n'
  proof -
    have "n' \<noteq> n" using fresh r by force
    moreover have "n' \<le> n" using bspec [OF assms(6), of "(t', fg', n')"] r by (simp add: rs)
    ultimately show ?thesis by simp
  qed
  then have "\<forall>(t', fg', n') \<in> set as. n' < n" by blast
  then have "foreground_sequence ?c1 < n" using foldl_report_sequence assms(5) by blast
  then have c2: "apply_report ?c1 (t, fg, n)
      = ?c1\<lparr>foreground := fg, foreground_sequence := n, foreground_updated_at := t\<rparr>"
    by (simp add: apply_report_def)
  have "foldl apply_report (apply_report ?c1 (t, fg, n)) bs = apply_report ?c1 (t, fg, n)"
    by (rule foldl_report_settled) (use assms(6) rs c2 in auto)
  then have "foldl apply_report c reports
      = ?c1\<lparr>foreground := fg, foreground_sequence := n, foreground_updated_at := t\<rparr>"
    using c2 by (simp add: rs)
  then show ?thesis using presence_run [OF assms(1,2), of reports] assms(2) by simp
qed

section \<open>Canonical events\<close>

fun publishable_all ::
  "('c, 'p) hub_ext \<Rightarrow> (str \<times> json) list \<Rightarrow> ('c, 'p) client_hub \<Rightarrow> bool" where
  "publishable_all X [] h = True"
| "publishable_all X ((meth, params) # ns) h =
     (publishable X h meth params \<and>
      (case broadcast_external_notification X h meth params of
         None \<Rightarrow> False | Some h' \<Rightarrow> publishable_all X ns h'))"

lemma reg_inv_publish:
  "reg_inv h \<Longrightarrow> broadcast_external_notification X h meth params = Some h' \<Longrightarrow> reg_inv h'"
  by (auto simp: broadcast_external_notification_def Let_def reg_inv_def [of "_\<lparr>next_event_id := _,
        replay := _, latest_published_event_id := _\<rparr>"] reg_inv_def [of h]
      intro!: reg_inv_broadcast split: option.splits)

lemma publish_frame [frame]:
  assumes "broadcast_external_notification X h meth params = Some h'"
  shows "push_observations h' = push_observations h"
    "canonical_subscribers h' = canonical_subscribers h" "next_client_id h' = next_client_id h"
  using assms by (auto simp: broadcast_external_notification_def Let_def frame split: option.splits)

definition hub_inv :: "('c, 'p) hub_ext \<Rightarrow> ('c, 'p) client_hub \<Rightarrow> bool" where
  "hub_inv X h = (log_inv X h \<and> reg_inv h \<and> obs_inv (push_observations h))"

lemma broadcast_each_inv:
  assumes "publishable_all X ns h" "hub_inv X h"
  shows "\<exists>h'. broadcast_each X ns h = Some h' \<and> hub_inv X h'
    \<and> next_event_id h' = next_event_id h + length ns
    \<and> push_observations h' = push_observations h
    \<and> canonical_subscribers h' = canonical_subscribers h"
  using assms
proof (induction X ns h rule: broadcast_each.induct)
  case (2 X meth params ns h)
  then obtain h1 where h1: "broadcast_external_notification X h meth params = Some h1"
      "publishable_all X ns h1" "publishable X h meth params"
    by (auto split: option.splits)
  have "hub_inv X h1" "next_event_id h1 = next_event_id h + 1"
    using log_inv_publish [OF _ h1(3,1)] reg_inv_publish [OF _ h1(1)] publish_frame [OF h1(1)]
      "2.prems"(2) by (auto simp: hub_inv_def)
  then show ?case
    using "2.IH" [OF h1(1,2)] h1(1) publish_frame [OF h1(1)] by auto
qed simp

lemma hub_inv_offer_push_candidate:
  assumes "hub_inv X h"
  shows "hub_inv X (offer_push_candidate X eid ty h)"
    "eid \<in> set (obs_entries (push_observations (offer_push_candidate X eid ty h)))"
    "next_event_id (offer_push_candidate X eid ty h) = next_event_id h"
    "canonical_subscribers (offer_push_candidate X eid ty h) = canonical_subscribers h"
proof -
  let ?h1 = "h\<lparr>push_observations := prepare_push_observation (push_observations h) eid\<rparr>"
  obtain m where m: "offer_push_candidate X eid ty h = broadcast_message X ?h1 m"
    by (simp add: offer_push_candidate_def broadcast_ephemeral_notification_def Let_def)
  have "reg_inv ?h1" using assms by (simp add: hub_inv_def reg_inv_def)
  moreover have "log_of (broadcast_message X ?h1 m) = log_of h"
    using broadcast_message_frame(1) [of X ?h1 m] by (simp add: log_of_def)
  ultimately show "hub_inv X (offer_push_candidate X eid ty h)"
      "next_event_id (offer_push_candidate X eid ty h) = next_event_id h"
    using assms log_inv_cong [of "broadcast_message X ?h1 m" h X]
    by (auto simp: m hub_inv_def reg_inv_broadcast broadcast_message_frame obs_inv_prepare log_of_def)
  show "eid \<in> set (obs_entries (push_observations (offer_push_candidate X eid ty h)))"
    "canonical_subscribers (offer_push_candidate X eid ty h) = canonical_subscribers h"
    by (simp_all add: m broadcast_message_frame prepare_push_observation_entry)
qed

lemma hub_inv_fields:
  "hub_inv X (h\<lparr>next_canonical_event_id := a\<rparr>) \<longleftrightarrow> hub_inv X h"
  "hub_inv X (h\<lparr>ag_ui_projector := p\<rparr>) \<longleftrightarrow> hub_inv X h"
  "hub_inv X (h\<lparr>canonical_subscribers := ss\<rparr>) \<longleftrightarrow> hub_inv X h"
  by (simp_all add: hub_inv_def log_inv_def reg_inv_def)

definition canonical_batch ::
  "('c, 'p) hub_ext \<Rightarrow> ('c, 'p) client_hub \<Rightarrow> canonical_event \<Rightarrow> (str \<times> json) list" where
  "canonical_batch X h event =
     (case project_canonical X (ag_ui_projector h) event of
        (_, envelopes, controls) \<Rightarrow> map (\<lambda>v. (AG_UI_EVENT_METHOD, v)) envelopes @ controls)"

definition before_batch ::
  "('c, 'p) hub_ext \<Rightarrow> ('c, 'p) client_hub \<Rightarrow> canonical_event \<Rightarrow> ('c, 'p) client_hub" where
  "before_batch X h event =
     h\<lparr>next_canonical_event_id := fetch_inc (next_canonical_event_id h),
       ag_ui_projector := fst (project_canonical X (ag_ui_projector h) event)\<rparr>"

lemma broadcast_canonical_event_inv:
  assumes inv: "hub_inv X h"
    and fits: "publishable_all X (canonical_batch X h event) (before_batch X h event)"
  obtains h' where "broadcast_canonical_event X t h event = Some h'" "hub_inv X h'"
    "next_event_id h' = next_event_id h + length (canonical_batch X h event)"
    "push_candidate_event_type event \<noteq> None \<and> canonical_batch X h event \<noteq> [] \<Longrightarrow>
       next_canonical_event_id h \<in> set (obs_entries (push_observations h'))"
    "canonical_subscribers h' =
       map (\<lambda>s. s\<lparr>sub_events := sub_events s @
              [\<lparr>che_event_id = next_canonical_event_id h, che_event = event,
                che_foreground_mobile_present = has_foreground_mobile_client t h\<rparr>]\<rparr>)
         (filter (\<lambda>s. \<not> sub_closed s) (canonical_subscribers h))"
proof -
  obtain p envs ctrls where pr: "project_canonical X (ag_ui_projector h) event = (p, envs, ctrls)"
    by (metis prod_cases3)
  let ?h0 = "before_batch X h event"
  let ?e = "\<lparr>che_event_id = next_canonical_event_id h, che_event = event,
              che_foreground_mobile_present = has_foreground_mobile_client t h\<rparr>"
  have inv0: "hub_inv X ?h0" using inv by (simp add: before_batch_def hub_inv_fields)
  obtain h1 where h1: "broadcast_each X (canonical_batch X h event) ?h0 = Some h1" "hub_inv X h1"
      "next_event_id h1 = next_event_id ?h0 + length (canonical_batch X h event)"
      "canonical_subscribers h1 = canonical_subscribers ?h0"
    using broadcast_each_inv [OF fits inv0] by blast
  define h2 where "h2 = (case push_candidate_event_type event of
      Some ty \<Rightarrow> if envs \<noteq> [] \<or> ctrls \<noteq> []
                 then offer_push_candidate X (next_canonical_event_id h) ty h1 else h1
    | None \<Rightarrow> h1)"
  let ?h' = "h2\<lparr>canonical_subscribers := filter (\<lambda>s. \<not> sub_closed s)
        (map (notify_subscriber ?e) (canonical_subscribers h2))\<rparr>"
  have run: "broadcast_canonical_event X t h event = Some ?h'"
    using h1(1) pr
    by (simp add: broadcast_canonical_event_def Let_def before_batch_def canonical_batch_def h2_def
        has_foreground_mobile_client_def)
  have h2: "hub_inv X h2" "next_event_id h2 = next_event_id h1"
      "canonical_subscribers h2 = canonical_subscribers h1"
    using hub_inv_offer_push_candidate [OF h1(2)] h1(2)
    by (auto simp: h2_def split: option.splits)
  have push: "push_candidate_event_type event \<noteq> None \<and> canonical_batch X h event \<noteq> [] \<Longrightarrow>
      next_canonical_event_id h \<in> set (obs_entries (push_observations h2))"
    using hub_inv_offer_push_candidate(2) [OF h1(2)] pr
    by (auto simp: h2_def canonical_batch_def split: option.splits)
  have subs: "filter (\<lambda>s. \<not> sub_closed s) (map (notify_subscriber ?e) ss)
      = map (\<lambda>s. s\<lparr>sub_events := sub_events s @ [?e]\<rparr>) (filter (\<lambda>s. \<not> sub_closed s) ss)" for ss
    by (induction ss) (auto simp: notify_subscriber_def)
  show ?thesis
    by (rule that [OF run])
       (use h1 h2 push subs in \<open>simp_all add: hub_inv_fields before_batch_def\<close>)
qed

lemma hub_inv_send_json:
  assumes "hub_inv X h"
  shows "hub_inv X (send_json X ws h i v)"
proof -
  have set_out: "reg_inv (h\<lparr>outboxes := (outboxes h)(i \<mapsto> out)\<rparr>)" if "i \<in> set (clients h)" for out
    using assms that by (intro reg_inv_set_outboxes) (auto simp: hub_inv_def reg_inv_def)
  have "reg_inv h" using assms by (simp add: hub_inv_def)
  then have "reg_inv (send_json X ws h i v)"
    by (auto simp: send_json_def Let_def split: option.splits prod.splits sum.splits
        try_send_error.splits if_splits intro!: reg_inv_disconnect set_out)
  then show ?thesis
    using assms by (simp add: hub_inv_def send_json_frame log_inv_cong [OF send_json_frame(1)])
qed

section \<open>Reachable hubs\<close>

text \<open>
  One step of the bridge on the hub. \<open>drain\<close> is the WebSocket task taking a message out of the
  outbox of a registered client; a step that publishes names a notification that fits.
\<close>

inductive hub_step :: "('c, 'p) hub_ext \<Rightarrow> ('c, 'p) client_hub \<Rightarrow> ('c, 'p) client_hub \<Rightarrow> bool"
  for X where
  connect: "hub_step X h (snd (add_client_with_metadata now t h out md))"
| disconnect: "hub_step X h (disconnect_client h i q)"
| seen: "hub_step X h (mark_client_seen now h i)"
| presence: "hub_step X h (snd (set_mobile_client_foreground t h i fg n))"
| observe: "hub_step X h (snd (observe_push_candidate t h i cand n))"
| discard: "hub_step X h (discard_push_observation h cand)"
| prepare: "hub_step X h (h\<lparr>push_observations := prepare_push_observation (push_observations h) cand\<rparr>)"
| subscribe: "hub_step X h (subscribe_canonical_events h)"
| broadcast: "hub_step X h (broadcast_message X h m)"
| publish: "publishable X h meth params \<Longrightarrow>
    broadcast_external_notification X h meth params = Some h' \<Longrightarrow> hub_step X h h'"
| send: "hub_step X h (send_json X ws h i v)"
| canonical: "publishable_all X (canonical_batch X h event) (before_batch X h event) \<Longrightarrow>
    broadcast_canonical_event X t h event = Some h' \<Longrightarrow> hub_step X h h'"
| drain: "i \<in> set (clients h) \<Longrightarrow> outboxes h i = Some out \<Longrightarrow>
    hub_step X h (h\<lparr>outboxes := (outboxes h)(i \<mapsto> snd (outbox_recv M out))\<rparr>)"

inductive hub_reachable :: "('c, 'p) hub_ext \<Rightarrow> ('c, 'p) client_hub \<Rightarrow> bool" for X where
  start: "hub_reachable X (hub_new stream projector)"
| step: "hub_reachable X h \<Longrightarrow> hub_step X h h' \<Longrightarrow> hub_reachable X h'"

lemma hub_step_inv: "hub_step X h h' \<Longrightarrow> hub_inv X h \<Longrightarrow> hub_inv X h'"
proof (induction rule: hub_step.induct)
  case (connect h now t out md)
  then show ?case
    using reg_inv_add [of h now t out md]
    by (simp add: hub_inv_def log_inv_def add_client_with_metadata_def Let_def)
next
  case (disconnect h i q)
  then show ?case
    by (simp add: hub_inv_def reg_inv_disconnect disconnect_client_frame
        log_inv_cong [OF disconnect_client_frame(1)])
next
  case (seen h now i)
  then show ?case
    using reg_inv_seen [of h now i] by (simp add: hub_inv_def log_inv_def mark_client_seen_def)
next
  case (presence h t i fg n)
  then show ?case
    using reg_inv_presence [of h t i fg n]
    by (auto simp: hub_inv_def log_inv_def set_mobile_client_foreground_def split: option.splits)
next
  case (observe h t i cand n)
  then show ?case
    using obs_inv_observe [of h t i cand n]
    by (auto simp: hub_inv_def log_inv_def reg_inv_def observe_push_candidate_def Let_def
        split: option.splits)
next
  case (broadcast h m)
  then show ?case
    by (simp add: hub_inv_def reg_inv_broadcast broadcast_message_frame
        log_inv_cong [OF broadcast_message_frame(1)])
next
  case (publish h meth params h')
  then show ?case
    using log_inv_publish(1) [of X h meth params h'] reg_inv_publish [of h X meth params h']
      publish_frame(1) [of X h meth params h'] by (simp add: hub_inv_def)
next
  case (canonical h event t h')
  then show ?case using broadcast_canonical_event_inv by (metis option.inject)
next
  case (drain i h out M)
  then have "reg_inv (h\<lparr>outboxes := (outboxes h)(i \<mapsto> snd (outbox_recv M out))\<rparr>)"
    by (intro reg_inv_set_outboxes) (auto simp: hub_inv_def)
  with drain show ?case by (simp add: hub_inv_def log_inv_def)
qed (auto simp: hub_inv_send_json, auto simp: hub_inv_def log_inv_def reg_inv_def obs_inv_drop
      obs_inv_prepare discard_push_observation_def subscribe_canonical_events_def)

lemma hub_reachable_inv: "hub_reachable X h \<Longrightarrow> hub_inv X h"
proof (induction rule: hub_reachable.induct)
  case (start stream projector)
  show ?case
    by (simp add: hub_inv_def hub_new_def log_inv_new reg_inv_new NOTIFICATION_REPLAY_BUFFER_SIZE_def)
       (simp add: with_replay_capacity_def obs_inv_def)
next
  case (step h h')
  then show ?case using hub_step_inv by blast
qed

end
