(* ===== verification/Hub_Guarantees.thy ===== *)
theory Hub_Guarantees
  imports Client_Hub_Props
begin

text \<open>
  The guarantees of the notification hub, stated for every hub the bridge can reach: gapless
  catch-up, delivery of a broadcast, consistency of the client registry, presence by the newest
  report, bounded push observations and the publication of a canonical event. The witnesses use
  the concrete channel \<open>list_mpsc\<close> and text format \<open>plain_json\<close>.
\<close>

section \<open>A concrete hub\<close>

definition demo_ext :: "(list_channel, unit) hub_ext" where
  "demo_ext = \<lparr>hub_mpsc = list_mpsc, hub_json = plain_json,
     project_canonical = (\<lambda>_ _. ((), [JObject [(''type'', JString ''RUN_FINISHED'')]], []))\<rparr>"

definition demo_hub :: "(list_channel, unit) client_hub" where
  "demo_hub = hub_new ''s'' ()"

definition demo_connected :: "(list_channel, unit) client_hub" where
  "demo_connected = snd (add_client_with_metadata ''now'' 0 demo_hub (client_outbox list_mpsc 1)
     \<lparr>md_client_type = ''mobile'', md_client_name = ''phone'', md_foreground = True\<rparr>)"

lemma demo_codec: "json_codec (hub_json demo_ext)"
  by (simp add: demo_ext_def plain.json_codec_axioms)

lemma demo_channel: "bounded_channel (hub_mpsc demo_ext) chan_queue chan_size chan_receiver_dropped"
  by (simp add: demo_ext_def lch.bounded_channel_axioms)

lemma demo_reachable: "hub_reachable demo_ext demo_hub"
  unfolding demo_hub_def by (rule hub_reachable.start)

lemma demo_connected_reachable: "hub_reachable demo_ext demo_connected"
  unfolding demo_connected_def by (rule hub_reachable.step [OF demo_reachable hub_step.connect])

lemma demo_connected_client:
  "clients demo_connected = [Suc 0]"
  "outboxes demo_connected (Suc 0) = Some (client_outbox list_mpsc 1)"
  by (simp_all add: demo_connected_def add_client_with_metadata_def Let_def demo_hub_def hub_new_def
      with_replay_capacity_def)

lemma demo_publishable: "publishable demo_ext demo_hub ''m'' JNull"
  by (simp add: publishable_def published_payload_def notification_payload_def demo_ext_def
      plain_json_def demo_hub_def hub_new_def with_replay_capacity_def enc_str_def enc_nat.simps
      limit_defs Let_def)


section \<open>Properties\<close>

text \<open>
  C1: a client that has seen the events up to \<open>after\<close> catches up without a gap. As long as the
  buffer still reaches back to its position, a page of the replay is exactly the run of the next
  event numbers, it fits the entry and byte limits, more is announced exactly when something newer
  was published, and then the page is not empty, so repeating the request ends.
\<close>

theorem hub_replay_gapless:
  assumes "json_codec (hub_json X)" "hub_reachable X h" "1 \<le> limit"
    and "\<forall>a. earliest_event_id (replay h) = Some a \<longrightarrow> a \<le> Suc after"
    and "after < next_event_id h"
  shows "\<exists>s k. replay_snapshot X h (Some after) limit = Some s \<and> length (snap_events s) = k
    \<and> map (\<lambda>v. json_get v ''eventId'') (snap_events s)
        = map (\<lambda>i. Some (JInt (int i))) [Suc after ..< Suc after + k]
    \<and> (snap_has_more s \<longleftrightarrow> after + k < snap_latest_event_id s)
    \<and> (snap_has_more s \<longrightarrow> 0 < k) \<and> k \<le> limit
    \<and> snap_returned_bytes s \<le> REPLAY_RESPONSE_MAX_BYTES"
proof -
  have "log_inv X h" using hub_reachable_inv [OF assms(2)] by (simp add: hub_inv_def)
  then show ?thesis
    by (rule replay_snapshot_gapless [OF assms(1) _ assms(3-5)]) (intro exI conjI; assumption)
qed

theorem hub_replay_gapless_witness:
  "\<exists>h s. broadcast_external_notification demo_ext demo_hub ''m'' JNull = Some h
     \<and> replay_snapshot demo_ext h (Some 0) 5 = Some s
     \<and> (snap_has_more s \<longleftrightarrow> 0 + length (snap_events s) < snap_latest_event_id s)"
proof -
  obtain h where h: "broadcast_external_notification demo_ext demo_hub ''m'' JNull = Some h"
    using publish_total by blast
  have r: "hub_reachable demo_ext h"
    by (rule hub_reachable.step [OF demo_reachable hub_step.publish [OF demo_publishable h]])
  have inv: "log_inv demo_ext demo_hub"
    using hub_reachable_inv [OF demo_reachable] by (simp add: hub_inv_def)
  have n: "next_event_id h = 2"
    using log_inv_publish(2) [OF inv demo_publishable h]
    by (simp add: demo_hub_def hub_new_def with_replay_capacity_def)
  have "a \<le> Suc 0" if "earliest_event_id (replay h) = Some a" for a
    using log_inv_publish(1) [OF inv demo_publishable h] that n
    by (auto simp: log_inv_def Let_def earliest_event_id_def numeral_2_eq_2 split: list.splits)
  then show ?thesis
    using hub_replay_gapless [OF demo_codec r, of 5 0] n h by auto
qed

text \<open>
  C2: a broadcast reaches every connected client or disconnects it. A client stays registered
  exactly when its outbox was not cancelled, its receiver is alive and there was room, and then
  the message is the new last one of its queue; a client that could not take the message is
  removed and its outbox accepts nothing any more.
\<close>

theorem hub_broadcast_delivers_or_disconnects:
  assumes "bounded_channel (hub_mpsc X) queued size_of dropped" "hub_reachable X h"
    and "i \<in> set (clients h)" "outboxes h i = Some out"
  shows "let h' = broadcast_message X h m; accepts = (\<not> cancellation out \<and> \<not> dropped (sender out)
           \<and> length (queued (sender out)) < size_of (sender out)) in
    (i \<in> set (clients h') \<longleftrightarrow> accepts) \<and>
    (\<exists>out'. outboxes h' i = Some out' \<and>
       (if accepts then queued (sender out') = queued (sender out) @ [m] else cancellation out'))"
proof -
  let ?M = "hub_mpsc X" and ?h = "broadcast_message X h m"
  let ?accepts = "\<not> cancellation out \<and> \<not> dropped (sender out)
           \<and> length (queued (sender out)) < size_of (sender out)"
  have inv: "reg_inv h" using hub_reachable_inv [OF assms(2)] by (simp add: hub_inv_def)
  have reg: "reg_inv ?h" by (rule reg_inv_broadcast [OF inv])
  have acc: "offer_failed ?M out m = None \<longleftrightarrow> ?accepts" and
    q: "?accepts \<Longrightarrow> queued (sender (snd (outbox_try_send ?M out m))) = queued (sender out) @ [m]"
    by (cases rule: bounded_channel.try_send_cases [OF assms(1), of "sender out" m];
        auto simp: offer_failed_def outbox_try_send_def)+
  have stays: "i \<in> set (clients ?h) \<longleftrightarrow> ?accepts"
    using broadcast_message_clients(1) [OF inv, of i X m] assms(3,4) acc by auto
  have "\<exists>out'. outboxes ?h i = Some out' \<and>
       (if ?accepts then queued (sender out') = queued (sender out) @ [m] else cancellation out')"
  proof (cases ?accepts)
    case True
    then show ?thesis using broadcast_message_clients(2) [OF inv _ assms(4), of X m] stays q by auto
  next
    case False
    have "outboxes ?h i \<noteq> None" by (rule broadcast_message_keeps_outbox [OF inv]) (simp add: assms(4))
    with False stays reg show ?thesis by (auto simp: reg_inv_def)
  qed
  with stays show ?thesis by (simp add: Let_def)
qed

theorem hub_broadcast_delivers_or_disconnects_witness:
  "let h1 = broadcast_message demo_ext demo_connected (Text ''a'');
       h2 = broadcast_message demo_ext h1 (Text ''b'')
   in 1 \<in> set (clients h1) \<and> 1 \<notin> set (clients h2)
    \<and> (\<exists>out. outboxes h2 1 = Some out \<and> cancellation out)"
proof -
  let ?h1 = "broadcast_message demo_ext demo_connected (Text ''a'')"
  let ?h2 = "broadcast_message demo_ext ?h1 (Text ''b'')"
  have r: "hub_reachable demo_ext ?h1"
    by (rule hub_reachable.step [OF demo_connected_reachable hub_step.broadcast])
  have c: "1 \<in> set (clients demo_connected)" by (simp add: demo_connected_client)
  obtain out where out: "outboxes ?h1 1 = Some out" "1 \<in> set (clients ?h1)"
      "chan_queue (sender out) = [Text ''a'']" "chan_size (sender out) = 1"
    by (simp add: broadcast_message_def demo_connected_client) (simp add: demo_ext_def
        outbox_try_send_def client_outbox_def list_mpsc_def demo_connected_client)
  then show ?thesis
    using hub_broadcast_delivers_or_disconnects [OF demo_channel r out(2,1), of "Text ''b''"]
    by (auto simp: Let_def)
qed




text \<open>
  Presence reports are ordered by their sequence number, not by their arrival: after any run of
  reports from a registered mobile client, its foreground flag is the one of the report with the
  highest number above the last applied one, so a late, older report never changes it.
\<close>

theorem hub_presence_newest_report_wins:
  assumes "map_of (client_infos h) i = Some c" "client_type c = MOBILE_CLIENT_TYPE"
    and "distinct (map (\<lambda>(t, fg, n). n) reports)" "(t, fg, n) \<in> set reports"
    and "foreground_sequence c < n" "\<forall>(t', fg', n') \<in> set reports. n' \<le> n"
  shows "\<exists>c'. map_of (client_infos (fold (\<lambda>(t, fg, n) h. snd (set_mobile_client_foreground t h i fg n))
        reports h)) i = Some c'
     \<and> foreground c' = fg \<and> foreground_sequence c' = n \<and> foreground_updated_at c' = t
     \<and> client_type c' = MOBILE_CLIENT_TYPE"
  using presence_run_newest [OF assms] .

theorem hub_presence_newest_report_wins_witness:
  "\<exists>c'. map_of (client_infos (fold (\<lambda>(t, fg, n) h. snd (set_mobile_client_foreground t h 1 fg n))
        [(10, False, 2), (11, True, 1)] demo_connected)) 1 = Some c' \<and> \<not> foreground c'"
proof -
  obtain c where c: "map_of (client_infos demo_connected) 1 = Some c"
      "client_type c = MOBILE_CLIENT_TYPE" "foreground_sequence c = 0"
    by (auto simp: demo_connected_def add_client_with_metadata_def Let_def demo_hub_def hub_new_def
        with_replay_capacity_def MOBILE_CLIENT_TYPE_def)
  then show ?thesis
    using hub_presence_newest_report_wins [OF c(1,2), of "[(10, False, 2), (11, True, 1)]" 10 False 2]
    by auto
qed



end
