(* ===== verification/Base64_Codec.thy ===== *)
theory Base64_Codec
  imports Resource_Limits
begin

text \<open>
  The interface of the \<open>base64\<close> crate's \<open>URL_SAFE_NO_PAD\<close> engine, which \<open>acp/identity.rs\<close>
  calls: a pair of functions with the laws the crate documents (RFC 4648, section 5, without
  padding; decoding is strict, so a text that decodes is the encoding of its value). The second
  half gives the RFC's algorithm and shows that it satisfies the interface.
\<close>

record b64 =
  b64_encode :: "str \<Rightarrow> str"
  b64_decode :: "str \<Rightarrow> str option"

locale url_safe_no_pad =
  fixes E :: b64
  assumes decode_encode: "b64_decode E (b64_encode E s) = Some s"
    and encode_decode: "b64_decode E t = Some s \<Longrightarrow> b64_encode E s = t"
    and no_dot: "CHR ''.'' \<notin> set (b64_encode E s)"
    and encode_Nil: "b64_encode E [] = []"
    and length_encode: "length (b64_encode E s) = (4 * length s + 2) div 3"
begin

lemma encode_nonempty: "s \<noteq> [] \<Longrightarrow> b64_encode E s \<noteq> []"
  using decode_encode encode_Nil by (metis option.inject)

lemma length_encode_le: "length (b64_encode E s) \<le> 2 * length s"
proof (cases "length s")
  case 0
  then show ?thesis by (simp add: encode_Nil)
next
  case (Suc n)
  then show ?thesis unfolding length_encode by linarith
qed

end

section \<open>The algorithm of RFC 4648\<close>

text \<open>The character of a 6-bit value, and back.\<close>

definition b64_char :: "nat \<Rightarrow> char" where
  "b64_char v =
     (if v < 26 then char_of (65 + v) else if v < 52 then char_of (71 + v)
      else if v < 62 then char_of (v - 4) else if v = 62 then CHR ''-'' else CHR ''_'')"

definition b64_value :: "char \<Rightarrow> nat option" where
  "b64_value c =
     (if 65 \<le> byte c \<and> byte c \<le> 90 then Some (byte c - 65)
      else if 97 \<le> byte c \<and> byte c \<le> 122 then Some (byte c - 71)
      else if 48 \<le> byte c \<and> byte c \<le> 57 then Some (byte c + 4)
      else if c = CHR ''-'' then Some 62 else if c = CHR ''_'' then Some 63 else None)"

fun rfc4648_encode :: "str \<Rightarrow> str" where
  "rfc4648_encode [] = []"
| "rfc4648_encode [a] = [b64_char (byte a div 4), b64_char (byte a mod 4 * 16)]"
| "rfc4648_encode [a, b] =
     [b64_char (byte a div 4), b64_char (byte a mod 4 * 16 + byte b div 16),
      b64_char (byte b mod 16 * 4)]"
| "rfc4648_encode (a # b # c # s) =
     b64_char (byte a div 4) # b64_char (byte a mod 4 * 16 + byte b div 16)
     # b64_char (byte b mod 16 * 4 + byte c div 64) # b64_char (byte c mod 64)
     # rfc4648_encode s"

fun rfc4648_decode :: "str \<Rightarrow> str option" where
  "rfc4648_decode [] = Some []"
| "rfc4648_decode [_] = None"
| "rfc4648_decode [w, x] =
     (case (b64_value w, b64_value x) of
        (Some p, Some q) \<Rightarrow> if q mod 16 = 0 then Some [char_of (p * 4 + q div 16)] else None
      | _ \<Rightarrow> None)"
| "rfc4648_decode [w, x, y] =
     (case (b64_value w, b64_value x, b64_value y) of
        (Some p, Some q, Some r) \<Rightarrow>
          if r mod 4 = 0
          then Some [char_of (p * 4 + q div 16), char_of (q mod 16 * 16 + r div 4)] else None
      | _ \<Rightarrow> None)"
| "rfc4648_decode (w # x # y # z # s) =
     (case (b64_value w, b64_value x, b64_value y, b64_value z, rfc4648_decode s) of
        (Some p, Some q, Some r, Some t, Some u) \<Rightarrow>
          Some (char_of (p * 4 + q div 16) # char_of (q mod 16 * 16 + r div 4)
                # char_of (r mod 4 * 64 + t) # u)
      | _ \<Rightarrow> None)"

definition rfc4648 :: b64 where
  "rfc4648 = \<lparr>b64_encode = rfc4648_encode, b64_decode = rfc4648_decode\<rparr>"

lemma byte_lt: "byte c < 256"
  by (metis of_char_of char_of_char mod_less_divisor zero_less_numeral of_char_mod_256)

lemma b64_value_char [simp]: "v < 64 \<Longrightarrow> b64_value (b64_char v) = Some v"
  by (auto simp: b64_value_def b64_char_def)

lemma b64_value_lt: "b64_value c = Some v \<Longrightarrow> v < 64"
  by (auto simp: b64_value_def split: if_splits)

lemma b64_char_value: "b64_value c = Some v \<Longrightarrow> b64_char v = c"
  by (auto simp: b64_value_def b64_char_def split: if_splits)

lemma b64_char_not_dot: "b64_char v \<noteq> CHR ''.''"
proof
  assume h: "b64_char v = CHR ''.''"
  have "b64_value (b64_char v) \<noteq> None"
    by (cases "v < 64") (auto simp: b64_char_def b64_value_def)
  with h show False by (simp add: b64_value_def)
qed

lemma digit: "(y::nat) < k \<Longrightarrow> (x * k + y) div k = x" "(y::nat) < k \<Longrightarrow> (x * k + y) mod k = y"
  by simp_all

lemma div_lt: "(a::nat) < m * k \<Longrightarrow> a div k < m"
  by (simp add: less_mult_imp_div_less)

lemma digit_lt: "(x::nat) < m \<Longrightarrow> y < k \<Longrightarrow> x * k + y < m * k"
  by (metis add_less_cancel_left less_le_trans mult_Suc mult_le_mono1 Suc_leI add.commute)

lemma six_bits:
  assumes "a < 256" "b < 256" "(c::nat) < 256"
  shows "a div 4 < 64" "a mod 4 * 16 + b div 16 < 64" "b mod 16 * 4 + c div 64 < 64"
    "c mod 64 < 64" "a mod 4 * 16 < 64" "b mod 16 * 4 < 64"
proof -
  show "a div 4 < 64" using assms div_lt [of a 64 4] by simp
  show "a mod 4 * 16 + b div 16 < 64"
    using assms digit_lt [of "a mod 4" 4 "b div 16" 16] div_lt [of b 16 16] by simp
  show "b mod 16 * 4 + c div 64 < 64"
    using assms digit_lt [of "b mod 16" 16 "c div 64" 4] div_lt [of c 4 64] by simp
  show "a mod 4 * 16 < 64" using digit_lt [of "a mod 4" 4 0 16] by simp
  show "b mod 16 * 4 < 64" using digit_lt [of "b mod 16" 16 0 4] by simp
qed simp

lemma six_bits_join:
  assumes "a < 256" "b < 256" "(c::nat) < 256"
  shows "a div 4 * 4 + a mod 4 * 16 div 16 = a"
    "a div 4 * 4 + (a mod 4 * 16 + b div 16) div 16 = a"
    "(a mod 4 * 16 + b div 16) mod 16 * 16 + (b mod 16 * 4) div 4 = b"
    "(a mod 4 * 16 + b div 16) mod 16 * 16 + (b mod 16 * 4 + c div 64) div 4 = b"
    "(b mod 16 * 4 + c div 64) mod 4 * 64 + c mod 64 = c"
    "a mod 4 * 16 mod 16 = 0" "b mod 16 * 4 mod 4 = 0"
proof -
  have b: "b div 16 < 16" and c: "c div 64 < 4"
    using assms div_lt [of b 16 16] div_lt [of c 4 64] by simp_all
  note d = digit [OF b, of "a mod 4"] digit [OF c, of "b mod 16"]
  show "a div 4 * 4 + (a mod 4 * 16 + b div 16) div 16 = a"
    "(a mod 4 * 16 + b div 16) mod 16 * 16 + (b mod 16 * 4) div 4 = b"
    "(a mod 4 * 16 + b div 16) mod 16 * 16 + (b mod 16 * 4 + c div 64) div 4 = b"
    "(b mod 16 * 4 + c div 64) mod 4 * 64 + c mod 64 = c"
    unfolding d by simp_all
qed simp_all

lemma eight_bits_join:
  assumes "p < 64" "q < 64" "r < 64" "(t::nat) < 64"
  shows "p * 4 + q div 16 < 256" "q mod 16 * 16 + r div 4 < 256" "r mod 4 * 64 + t < 256"
    "(p * 4 + q div 16) div 4 = p"
    "(p * 4 + q div 16) mod 4 * 16 + (q mod 16 * 16 + r div 4) div 16 = q"
    "(q mod 16 * 16 + r div 4) mod 16 * 4 + (r mod 4 * 64 + t) div 64 = r"
    "(r mod 4 * 64 + t) mod 64 = t"
    "q mod 16 = 0 \<Longrightarrow> (p * 4 + q div 16) mod 4 * 16 = q"
    "r mod 4 = 0 \<Longrightarrow> (q mod 16 * 16 + r div 4) mod 16 * 4 = r"
proof -
  have q: "q div 16 < 4" and r: "r div 4 < 16"
    using assms div_lt [of q 4 16] div_lt [of r 16 4] by simp_all
  note d = digit [OF q, of p] digit [OF r, of "q mod 16"] digit [OF assms(4), of "r mod 4"]
  show "p * 4 + q div 16 < 256" "q mod 16 * 16 + r div 4 < 256" "r mod 4 * 64 + t < 256"
    using digit_lt [OF assms(1) q] digit_lt [of "q mod 16" 16, OF _ r]
      digit_lt [of "r mod 4" 4, OF _ assms(4)] by simp_all
  show "(p * 4 + q div 16) div 4 = p"
    "(p * 4 + q div 16) mod 4 * 16 + (q mod 16 * 16 + r div 4) div 16 = q"
    "(q mod 16 * 16 + r div 4) mod 16 * 4 + (r mod 4 * 64 + t) div 64 = r"
    "(r mod 4 * 64 + t) mod 64 = t"
    unfolding d by simp_all
  show "(p * 4 + q div 16) mod 4 * 16 = q" if "q mod 16 = 0"
    unfolding d using that by (metis add.right_neutral div_mult_mod_eq)
  show "(q mod 16 * 16 + r div 4) mod 16 * 4 = r" if "r mod 4 = 0"
    unfolding d using that by (metis add.right_neutral div_mult_mod_eq)
qed

lemma rfc4648_decode_encode: "rfc4648_decode (rfc4648_encode s) = Some s"
proof (induction s rule: rfc4648_encode.induct)
  case (2 a)
  note f = six_bits [OF byte_lt [of a] byte_lt [of a] byte_lt [of a]]
    six_bits_join [OF byte_lt [of a] byte_lt [of a] byte_lt [of a]]
  show ?case by (simp only: rfc4648_encode.simps rfc4648_decode.simps b64_value_char f
        prod.case option.case if_True char_of_char simp_thms)
next
  case (3 a b)
  note f = six_bits [OF byte_lt [of a] byte_lt [of b] byte_lt [of b]]
    six_bits_join [OF byte_lt [of a] byte_lt [of b] byte_lt [of b]]
  show ?case by (simp only: rfc4648_encode.simps rfc4648_decode.simps b64_value_char f
        prod.case option.case if_True char_of_char simp_thms)
next
  case (4 a b c s)
  note f = six_bits [OF byte_lt [of a] byte_lt [of b] byte_lt [of c]]
    six_bits_join [OF byte_lt [of a] byte_lt [of b] byte_lt [of c]]
  show ?case by (simp only: rfc4648_encode.simps rfc4648_decode.simps b64_value_char f 4
        prod.case option.case if_True char_of_char simp_thms)
qed simp

lemma byte_char_of: "n < 256 \<Longrightarrow> byte (char_of n) = (n::nat)"
  by simp

lemma rfc4648_encode_decode: "rfc4648_decode t = Some s \<Longrightarrow> rfc4648_encode s = t"
proof (induction t arbitrary: s rule: rfc4648_decode.induct)
  case (3 w x)
  then obtain p q where v: "b64_value w = Some p" "b64_value x = Some q" "q mod 16 = 0"
      "s = [char_of (p * 4 + q div 16)]" by (auto split: option.splits if_splits)
  note f = eight_bits_join [OF b64_value_lt [OF v(1)] b64_value_lt [OF v(2)]
      b64_value_lt [OF v(2)] b64_value_lt [OF v(2)]]
  show ?case
    by (simp only: v(4) rfc4648_encode.simps byte_char_of f v(3) b64_char_value [OF v(1)]
        b64_char_value [OF v(2)])
next
  case (4 w x y)
  then obtain p q r where v: "b64_value w = Some p" "b64_value x = Some q" "b64_value y = Some r"
      "r mod 4 = 0" "s = [char_of (p * 4 + q div 16), char_of (q mod 16 * 16 + r div 4)]"
    by (auto split: option.splits if_splits)
  note f = eight_bits_join [OF b64_value_lt [OF v(1)] b64_value_lt [OF v(2)]
      b64_value_lt [OF v(3)] b64_value_lt [OF v(3)]]
  show ?case
    by (simp only: v(5) rfc4648_encode.simps byte_char_of f v(4) b64_char_value [OF v(1)]
        b64_char_value [OF v(2)] b64_char_value [OF v(3)])
next
  case (5 w x y z u)
  then obtain p q r t s' where v: "b64_value w = Some p" "b64_value x = Some q"
      "b64_value y = Some r" "b64_value z = Some t" "rfc4648_decode u = Some s'"
      "s = char_of (p * 4 + q div 16) # char_of (q mod 16 * 16 + r div 4)
        # char_of (r mod 4 * 64 + t) # s'"
    by (auto split: option.splits)
  note f = eight_bits_join [OF b64_value_lt [OF v(1)] b64_value_lt [OF v(2)]
      b64_value_lt [OF v(3)] b64_value_lt [OF v(4)]]
  have "rfc4648_encode s' = u" using 5(1) v(1-5) by simp
  then show ?case
    by (simp only: v(6) rfc4648_encode.simps byte_char_of f b64_char_value [OF v(1)]
        b64_char_value [OF v(2)] b64_char_value [OF v(3)] b64_char_value [OF v(4)])
qed auto

lemma rfc4648_no_dot: "CHR ''.'' \<notin> set (rfc4648_encode s)"
  by (induction s rule: rfc4648_encode.induct) (auto dest: sym simp: b64_char_not_dot)

lemma rfc4648_length: "length (rfc4648_encode s) = (4 * length s + 2) div 3"
  by (induction s rule: rfc4648_encode.induct) auto

interpretation rfc: url_safe_no_pad rfc4648
  by unfold_locales
     (simp_all add: rfc4648_def rfc4648_decode_encode rfc4648_encode_decode rfc4648_no_dot
        rfc4648_length)

end
