(* ===== verification/Rust_Text.thy ===== *)
theory Rust_Text
  imports Resource_Limits
begin

text \<open>
  More of \<open>str\<close>, as the bridge uses it on text it does not trust: suffixes and substrings, lines,
  splitting once or a bounded number of times, ASCII case, characters, and \<open>String::from_utf8_lossy\<close>.
\<close>

section \<open>Searching\<close>

definition ends_with :: "str \<Rightarrow> str \<Rightarrow> bool" where
  "ends_with s p = (length p \<le> length s \<and> drop (length s - length p) s = p)"

definition strip_suffix :: "str \<Rightarrow> str \<Rightarrow> str option" where
  "strip_suffix s p = (if ends_with s p then Some (take (length s - length p) s) else None)"

fun contains_str :: "str \<Rightarrow> str \<Rightarrow> bool" where
  "contains_str [] p = (p = [])"
| "contains_str (c # s) p = (starts_with (c # s) p \<or> contains_str s p)"

section \<open>Splitting\<close>

abbreviation NUL :: char where "NUL \<equiv> CHR 0x00"
abbreviation LF :: char where "LF \<equiv> CHR 0x0A"
abbreviation CR :: char where "CR \<equiv> CHR 0x0D"

text \<open>\<open>str::lines\<close>: a line ends with a line feed or a carriage return and a line feed; the last line
  may have no ending, and then keeps a carriage return.\<close>

definition strip_cr :: "str \<Rightarrow> str" where
  "strip_cr s = (if s \<noteq> [] \<and> last s = CR then butlast s else s)"

definition lines_of :: "str \<Rightarrow> str list" where
  "lines_of s =
     (let ps = split_on LF s in map strip_cr (butlast ps) @ (if last ps = [] then [] else [last ps]))"

definition split_once :: "char \<Rightarrow> str \<Rightarrow> (str \<times> str) option" where
  "split_once c s =
     (if c \<in> set s then Some (takeWhile (\<lambda>x. x \<noteq> c) s, tl (dropWhile (\<lambda>x. x \<noteq> c) s)) else None)"

fun splitn :: "nat \<Rightarrow> char \<Rightarrow> str \<Rightarrow> str list" where
  "splitn 0 c s = []"
| "splitn (Suc 0) c s = [s]"
| "splitn (Suc (Suc n)) c s =
     (case split_once c s of None \<Rightarrow> [s] | Some (a, b) \<Rightarrow> a # splitn (Suc n) c b)"

text \<open>The first piece of \<open>str::split(p)\<close> for a non-empty pattern.\<close>

fun before_str :: "str \<Rightarrow> str \<Rightarrow> str" where
  "before_str p [] = []"
| "before_str p (c # s) = (if starts_with (c # s) p then [] else c # before_str p s)"

section \<open>Characters\<close>

definition ascii_lower :: "char \<Rightarrow> char" where
  "ascii_lower c = (if 65 \<le> byte c \<and> byte c \<le> 90 then char_of (byte c + 32) else c)"

definition to_ascii_lowercase :: "str \<Rightarrow> str" where
  "to_ascii_lowercase s = map ascii_lower s"

definition eq_ignore_ascii_case :: "str \<Rightarrow> str \<Rightarrow> bool" where
  "eq_ignore_ascii_case a b = (to_ascii_lowercase a = to_ascii_lowercase b)"

definition is_ascii_alphanumeric :: "char \<Rightarrow> bool" where
  "is_ascii_alphanumeric c =
     (48 \<le> byte c \<and> byte c \<le> 57 \<or> 65 \<le> byte c \<and> byte c \<le> 90 \<or> 97 \<le> byte c \<and> byte c \<le> 122)"

text \<open>\<open>str::chars\<close>, each character as its UTF-8 bytes.\<close>

function chars_of :: "str \<Rightarrow> str list" where
  "chars_of s =
     (if s = [] then [] else let n = max 1 (utf8_head s) in take n s # chars_of (drop n s))"
  by pat_completeness auto
termination
  by (relation "measure length") auto

declare chars_of.simps [simp del]

text \<open>
  \<open>String::from_utf8_lossy\<close>: each longest beginning of a well-formed sequence that is not completed,
  or a single byte that begins none, becomes U+FFFD.
\<close>

definition replacement_character :: str where
  "replacement_character = [CHR 0xEF, CHR 0xBF, CHR 0xBD]"

fun broken_head :: "str \<Rightarrow> nat" where
  "broken_head (a # b # s) =
     (if utf8_three a b (CHR 0x80) then 2
      else if utf8_four a b (CHR 0x80) (CHR 0x80)
      then (case s of c # _ \<Rightarrow> if is_cont c then 3 else 2 | [] \<Rightarrow> 2)
      else 1)"
| "broken_head _ = 1"

lemma broken_head_pos [simp]: "0 < broken_head s"
  by (cases s rule: broken_head.cases) (auto split: list.splits)

function from_utf8_lossy :: "str \<Rightarrow> str" where
  "from_utf8_lossy s =
     (if s = [] then []
      else if utf8_head s \<noteq> 0 then take (utf8_head s) s @ from_utf8_lossy (drop (utf8_head s) s)
      else replacement_character @ from_utf8_lossy (drop (broken_head s) s))"
  by pat_completeness auto
termination
  by (relation "measure length") auto

declare from_utf8_lossy.simps [simp del]

section \<open>Lemmas\<close>

lemma ends_with_iff: "ends_with s p \<longleftrightarrow> (\<exists>t. s = t @ p)"
  by (auto simp: ends_with_def) (metis append_take_drop_id)

lemma strip_suffix_Some: "strip_suffix s p = Some t \<longleftrightarrow> s = t @ p"
  by (auto simp: strip_suffix_def ends_with_iff)

lemma contains_str_iff: "contains_str s p \<longleftrightarrow> (\<exists>a b. s = a @ p @ b)"
proof (induction s)
  case (Cons c s)
  have "(\<exists>a b. c # s = a @ p @ b) \<longleftrightarrow> starts_with (c # s) p \<or> (\<exists>a b. s = a @ p @ b)"
    by (auto simp: starts_with_iff Cons_eq_append_conv)
  with Cons show ?case by simp
qed auto

lemma contains_str_append: "contains_str s p \<Longrightarrow> contains_str (a @ s @ b) p"
  unfolding contains_str_iff by (metis append.assoc)

lemma split_once_Some:
  "split_once c s = Some (a, b) \<longleftrightarrow> s = a @ c # b \<and> c \<notin> set a"
proof
  assume "split_once c s = Some (a, b)"
  then have c: "c \<in> set s" and ab: "a = takeWhile (\<lambda>x. x \<noteq> c) s" "b = tl (dropWhile (\<lambda>x. x \<noteq> c) s)"
    by (auto simp: split_once_def split: if_splits)
  from c have ne: "dropWhile (\<lambda>x. x \<noteq> c) s \<noteq> []" by auto
  then have "hd (dropWhile (\<lambda>x. x \<noteq> c) s) = c" using hd_dropWhile [OF ne] by simp
  then have "dropWhile (\<lambda>x. x \<noteq> c) s = c # b" using ne ab(2) by (metis list.collapse)
  then show "s = a @ c # b \<and> c \<notin> set a" using ab(1)
    by (metis takeWhile_dropWhile_id set_takeWhileD)
next
  assume "s = a @ c # b \<and> c \<notin> set a"
  moreover from this have "takeWhile (\<lambda>x. x \<noteq> c) s = a" "dropWhile (\<lambda>x. x \<noteq> c) s = c # b"
    by (auto simp: takeWhile_append dropWhile_append)
  ultimately show "split_once c s = Some (a, b)" by (simp add: split_once_def)
qed

lemma split_once_None: "split_once c s = None \<longleftrightarrow> c \<notin> set s"
  by (simp add: split_once_def)

lemma utf8_valid_ascii: "list_all (\<lambda>c. byte c < 0x80) s \<Longrightarrow> utf8_valid s"
proof (induction s)
  case (Cons c s)
  then have "utf8_head (c # s) = 1"
    by (cases s rule: utf8_head.cases) auto
  with Cons show ?case by (subst utf8_valid.simps) simp
qed simp

lemma concat_chars_of: "concat (chars_of s) = s"
  by (induction s rule: chars_of.induct) (subst chars_of.simps, simp add: Let_def)

lemma from_utf8_lossy_Nil [simp]: "from_utf8_lossy [] = []"
  by (subst from_utf8_lossy.simps) simp

lemma from_utf8_lossy_valid: "utf8_valid s \<Longrightarrow> from_utf8_lossy s = s"
proof (induction s rule: from_utf8_lossy.induct)
  case (1 s)
  show ?case
  proof (cases "s = []")
    case False
    with 1(3) have "utf8_head s \<noteq> 0" "utf8_valid (drop (utf8_head s) s)"
      by (simp_all add: utf8_valid.simps [of s] split: if_splits)
    with False 1(1) show ?thesis by (subst from_utf8_lossy.simps) simp
  qed simp
qed

lemma trim_end_fixed: "ws_suffix s = 0 \<Longrightarrow> trim_end s = s"
  by (simp add: trim_end.simps)

lemma ws_suffix_ascii:
  assumes "s \<noteq> []" "byte (last s) < 0x80" "byte (last s) \<notin> {9, 10, 11, 12, 13, 32}"
  shows "ws_suffix s = 0"
proof -
  have "\<not> ws_char t" if "t \<noteq> []" "last t = last s" for t
  proof
    assume "ws_char t"
    then have "map byte t \<in> set white_space" by (simp add: ws_char_def)
    then have "last (map byte t) \<in> {9, 10, 11, 12, 13, 32} \<or> 0x80 \<le> last (map byte t)"
      by (auto simp: white_space_def)
    moreover have "last (map byte t) = byte (last s)" using that by (simp add: last_map)
    ultimately show False using assms(2,3) by simp
  qed
  moreover have "drop (length s - n) s \<noteq> [] \<and> last (drop (length s - n) s) = last s" if "0 < n" for n
  proof -
    have "length s - n < length s" using that assms(1) by simp
    then show ?thesis by (simp add: last_drop)
  qed
  ultimately show ?thesis by (simp add: ws_suffix_def Let_def)
qed

end
