(* ===== verification/Identity.thy ===== *)
theory Identity
  imports Base64_Codec Rust_Text
begin

text \<open>
  \<open>services/rust-bridge/src/acp/identity.rs\<close>: the opaque thread identifier that names an agent and
  one of its ACP sessions, \<open>v1.<base64 agent id>.<base64 session id>\<close>. The base64 engine is the
  parameter \<open>E\<close>; what is assumed of it is the locale \<open>url_safe_no_pad\<close>.
\<close>

definition VERSION :: str where "VERSION = ''v1''"
definition MAX_COMPONENT_BYTES :: nat where "MAX_COMPONENT_BYTES = 1024"

datatype identity_error = Invalid

record agent_session_id =
  agent_id :: str
  acp_session_id :: str

definition identity_validate :: "agent_session_id \<Rightarrow> identity_error + unit" where
  "identity_validate i =
     (if agent_id i = [] \<or> MAX_COMPONENT_BYTES < length (agent_id i)
         \<or> \<not> list_all (\<lambda>c. is_ascii_alphanumeric c \<or> c = CHR ''-'' \<or> c = CHR ''_'' \<or> c = CHR ''.'')
              (agent_id i)
         \<or> acp_session_id i = [] \<or> MAX_COMPONENT_BYTES < length (acp_session_id i)
         \<or> char_of (0::nat) \<in> set (acp_session_id i)
      then Err Invalid else Ok ())"

definition identity_new :: "str \<Rightarrow> str \<Rightarrow> identity_error + agent_session_id" where
  "identity_new a s =
     (let i = \<lparr>agent_id = a, acp_session_id = s\<rparr>
      in res_bind (identity_validate i) (\<lambda>_. Ok i))"

definition identity_encode :: "b64 \<Rightarrow> agent_session_id \<Rightarrow> str" where
  "identity_encode E i =
     VERSION @ ''.'' @ b64_encode E (agent_id i) @ ''.'' @ b64_encode E (acp_session_id i)"

definition from_utf8 :: "str \<Rightarrow> str option" where
  "from_utf8 s = (if utf8_valid s then Some s else None)"

definition decode_component :: "b64 \<Rightarrow> str option \<Rightarrow> identity_error + str" where
  "decode_component E value =
     res_bind (ok_or Invalid value) (\<lambda>v.
       if v = [] \<or> MAX_COMPONENT_BYTES * 2 < length v then Err Invalid
       else res_bind (ok_or Invalid (b64_decode E v)) (\<lambda>bytes. ok_or Invalid (from_utf8 bytes)))"

text \<open>The iterator over the parts is the list of what is left of it.\<close>

definition next_part :: "str list \<Rightarrow> str option" where
  "next_part ps = (case ps of [] \<Rightarrow> None | p # _ \<Rightarrow> Some p)"

definition identity_decode :: "b64 \<Rightarrow> str \<Rightarrow> identity_error + agent_session_id" where
  "identity_decode E value =
     (let parts = split_on (CHR ''.'') value in
      if next_part parts \<noteq> Some VERSION then Err Invalid
      else res_bind (decode_component E (next_part (drop 1 parts))) (\<lambda>a.
           res_bind (decode_component E (next_part (drop 2 parts))) (\<lambda>s.
           if next_part (drop 3 parts) \<noteq> None then Err Invalid else identity_new a s)))"

section \<open>Lemmas\<close>

lemma identity_validate_Ok:
  "identity_validate i = Ok u \<longleftrightarrow>
     agent_id i \<noteq> [] \<and> length (agent_id i) \<le> MAX_COMPONENT_BYTES
     \<and> list_all (\<lambda>c. is_ascii_alphanumeric c \<or> c = CHR ''-'' \<or> c = CHR ''_'' \<or> c = CHR ''.'')
          (agent_id i)
     \<and> acp_session_id i \<noteq> [] \<and> length (acp_session_id i) \<le> MAX_COMPONENT_BYTES
     \<and> char_of (0::nat) \<notin> set (acp_session_id i)"
  by (auto simp: identity_validate_def)

lemma identity_agent_ascii: "identity_validate i = Ok u \<Longrightarrow> utf8_valid (agent_id i)"
  by (rule utf8_valid_ascii)
     (auto simp: identity_validate_Ok is_ascii_alphanumeric_def list_all_iff)

lemma identity_new_Ok:
  "identity_new a s = Ok i \<longleftrightarrow>
     i = \<lparr>agent_id = a, acp_session_id = s\<rparr> \<and> identity_validate i = Ok ()"
  by (auto simp: identity_new_def Let_def res_bind_Ok)

lemma decode_component_Ok:
  "decode_component E m = Ok s \<longleftrightarrow>
     (\<exists>v. m = Some v \<and> v \<noteq> [] \<and> length v \<le> MAX_COMPONENT_BYTES * 2 \<and> b64_decode E v = Some s
       \<and> utf8_valid s)"
  by (cases m) (auto simp: decode_component_def res_bind_Ok from_utf8_def split: if_splits)

lemma next_part_simps [simp]: "next_part [] = None" "next_part (p # ps) = Some p"
  by (simp_all add: next_part_def)

lemma next_part_None: "next_part ps = None \<longleftrightarrow> ps = []"
  by (cases ps) auto

lemma identity_decode_Ok:
  "identity_decode E v = Ok i \<longleftrightarrow>
     (\<exists>p q. split_on (CHR ''.'') v = [VERSION, p, q]
        \<and> decode_component E (Some p) = Ok (agent_id i)
        \<and> decode_component E (Some q) = Ok (acp_session_id i)
        \<and> identity_validate i = Ok ())" (is "_ \<longleftrightarrow> ?R")
proof
  assume h: "identity_decode E v = Ok i"
  let ?ps = "split_on (CHR ''.'') v"
  from h obtain a s where d: "next_part ?ps = Some VERSION"
      "decode_component E (next_part (drop 1 ?ps)) = Ok a"
      "decode_component E (next_part (drop 2 ?ps)) = Ok s"
      "drop 3 ?ps = []" "identity_new a s = Ok i"
    by (auto simp: identity_decode_def Let_def res_bind_Ok next_part_None split: if_splits)
  then obtain p q where "?ps = [VERSION, p, q]"
    by (cases ?ps; cases "drop 1 ?ps"; cases "drop 2 ?ps")
       (auto simp: decode_component_def eval_nat_numeral)
  with d show ?R by (auto simp: identity_new_Ok eval_nat_numeral)
next
  assume ?R
  then show "identity_decode E v = Ok i"
    by (auto simp: identity_decode_def Let_def identity_new_Ok eval_nat_numeral)
qed

text \<open>A thread identifier the bridge accepts.\<close>

definition thread_id_ok :: "b64 \<Rightarrow> str \<Rightarrow> bool" where
  "thread_id_ok E t = is_ok (identity_decode E t)"

context url_safe_no_pad
begin

lemma component_roundtrip:
  assumes "s \<noteq> []" "length s \<le> MAX_COMPONENT_BYTES" "utf8_valid s"
  shows "decode_component E (Some (b64_encode E s)) = Ok s"
  using assms encode_nonempty [of s] length_encode_le [of s]
  by (auto simp: decode_component_Ok decode_encode)

lemma encode_split:
  "split_on (CHR ''.'') (identity_encode E i)
     = [VERSION, b64_encode E (agent_id i), b64_encode E (acp_session_id i)]"
proof -
  have v: "CHR ''.'' \<notin> set VERSION" by (simp add: VERSION_def)
  show ?thesis
    unfolding identity_encode_def
    using split_on_append_sep [OF v] split_on_append_sep [OF no_dot] split_on_no_sep [OF no_dot]
    by simp
qed

lemma decode_of_encode:
  assumes "identity_validate i = Ok ()" "utf8_valid (acp_session_id i)"
  shows "identity_decode E (identity_encode E i) = Ok i"
  using assms identity_agent_ascii [OF assms(1)]
  by (auto simp: identity_decode_Ok encode_split component_roundtrip identity_validate_Ok)

lemma decode_canonical:
  assumes "identity_decode E v = Ok i"
  shows "identity_encode E i = v"
proof -
  from assms obtain p q where ps: "split_on (CHR ''.'') v = [VERSION, p, q]"
      and "b64_decode E p = Some (agent_id i)" "b64_decode E q = Some (acp_session_id i)"
    by (auto simp: identity_decode_Ok decode_component_Ok)
  then have "b64_encode E (agent_id i) = p" "b64_encode E (acp_session_id i) = q"
    by (simp_all add: encode_decode)
  moreover have "v = VERSION @ ''.'' @ p @ ''.'' @ q"
    using join_split_on [of "CHR ''.''" v] ps by simp
  ultimately show ?thesis by (simp add: identity_encode_def)
qed

end

section \<open>Properties\<close>

text \<open>
  Every identity the bridge constructs survives its opaque form: decoding what \<open>encode\<close> wrote
  gives back the agent and the session, whatever UTF-8 text the session identifier holds.
\<close>

theorem identity_roundtrip:
  assumes "url_safe_no_pad E" "utf8_valid s" "identity_new a s = Ok i"
  shows "identity_decode E (identity_encode E i) = Ok i"
  using assms url_safe_no_pad.decode_of_encode [OF assms(1), of i] by (auto simp: identity_new_Ok)

theorem identity_roundtrip_witness:
  "let i = \<lparr>agent_id = ''agent'', acp_session_id = ''s/1 x''\<rparr> in
   identity_new ''agent'' ''s/1 x'' = Ok i
   \<and> identity_decode rfc4648 (identity_encode rfc4648 i) = Ok i"
proof -
  let ?i = "\<lparr>agent_id = ''agent'', acp_session_id = ''s/1 x''\<rparr>"
  have "utf8_valid ''s/1 x''" by code_simp
  moreover have "identity_new ''agent'' ''s/1 x'' = Ok ?i" by code_simp
  ultimately show ?thesis
    using identity_roundtrip [OF rfc.url_safe_no_pad_axioms, of "''s/1 x''" "''agent''" ?i]
    by (simp add: Let_def)
qed

text \<open>
  C6: the opaque form is canonical and decoding is sound: a text that decodes is exactly the
  encoding of the result, so two different thread identifiers never name the same session, and the
  result satisfies the limits that \<open>AgentSessionId::new\<close> enforces.
\<close>

theorem identity_decode_sound:
  assumes "url_safe_no_pad E" "identity_decode E v = Ok i"
  shows "identity_encode E i = v \<and> identity_validate i = Ok ()
    \<and> utf8_valid (agent_id i) \<and> utf8_valid (acp_session_id i)"
  using assms url_safe_no_pad.decode_canonical [OF assms]
  by (auto simp: identity_decode_Ok decode_component_Ok)

theorem identity_decode_sound_witness:
  "let i = \<lparr>agent_id = ''a'', acp_session_id = ''b''\<rparr> in
   identity_decode rfc4648 ''v1.YQ.Yg'' = Ok i \<and> identity_encode rfc4648 i = ''v1.YQ.Yg''"
proof -
  let ?i = "\<lparr>agent_id = ''a'', acp_session_id = ''b''\<rparr>"
  have d: "identity_decode rfc4648 ''v1.YQ.Yg'' = Ok ?i" by code_simp
  show ?thesis
    using identity_decode_sound [OF rfc.url_safe_no_pad_axioms d] d by (simp add: Let_def)
qed

end
