(* ===== verification/Storage.thy ===== *)
theory Storage
  imports Btree_Map
begin

text \<open>
  Durable private files: \<open>services/rust-bridge/src/storage.rs\<close> and the Unix strategy it calls,
  \<open>atomic_write_private_unix\<close> of \<open>crates/platform/src/platform/unix/filesystem.rs\<close>.

  A directory is a partial map from file names to contents. The system calls can fail; which of
  them do is an argument (\<open>io_env\<close>) of the operation, together with the random part of the
  temporary name and the number of bytes a failing write leaves behind.

  The second half is the interface of a state that is kept both in memory and in such a file
  (\<open>durable_state\<close>), which the retirement journal, the scheduler and the
  registry of push devices provide.
\<close>

type_synonym directory = "str \<rightharpoonup> str"

datatype io_error = InvalidInput str | Os_error | Join_error

record io_env =
  parent_opens :: bool
  temp_opens :: bool
  write_succeeds :: bool
  written :: nat
  chmod_succeeds :: bool
  sync_succeeds :: bool
  rename_succeeds :: bool
  parent_syncs :: bool
  unlink_succeeds :: bool
  uuid :: str
  task_joins :: bool

definition all_good :: io_env where
  "all_good =
     \<lparr>parent_opens = True, temp_opens = True, write_succeeds = True, written = 0,
      chmod_succeeds = True, sync_succeeds = True, rename_succeeds = True, parent_syncs = True,
      unlink_succeeds = True, uuid = ''0'', task_joins = True\<rparr>"

definition temporary_name :: "io_env \<Rightarrow> str \<Rightarrow> str" where
  "temporary_name env file_name = ''.'' @ file_name @ ''.'' @ uuid env @ ''.tmp''"

text \<open>
  The closure of the source: create the temporary file exclusively, write, set the mode, sync,
  rename over the target. A failed sync of the parent directory is only logged.
\<close>

definition write_temp_and_rename ::
  "io_env \<Rightarrow> str \<Rightarrow> str \<Rightarrow> directory \<Rightarrow> (io_error + unit) \<times> directory" where
  "write_temp_and_rename env file_name bytes dir =
     (let tmp = temporary_name env file_name in
      if \<not> temp_opens env \<or> tmp \<in> dom dir then (Err Os_error, dir)
      else if \<not> write_succeeds env then (Err Os_error, dir(tmp \<mapsto> take (written env) bytes))
      else let dir' = dir(tmp \<mapsto> bytes) in
        if \<not> chmod_succeeds env \<or> \<not> sync_succeeds env \<or> \<not> rename_succeeds env
        then (Err Os_error, dir')
        else (Ok (), (dir'(tmp := None))(file_name \<mapsto> bytes)))"

definition atomic_write_private_unix ::
  "io_env \<Rightarrow> str \<Rightarrow> str \<Rightarrow> directory \<Rightarrow> (io_error + unit) \<times> directory" where
  "atomic_write_private_unix env file_name bytes dir =
     (if \<not> parent_opens env then (Err Os_error, dir)
      else case write_temp_and_rename env file_name bytes dir of
             (Inl e, dir') \<Rightarrow>
               (Err e, if unlink_succeeds env then dir'(temporary_name env file_name := None) else dir')
           | (Inr u, dir') \<Rightarrow> (Ok u, dir'))"

record storage_path =
  path_parent :: "str option"
  path_file_name :: "str option"

definition atomic_write_private ::
  "io_env \<Rightarrow> storage_path \<Rightarrow> str \<Rightarrow> directory \<Rightarrow> (io_error + unit) \<times> directory" where
  "atomic_write_private env path bytes dir =
     (case path_parent path of
        None \<Rightarrow> (Err (InvalidInput ''storage path has no parent''), dir)
      | Some _ \<Rightarrow>
        (case path_file_name path of
           None \<Rightarrow> (Err (InvalidInput ''storage path has no file name''), dir)
         | Some file_name \<Rightarrow>
           (case atomic_write_private_unix env file_name bytes dir of
              (r, dir') \<Rightarrow> (if task_joins env then r else Err Join_error, dir'))))"

section \<open>Lemmas on atomic replacement\<close>

lemma temporary_name_neq: "temporary_name env f \<noteq> f"
proof
  assume "temporary_name env f = f"
  then have "length (temporary_name env f) = length f" by simp
  then show False by (simp add: temporary_name_def)
qed

lemma atomic_write_private_unix_Ok:
  "atomic_write_private_unix env f bytes dir = (Ok u, dir') \<Longrightarrow>
     dir' f = Some bytes \<and> (\<forall>g. g \<noteq> f \<longrightarrow> dir' g = dir g)"
  using temporary_name_neq [of env f]
  by (auto simp: atomic_write_private_unix_def write_temp_and_rename_def Let_def
      split: if_splits)

lemma atomic_write_private_unix_Err:
  "atomic_write_private_unix env f bytes dir = (Err e, dir') \<Longrightarrow>
     (\<forall>g. g \<noteq> temporary_name env f \<longrightarrow> dir' g = dir g)"
  by (auto simp: atomic_write_private_unix_def write_temp_and_rename_def Let_def
      split: if_splits)

lemma atomic_write_private_unix_cleans:
  "atomic_write_private_unix env f bytes dir = (r, dir') \<Longrightarrow> unlink_succeeds env \<Longrightarrow>
     temporary_name env f \<notin> dom dir \<Longrightarrow> parent_opens env \<Longrightarrow> temporary_name env f \<notin> dom dir'"
  using temporary_name_neq [of env f]
  by (auto simp: atomic_write_private_unix_def write_temp_and_rename_def Let_def
      split: if_splits)

lemma atomic_write_private_file:
  assumes "path_parent path \<noteq> None" "path_file_name path = Some f"
    and "atomic_write_private env path bytes dir = (r, dir')" "is_ok r \<or> task_joins env"
  shows "dir' f = (if is_ok r then Some bytes else dir f)"
proof -
  obtain r0 where w: "atomic_write_private_unix env f bytes dir = (r0, dir')"
      "r = (if task_joins env then r0 else Err Join_error)"
    using assms(1-3) by (auto simp: atomic_write_private_def split: prod.splits option.splits)
  then show ?thesis
    using assms(4) atomic_write_private_unix_Ok [of env f bytes dir _ dir']
      atomic_write_private_unix_Err [of env f bytes dir _ dir'] temporary_name_neq [of env f]
    by (cases r0) auto
qed

section \<open>A state in memory and on disk\<close>

text \<open>
  \<open>commit env s mem dir\<close> tries to make \<open>s\<close> the current state; \<open>load\<close> is what a restart reads; \<open>wf\<close>
  holds of the values the operations build.
  The laws: a successful commit leaves \<open>s\<close> in memory and a file that loads as \<open>s\<close>; a failed one
  leaves the memory and the file as they were.
\<close>

locale durable_state =
  fixes commit :: "io_env \<Rightarrow> 'a \<Rightarrow> 'a \<Rightarrow> directory \<Rightarrow> ('e + unit) \<times> 'a \<times> directory"
    and load :: "directory \<Rightarrow> 'e + 'a"
    and state_file :: str
    and wf :: "'a \<Rightarrow> bool"
  assumes commit_Ok: "commit env s mem dir = (Ok u, mem', dir') \<Longrightarrow> wf s \<Longrightarrow>
       mem' = s \<and> load dir' = Ok s"
    and commit_Err: "commit env s mem dir = (Err e, mem', dir') \<Longrightarrow> task_joins env \<Longrightarrow>
       mem' = mem \<and> dir' state_file = dir state_file"
    and load_file: "dir state_file = dir' state_file \<Longrightarrow> load dir = load dir'"
begin

lemma commit_synced:
  assumes "load dir = Ok mem" "task_joins env" "wf s" "commit env s mem dir = (r, mem', dir')"
  shows "load dir' = Ok mem'"
proof (cases r)
  case (Inl e)
  with assms have "mem' = mem \<and> dir' state_file = dir state_file" using commit_Err by blast
  with assms(1) show ?thesis using load_file [of dir dir'] by simp
next
  case (Inr u)
  with assms(3,4) show ?thesis using commit_Ok by blast
qed

text \<open>A run of commits with arbitrary faults: what a restart loads is what memory holds.\<close>

fun commits :: "(io_env \<times> 'a) list \<Rightarrow> 'a \<times> directory \<Rightarrow> 'a \<times> directory" where
  "commits [] c = c"
| "commits ((env, s) # cs) (mem, dir) = commits cs (snd (commit env s mem dir))"

lemma commits_synced:
  "load (snd c) = Ok (fst c) \<Longrightarrow> \<forall>(env, s) \<in> set cs. task_joins env \<and> wf s \<Longrightarrow>
     load (snd (commits cs c)) = Ok (fst (commits cs c))"
proof (induction cs c rule: commits.induct)
  case (2 env s cs mem dir)
  obtain r mem' dir' where c: "commit env s mem dir = (r, mem', dir')" by (metis prod_cases3)
  have "load dir' = Ok mem'"
    using commit_synced [OF _ _ _ c] 2 by simp
  with 2 c show ?case by simp
qed simp

end

section \<open>Properties\<close>

text \<open>
  C7: a private file is replaced atomically: whatever system call fails, the target holds the new
  bytes if the write reports success and its old content otherwise, no other file changes, and a
  temporary file that did not exist before is gone unless removing it failed.
\<close>

theorem atomic_write_all_or_nothing:
  assumes "atomic_write_private_unix env f bytes dir = (r, dir')"
  shows "dir' f = (if is_ok r then Some bytes else dir f)
    \<and> (\<forall>g. g \<noteq> f \<longrightarrow> g \<noteq> temporary_name env f \<longrightarrow> dir' g = dir g)
    \<and> (parent_opens env \<longrightarrow> unlink_succeeds env \<longrightarrow> temporary_name env f \<notin> dom dir \<longrightarrow>
         temporary_name env f \<notin> dom dir')"
proof (cases r)
  case (Inl e)
  with assms show ?thesis
    using atomic_write_private_unix_Err [of env f bytes dir e dir'] temporary_name_neq [of env f]
      atomic_write_private_unix_cleans [OF assms] by auto
next
  case (Inr u)
  with assms show ?thesis
    using atomic_write_private_unix_Ok [of env f bytes dir u dir']
      atomic_write_private_unix_cleans [OF assms] by auto
qed

theorem atomic_write_all_or_nothing_witness:
  "let env = all_good\<lparr>rename_succeeds := False\<rparr>;
       out = atomic_write_private_unix env ''state'' ''new'' [''state'' \<mapsto> ''old'']
   in fst out = Err Os_error \<and> snd out ''state'' = Some ''old''"
proof -
  let ?env = "all_good\<lparr>rename_succeeds := False\<rparr>"
  let ?out = "atomic_write_private_unix ?env ''state'' ''new'' [''state'' \<mapsto> ''old'']"
  have e: "fst ?out = Err Os_error"
    by (simp add: atomic_write_private_unix_def write_temp_and_rename_def all_good_def
        temporary_name_def Let_def)
  show ?thesis
    using atomic_write_all_or_nothing [of ?env "''state''" "''new''" "[''state'' \<mapsto> ''old'']" "fst ?out"
        "snd ?out", OF prod.collapse [symmetric]] e by (simp add: Let_def)
qed

end
