(* ===== verification/Retirement_Fence.thy ===== *)
theory Retirement_Fence
  imports Resource_Limits
begin

text \<open>
  The fence of \<open>services/rust-bridge/src/queue_service.rs\<close> that keeps new work away from threads
  that are being deleted (\<open>ThreadRetirementFence\<close>, \<open>ThreadRetirementLease\<close>), with the normalization
  of thread identifiers in front of it.

  The fence state sits behind a mutex, so each method is a function on it. The gate is tokio's
  read-write lock: admissions hold it shared, a retirement takes it exclusively while it begins.
  \<open>fence_step\<close> interleaves all holders: an admission guard, the barrier and the leases are part of
  the system state. A count of leases is a natural number: it would have to pass the 64-bit range
  of live leases to wrap.
\<close>

definition QUEUE_IDENTIFIER_MAX_BYTES :: nat where "QUEUE_IDENTIFIER_MAX_BYTES = 4096"

record fence_state =
  retiring :: "str \<rightharpoonup> nat"
  deleted :: "str set"

definition fence_default :: fence_state where
  "fence_default = \<lparr>retiring = Map.empty, deleted = {}\<rparr>"

record retirement_lease =
  lease_thread_ids :: "str list"
  lease_finished :: bool

definition validate_queue_identifier :: "str \<Rightarrow> str \<Rightarrow> str + unit" where
  "validate_queue_identifier name value =
     (if value = [] then Err (name @ '' must not be empty'')
      else if QUEUE_IDENTIFIER_MAX_BYTES < length value
      then Err (name @ '' must be at most '' @ show_nat QUEUE_IDENTIFIER_MAX_BYTES @ '' bytes'')
      else Ok ())"

definition normalize_retiring_thread_ids :: "str list \<Rightarrow> str + str list" where
  "normalize_retiring_thread_ids thread_ids =
     (let normalized = map trim thread_ids in
      res_bind (try_for_each (validate_queue_identifier ''threadId'') normalized)
        (\<lambda>_. Ok (sort_dedup normalized)))"

definition is_deleted :: "fence_state \<Rightarrow> str \<Rightarrow> bool" where
  "is_deleted s t = (t \<in> deleted s)"

text \<open>The check of \<open>admit_threads\<close>, with the gate held shared.\<close>

definition admit_threads :: "fence_state \<Rightarrow> str list \<Rightarrow> str + unit" where
  "admit_threads s thread_ids =
     (if list_ex (\<lambda>t. t \<in> dom (retiring s) \<or> t \<in> deleted s) thread_ids
      then Err ''thread is being deleted'' else Ok ())"

definition admit :: "fence_state \<Rightarrow> str \<Rightarrow> str + unit" where
  "admit s t = admit_threads s [t]"

definition retiring_inc :: "str \<Rightarrow> fence_state \<Rightarrow> fence_state" where
  "retiring_inc t s =
     s\<lparr>retiring := (retiring s)(t \<mapsto> (case retiring s t of None \<Rightarrow> 0 | Some n \<Rightarrow> n) + 1)\<rparr>"

definition begin_blocked :: "fence_state \<Rightarrow> str list \<Rightarrow> retirement_lease \<times> fence_state" where
  "begin_blocked s thread_ids =
     (\<lparr>lease_thread_ids = thread_ids, lease_finished = False\<rparr>, fold retiring_inc thread_ids s)"

definition mark_deleted_blocked :: "fence_state \<Rightarrow> str list \<Rightarrow> fence_state" where
  "mark_deleted_blocked s thread_ids = s\<lparr>deleted := deleted s \<union> set thread_ids\<rparr>"

definition complete_one :: "bool \<Rightarrow> str \<Rightarrow> fence_state \<Rightarrow> fence_state" where
  "complete_one del t s =
     (let s1 = (if del then s\<lparr>deleted := insert t (deleted s)\<rparr> else s) in
      case retiring s1 t of
        None \<Rightarrow> s1
      | Some n \<Rightarrow>
          if n - 1 = 0 then s1\<lparr>retiring := (retiring s1)(t := None)\<rparr>
          else s1\<lparr>retiring := (retiring s1)(t \<mapsto> n - 1)\<rparr>)"

definition complete :: "retirement_lease \<Rightarrow> bool \<Rightarrow> fence_state \<Rightarrow> fence_state" where
  "complete l del s = fold (complete_one del) (lease_thread_ids l) s"

text \<open>A lease is consumed by \<open>finish\<close>, and its destructor runs right after with the flag set.\<close>

definition lease_drop :: "retirement_lease \<Rightarrow> fence_state \<Rightarrow> fence_state" where
  "lease_drop l s = (if lease_finished l then s else complete l False s)"

definition finish :: "retirement_lease \<Rightarrow> fence_state \<Rightarrow> fence_state" where
  "finish l s = lease_drop (l\<lparr>lease_finished := True\<rparr>) (complete l False s)"

definition finish_deleted :: "retirement_lease \<Rightarrow> fence_state \<Rightarrow> fence_state" where
  "finish_deleted l s = lease_drop (l\<lparr>lease_finished := True\<rparr>) (complete l True s)"

section \<open>The system around the fence\<close>

record fence_system =
  fs_fence :: fence_state
  fs_leases :: "retirement_lease list"
  fs_admissions :: "str list list"
  fs_barrier :: bool

definition fence_start :: fence_system where
  "fence_start = \<lparr>fs_fence = fence_default, fs_leases = [], fs_admissions = [], fs_barrier = False\<rparr>"

text \<open>
  \<open>begin_retirement_fence\<close> is \<open>block\<close>, \<open>begin_lease\<close>, \<open>unblock\<close>; \<open>install_deleted_thread_tombstones\<close> is
  \<open>block\<close>, \<open>tombstone\<close>, \<open>unblock\<close>. Other tasks may run between any two of these steps.
\<close>

inductive fence_step :: "fence_system \<Rightarrow> fence_system \<Rightarrow> bool" where
  admitted: "\<not> fs_barrier S \<Longrightarrow> admit_threads (fs_fence S) ts = Ok () \<Longrightarrow>
    fence_step S (S\<lparr>fs_admissions := ts # fs_admissions S\<rparr>)"
| refused: "\<not> fs_barrier S \<Longrightarrow> admit_threads (fs_fence S) ts = Err e \<Longrightarrow> fence_step S S"
| release: "ts \<in> set (fs_admissions S) \<Longrightarrow>
    fence_step S (S\<lparr>fs_admissions := remove1 ts (fs_admissions S)\<rparr>)"
| block: "\<not> fs_barrier S \<Longrightarrow> fs_admissions S = [] \<Longrightarrow> fence_step S (S\<lparr>fs_barrier := True\<rparr>)"
| unblock: "fs_barrier S \<Longrightarrow> fence_step S (S\<lparr>fs_barrier := False\<rparr>)"
| begin_lease: "fs_barrier S \<Longrightarrow> normalize_retiring_thread_ids raw = Ok ts \<Longrightarrow>
    begin_blocked (fs_fence S) ts = (l, f) \<Longrightarrow>
    fence_step S (S\<lparr>fs_fence := f, fs_leases := l # fs_leases S\<rparr>)"
| tombstone: "fs_barrier S \<Longrightarrow> normalize_retiring_thread_ids raw = Ok ts \<Longrightarrow>
    fence_step S (S\<lparr>fs_fence := mark_deleted_blocked (fs_fence S) ts\<rparr>)"
| end_lease: "l \<in> set (fs_leases S) \<Longrightarrow>
    fence_step S (S\<lparr>fs_fence := finish l (fs_fence S), fs_leases := remove1 l (fs_leases S)\<rparr>)"
| end_deleted: "l \<in> set (fs_leases S) \<Longrightarrow>
    fence_step S (S\<lparr>fs_fence := finish_deleted l (fs_fence S), fs_leases := remove1 l (fs_leases S)\<rparr>)"
| drop_lease: "l \<in> set (fs_leases S) \<Longrightarrow>
    fence_step S (S\<lparr>fs_fence := lease_drop l (fs_fence S), fs_leases := remove1 l (fs_leases S)\<rparr>)"

inductive fence_reachable :: "fence_system \<Rightarrow> bool" where
  start: "fence_reachable fence_start"
| step: "fence_reachable S \<Longrightarrow> fence_step S S' \<Longrightarrow> fence_reachable S'"

inductive_cases fence_stepE: "fence_step S S'"

section \<open>Counting leases\<close>

definition count_map :: "(str \<Rightarrow> nat) \<Rightarrow> str \<rightharpoonup> nat" where
  "count_map c t = (if c t = 0 then None else Some (c t))"

definition lease_count :: "retirement_lease list \<Rightarrow> str \<Rightarrow> nat" where
  "lease_count ls t = sum_list (map (\<lambda>l. count_list (lease_thread_ids l) t) ls)"

lemma retiring_inc_count:
  "retiring s = count_map c \<Longrightarrow> retiring (retiring_inc t s) = count_map (c(t := c t + 1))"
  by (auto simp: retiring_inc_def count_map_def fun_eq_iff)

lemma fold_retiring_inc:
  "retiring s = count_map c \<Longrightarrow>
     retiring (fold retiring_inc ts s) = count_map (\<lambda>t. c t + count_list ts t)
     \<and> deleted (fold retiring_inc ts s) = deleted s"
proof (induction ts arbitrary: s c)
  case (Cons u ts)
  have "(\<lambda>t. (c(u := c u + 1)) t + count_list ts t) = (\<lambda>t. c t + count_list (u # ts) t)"
    by auto
  with Cons.IH [OF retiring_inc_count [OF Cons.prems, of u]] show ?case
    by (simp add: retiring_inc_def)
qed (simp add: count_map_def fun_eq_iff)

lemma complete_one_count:
  "retiring s = count_map c \<Longrightarrow> 0 < c t \<Longrightarrow>
     retiring (complete_one del t s) = count_map (c(t := c t - 1))
     \<and> deleted (complete_one del t s) = (if del then insert t (deleted s) else deleted s)"
  by (auto simp: complete_one_def count_map_def fun_eq_iff Let_def)

lemma fold_complete_one:
  assumes "retiring s = count_map c" "\<forall>t. count_list ts t \<le> c t"
  shows "retiring (fold (complete_one del) ts s) = count_map (\<lambda>t. c t - count_list ts t)
     \<and> deleted (fold (complete_one del) ts s) = deleted s \<union> (if del then set ts else {})"
  using assms
proof (induction ts arbitrary: s c)
  case (Cons u ts)
  have "0 < c u" using Cons.prems(2) [rule_format, of u] by simp
  note one = complete_one_count [OF Cons.prems(1) this, of del]
  have le: "\<forall>t. count_list ts t \<le> (c(u := c u - 1)) t"
  proof
    fix t
    show "count_list ts t \<le> (c(u := c u - 1)) t"
      using Cons.prems(2) [rule_format, of t] by (cases "t = u") auto
  qed
  have "(\<lambda>t. (c(u := c u - 1)) t - count_list ts t) = (\<lambda>t. c t - count_list (u # ts) t)"
    by auto
  with Cons.IH [OF conjunct1 [OF one] le] one show ?case by auto
qed (simp add: count_map_def fun_eq_iff)

lemma lease_count_simps [simp]:
  "lease_count [] t = 0" "lease_count (l # ls) t = count_list (lease_thread_ids l) t + lease_count ls t"
  by (simp_all add: lease_count_def)

lemma lease_count_remove1:
  "l \<in> set ls \<Longrightarrow> lease_count (remove1 l ls) t + count_list (lease_thread_ids l) t = lease_count ls t"
  by (induction ls) auto

lemma lease_count_pos: "l \<in> set ls \<Longrightarrow> t \<in> set (lease_thread_ids l) \<Longrightarrow> 0 < lease_count ls t"
proof (induction ls)
  case (Cons m ls)
  show ?case
  proof (cases "l = m")
    case True
    then have "count_list (lease_thread_ids m) t \<noteq> 0"
      using Cons.prems(2) by (simp add: count_list_0_iff)
    then show ?thesis by simp
  next
    case False
    then show ?thesis using Cons by simp
  qed
qed simp

section \<open>Invariant\<close>

definition fence_inv :: "fence_system \<Rightarrow> bool" where
  "fence_inv S =
     (retiring (fs_fence S) = count_map (lease_count (fs_leases S))
      \<and> (\<forall>l\<in>set (fs_leases S). \<not> lease_finished l)
      \<and> (fs_barrier S \<longrightarrow> fs_admissions S = [])
      \<and> (\<forall>ts\<in>set (fs_admissions S). admit_threads (fs_fence S) ts = Ok ()))"

lemma admit_threads_Ok:
  "admit_threads s ts = Ok u \<longleftrightarrow> (\<forall>t\<in>set ts. retiring s t = None \<and> t \<notin> deleted s)"
  by (auto simp: admit_threads_def list_ex_iff)

lemma lease_end_cases:
  "finish l s = complete l False s" "finish_deleted l s = complete l True s"
  "\<not> lease_finished l \<Longrightarrow> lease_drop l s = complete l False s"
  by (simp_all add: finish_def finish_deleted_def lease_drop_def)

lemma complete_inv:
  assumes "fence_inv S" "l \<in> set (fs_leases S)"
  shows "fence_inv (S\<lparr>fs_fence := complete l del (fs_fence S), fs_leases := remove1 l (fs_leases S)\<rparr>)"
    and "deleted (complete l del (fs_fence S)) =
      deleted (fs_fence S) \<union> (if del then set (lease_thread_ids l) else {})"
proof -
  let ?c = "lease_count (fs_leases S)" and ?ts = "lease_thread_ids l" and ?f = "fs_fence S"
  have r: "retiring ?f = count_map ?c" using assms(1) by (simp add: fence_inv_def)
  have le: "\<forall>t. count_list ?ts t \<le> ?c t"
  proof
    fix t
    show "count_list ?ts t \<le> ?c t" using lease_count_remove1 [OF assms(2), of t] by simp
  qed
  have c: "(\<lambda>t. ?c t - count_list ?ts t) = lease_count (remove1 l (fs_leases S))"
  proof
    fix t
    show "?c t - count_list ?ts t = lease_count (remove1 l (fs_leases S)) t"
      using lease_count_remove1 [OF assms(2), of t] by simp
  qed
  note f = fold_complete_one [OF r le, of del]
  show "deleted (complete l del ?f) = deleted ?f \<union> (if del then set ?ts else {})"
    using f by (simp add: complete_def)
  have "admit_threads (complete l del ?f) ts = Ok ()" if ts: "ts \<in> set (fs_admissions S)" for ts
  proof -
    have ok: "\<forall>t\<in>set ts. retiring ?f t = None \<and> t \<notin> deleted ?f"
      using assms(1) ts by (auto simp: fence_inv_def admit_threads_Ok)
    have "t \<notin> set ?ts \<and> lease_count (remove1 l (fs_leases S)) t = 0" if "t \<in> set ts" for t
    proof -
      have z: "?c t = 0" using ok that by (auto simp: r count_map_def split: if_splits)
      then show ?thesis
        using lease_count_pos [OF assms(2), of t] lease_count_remove1 [OF assms(2), of t] by auto
    qed
    then show ?thesis using ok f by (auto simp: complete_def admit_threads_Ok c count_map_def)
  qed
  then show "fence_inv (S\<lparr>fs_fence := complete l del ?f, fs_leases := remove1 l (fs_leases S)\<rparr>)"
    using assms f by (auto simp: fence_inv_def complete_def c dest: notin_set_remove1)
qed

lemma fence_step_inv: "fence_step S S' \<Longrightarrow> fence_inv S \<Longrightarrow> fence_inv S'"
proof (induction rule: fence_step.induct)
  case (release ts S)
  then show ?case by (auto simp: fence_inv_def dest: notin_set_remove1)
next
  case (begin_lease S raw ts l f)
  have r: "retiring (fs_fence S) = count_map (lease_count (fs_leases S))"
    using begin_lease(4) by (simp add: fence_inv_def)
  have "retiring f = count_map (lease_count (l # fs_leases S))"
    using begin_lease(3) fold_retiring_inc [OF r, of ts]
    by (auto simp: begin_blocked_def add.commute count_map_def fun_eq_iff)
  with begin_lease show ?case by (auto simp: fence_inv_def begin_blocked_def)
next
  case (end_lease l S)
  then show ?case using complete_inv(1) by (simp add: lease_end_cases)
next
  case (end_deleted l S)
  then show ?case using complete_inv(1) by (simp add: lease_end_cases)
next
  case (drop_lease l S)
  then have "\<not> lease_finished l" by (simp add: fence_inv_def)
  with drop_lease show ?case using complete_inv(1) by (simp add: lease_end_cases)
qed (auto simp: fence_inv_def mark_deleted_blocked_def)

lemma fence_reachable_inv: "fence_reachable S \<Longrightarrow> fence_inv S"
proof (induction rule: fence_reachable.induct)
  case start
  show ?case by (simp add: fence_inv_def fence_start_def fence_default_def count_map_def fun_eq_iff)
next
  case (step S S')
  then show ?case using fence_step_inv by blast
qed

lemma fence_step_deleted_mono:
  assumes "fence_inv S" "fence_step S S'"
  shows "deleted (fs_fence S) \<subseteq> deleted (fs_fence S')"
  using assms(2,1)
proof (induction rule: fence_step.induct)
  case (begin_lease S raw ts l f)
  have "retiring (fs_fence S) = count_map (lease_count (fs_leases S))"
    using begin_lease by (simp add: fence_inv_def)
  from fold_retiring_inc [OF this, of ts] begin_lease show ?case by (auto simp: begin_blocked_def)
next
  case (drop_lease l S)
  then have "\<not> lease_finished l" by (simp add: fence_inv_def)
  with drop_lease show ?case using complete_inv(2) by (simp add: lease_end_cases)
qed (auto simp: lease_end_cases complete_inv(2) mark_deleted_blocked_def)

lemma fence_steps_deleted_mono:
  assumes "fence_step\<^sup>*\<^sup>* S S'" "fence_inv S"
  shows "deleted (fs_fence S) \<subseteq> deleted (fs_fence S')"
proof -
  have "fence_inv S' \<and> deleted (fs_fence S) \<subseteq> deleted (fs_fence S')"
    using assms
  proof (induction rule: rtranclp_induct)
    case (step T U)
    then show ?case using fence_step_inv fence_step_deleted_mono by blast
  qed simp
  then show ?thesis by simp
qed

section \<open>Properties\<close>

text \<open>
  C8: deletion excludes work. In every interleaving, a thread for which an admission guard is held
  is covered by no active retirement lease and has no tombstone; and a thread that some lease
  covers, or that has been deleted, is refused, while any other thread is admitted.
\<close>

theorem fence_excludes_admitted_work:
  assumes "fence_reachable S"
  shows "(\<forall>ts\<in>set (fs_admissions S). \<forall>t\<in>set ts.
        \<not> is_deleted (fs_fence S) t \<and> (\<forall>l\<in>set (fs_leases S). t \<notin> set (lease_thread_ids l)))
    \<and> (\<forall>t. is_ok (admit (fs_fence S) t) \<longleftrightarrow>
        \<not> is_deleted (fs_fence S) t \<and> (\<forall>l\<in>set (fs_leases S). t \<notin> set (lease_thread_ids l)))"
proof -
  have inv: "fence_inv S" by (rule fence_reachable_inv [OF assms])
  have free: "retiring (fs_fence S) t = None \<longleftrightarrow> (\<forall>l\<in>set (fs_leases S). t \<notin> set (lease_thread_ids l))"
    for t
  proof -
    have "retiring (fs_fence S) t = None \<longleftrightarrow> lease_count (fs_leases S) t = 0"
      using inv by (simp add: fence_inv_def count_map_def)
    also have "\<dots> \<longleftrightarrow> (\<forall>l\<in>set (fs_leases S). t \<notin> set (lease_thread_ids l))"
      by (auto simp: lease_count_def count_list_0_iff)
    finally show ?thesis .
  qed
  have "\<forall>ts\<in>set (fs_admissions S). \<forall>t\<in>set ts. retiring (fs_fence S) t = None \<and> t \<notin> deleted (fs_fence S)"
    using inv unfolding fence_inv_def admit_threads_Ok by blast
  then show ?thesis
    by (auto simp: free is_deleted_def admit_def is_ok_iff admit_threads_Ok)
qed

theorem fence_excludes_admitted_work_witness:
  "\<exists>S. fence_reachable S \<and> length (fs_leases S) = 1 \<and> \<not> is_ok (admit (fs_fence S) ''t'')
     \<and> is_ok (admit (fs_fence S) ''u'')"
proof -
  let ?S1 = "fence_start\<lparr>fs_barrier := True\<rparr>"
  let ?l = "\<lparr>lease_thread_ids = [''t''], lease_finished = False\<rparr>"
  let ?S2 = "?S1\<lparr>fs_fence := retiring_inc ''t'' fence_default, fs_leases := [?l]\<rparr>"
  have "normalize_retiring_thread_ids [''t''] = Ok [''t'']" by code_simp
  moreover have "begin_blocked (fs_fence ?S1) [''t''] = (?l, retiring_inc ''t'' fence_default)"
    by (simp add: begin_blocked_def fence_start_def)
  ultimately have "fence_step ?S1 (?S1\<lparr>fs_fence := retiring_inc ''t'' fence_default,
      fs_leases := ?l # fs_leases ?S1\<rparr>)"
    by (intro fence_step.begin_lease) simp_all
  moreover have "fence_step fence_start ?S1" by (rule fence_step.block) (simp_all add: fence_start_def)
  ultimately have "fence_reachable ?S2"
    by (metis fence_reachable.intros fence_start_def fence_system.select_convs(2)
        fence_system.update_convs(4))
  then show ?thesis
    using fence_excludes_admitted_work [of ?S2]
    by (intro exI [of _ ?S2]) (simp add: fence_start_def fence_default_def is_deleted_def retiring_inc_def)
qed

text \<open>
  Tombstones are permanent. Once a lease has been finished as deleted, its threads are refused
  in every later state, whatever other retirements begin, finish or are abandoned.
\<close>

theorem fence_deleted_forever:
  assumes "fence_reachable S" "l \<in> set (fs_leases S)" "t \<in> set (lease_thread_ids l)"
    and "fence_step\<^sup>*\<^sup>* (S\<lparr>fs_fence := finish_deleted l (fs_fence S), fs_leases := remove1 l (fs_leases S)\<rparr>) S'"
  shows "is_deleted (fs_fence S') t \<and> admit (fs_fence S') t = Err ''thread is being deleted''"
proof -
  let ?S1 = "S\<lparr>fs_fence := finish_deleted l (fs_fence S), fs_leases := remove1 l (fs_leases S)\<rparr>"
  note inv = fence_reachable_inv [OF assms(1)]
  have "fence_inv ?S1" by (rule fence_step_inv [OF fence_step.end_deleted [OF assms(2)] inv])
  from fence_steps_deleted_mono [OF assms(4) this]
  have "deleted (finish_deleted l (fs_fence S)) \<subseteq> deleted (fs_fence S')" by simp
  moreover have "t \<in> deleted (finish_deleted l (fs_fence S))"
    using complete_inv(2) [OF inv assms(2), of True] assms(3) by (simp add: lease_end_cases)
  ultimately show ?thesis by (auto simp: is_deleted_def admit_def admit_threads_def)
qed

theorem fence_deleted_forever_witness:
  "\<exists>S l. fence_reachable S \<and> l \<in> set (fs_leases S) \<and>
     admit (finish_deleted l (fs_fence S)) ''t'' = Err ''thread is being deleted''"
proof -
  let ?S1 = "fence_start\<lparr>fs_barrier := True\<rparr>"
  let ?l = "\<lparr>lease_thread_ids = [''t''], lease_finished = False\<rparr>"
  let ?S2 = "?S1\<lparr>fs_fence := retiring_inc ''t'' fence_default, fs_leases := ?l # fs_leases ?S1\<rparr>"
  have "normalize_retiring_thread_ids [''t''] = Ok [''t'']" by code_simp
  moreover have "begin_blocked (fs_fence ?S1) [''t''] = (?l, retiring_inc ''t'' fence_default)"
    by (simp add: begin_blocked_def fence_start_def)
  ultimately have "fence_step ?S1 ?S2"
    by (intro fence_step.begin_lease) simp_all
  moreover have "fence_step fence_start ?S1" by (rule fence_step.block) (simp_all add: fence_start_def)
  ultimately have r: "fence_reachable ?S2" by (metis fence_reachable.intros)
  then show ?thesis
    using fence_deleted_forever [OF r, of ?l "''t''", OF _ _ rtranclp.rtrancl_refl]
    by (intro exI [of _ ?S2] exI [of _ ?l]) simp
qed

end
