(* ===== verification/Serde.thy ===== *)
theory Serde
  imports Json_Text Btree_Map
begin

text \<open>
  What \<open>#[derive(Serialize, Deserialize)]\<close> gives a struct or an enumeration in JSON: a struct is an
  object with known, non-repeated members or an array of the fields in order; a member with
  \<open>default\<close> may be missing; an \<open>Option\<close> reads \<open>null\<close> as \<open>None\<close>; a unit variant is its name or an
  object of the name and \<open>null\<close>. The parser of the text hands over every member in order, also
  repeated ones, as serde's visitors see them.
\<close>

definition de_string :: "json \<Rightarrow> str option" where
  "de_string v = as_str v"

definition de_u32 :: "json \<Rightarrow> nat option" where
  "de_u32 v = (case v of JInt n \<Rightarrow> if 0 \<le> n \<and> n < 2 ^ 32 then Some (nat n) else None | _ \<Rightarrow> None)"

fun opt_traverse :: "('a \<Rightarrow> 'b option) \<Rightarrow> 'a list \<Rightarrow> 'b list option" where
  "opt_traverse f [] = Some []"
| "opt_traverse f (x # xs) =
     (case f x of None \<Rightarrow> None | Some y \<Rightarrow> map_option (Cons y) (opt_traverse f xs))"

definition de_vec :: "(json \<Rightarrow> 'a option) \<Rightarrow> json \<Rightarrow> 'a list option" where
  "de_vec f v = (case v of JArray vs \<Rightarrow> opt_traverse f vs | _ \<Rightarrow> None)"

definition de_option :: "(json \<Rightarrow> 'a option) \<Rightarrow> json \<Rightarrow> 'a option option" where
  "de_option f v = (case v of JNull \<Rightarrow> Some None | _ \<Rightarrow> map_option Some (f v))"

definition de_unit_variant :: "(str \<times> 'a) list \<Rightarrow> json \<Rightarrow> 'a option" where
  "de_unit_variant variants v =
     (case v of
        JString s \<Rightarrow> map_of variants s
      | JObject [(k, JNull)] \<Rightarrow> map_of variants k
      | _ \<Rightarrow> None)"

definition struct_members :: "str list \<Rightarrow> json \<Rightarrow> (str \<rightharpoonup> json) option" where
  "struct_members names v =
     (case v of
        JObject kvs \<Rightarrow>
          if distinct (map fst kvs) \<and> set (map fst kvs) \<subseteq> set names then Some (map_of kvs) else None
      | JArray vs \<Rightarrow> if length vs \<le> length names then Some (map_of (zip names vs)) else None
      | _ \<Rightarrow> None)"

definition field_req :: "(str \<rightharpoonup> json) \<Rightarrow> str \<Rightarrow> (json \<Rightarrow> 'a option) \<Rightarrow> 'a option" where
  "field_req ms k f = Option.bind (ms k) f"

definition field_opt :: "(str \<rightharpoonup> json) \<Rightarrow> str \<Rightarrow> (json \<Rightarrow> 'a option) \<Rightarrow> 'a option option" where
  "field_opt ms k f = (case ms k of None \<Rightarrow> Some None | Some v \<Rightarrow> de_option f v)"

text \<open>A member with \<open>#[serde(default)]\<close> that is not an \<open>Option\<close>.\<close>

definition field_default :: "(str \<rightharpoonup> json) \<Rightarrow> str \<Rightarrow> 'a \<Rightarrow> (json \<Rightarrow> 'a option) \<Rightarrow> 'a option" where
  "field_default ms k d f = (case ms k of None \<Rightarrow> Some d | Some v \<Rightarrow> f v)"

text \<open>A struct without \<open>deny_unknown_fields\<close>: other members are ignored.\<close>

definition open_members :: "str list \<Rightarrow> json \<Rightarrow> (str \<rightharpoonup> json) option" where
  "open_members names v =
     (case v of
        JObject kvs \<Rightarrow> struct_members names (JObject (filter (\<lambda>(k, _). k \<in> set names) kvs))
      | _ \<Rightarrow> struct_members names v)"

text \<open>The map visitors: \<open>unique\<close> rejects a repeated key, the standard one keeps the last value.\<close>

fun de_entries ::
  "bool \<Rightarrow> (json \<Rightarrow> 'a option) \<Rightarrow> (str \<times> json) list \<Rightarrow> (str, 'a) btree \<Rightarrow> (str, 'a) btree option" where
  "de_entries unique f [] m = Some m"
| "de_entries unique f ((k, v) # kvs) m =
     (case f v of
        None \<Rightarrow> None
      | Some x \<Rightarrow>
          if unique \<and> bt_contains m k then None else de_entries unique f kvs (bt_insert k x m))"

definition de_btree :: "bool \<Rightarrow> (json \<Rightarrow> 'a option) \<Rightarrow> json \<Rightarrow> (str, 'a) btree option" where
  "de_btree unique f v = (case v of JObject kvs \<Rightarrow> de_entries unique f kvs [] | _ \<Rightarrow> None)"

definition ser_btree :: "('a \<Rightarrow> json) \<Rightarrow> (str, 'a) btree \<Rightarrow> json" where
  "ser_btree g m = JObject (map (\<lambda>(k, x). (k, g x)) m)"

definition ser_strings :: "str list \<Rightarrow> json" where
  "ser_strings ss = JArray (map JString ss)"

section \<open>Round trips\<close>

lemma de_string_simp [simp]: "de_string (JString s) = Some s"
  by (simp add: de_string_def as_str_def)

lemma de_u32_simp: "n < 2 ^ 32 \<Longrightarrow> de_u32 (JInt (int n)) = Some n"
  by (simp add: de_u32_def)

lemma opt_traverse_map: "(\<And>x. x \<in> set xs \<Longrightarrow> f (g x) = Some x) \<Longrightarrow> opt_traverse f (map g xs) = Some xs"
  by (induction xs) auto

lemma de_vec_strings [simp]: "de_vec de_string (ser_strings ss) = Some ss"
  by (simp add: de_vec_def ser_strings_def opt_traverse_map)

lemma de_option_strings [simp]: "de_option (de_vec de_string) (ser_strings ss) = Some (Some ss)"
  using de_vec_strings [of ss] by (simp add: de_option_def ser_strings_def)

lemma de_option_string [simp]: "de_option de_string (JString s) = Some (Some s)"
  by (simp add: de_option_def)

lemma bt_insert_last:
  "bt_wf (m @ [(k, x)]) \<Longrightarrow> bt_insert k x m = m @ [(k, x)]"
proof (induction m)
  case (Cons e m)
  obtain k' x' where e: "e = (k', x')" by fastforce
  have "k' < k" "bt_wf (m @ [(k, x)])"
    using Cons.prems by (auto simp: e bt_wf_def order_le_less)
  with Cons.IH e show ?case by auto
qed simp

lemma bt_wf_prefix: "bt_wf (m @ n) \<Longrightarrow> bt_wf m"
  by (auto simp: bt_wf_def sorted_append)

lemma de_entries_ser:
  assumes "\<And>k x. (k, x) \<in> set n \<Longrightarrow> f (g x) = Some x" "bt_wf (m @ n)"
  shows "de_entries u f (map (\<lambda>(k, x). (k, g x)) n) m = Some (m @ n)"
  using assms
proof (induction n arbitrary: m)
  case (Cons e n)
  obtain k x where e: "e = (k, x)" by fastforce
  have wf: "bt_wf (m @ [(k, x)])" using Cons.prems(2) bt_wf_prefix [of "m @ [(k, x)]" n] by (simp add: e)
  have fresh: "\<not> bt_contains m k"
    using wf by (auto simp: bt_contains_def bt_wf_def map_of_eq_None_iff)
  have "de_entries u f (map (\<lambda>(k, x). (k, g x)) n) (m @ [(k, x)]) = Some ((m @ [(k, x)]) @ n)"
    by (rule Cons.IH) (use Cons.prems e in auto)
  with Cons.prems(1) [of k x] fresh bt_insert_last [OF wf] show ?case by (simp add: e)
qed simp

lemma de_btree_ser:
  assumes "\<And>k x. (k, x) \<in> set m \<Longrightarrow> f (g x) = Some x" "bt_wf m"
  shows "de_btree u f (ser_btree g m) = Some m"
  using de_entries_ser [of m f g "[]" u] assms by (simp add: de_btree_def ser_btree_def)

lemma de_entries_wf: "de_entries u f kvs m = Some m' \<Longrightarrow> bt_wf m \<Longrightarrow> bt_wf m'"
  by (induction u f kvs m rule: de_entries.induct) (auto split: option.splits if_splits)

lemma de_btree_wf: "de_btree u f v = Some m \<Longrightarrow> bt_wf m"
  by (auto simp: de_btree_def de_entries_wf split: json.splits)

end
