(* ===== verification/Retirement_Journal.thy ===== *)
theory Retirement_Journal
  imports Serde Storage Identity
begin

text \<open>
  \<open>services/rust-bridge/src/retirement_journal.rs\<close>: the durable journal of thread deletions. An
  intent is written before a deletion starts (\<open>add_prepared\<close>), completed with the whole deleted
  family (\<open>mark_deleted\<close>) and removed at the end, so that a restart finishes what was begun.

  JSON text, base64, the canonical form of a UUID and the random UUIDs are parameters. A UUID is
  drawn until it is not a key: the candidates are a list, and using it up is the value \<open>None\<close>.
  Errors carry the source's message; those that quote an error of serde or of the system are
  constructors of their own. The hooks of the unit tests are left out.
\<close>

section \<open>State\<close>

definition RETIREMENT_JOURNAL_VERSION :: nat where "RETIREMENT_JOURNAL_VERSION = 2"
definition RETIREMENT_ENTRY_VERSION :: nat where "RETIREMENT_ENTRY_VERSION = 1"
definition RETIREMENT_JOURNAL_MAX_BYTES :: nat where "RETIREMENT_JOURNAL_MAX_BYTES = 1024 * 1024"
definition RETIREMENT_JOURNAL_MAX_ENTRIES :: nat where "RETIREMENT_JOURNAL_MAX_ENTRIES = 256"
definition RETIREMENT_JOURNAL_MAX_THREAD_IDS :: nat where "RETIREMENT_JOURNAL_MAX_THREAD_IDS = 4096"
definition RETIREMENT_THREAD_ID_MAX_BYTES :: nat where "RETIREMENT_THREAD_ID_MAX_BYTES = 4096"

datatype retirement_phase = Prepared | Deleted

record stored_retirement =
  sr_version :: nat
  sr_phase :: retirement_phase
  requested_thread_ids :: "str list"
  deleted_thread_ids :: "str list option"

record retirement_journal_entry =
  je_retirement_id :: str
  je_phase :: retirement_phase
  je_requested_thread_ids :: "str list"
  je_deleted_thread_ids :: "str list"

record retirement_journal_state =
  js_version :: nat
  retirements :: "(str, stored_retirement) btree"

definition journal_default :: retirement_journal_state where
  "journal_default = \<lparr>js_version = RETIREMENT_JOURNAL_VERSION, retirements = []\<rparr>"

datatype journal_error =
  Message str | Read_failed | Invalid_journal | Persist_failed io_error

record journal_ext =
  j_json :: json_text
  j_b64 :: b64
  uuid_canon :: "str \<Rightarrow> str option"

section \<open>The file format\<close>

fun ser_phase :: "retirement_phase \<Rightarrow> json" where
  "ser_phase Prepared = JString ''prepared''"
| "ser_phase Deleted = JString ''deleted''"

definition de_phase :: "json \<Rightarrow> retirement_phase option" where
  "de_phase = de_unit_variant [(''prepared'', Prepared), (''deleted'', Deleted)]"

definition ser_retirement :: "stored_retirement \<Rightarrow> json" where
  "ser_retirement r =
     JObject
       ([(''version'', JInt (int (sr_version r))), (''phase'', ser_phase (sr_phase r)),
         (''requestedThreadIds'', ser_strings (requested_thread_ids r))]
        @ (case deleted_thread_ids r of
             None \<Rightarrow> [] | Some ds \<Rightarrow> [(''deletedThreadIds'', ser_strings ds)]))"

definition de_retirement :: "json \<Rightarrow> stored_retirement option" where
  "de_retirement v =
     Option.bind (struct_members
         [''version'', ''phase'', ''requestedThreadIds'', ''deletedThreadIds''] v) (\<lambda>ms.
     Option.bind (field_req ms ''version'' de_u32) (\<lambda>ver.
     Option.bind (field_req ms ''phase'' de_phase) (\<lambda>ph.
     Option.bind (field_req ms ''requestedThreadIds'' (de_vec de_string)) (\<lambda>req.
     Option.bind (field_opt ms ''deletedThreadIds'' (de_vec de_string)) (\<lambda>del.
     Some \<lparr>sr_version = ver, sr_phase = ph, requested_thread_ids = req,
           deleted_thread_ids = del\<rparr>)))))"

definition ser_state :: "retirement_journal_state \<Rightarrow> json" where
  "ser_state s =
     JObject [(''version'', JInt (int (js_version s))),
              (''retirements'', ser_btree ser_retirement (retirements s))]"

definition deserialize_retirements :: "json \<Rightarrow> (str, stored_retirement) btree option" where
  "deserialize_retirements = de_btree True de_retirement"

definition de_state :: "json \<Rightarrow> retirement_journal_state option" where
  "de_state v =
     Option.bind (struct_members [''version'', ''retirements''] v) (\<lambda>ms.
     Option.bind (field_req ms ''version'' de_u32) (\<lambda>ver.
     Option.bind (field_req ms ''retirements'' deserialize_retirements) (\<lambda>m.
     Some \<lparr>js_version = ver, retirements = m\<rparr>)))"

section \<open>Validation\<close>

definition journal_validate_thread_id :: "journal_ext \<Rightarrow> str \<Rightarrow> journal_error + unit" where
  "journal_validate_thread_id X t =
     (if t = [] \<or> RETIREMENT_THREAD_ID_MAX_BYTES < length t
      then Err (Message (''thread retirement journal thread ID must be between 1 and ''
             @ show_nat RETIREMENT_THREAD_ID_MAX_BYTES @ '' bytes''))
      else case identity_decode (j_b64 X) t of
             Inr _ \<Rightarrow> Ok ()
           | Inl _ \<Rightarrow> Err (Message
               ''thread retirement journal contains an invalid opaque ACP thread ID''))"

definition validate_retirement_id :: "journal_ext \<Rightarrow> str \<Rightarrow> journal_error + unit" where
  "validate_retirement_id X i =
     (case uuid_canon X i of
        None \<Rightarrow> Err (Message ''thread retirement journal key must be a UUID'')
      | Some c \<Rightarrow>
          if c \<noteq> i
          then Err (Message ''thread retirement journal key must use canonical lowercase UUID form'')
          else Ok ())"

fun check_unique ::
  "journal_ext \<Rightarrow> str \<Rightarrow> str list \<Rightarrow> str list \<Rightarrow> journal_error + str list" where
  "check_unique X which [] seen = Ok seen"
| "check_unique X which (t # ts) seen =
     res_bind (journal_validate_thread_id X t) (\<lambda>_.
       if t \<in> set seen
       then Err (Message (''thread retirement journal entry contains duplicate '' @ which @ '' thread IDs''))
       else check_unique X which ts (t # seen))"

definition validate_entry ::
  "journal_ext \<Rightarrow> nat \<Rightarrow> str \<times> stored_retirement \<Rightarrow> journal_error + nat" where
  "validate_entry X n e =
     (case e of (i, r) \<Rightarrow>
      res_bind (validate_retirement_id X i) (\<lambda>_.
      if sr_version r \<noteq> RETIREMENT_ENTRY_VERSION
      then Err (Message (''unsupported thread retirement journal entry version '' @ show_nat (sr_version r)))
      else if requested_thread_ids r = []
      then Err (Message ''thread retirement journal entry has no requested thread IDs'')
      else
        res_bind
          (case sr_phase r of
             Prepared \<Rightarrow>
               if deleted_thread_ids r \<noteq> None
               then Err (Message ''prepared thread retirement journal entry contains deleted thread IDs'')
               else Ok []
           | Deleted \<Rightarrow>
               (case deleted_thread_ids r of
                  None \<Rightarrow> Err (Message ''deleted thread retirement journal entry has no deleted thread IDs'')
                | Some ds \<Rightarrow>
                    if ds = []
                    then Err (Message ''deleted thread retirement journal entry has no deleted thread IDs'')
                    else Ok ds)) (\<lambda>ds.
        let n' = sat_add (sat_add n (length (requested_thread_ids r))) (length ds) in
        if RETIREMENT_JOURNAL_MAX_THREAD_IDS < n'
        then Err (Message (''thread retirement journal exceeds ''
               @ show_nat RETIREMENT_JOURNAL_MAX_THREAD_IDS @ '' thread IDs''))
        else
          res_bind (check_unique X ''requested'' (requested_thread_ids r) []) (\<lambda>rq.
          res_bind (check_unique X ''deleted'' ds []) (\<lambda>dq.
          if sr_phase r = Deleted \<and> \<not> set rq \<subseteq> set dq
          then Err (Message ''deleted thread retirement journal entry omits a requested thread ID'')
          else Ok n')))))"

definition journal_validate_state :: "journal_ext \<Rightarrow> retirement_journal_state \<Rightarrow> journal_error + unit" where
  "journal_validate_state X s =
     (if js_version s \<noteq> RETIREMENT_JOURNAL_VERSION
      then Err (Message (''unsupported thread retirement journal version '' @ show_nat (js_version s)))
      else if RETIREMENT_JOURNAL_MAX_ENTRIES < length (retirements s)
      then Err (Message (''thread retirement journal exceeds ''
             @ show_nat RETIREMENT_JOURNAL_MAX_ENTRIES @ '' entries''))
      else res_bind (try_fold (validate_entry X) 0 (retirements s)) (\<lambda>_. Ok ()))"

definition normalize_thread_ids :: "journal_ext \<Rightarrow> str list \<Rightarrow> journal_error + str list" where
  "normalize_thread_ids X thread_ids =
     (let normalized = sort_dedup (map trim thread_ids) in
      if normalized = [] then Err (Message ''thread retirement requires at least one thread ID'')
      else res_bind (try_for_each (journal_validate_thread_id X) normalized) (\<lambda>_. Ok normalized))"

section \<open>Persistence\<close>

definition journal_encode_state :: "journal_ext \<Rightarrow> retirement_journal_state \<Rightarrow> journal_error + str" where
  "journal_encode_state X s =
     res_bind (journal_validate_state X s) (\<lambda>_.
       let bytes = to_string (j_json X) (ser_state s) in
       if RETIREMENT_JOURNAL_MAX_BYTES < length bytes
       then Err (Message (''thread retirement journal exceeds its ''
              @ show_nat RETIREMENT_JOURNAL_MAX_BYTES @ ''-byte budget''))
       else Ok bytes)"

definition journal_load_state ::
  "journal_ext \<Rightarrow> bool \<Rightarrow> str \<Rightarrow> directory \<Rightarrow> journal_error + retirement_journal_state" where
  "journal_load_state X readable_file file_name dir =
     (case dir file_name of
        None \<Rightarrow> Ok journal_default
      | Some bytes \<Rightarrow>
          if \<not> readable_file then Err Read_failed
          else if RETIREMENT_JOURNAL_MAX_BYTES < length bytes
          then Err (Message (''thread retirement journal exceeds ''
                 @ show_nat RETIREMENT_JOURNAL_MAX_BYTES @ '' bytes''))
          else case Option.bind (from_str (j_json X) bytes) de_state of
                 None \<Rightarrow> Err Invalid_journal
               | Some s \<Rightarrow>
                   res_bind (journal_validate_state X s) (\<lambda>_.
                   res_bind (journal_encode_state X s) (\<lambda>_. Ok s)))"

definition journal_persist ::
  "journal_ext \<Rightarrow> io_env \<Rightarrow> storage_path \<Rightarrow> retirement_journal_state \<Rightarrow> directory
     \<Rightarrow> (journal_error + unit) \<times> directory" where
  "journal_persist X env path s dir =
     (case journal_encode_state X s of
        Inl e \<Rightarrow> (Err e, dir)
      | Inr bytes \<Rightarrow>
          (case atomic_write_private env path bytes dir of
             (r, dir') \<Rightarrow> (res_map_err Persist_failed r, dir')))"

text \<open>\<open>self.persist(&next).await?; *state = next;\<close>\<close>

definition journal_commit ::
  "journal_ext \<Rightarrow> storage_path \<Rightarrow> io_env \<Rightarrow> retirement_journal_state \<Rightarrow> retirement_journal_state
     \<Rightarrow> directory \<Rightarrow> (journal_error + unit) \<times> retirement_journal_state \<times> directory" where
  "journal_commit X path env s' s dir =
     (case journal_persist X env path s' dir of
        (Inl e, dir') \<Rightarrow> (Err e, s, dir')
      | (Inr u, dir') \<Rightarrow> (Ok u, s', dir'))"

section \<open>Operations\<close>

definition add_prepared ::
  "journal_ext \<Rightarrow> storage_path \<Rightarrow> io_env \<Rightarrow> str list \<Rightarrow> str list \<Rightarrow> retirement_journal_state \<Rightarrow> directory
     \<Rightarrow> ((journal_error + str) \<times> retirement_journal_state \<times> directory) option" where
  "add_prepared X path env candidates thread_ids s dir =
     (case normalize_thread_ids X thread_ids of
        Inl e \<Rightarrow> Some (Err e, s, dir)
      | Inr req \<Rightarrow>
          if RETIREMENT_JOURNAL_MAX_ENTRIES \<le> length (retirements s)
          then Some (Err (Message (''thread retirement journal exceeds ''
                  @ show_nat RETIREMENT_JOURNAL_MAX_ENTRIES @ '' entries'')), s, dir)
          else (case List.find (\<lambda>c. \<not> bt_contains (retirements s) c) candidates of
                  None \<Rightarrow> None
                | Some i \<Rightarrow>
                    let next = s\<lparr>retirements := bt_insert i
                          \<lparr>sr_version = RETIREMENT_ENTRY_VERSION, sr_phase = Prepared,
                           requested_thread_ids = req, deleted_thread_ids = None\<rparr> (retirements s)\<rparr>
                    in (case journal_commit X path env next s dir of
                          (Inl e, out) \<Rightarrow> Some (Err e, out)
                        | (Inr _, out) \<Rightarrow> Some (Ok i, out))))"

definition mark_deleted ::
  "journal_ext \<Rightarrow> storage_path \<Rightarrow> io_env \<Rightarrow> str \<Rightarrow> str list \<Rightarrow> retirement_journal_state \<Rightarrow> directory
     \<Rightarrow> (journal_error + str list) \<times> retirement_journal_state \<times> directory" where
  "mark_deleted X path env i thread_ids s dir =
     (case normalize_thread_ids X thread_ids of
        Inl e \<Rightarrow> (Err e, s, dir)
      | Inr ds \<Rightarrow>
          (case map_of (retirements s) i of
             None \<Rightarrow> (Err (Message ''thread retirement journal entry is missing''), s, dir)
           | Some stored \<Rightarrow>
               let family = sort_dedup (requested_thread_ids stored @ ds
                      @ (case deleted_thread_ids stored of None \<Rightarrow> [] | Some previous \<Rightarrow> previous));
                   next = s\<lparr>retirements := bt_insert i
                     \<lparr>sr_version = RETIREMENT_ENTRY_VERSION, sr_phase = Deleted,
                      requested_thread_ids = requested_thread_ids stored,
                      deleted_thread_ids = Some family\<rparr> (retirements s)\<rparr>
               in (case journal_commit X path env next s dir of
                     (Inl e, out) \<Rightarrow> (Err e, out)
                   | (Inr _, out) \<Rightarrow> (Ok family, out))))"

definition journal_remove ::
  "journal_ext \<Rightarrow> storage_path \<Rightarrow> io_env \<Rightarrow> str list \<Rightarrow> retirement_journal_state \<Rightarrow> directory
     \<Rightarrow> (journal_error + unit) \<times> retirement_journal_state \<times> directory" where
  "journal_remove X path env ids s dir =
     (if list_all (\<lambda>i. \<not> bt_contains (retirements s) i) ids then (Ok (), s, dir)
      else journal_commit X path env
             (s\<lparr>retirements := fold bt_remove ids (retirements s)\<rparr>) s dir)"

definition journal_entries :: "retirement_journal_state \<Rightarrow> retirement_journal_entry list" where
  "journal_entries s =
     map (\<lambda>(i, r). \<lparr>je_retirement_id = i, je_phase = sr_phase r,
            je_requested_thread_ids = requested_thread_ids r,
            je_deleted_thread_ids = (case deleted_thread_ids r of None \<Rightarrow> [] | Some ds \<Rightarrow> ds)\<rparr>)
       (retirements s)"

end
