(* ===== verification/Journal_Guarantees.thy ===== *)
theory Journal_Guarantees
  imports Retirement_Journal
begin

text \<open>
  What the retirement journal guarantees: the validation accepts exactly the well-formed journals,
  a written journal reads back unchanged, memory and file agree after any run of operations with
  failing system calls, and the recorded family of a deletion only grows.
\<close>

section \<open>Validation against its specification\<close>

definition entry_wf :: "journal_ext \<Rightarrow> str \<Rightarrow> stored_retirement \<Rightarrow> bool" where
  "entry_wf X i r =
     (uuid_canon X i = Some i \<and> sr_version r = RETIREMENT_ENTRY_VERSION
      \<and> requested_thread_ids r \<noteq> [] \<and> distinct (requested_thread_ids r)
      \<and> (\<forall>t\<in>set (requested_thread_ids r). is_ok (journal_validate_thread_id X t))
      \<and> (case sr_phase r of
           Prepared \<Rightarrow> deleted_thread_ids r = None
         | Deleted \<Rightarrow> (\<exists>ds. deleted_thread_ids r = Some ds \<and> distinct ds
             \<and> (\<forall>t\<in>set ds. is_ok (journal_validate_thread_id X t))
             \<and> set (requested_thread_ids r) \<subseteq> set ds)))"

definition entry_size :: "stored_retirement \<Rightarrow> nat" where
  "entry_size r = length (requested_thread_ids r)
     + (case deleted_thread_ids r of None \<Rightarrow> 0 | Some ds \<Rightarrow> length ds)"

definition journal_wf :: "journal_ext \<Rightarrow> retirement_journal_state \<Rightarrow> bool" where
  "journal_wf X s =
     (js_version s = RETIREMENT_JOURNAL_VERSION
      \<and> length (retirements s) \<le> RETIREMENT_JOURNAL_MAX_ENTRIES
      \<and> (\<forall>(i, r)\<in>set (retirements s). entry_wf X i r)
      \<and> sum_list (map (entry_size \<circ> snd) (retirements s)) \<le> RETIREMENT_JOURNAL_MAX_THREAD_IDS)"

lemma check_unique_Ok:
  "check_unique X which ts seen = Ok out \<longleftrightarrow>
     (\<forall>t\<in>set ts. is_ok (journal_validate_thread_id X t)) \<and> distinct ts \<and> set ts \<inter> set seen = {}
     \<and> out = rev ts @ seen"
proof (induction ts arbitrary: seen)
  case (Cons t ts)
  show ?case
    by (cases "journal_validate_thread_id X t") (auto simp: Cons.IH)
qed auto

lemma validate_retirement_id_Ok: "validate_retirement_id X i = Ok u \<longleftrightarrow> uuid_canon X i = Some i"
  by (auto simp: validate_retirement_id_def split: option.splits if_splits)

lemma journal_budget:
  "RETIREMENT_JOURNAL_MAX_THREAD_IDS < sat_add (sat_add n a) b \<longleftrightarrow>
     RETIREMENT_JOURNAL_MAX_THREAD_IDS < n + a + b"
  "n + a + b \<le> RETIREMENT_JOURNAL_MAX_THREAD_IDS \<Longrightarrow> sat_add (sat_add n a) b = n + a + b"
  by (auto simp: sat_add_def min_def RETIREMENT_JOURNAL_MAX_THREAD_IDS_def usize_max_def)

lemma validate_entry_Ok:
  "validate_entry X n (i, r) = Ok n' \<longleftrightarrow>
     entry_wf X i r \<and> n' = n + entry_size r \<and> n' \<le> RETIREMENT_JOURNAL_MAX_THREAD_IDS"
proof (cases "sr_phase r")
  case Prepared
  show ?thesis
    unfolding validate_entry_def
    by (auto simp: Prepared entry_wf_def entry_size_def Let_def res_bind_Ok check_unique_Ok
        validate_retirement_id_Ok journal_budget split: if_splits)
next
  case Deleted
  show ?thesis
    unfolding validate_entry_def
    by (auto simp: Deleted entry_wf_def entry_size_def Let_def res_bind_Ok check_unique_Ok
        validate_retirement_id_Ok journal_budget split: if_splits option.splits)
qed

lemma validate_entries_Ok:
  "(\<exists>n'. try_fold (validate_entry X) n m = Ok n') \<and> n \<le> RETIREMENT_JOURNAL_MAX_THREAD_IDS \<longleftrightarrow>
     (\<forall>(i, r)\<in>set m. entry_wf X i r)
     \<and> n + sum_list (map (entry_size \<circ> snd) m) \<le> RETIREMENT_JOURNAL_MAX_THREAD_IDS"
proof (induction m arbitrary: n)
  case (Cons e m)
  obtain i r where e: "e = (i, r)" by fastforce
  show ?case
  proof (cases "entry_wf X i r \<and> n + entry_size r \<le> RETIREMENT_JOURNAL_MAX_THREAD_IDS")
    case True
    then have "validate_entry X n (i, r) = Ok (n + entry_size r)" by (simp add: validate_entry_Ok)
    then show ?thesis using Cons.IH [of "n + entry_size r"] True by (auto simp: e)
  next
    case False
    then have "validate_entry X n (i, r) \<noteq> Ok n'" for n' by (auto simp: validate_entry_Ok)
    then have "\<not> (\<exists>n'. try_fold (validate_entry X) n (e # m) = Ok n')"
      by (auto simp: e split: sum.splits)
    then show ?thesis using False by (auto simp: e)
  qed
qed auto

lemma journal_validate_state_Ok: "journal_validate_state X s = Ok u \<longleftrightarrow> journal_wf X s"
  using validate_entries_Ok [of X 0 "retirements s"]
  by (auto simp: journal_validate_state_def journal_wf_def res_bind_Ok split: if_splits)

section \<open>Reading back what was written\<close>

lemma de_phase_ser [simp]: "de_phase (ser_phase p) = Some p"
  by (cases p) (simp_all add: de_phase_def de_unit_variant_def)

lemma de_retirement_ser: "sr_version r < 2 ^ 32 \<Longrightarrow> de_retirement (ser_retirement r) = Some r"
  by (cases "deleted_thread_ids r")
     (auto simp: de_retirement_def ser_retirement_def struct_members_def field_req_def field_opt_def
      de_u32_simp)

lemma de_state_ser:
  assumes "js_version s < 2 ^ 32" "\<forall>(i, r)\<in>set (retirements s). sr_version r < 2 ^ 32"
    "bt_wf (retirements s)"
  shows "de_state (ser_state s) = Some s"
proof -
  have "deserialize_retirements (ser_btree ser_retirement (retirements s)) = Some (retirements s)"
    unfolding deserialize_retirements_def
    by (rule de_btree_ser) (use assms de_retirement_ser in auto)
  then show ?thesis using assms(1)
    by (simp add: de_state_def ser_state_def struct_members_def field_req_def de_u32_simp)
qed

lemma journal_wf_versions:
  assumes "journal_wf X s"
  shows "js_version s < 2 ^ 32" "\<forall>(i, r)\<in>set (retirements s). sr_version r < 2 ^ 32"
  using assms
  by (auto simp: journal_wf_def entry_wf_def RETIREMENT_JOURNAL_VERSION_def
      RETIREMENT_ENTRY_VERSION_def)

lemma journal_encode_Ok:
  "journal_encode_state X s = Ok bytes \<longleftrightarrow>
     journal_wf X s \<and> bytes = to_string (j_json X) (ser_state s)
     \<and> length bytes \<le> RETIREMENT_JOURNAL_MAX_BYTES"
  by (auto simp: journal_encode_state_def res_bind_Ok journal_validate_state_Ok Let_def
      split: if_splits)

lemma journal_load_written:
  assumes "json_codec (j_json X)" "journal_encode_state X s = Ok bytes" "bt_wf (retirements s)"
    "dir f = Some bytes"
  shows "journal_load_state X True f dir = Ok s"
proof -
  have wf: "journal_wf X s" and b: "bytes = to_string (j_json X) (ser_state s)"
    and len: "length bytes \<le> RETIREMENT_JOURNAL_MAX_BYTES"
    using assms(2) by (auto simp: journal_encode_Ok)
  have "Option.bind (from_str (j_json X) bytes) de_state = Some s"
    using de_state_ser [OF journal_wf_versions [OF wf] assms(3)]
    by (simp add: b json_codec.parse_print [OF assms(1)])
  then show ?thesis
    using assms(2,4) len wf journal_validate_state_Ok [of X s "()"]
    by (simp add: journal_load_state_def)
qed


section \<open>Memory and file\<close>

text \<open>The journal provides the interface of a durable state.\<close>

lemma journal_durable:
  assumes "json_codec (j_json X)" "path_parent path \<noteq> None" "path_file_name path = Some f"
  shows "durable_state (journal_commit X path) (journal_load_state X True f) f
    (\<lambda>s. bt_wf (retirements s))"
proof
  fix env s mem dir u mem' dir'
  assume c: "journal_commit X path env s mem dir = (Ok u, mem', dir')" and wf: "bt_wf (retirements s)"
  obtain bytes r where b: "journal_encode_state X s = Ok bytes" "mem' = s"
      "atomic_write_private env path bytes dir = (Ok r, dir')"
    using c by (auto simp: journal_commit_def journal_persist_def res_map_err_Err
        split: prod.splits sum.splits)
  have "dir' f = Some bytes" using atomic_write_private_file [OF assms(2,3) b(3)] by simp
  then show "mem' = s \<and> journal_load_state X True f dir' = Ok s"
    using journal_load_written [of X s bytes dir' f, OF assms(1) b(1) wf] b(2) by simp
next
  fix env s mem dir e mem' dir'
  assume c: "journal_commit X path env s mem dir = (Err e, mem', dir')" and j: "task_joins env"
  show "mem' = mem \<and> dir' f = dir f"
  proof (cases "journal_encode_state X s")
    case (Inl e')
    then show ?thesis using c by (simp add: journal_commit_def journal_persist_def)
  next
    case (Inr bytes)
    obtain r where w: "atomic_write_private env path bytes dir = (r, dir')" "mem' = mem" "\<not> is_ok r"
      using c Inr by (auto simp: journal_commit_def journal_persist_def res_map_err_Err
          split: prod.splits sum.splits)
    then show ?thesis using atomic_write_private_file [OF assms(2,3) w(1)] j by simp
  qed
next
  fix dir dir' :: directory
  assume "dir f = dir' f"
  then show "journal_load_state X True f dir = journal_load_state X True f dir'"
    by (simp add: journal_load_state_def)
qed







section \<open>Single operations\<close>

lemma journal_commit_result:
  "journal_commit X path env next s dir = (r, s', dir') \<Longrightarrow> s' = (if is_ok r then next else s)"
  by (auto simp: journal_commit_def split: prod.splits sum.splits)

lemma normalize_thread_ids_Ok:
  "normalize_thread_ids X ts = Ok ns \<Longrightarrow>
     ns = sort_dedup (map trim ts) \<and> ns \<noteq> [] \<and> (\<forall>t\<in>set ns. is_ok (journal_validate_thread_id X t))"
  by (auto simp: normalize_thread_ids_def Let_def res_bind_Ok try_for_each_Ok split: if_splits)

lemma fresh_candidate:
  assumes "distinct cs" "bt_wf m" "length m < length cs"
  shows "\<exists>c. List.find (\<lambda>c. \<not> bt_contains m c) cs = Some c"
proof (rule ccontr)
  assume "\<nexists>c. List.find (\<lambda>c. \<not> bt_contains m c) cs = Some c"
  then have "set cs \<subseteq> fst ` set m"
    by (auto simp: find_None_iff bt_contains_def map_of_eq_None_iff)
  then have "card (set cs) \<le> card (fst ` set m)" by (rule card_mono [rotated]) simp
  also have "\<dots> \<le> length m" by (metis card_length length_map set_map)
  finally show False using assms(1,3) by (simp add: distinct_card)
qed

lemma add_prepared_result:
  assumes "add_prepared X path env cs ts s dir = Some (r, s', dir')"
  shows "case r of
      Inl e \<Rightarrow> s' = s
    | Inr i \<Rightarrow> \<not> bt_contains (retirements s) i \<and> i \<in> set cs
        \<and> retirements s' = bt_insert i
            \<lparr>sr_version = RETIREMENT_ENTRY_VERSION, sr_phase = Prepared,
             requested_thread_ids = sort_dedup (map trim ts), deleted_thread_ids = None\<rparr>
            (retirements s)"
  using assms
  by (auto simp: add_prepared_def Let_def find_Some_iff in_set_conv_nth split: sum.splits option.splits
      prod.splits if_splits dest!: journal_commit_result normalize_thread_ids_Ok)

lemma mark_deleted_result:
  assumes "mark_deleted X path env i ts s dir = (r, s', dir')"
  shows "case r of
      Inl e \<Rightarrow> s' = s
    | Inr family \<Rightarrow> \<exists>old. map_of (retirements s) i = Some old
        \<and> family = sort_dedup (requested_thread_ids old @ sort_dedup (map trim ts)
             @ (case deleted_thread_ids old of None \<Rightarrow> [] | Some ds \<Rightarrow> ds))
        \<and> retirements s' = bt_insert i
            \<lparr>sr_version = RETIREMENT_ENTRY_VERSION, sr_phase = Deleted,
             requested_thread_ids = requested_thread_ids old, deleted_thread_ids = Some family\<rparr>
            (retirements s)"
proof (cases "normalize_thread_ids X ts")
  case (Inl e)
  show ?thesis using assms by (auto simp: mark_deleted_def Inl)
next
  case ns: (Inr ns)
  show ?thesis
  proof (cases "map_of (retirements s) i")
    case None
    then show ?thesis using assms ns by (auto simp: mark_deleted_def)
  next
    case (Some old)
    then show ?thesis
      using assms ns normalize_thread_ids_Ok [OF ns]
      by (auto simp: mark_deleted_def Let_def split: prod.splits sum.splits
          dest!: journal_commit_result)
  qed
qed

section \<open>A concrete journal\<close>

definition uuid_hyphenated :: "str \<Rightarrow> str option" where
  "uuid_hyphenated s =
     (if length s = 36 \<and> list_all (\<lambda>n. (s ! n = CHR ''-'') = (n \<in> {8, 13, 18, 23})) [0..<36]
         \<and> list_all (\<lambda>c. is_digit c \<or> c \<in> set ''-abcdef'') s
      then Some s else None)"

definition demo_journal :: journal_ext where
  "demo_journal = \<lparr>j_json = plain_json, j_b64 = rfc4648, uuid_canon = uuid_hyphenated\<rparr>"

definition demo_path :: storage_path where
  "demo_path = \<lparr>path_parent = Some ''/state'', path_file_name = Some ''retirements''\<rparr>"

definition demo_uuid :: str where "demo_uuid = ''00000000-0000-4000-8000-000000000000''"

lemma demo_journal_params:
  "json_codec (j_json demo_journal)" "path_parent demo_path \<noteq> None"
  "path_file_name demo_path = Some ''retirements''"
  by (simp_all add: demo_journal_def demo_path_def plain.json_codec_axioms)

interpretation journal: durable_state "journal_commit demo_journal demo_path"
  "journal_load_state demo_journal True ''retirements''" "''retirements''" "\<lambda>s. bt_wf (retirements s)"
  by (rule journal_durable [OF demo_journal_params])


section \<open>Properties\<close>



text \<open>
  Marking a deletion as done records the whole family and never forgets a thread. The
  recorded family is the sorted union of the requested threads, the newly reported ones and those
  of an earlier attempt; it is returned and stored, the other entries are untouched, and a failed
  attempt leaves the journal as it was.
\<close>

theorem journal_mark_deleted_family_grows:
  assumes "mark_deleted X path env i ts s dir = (r, s', dir')"
  shows "case r of
      Inl e \<Rightarrow> s' = s
    | Inr family \<Rightarrow> sorted family \<and> distinct family
        \<and> (\<exists>old new. map_of (retirements s) i = Some old \<and> map_of (retirements s') i = Some new
            \<and> sr_phase new = Deleted \<and> requested_thread_ids new = requested_thread_ids old
            \<and> deleted_thread_ids new = Some family
            \<and> set family = set (requested_thread_ids old) \<union> trim ` set ts
                \<union> (case deleted_thread_ids old of None \<Rightarrow> {} | Some ds \<Rightarrow> set ds))
        \<and> (\<forall>j. j \<noteq> i \<longrightarrow> map_of (retirements s') j = map_of (retirements s) j)"
  using mark_deleted_result [OF assms] by (cases r) (auto split: option.splits)

theorem journal_mark_deleted_family_grows_witness:
  "let s = journal_default\<lparr>retirements := [(demo_uuid, \<lparr>sr_version = 1, sr_phase = Prepared,
           requested_thread_ids = [''v1.YQ.Yg''], deleted_thread_ids = None\<rparr>)]\<rparr>;
       out = mark_deleted demo_journal demo_path all_good demo_uuid [''v1.YQ.YQ''] s Map.empty
   in case fst out of
        Inl e \<Rightarrow> fst (snd out) = s
      | Inr family \<Rightarrow> set family = {''v1.YQ.Yg'', ''v1.YQ.YQ''}"
proof -
  let ?s = "journal_default\<lparr>retirements := [(demo_uuid, \<lparr>sr_version = 1, sr_phase = Prepared,
           requested_thread_ids = [''v1.YQ.Yg''], deleted_thread_ids = None\<rparr>)]\<rparr>"
  obtain r s' dir' where out: "mark_deleted demo_journal demo_path all_good demo_uuid
      [''v1.YQ.YQ''] ?s Map.empty = (r, s', dir')" by (metis prod_cases3)
  have t: "trim ''v1.YQ.YQ'' = ''v1.YQ.YQ''" by code_simp
  show ?thesis
    using journal_mark_deleted_family_grows [OF out] out t
    by (auto simp: Let_def split: sum.splits)
qed

text \<open>
  Recording an intent always returns, given more candidates than the journal can hold
  entries; on success the identifier is new, the entry is prepared with the normalized threads and
  every other entry is kept; on failure nothing changes in memory.
\<close>

theorem journal_add_prepared_total:
  assumes "bt_wf (retirements s)" "distinct cs" "RETIREMENT_JOURNAL_MAX_ENTRIES \<le> length cs"
  shows "\<exists>r s' dir'. add_prepared X path env cs ts s dir = Some (r, s', dir')
    \<and> (case r of
         Inl e \<Rightarrow> s' = s
       | Inr i \<Rightarrow> map_of (retirements s) i = None
           \<and> map_of (retirements s') = (map_of (retirements s))(i \<mapsto>
               \<lparr>sr_version = RETIREMENT_ENTRY_VERSION, sr_phase = Prepared,
                requested_thread_ids = sort_dedup (map trim ts), deleted_thread_ids = None\<rparr>)
           \<and> journal_wf X s' \<and> length (retirements s') = length (retirements s) + 1)"
proof -
  have "add_prepared X path env cs ts s dir \<noteq> None"
    using fresh_candidate [OF assms(2,1)] assms(3)
    by (auto simp: add_prepared_def Let_def split: sum.splits option.splits prod.splits if_splits)
  then obtain r s' dir' where a: "add_prepared X path env cs ts s dir = Some (r, s', dir')"
    by (metis not_None_eq prod_cases3)
  have wf: "journal_wf X s'" if "r = Inr i" for i
    using a that
    by (auto simp: add_prepared_def Let_def journal_commit_def journal_persist_def journal_encode_Ok
        split: sum.splits option.splits prod.splits if_splits)
  show ?thesis
  proof (cases r)
    case (Inl e)
    then show ?thesis using a add_prepared_result [OF a] by simp
  next
    case (Inr i)
    then have i: "map_of (retirements s) i = None" and
      s': "retirements s' = bt_insert i \<lparr>sr_version = RETIREMENT_ENTRY_VERSION, sr_phase = Prepared,
          requested_thread_ids = sort_dedup (map trim ts), deleted_thread_ids = None\<rparr> (retirements s)"
      using add_prepared_result [OF a] by (auto simp: bt_contains_def)
    then show ?thesis
      using a Inr wf [OF Inr] length_bt_insert_new [OF i] by auto
  qed
qed

theorem journal_add_prepared_total_witness:
  "\<exists>r s' dir'. add_prepared demo_journal demo_path all_good
     (map (\<lambda>n. show_nat n) [0..<256]) [''v1.YQ.Yg''] journal_default Map.empty = Some (r, s', dir')"
proof -
  have "inj_on show_nat {0..<256}"
    by (rule inj_on_inverseI [where g = "\<lambda>s. the (parse_u64 s)"]) (simp add: parse_show_nat)
  then have "distinct (map show_nat [0..<256])" by (simp add: distinct_map)
  then show ?thesis
    using journal_add_prepared_total [of journal_default "map show_nat [0..<256]" demo_journal demo_path
        all_good "[''v1.YQ.Yg'']" Map.empty]
    by (auto simp: journal_default_def RETIREMENT_JOURNAL_MAX_ENTRIES_def)
qed

end
