(* ===== verification/Mcp_Credentials.thy ===== *)
theory Mcp_Credentials
  imports Btree_Map
begin

text \<open>
  The credential store of \<open>services/rust-bridge/src/agent_messaging.rs\<close> (\<open>McpCredentialStore\<close>): the
  bearer tokens by which an agent process reaches the messaging server, the thread each is
  activated for, and the protocol sessions bound to it. All methods run under one mutex, so each is
  a function on the state; the new token of \<open>stage\<close> (a random UUID) is an argument.

  The hash maps are kept as sorted association lists; the order in which \<open>take_protocol_sessions\<close>
  lists sessions does not matter to any result. What the store tells the session manager and the
  cancellation tokens is recorded in \<open>closed_http\<close> and \<open>cancelled\<close>.
\<close>

definition MAX_MCP_CREDENTIALS :: nat where "MAX_MCP_CREDENTIALS = 4096"
definition MAX_MCP_PROTOCOL_SESSIONS :: nat where "MAX_MCP_PROTOCOL_SESSIONS = 512"
definition MAX_MCP_SESSIONS_PER_CREDENTIAL :: nat where "MAX_MCP_SESSIONS_PER_CREDENTIAL = 4"

datatype mcp_credential_error = LimitReached | UnknownPending

datatype mcp_credential_principal = Pending str | Active str str

datatype mcp_http_session_authorization = Authorized | WrongCredential | UnknownSession

datatype mcp_protocol_session = Http str | Legacy str

record mcp_credential_record =
  cred_agent_id :: str
  cred_thread_id :: "str option"

record mcp_credential_state =
  by_token :: "(str, mcp_credential_record) btree"
  active_by_thread :: "(str, str) btree"
  http_sessions :: "(str, str) btree"
  legacy_sessions :: "(str, str \<times> nat) btree"
  protocol_session_order :: "mcp_protocol_session list"

record mcp_evictions =
  ev_http_sessions :: "str list"
  ev_legacy_sessions :: "nat list"

record mcp_credential_store =
  cred_state :: mcp_credential_state
  http_session_manager :: bool
  closed_http :: "str list"
  cancelled :: "nat list"

record authenticated_mcp_credential =
  auth_token :: str
  auth_agent_id :: str

definition credentials_default :: mcp_credential_state where
  "credentials_default =
     \<lparr>by_token = [], active_by_thread = [], http_sessions = [], legacy_sessions = [],
      protocol_session_order = []\<rparr>"

section \<open>Sessions of a token\<close>

definition take_protocol_sessions ::
  "mcp_credential_state \<Rightarrow> str \<Rightarrow> (str list \<times> nat list) \<times> mcp_credential_state" where
  "take_protocol_sessions s token =
     (let http_ids = map fst (filter (\<lambda>(_, bound). bound = token) (http_sessions s));
          legacy_ids = map fst (filter (\<lambda>(_, bound, _). bound = token) (legacy_sessions s));
          cancellations = map (\<lambda>(_, _, c). c) (filter (\<lambda>(_, bound, _). bound = token) (legacy_sessions s))
      in ((http_ids, cancellations),
          s\<lparr>http_sessions := fold bt_remove http_ids (http_sessions s),
            legacy_sessions := fold bt_remove legacy_ids (legacy_sessions s),
            protocol_session_order := filter (\<lambda>bound. case bound of
                Http i \<Rightarrow> i \<notin> set http_ids | Legacy i \<Rightarrow> i \<notin> set legacy_ids)
              (protocol_session_order s)\<rparr>))"

definition close_protocol_sessions ::
  "str list \<Rightarrow> nat list \<Rightarrow> mcp_credential_store \<Rightarrow> mcp_credential_store" where
  "close_protocol_sessions http legacy S =
     S\<lparr>cancelled := cancelled S @ legacy,
       closed_http := (if http_session_manager S then closed_http S @ http else closed_http S)\<rparr>"

definition credential_protocol_session_count :: "mcp_credential_state \<Rightarrow> str \<Rightarrow> nat" where
  "credential_protocol_session_count s token =
     length (filter (\<lambda>(_, bound). bound = token) (http_sessions s))
     + length (filter (\<lambda>(_, bound, _). bound = token) (legacy_sessions s))"

fun protocol_session_matches_token ::
  "mcp_credential_state \<Rightarrow> mcp_protocol_session \<Rightarrow> str \<Rightarrow> bool" where
  "protocol_session_matches_token s (Http i) token = (map_of (http_sessions s) i = Some token)"
| "protocol_session_matches_token s (Legacy i) token =
     (map_option fst (map_of (legacy_sessions s) i) = Some token)"

fun evict_protocol_session ::
  "mcp_credential_state \<Rightarrow> mcp_protocol_session \<Rightarrow> mcp_evictions \<Rightarrow> mcp_credential_state \<times> mcp_evictions" where
  "evict_protocol_session s (Http i) ev =
     (let s1 = s\<lparr>protocol_session_order := filter (\<lambda>b. b \<noteq> Http i) (protocol_session_order s)\<rparr> in
      case map_of (http_sessions s1) i of
        None \<Rightarrow> (s1, ev)
      | Some _ \<Rightarrow> (s1\<lparr>http_sessions := bt_remove i (http_sessions s1)\<rparr>,
                   ev\<lparr>ev_http_sessions := ev_http_sessions ev @ [i]\<rparr>))"
| "evict_protocol_session s (Legacy i) ev =
     (let s1 = s\<lparr>protocol_session_order := filter (\<lambda>b. b \<noteq> Legacy i) (protocol_session_order s)\<rparr> in
      case map_of (legacy_sessions s1) i of
        None \<Rightarrow> (s1, ev)
      | Some (_, c) \<Rightarrow> (s1\<lparr>legacy_sessions := bt_remove i (legacy_sessions s1)\<rparr>,
                        ev\<lparr>ev_legacy_sessions := ev_legacy_sessions ev @ [c]\<rparr>))"

lemma evict_order:
  "protocol_session_order (fst (evict_protocol_session s b ev))
     = filter (\<lambda>b'. b' \<noteq> b) (protocol_session_order s)"
  by (cases b) (auto simp: Let_def split: option.splits)

text \<open>
  The two loops that make room; an eviction shortens the order, so both end. The state is changed
  in place, also on the error path.
\<close>

function evict_for_token ::
  "mcp_credential_state \<Rightarrow> str \<Rightarrow> mcp_evictions \<Rightarrow> (unit + mcp_evictions) \<times> mcp_credential_state" where
  "evict_for_token s token ev =
     (if credential_protocol_session_count s token < MAX_MCP_SESSIONS_PER_CREDENTIAL then (Ok ev, s)
      else case List.find (\<lambda>b. protocol_session_matches_token s b token) (protocol_session_order s) of
             None \<Rightarrow> (Err (), s)
           | Some b \<Rightarrow> evict_for_token (fst (evict_protocol_session s b ev)) token
                         (snd (evict_protocol_session s b ev)))"
  by pat_completeness auto
termination
  by (relation "measure (\<lambda>p. length (protocol_session_order (fst p)))")
     (auto simp: evict_order find_Some_iff in_set_conv_nth intro!: length_filter_less)

function evict_for_total ::
  "mcp_credential_state \<Rightarrow> mcp_evictions \<Rightarrow> (unit + mcp_evictions) \<times> mcp_credential_state" where
  "evict_for_total s ev =
     (if length (http_sessions s) + length (legacy_sessions s) < MAX_MCP_PROTOCOL_SESSIONS then (Ok ev, s)
      else case protocol_session_order s of
             [] \<Rightarrow> (Err (), s)
           | b # _ \<Rightarrow> evict_for_total (fst (evict_protocol_session s b ev))
                        (snd (evict_protocol_session s b ev)))"
  by pat_completeness auto
termination
  by (relation "measure (\<lambda>p. length (protocol_session_order (fst p)))")
     (auto simp: evict_order le_imp_less_Suc)

declare evict_for_token.simps [simp del] evict_for_total.simps [simp del]

definition make_protocol_session_capacity ::
  "mcp_credential_state \<Rightarrow> str \<Rightarrow> (unit + mcp_evictions) \<times> mcp_credential_state" where
  "make_protocol_session_capacity s token =
     (case evict_for_token s token \<lparr>ev_http_sessions = [], ev_legacy_sessions = []\<rparr> of
        (Inl e, s1) \<Rightarrow> (Err e, s1)
      | (Inr ev, s1) \<Rightarrow> evict_for_total s1 ev)"

section \<open>Operations\<close>

definition stage ::
  "str \<Rightarrow> mcp_credential_state \<Rightarrow> str \<Rightarrow> (mcp_credential_error + str) \<times> mcp_credential_state" where
  "stage token s agent_id =
     (if MAX_MCP_CREDENTIALS \<le> length (by_token s) then (Err LimitReached, s)
      else (Ok token, s\<lparr>by_token := bt_insert token
              \<lparr>cred_agent_id = agent_id, cred_thread_id = None\<rparr> (by_token s)\<rparr>))"

definition activate ::
  "mcp_credential_store \<Rightarrow> str \<Rightarrow> str \<Rightarrow> (mcp_credential_error + unit) \<times> mcp_credential_store" where
  "activate S token thread_id =
     (let s = cred_state S in
      case map_of (by_token s) token of
        None \<Rightarrow> (Err UnknownPending, S)
      | Some r \<Rightarrow>
          if cred_thread_id r \<noteq> None then (Err UnknownPending, S)
          else
            let s1 = s\<lparr>by_token := bt_insert token (r\<lparr>cred_thread_id := Some thread_id\<rparr>) (by_token s),
                       active_by_thread := bt_insert thread_id token (active_by_thread s)\<rparr>
            in (case map_of (active_by_thread s) thread_id of
                  Some previous \<Rightarrow>
                    (case take_protocol_sessions (s1\<lparr>by_token := bt_remove previous (by_token s1)\<rparr>) previous of
                       ((http, legacy), s2) \<Rightarrow>
                         (Ok (), close_protocol_sessions http legacy (S\<lparr>cred_state := s2\<rparr>)))
                | None \<Rightarrow> (Ok (), close_protocol_sessions [] [] (S\<lparr>cred_state := s1\<rparr>))))"

definition remove_token :: "mcp_credential_store \<Rightarrow> str \<Rightarrow> mcp_credential_store" where
  "remove_token S token =
     (let s = cred_state S in
      case map_of (by_token s) token of
        None \<Rightarrow> S
      | Some r \<Rightarrow>
          let s1 = s\<lparr>by_token := bt_remove token (by_token s)\<rparr>;
              s2 = (case cred_thread_id r of
                      None \<Rightarrow> s1
                    | Some t \<Rightarrow>
                        if map_of (active_by_thread s1) t = Some token
                        then s1\<lparr>active_by_thread := bt_remove t (active_by_thread s1)\<rparr> else s1)
          in (case take_protocol_sessions s2 token of
                ((http, legacy), s3) \<Rightarrow> close_protocol_sessions http legacy (S\<lparr>cred_state := s3\<rparr>)))"

fun revoke_loop ::
  "str list \<Rightarrow> mcp_credential_state \<Rightarrow> str list \<Rightarrow> nat list \<Rightarrow> (str list \<times> nat list) \<times> mcp_credential_state" where
  "revoke_loop [] s http legacy = ((http, legacy), s)"
| "revoke_loop (t # ts) s http legacy =
     (case map_of (active_by_thread s) t of
        None \<Rightarrow> revoke_loop ts s http legacy
      | Some token \<Rightarrow>
          (case take_protocol_sessions
                  (s\<lparr>active_by_thread := bt_remove t (active_by_thread s),
                     by_token := bt_remove token (by_token s)\<rparr>) token of
             ((h, l), s') \<Rightarrow> revoke_loop ts s' (http @ h) (legacy @ l)))"

definition revoke_threads :: "mcp_credential_store \<Rightarrow> str list \<Rightarrow> mcp_credential_store" where
  "revoke_threads S thread_ids =
     (case revoke_loop thread_ids (cred_state S) [] [] of
        ((http, legacy), s) \<Rightarrow> close_protocol_sessions http legacy (S\<lparr>cred_state := s\<rparr>))"

definition revoke_all :: "mcp_credential_store \<Rightarrow> mcp_credential_store" where
  "revoke_all S =
     close_protocol_sessions (map fst (http_sessions (cred_state S)))
       (map (\<lambda>(_, _, c). c) (legacy_sessions (cred_state S)))
       (S\<lparr>cred_state := credentials_default\<rparr>)"

definition authenticate :: "mcp_credential_state \<Rightarrow> str \<Rightarrow> authenticated_mcp_credential option" where
  "authenticate s authorization =
     Option.bind (strip_prefix authorization ''Bearer '') (\<lambda>token.
     map_option (\<lambda>r. \<lparr>auth_token = token, auth_agent_id = cred_agent_id r\<rparr>)
       (map_of (by_token s) token))"

definition resolve_token :: "mcp_credential_state \<Rightarrow> str \<Rightarrow> mcp_credential_principal option" where
  "resolve_token s token =
     map_option (\<lambda>r. case cred_thread_id r of
                       Some t \<Rightarrow> Active (cred_agent_id r) t
                     | None \<Rightarrow> Pending (cred_agent_id r))
       (map_of (by_token s) token)"

definition http_session_authorization ::
  "mcp_credential_state \<Rightarrow> str \<Rightarrow> str \<Rightarrow> mcp_http_session_authorization" where
  "http_session_authorization s session_id token =
     (case map_of (http_sessions s) session_id of
        Some bound \<Rightarrow> if bound = token then Authorized else WrongCredential
      | None \<Rightarrow> UnknownSession)"

definition bind_http_session ::
  "mcp_credential_state \<Rightarrow> str \<Rightarrow> str \<Rightarrow> (unit + mcp_evictions) \<times> mcp_credential_state" where
  "bind_http_session s session_id token =
     (if \<not> bt_contains (by_token s) token then (Err (), s)
      else case map_of (http_sessions s) session_id of
        Some bound \<Rightarrow>
          (if bound = token then Ok \<lparr>ev_http_sessions = [], ev_legacy_sessions = []\<rparr> else Err (), s)
      | None \<Rightarrow>
          (case make_protocol_session_capacity s token of
             (Inl e, s1) \<Rightarrow> (Err e, s1)
           | (Inr ev, s1) \<Rightarrow>
               (Ok ev, s1\<lparr>http_sessions := bt_insert session_id token (http_sessions s1),
                          protocol_session_order := protocol_session_order s1 @ [Http session_id]\<rparr>)))"

definition unbind_http_session :: "mcp_credential_state \<Rightarrow> str \<Rightarrow> mcp_credential_state" where
  "unbind_http_session s i =
     s\<lparr>http_sessions := bt_remove i (http_sessions s),
       protocol_session_order := filter (\<lambda>b. b \<noteq> Http i) (protocol_session_order s)\<rparr>"

definition bind_legacy_session ::
  "mcp_credential_state \<Rightarrow> str \<Rightarrow> str \<Rightarrow> nat \<Rightarrow> (unit + mcp_evictions) \<times> mcp_credential_state" where
  "bind_legacy_session s session_id token cancellation =
     (if \<not> bt_contains (by_token s) token then (Err (), s)
      else case make_protocol_session_capacity s token of
             (Inl e, s1) \<Rightarrow> (Err e, s1)
           | (Inr ev, s1) \<Rightarrow>
               (Ok ev, s1\<lparr>legacy_sessions := bt_insert session_id (token, cancellation) (legacy_sessions s1),
                          protocol_session_order := protocol_session_order s1 @ [Legacy session_id]\<rparr>))"

definition unbind_legacy_session :: "mcp_credential_state \<Rightarrow> str \<Rightarrow> mcp_credential_state" where
  "unbind_legacy_session s i =
     s\<lparr>legacy_sessions := bt_remove i (legacy_sessions s),
       protocol_session_order := filter (\<lambda>b. b \<noteq> Legacy i) (protocol_session_order s)\<rparr>"

text \<open>A staged credential that is dropped before it was activated removes its token again.\<close>

record pending_mcp_credential =
  pending_token :: str
  pending_armed :: bool

definition activate_credential ::
  "mcp_credential_store \<Rightarrow> pending_mcp_credential \<Rightarrow> str
     \<Rightarrow> (mcp_credential_error + unit) \<times> pending_mcp_credential \<times> mcp_credential_store" where
  "activate_credential S c thread_id =
     (case activate S (pending_token c) thread_id of
        (Inl e, S') \<Rightarrow> (Err e, c, S')
      | (Inr u, S') \<Rightarrow> (Ok u, c\<lparr>pending_armed := False\<rparr>, S'))"

definition drop_credential :: "mcp_credential_store \<Rightarrow> pending_mcp_credential \<Rightarrow> mcp_credential_store" where
  "drop_credential S c = (if pending_armed c then remove_token S (pending_token c) else S)"

end
