(* ===== verification/Mcp_Guarantees.thy ===== *)
theory Mcp_Guarantees
  imports Mcp_Credentials
begin

text \<open>
  What the credential store guarantees: tokens, threads and sessions stay consistent and within
  their limits in every reachable store, a thread has at most one active credential, binding a
  session never fails for a live credential, and a revoked credential is dead with all its sessions.
\<close>

section \<open>Lemmas on the session maps\<close>

lemma length_filter_bt_remove: "length (filter P (bt_remove k m)) \<le> length (filter P m)"
  by (induction m) (auto simp: bt_remove_def)

lemma length_filter_fold_remove: "length (filter P (fold bt_remove ks m)) \<le> length (filter P m)"
proof (induction ks arbitrary: m)
  case (Cons k ks)
  from Cons [of "bt_remove k m"] length_filter_bt_remove [of P k m] show ?case by simp
qed simp

lemma length_filter_bt_insert:
  "length (filter P (bt_insert k v m)) \<le> length (filter P m) + (if P (k, v) then 1 else 0)"
  by (induction m) auto

lemmas length_bt_remove = length_filter_bt_remove [where P = "\<lambda>_. True", simplified]
lemmas length_fold_remove = length_filter_fold_remove [where P = "\<lambda>_. True", simplified]

lemma keys_with: "bt_wf m \<Longrightarrow> i \<in> set (map fst (filter (\<lambda>(_, v). P v) m)) \<longleftrightarrow> (\<exists>v. map_of m i = Some v \<and> P v)"
  by (force simp: bt_entries [symmetric])

lemma bt_remove_absent: "map_of m k = None \<Longrightarrow> bt_remove k m = m"
  by (induction m) (auto simp: bt_remove_def split: if_splits)

lemma map_of_nonempty: "m \<noteq> [] \<Longrightarrow> \<exists>k. map_of m k \<noteq> None"
  by (cases m) (auto intro: exI [of _ "fst (hd m)"])

section \<open>Invariant\<close>

definition sessions_listed :: "mcp_credential_state \<Rightarrow> bool" where
  "sessions_listed s =
     (bt_wf (http_sessions s) \<and> bt_wf (legacy_sessions s)
      \<and> (\<forall>i. Http i \<in> set (protocol_session_order s) \<longleftrightarrow> map_of (http_sessions s) i \<noteq> None)
      \<and> (\<forall>i. Legacy i \<in> set (protocol_session_order s) \<longleftrightarrow> map_of (legacy_sessions s) i \<noteq> None))"

definition session_bounds :: "mcp_credential_state \<Rightarrow> bool" where
  "session_bounds s =
     (length (http_sessions s) + length (legacy_sessions s) \<le> MAX_MCP_PROTOCOL_SESSIONS
      \<and> (\<forall>t. credential_protocol_session_count s t \<le> MAX_MCP_SESSIONS_PER_CREDENTIAL))"

definition live_sessions :: "str set \<Rightarrow> mcp_credential_state \<Rightarrow> bool" where
  "live_sessions dying s =
     ((\<forall>i t. map_of (http_sessions s) i = Some t \<longrightarrow> map_of (by_token s) t \<noteq> None \<or> t \<in> dying)
      \<and> (\<forall>i t c. map_of (legacy_sessions s) i = Some (t, c) \<longrightarrow> map_of (by_token s) t \<noteq> None \<or> t \<in> dying))"

definition tokens_ok :: "mcp_credential_state \<Rightarrow> bool" where
  "tokens_ok s =
     (bt_wf (by_token s) \<and> bt_wf (active_by_thread s)
      \<and> length (by_token s) \<le> MAX_MCP_CREDENTIALS
      \<and> (\<forall>tok t. (\<exists>r. map_of (by_token s) tok = Some r \<and> cred_thread_id r = Some t)
            \<longleftrightarrow> map_of (active_by_thread s) t = Some tok))"

definition cred_inv_but :: "str set \<Rightarrow> mcp_credential_state \<Rightarrow> bool" where
  "cred_inv_but dying s =
     (tokens_ok s \<and> sessions_listed s \<and> session_bounds s \<and> live_sessions dying s)"

abbreviation cred_inv :: "mcp_credential_state \<Rightarrow> bool" where
  "cred_inv \<equiv> cred_inv_but {}"

lemma take_protocol_sessions_spec:
  assumes "sessions_listed s" "take_protocol_sessions s tok = ((http, legacy), s')"
  shows "by_token s' = by_token s" "active_by_thread s' = active_by_thread s"
    "map_of (http_sessions s') i = (if map_of (http_sessions s) i = Some tok then None
       else map_of (http_sessions s) i)"
    "map_of (legacy_sessions s') i = (if map_option fst (map_of (legacy_sessions s) i) = Some tok then None
       else map_of (legacy_sessions s) i)"
    "sessions_listed s'" "session_bounds s \<Longrightarrow> session_bounds s'"
    "i \<in> set http \<longleftrightarrow> map_of (http_sessions s) i = Some tok"
    "map_of (legacy_sessions s) i = Some (tok, c) \<Longrightarrow> c \<in> set legacy"
proof -
  let ?h = "map fst (filter (\<lambda>(_, bound). bound = tok) (http_sessions s))"
  let ?l = "map fst (filter (\<lambda>(_, bound, _). bound = tok) (legacy_sessions s))"
  have out: "http = ?h" "legacy = map (\<lambda>(_, _, c). c) (filter (\<lambda>(_, bound, _). bound = tok) (legacy_sessions s))"
    "s' = s\<lparr>http_sessions := fold bt_remove ?h (http_sessions s),
            legacy_sessions := fold bt_remove ?l (legacy_sessions s),
            protocol_session_order := filter (\<lambda>bound. case bound of
                Http i \<Rightarrow> i \<notin> set ?h | Legacy i \<Rightarrow> i \<notin> set ?l) (protocol_session_order s)\<rparr>"
    using assms(2) by (auto simp: take_protocol_sessions_def Let_def)
  have wf: "bt_wf (http_sessions s)" "bt_wf (legacy_sessions s)"
    using assms(1) by (auto simp: sessions_listed_def)
  have h: "j \<in> set ?h \<longleftrightarrow> map_of (http_sessions s) j = Some tok" for j
    using keys_with [OF wf(1), of j "\<lambda>v. v = tok"] by auto
  have l: "j \<in> set ?l \<longleftrightarrow> map_option fst (map_of (legacy_sessions s) j) = Some tok" for j
    using keys_with [OF wf(2), of j "\<lambda>v. fst v = tok"] by (auto simp: case_prod_unfold)
  show "by_token s' = by_token s" "active_by_thread s' = active_by_thread s" by (simp_all add: out)
  show mh: "map_of (http_sessions s') i = (if map_of (http_sessions s) i = Some tok then None
       else map_of (http_sessions s) i)" for i
    using h [of i] by (simp add: out map_of_fold_bt_remove del: set_map)
  show ml: "map_of (legacy_sessions s') i = (if map_option fst (map_of (legacy_sessions s) i) = Some tok
       then None else map_of (legacy_sessions s) i)" for i
    using l [of i] by (simp add: out map_of_fold_bt_remove del: set_map)
  have o1: "Http j \<in> set (protocol_session_order s') \<longleftrightarrow> Http j \<in> set (protocol_session_order s) \<and> j \<notin> set ?h"
    and o2: "Legacy j \<in> set (protocol_session_order s') \<longleftrightarrow> Legacy j \<in> set (protocol_session_order s) \<and> j \<notin> set ?l"
    for j by (simp_all add: out del: set_map)
  show "sessions_listed s'"
    unfolding sessions_listed_def o1 o2 h l mh ml
    using assms(1) by (auto simp: sessions_listed_def out bt_wf_fold_bt_remove)
  show "session_bounds s'" if b: "session_bounds s"
  proof -
    have "length (http_sessions s') \<le> length (http_sessions s)"
      "length (legacy_sessions s') \<le> length (legacy_sessions s)"
      by (simp_all add: out length_fold_remove)
    moreover have "credential_protocol_session_count s' t \<le> credential_protocol_session_count s t" for t
      unfolding credential_protocol_session_count_def out
      by (simp add: add_mono length_filter_fold_remove)
    ultimately show ?thesis using b unfolding session_bounds_def by (meson add_mono le_trans)
  qed
  show "i \<in> set http \<longleftrightarrow> map_of (http_sessions s) i = Some tok" using h out(1) by simp
  show "c \<in> set legacy" if "map_of (legacy_sessions s) i = Some (tok, c)"
    using that bt_entries [OF wf(2), of i "(tok, c)"] by (force simp: out)
qed

lemma take_protocol_sessions_inv:
  assumes "cred_inv_but {tok} s"
  shows "cred_inv (snd (take_protocol_sessions s tok))"
proof -
  obtain http legacy s' where t: "take_protocol_sessions s tok = ((http, legacy), s')"
    by (metis surj_pair)
  have l: "sessions_listed s" using assms by (simp add: cred_inv_but_def)
  note spec = take_protocol_sessions_spec [OF l t]
  have "live_sessions {} s'"
    using assms unfolding cred_inv_but_def live_sessions_def
    by (simp add: spec(1,3,4)) (metis fst_conv option.simps(9))
  then show ?thesis
    using assms spec(1,2,5,6) by (simp add: cred_inv_but_def t tokens_ok_def)
qed

section \<open>Making room\<close>

definition shrinks :: "mcp_credential_state \<Rightarrow> mcp_credential_state \<Rightarrow> bool" where
  "shrinks s s' =
     (by_token s' = by_token s \<and> active_by_thread s' = active_by_thread s \<and> sessions_listed s'
      \<and> map_of (http_sessions s') \<subseteq>\<^sub>m map_of (http_sessions s)
      \<and> map_of (legacy_sessions s') \<subseteq>\<^sub>m map_of (legacy_sessions s)
      \<and> length (http_sessions s') + length (legacy_sessions s')
          \<le> length (http_sessions s) + length (legacy_sessions s)
      \<and> (\<forall>t. credential_protocol_session_count s' t \<le> credential_protocol_session_count s t))"

lemma shrinks_refl: "sessions_listed s \<Longrightarrow> shrinks s s"
  by (simp add: shrinks_def)

lemma shrinks_trans:
  assumes "shrinks s s'" "shrinks s' s''"
  shows "shrinks s s''"
proof -
  have "credential_protocol_session_count s'' t \<le> credential_protocol_session_count s t" for t
    using assms unfolding shrinks_def by (meson le_trans)
  moreover have "map_of (http_sessions s'') \<subseteq>\<^sub>m map_of (http_sessions s)"
    "map_of (legacy_sessions s'') \<subseteq>\<^sub>m map_of (legacy_sessions s)"
    using assms unfolding shrinks_def by (meson map_le_trans)+
  ultimately show ?thesis using assms by (auto simp: shrinks_def)
qed

lemma evict_shrinks:
  assumes "sessions_listed s"
  shows "shrinks s (fst (evict_protocol_session s b ev))"
proof (cases b)
  case (Http i)
  let ?s = "fst (evict_protocol_session s b ev)"
  have e: "http_sessions ?s = bt_remove i (http_sessions s)" "legacy_sessions ?s = legacy_sessions s"
    "by_token ?s = by_token s" "active_by_thread ?s = active_by_thread s"
    "protocol_session_order ?s = filter (\<lambda>b. b \<noteq> Http i) (protocol_session_order s)"
    by (simp_all add: Http Let_def bt_remove_absent split: option.split)
  have m: "map_of (http_sessions ?s) = (map_of (http_sessions s))(i := None)" by (simp add: e)
  have "sessions_listed ?s" using assms unfolding sessions_listed_def m by (auto simp: e)
  then show ?thesis
    unfolding shrinks_def m
    using length_bt_remove [of i "http_sessions s"]
    by (auto simp: e credential_protocol_session_count_def length_filter_bt_remove map_le_def)
next
  case (Legacy i)
  let ?s = "fst (evict_protocol_session s b ev)"
  have e: "legacy_sessions ?s = bt_remove i (legacy_sessions s)" "http_sessions ?s = http_sessions s"
    "by_token ?s = by_token s" "active_by_thread ?s = active_by_thread s"
    "protocol_session_order ?s = filter (\<lambda>b. b \<noteq> Legacy i) (protocol_session_order s)"
    by (simp_all add: Legacy Let_def bt_remove_absent split: option.split)
  have m: "map_of (legacy_sessions ?s) = (map_of (legacy_sessions s))(i := None)" by (simp add: e)
  have "sessions_listed ?s" using assms unfolding sessions_listed_def m by (auto simp: e)
  then show ?thesis
    unfolding shrinks_def m
    using length_bt_remove [of i "legacy_sessions s"]
    by (auto simp: e credential_protocol_session_count_def length_filter_bt_remove map_le_def)
qed

lemma token_session_listed:
  assumes "sessions_listed s" "0 < credential_protocol_session_count s tok"
  shows "\<exists>b\<in>set (protocol_session_order s). protocol_session_matches_token s b tok"
proof -
  have wf: "bt_wf (http_sessions s)" "bt_wf (legacy_sessions s)"
    using assms(1) by (auto simp: sessions_listed_def)
  consider i where "(i, tok) \<in> set (http_sessions s)" | i c where "(i, tok, c) \<in> set (legacy_sessions s)"
    using assms(2) by (auto simp: credential_protocol_session_count_def filter_empty_conv)
  then show ?thesis
  proof cases
    case (1 i)
    then have "map_of (http_sessions s) i = Some tok" using bt_entries [OF wf(1)] by blast
    then show ?thesis using assms(1) by (intro bexI [of _ "Http i"]) (auto simp: sessions_listed_def)
  next
    case (2 i c)
    then have "map_of (legacy_sessions s) i = Some (tok, c)" using bt_entries [OF wf(2)] by blast
    then show ?thesis using assms(1) by (intro bexI [of _ "Legacy i"]) (auto simp: sessions_listed_def)
  qed
qed

lemma evict_for_token_ok:
  assumes "sessions_listed s"
  shows "\<exists>ev' s'. evict_for_token s tok ev = (Ok ev', s') \<and> shrinks s s'
    \<and> credential_protocol_session_count s' tok < MAX_MCP_SESSIONS_PER_CREDENTIAL"
  using assms
proof (induction s tok ev rule: evict_for_token.induct)
  case (1 s tok ev)
  show ?case
  proof (cases "credential_protocol_session_count s tok < MAX_MCP_SESSIONS_PER_CREDENTIAL")
    case True
    then show ?thesis using "1.prems" by (subst evict_for_token.simps) (simp add: shrinks_refl)
  next
    case False
    then have "0 < credential_protocol_session_count s tok"
      by (simp add: MAX_MCP_SESSIONS_PER_CREDENTIAL_def)
    then obtain b where b: "List.find (\<lambda>b. protocol_session_matches_token s b tok)
        (protocol_session_order s) = Some b"
      using token_session_listed [OF "1.prems"] by (metis find_None_iff not_None_eq)
    let ?s = "fst (evict_protocol_session s b ev)" and ?ev = "snd (evict_protocol_session s b ev)"
    note sh = evict_shrinks [OF "1.prems", of b ev]
    have "sessions_listed ?s" using sh by (simp add: shrinks_def)
    from "1.IH" [OF False b this] obtain ev' s' where
      r: "evict_for_token ?s tok ?ev = (Ok ev', s')" "shrinks ?s s'"
         "credential_protocol_session_count s' tok < MAX_MCP_SESSIONS_PER_CREDENTIAL" by blast
    have "evict_for_token s tok ev = (Ok ev', s')"
      using False b r(1) by (subst evict_for_token.simps) simp
    then show ?thesis using r shrinks_trans [OF sh r(2)] by blast
  qed
qed

lemma evict_for_total_ok:
  assumes "sessions_listed s"
  shows "\<exists>ev' s'. evict_for_total s ev = (Ok ev', s') \<and> shrinks s s'
    \<and> length (http_sessions s') + length (legacy_sessions s') < MAX_MCP_PROTOCOL_SESSIONS"
  using assms
proof (induction s ev rule: evict_for_total.induct)
  case (1 s ev)
  show ?case
  proof (cases "length (http_sessions s) + length (legacy_sessions s) < MAX_MCP_PROTOCOL_SESSIONS")
    case True
    then show ?thesis using "1.prems" by (subst evict_for_total.simps) (simp add: shrinks_refl)
  next
    case False
    then have "http_sessions s \<noteq> [] \<or> legacy_sessions s \<noteq> []"
      by (auto simp: MAX_MCP_PROTOCOL_SESSIONS_def)
    then have "protocol_session_order s \<noteq> []"
      using "1.prems" map_of_nonempty unfolding sessions_listed_def by (metis list.set_intros(1) empty_iff empty_set)
    then obtain b bs where b: "protocol_session_order s = b # bs" by (meson neq_Nil_conv)
    let ?s = "fst (evict_protocol_session s b ev)" and ?ev = "snd (evict_protocol_session s b ev)"
    note sh = evict_shrinks [OF "1.prems", of b ev]
    have "sessions_listed ?s" using sh by (simp add: shrinks_def)
    from "1.IH" [OF False b this] obtain ev' s' where
      r: "evict_for_total ?s ?ev = (Ok ev', s')" "shrinks ?s s'"
         "length (http_sessions s') + length (legacy_sessions s') < MAX_MCP_PROTOCOL_SESSIONS" by blast
    have "evict_for_total s ev = (Ok ev', s')"
      using False b r(1) by (subst evict_for_total.simps) simp
    then show ?thesis using r shrinks_trans [OF sh r(2)] by blast
  qed
qed

lemma make_capacity_ok:
  assumes "sessions_listed s"
  obtains ev s' where "make_protocol_session_capacity s tok = (Ok ev, s')" "shrinks s s'"
    "credential_protocol_session_count s' tok < MAX_MCP_SESSIONS_PER_CREDENTIAL"
    "length (http_sessions s') + length (legacy_sessions s') < MAX_MCP_PROTOCOL_SESSIONS"
proof -
  let ?e = "\<lparr>ev_http_sessions = [], ev_legacy_sessions = []\<rparr>"
  obtain ev1 s1 where s1: "evict_for_token s tok ?e = (Ok ev1, s1)" "shrinks s s1"
      "credential_protocol_session_count s1 tok < MAX_MCP_SESSIONS_PER_CREDENTIAL"
    using evict_for_token_ok [OF assms] by blast
  have "sessions_listed s1" using s1(2) by (simp add: shrinks_def)
  then obtain ev s' where s': "evict_for_total s1 ev1 = (Ok ev, s')" "shrinks s1 s'"
      "length (http_sessions s') + length (legacy_sessions s') < MAX_MCP_PROTOCOL_SESSIONS"
    using evict_for_total_ok by blast
  have "credential_protocol_session_count s' tok < MAX_MCP_SESSIONS_PER_CREDENTIAL"
    using s1(3) s'(2) by (auto simp: shrinks_def intro: le_less_trans)
  with s1 s' show ?thesis
    by (intro that [of ev s']) (auto simp: make_protocol_session_capacity_def intro: shrinks_trans)
qed

section \<open>Every operation keeps the invariant\<close>

lemmas cred_inv_defs = cred_inv_but_def tokens_ok_def sessions_listed_def session_bounds_def
  live_sessions_def

lemma sessions_cong:
  assumes "http_sessions s' = http_sessions s" "legacy_sessions s' = legacy_sessions s"
    "protocol_session_order s' = protocol_session_order s"
  shows "sessions_listed s' = sessions_listed s" "session_bounds s' = session_bounds s"
  using assms by (simp_all add: sessions_listed_def session_bounds_def credential_protocol_session_count_def)

lemma tokens_ok_iff:
  "tokens_ok s \<Longrightarrow> (\<exists>r. map_of (by_token s) k = Some r \<and> cred_thread_id r = Some t)
     \<longleftrightarrow> map_of (active_by_thread s) t = Some k"
  by (simp add: tokens_ok_def)

lemma stage_inv:
  assumes "cred_inv s" "map_of (by_token s) tok = None"
  shows "cred_inv (snd (stage tok s a))"
proof (cases "MAX_MCP_CREDENTIALS \<le> length (by_token s)")
  case False
  let ?s = "snd (stage tok s a)"
  have s: "?s = s\<lparr>by_token := bt_insert tok \<lparr>cred_agent_id = a, cred_thread_id = None\<rparr> (by_token s)\<rparr>"
    using False by (simp add: stage_def)
  have ok: "tokens_ok s" using assms(1) by (simp add: cred_inv_but_def)
  have "(\<exists>r. map_of (by_token ?s) k = Some r \<and> cred_thread_id r = Some t)
      \<longleftrightarrow> map_of (active_by_thread ?s) t = Some k" for k t
    using tokens_ok_iff [OF ok, of k t] tokens_ok_iff [OF ok, of tok t] assms(2) by (auto simp: s)
  moreover have "length (by_token ?s) \<le> MAX_MCP_CREDENTIALS"
    using False length_bt_insert_new [OF assms(2)] by (simp add: s)
  moreover have "bt_wf (by_token ?s)" "bt_wf (active_by_thread ?s)"
    using ok by (auto simp: s tokens_ok_def)
  ultimately have "tokens_ok ?s" unfolding tokens_ok_def by blast
  moreover have "live_sessions {} ?s"
    using assms(1) by (auto simp: cred_inv_but_def live_sessions_def s)
  moreover have "sessions_listed ?s" "session_bounds ?s"
    using assms(1) sessions_cong [of ?s s] by (simp_all add: cred_inv_but_def s)
  ultimately show ?thesis by (simp add: cred_inv_but_def)
qed (use assms in \<open>simp add: stage_def\<close>)

lemma cred_state_close [simp]: "cred_state (close_protocol_sessions h l S) = cred_state S"
  by (simp add: close_protocol_sessions_def)

lemma tokens_ok_unique:
  assumes "tokens_ok s" "map_of (active_by_thread s) t = Some tok"
  obtains r where "map_of (by_token s) tok = Some r" "cred_thread_id r = Some t"
  using assms unfolding tokens_ok_def by blast

text \<open>Dropping a credential: its token and its thread entry go first, its sessions after.\<close>

lemma drop_token_inv:
  assumes "cred_inv s" "\<And>t. map_of (active_by_thread s) t = Some tok \<Longrightarrow> t \<in> T"
    "\<And>t tok'. map_of (active_by_thread s) t = Some tok' \<Longrightarrow> t \<in> T \<Longrightarrow> tok' = tok"
    "by_token s' = bt_remove tok (by_token s)"
    "map_of (active_by_thread s') = (\<lambda>t. if t \<in> T then None else map_of (active_by_thread s) t)"
    "bt_wf (active_by_thread s')" "http_sessions s' = http_sessions s"
    "legacy_sessions s' = legacy_sessions s" "protocol_session_order s' = protocol_session_order s"
  shows "cred_inv (snd (take_protocol_sessions s' tok))"
proof (rule take_protocol_sessions_inv)
  have tok: "tokens_ok s" using assms(1) by (simp add: cred_inv_but_def)
  have iff: "(\<exists>r. map_of (by_token s') k = Some r \<and> cred_thread_id r = Some t)
      \<longleftrightarrow> map_of (active_by_thread s') t = Some k" for k t
  proof -
    have "(\<exists>r. map_of (by_token s) k = Some r \<and> cred_thread_id r = Some t)
        \<longleftrightarrow> map_of (active_by_thread s) t = Some k" using tok by (simp add: tokens_ok_def)
    then show ?thesis using assms(2) [of t] assms(3) [of t k] by (auto simp: assms(4,5))
  qed
  have "length (by_token s') \<le> length (by_token s)" "bt_wf (by_token s')"
    using tok by (auto simp: assms(4) length_bt_remove tokens_ok_def)
  with iff assms(6) tok have "tokens_ok s'" by (auto simp: tokens_ok_def)
  moreover have "live_sessions {tok} s'"
    using assms(1) by (auto simp: cred_inv_but_def live_sessions_def assms(4,7,8))
  moreover have "sessions_listed s'" "session_bounds s'"
    using assms(1) sessions_cong [OF assms(7-9)] by (simp_all add: cred_inv_but_def)
  ultimately show "cred_inv_but {tok} s'" by (simp add: cred_inv_but_def)
qed

lemma remove_token_inv:
  assumes inv: "cred_inv (cred_state S)"
  shows "cred_inv (cred_state (remove_token S tok))"
proof (cases "map_of (by_token (cred_state S)) tok")
  case None
  then show ?thesis using inv by (simp add: remove_token_def)
next
  case (Some r)
  let ?s = "cred_state S"
  let ?s1 = "?s\<lparr>by_token := bt_remove tok (by_token ?s)\<rparr>"
  let ?T = "{t. cred_thread_id r = Some t}"
  let ?s2 = "case cred_thread_id r of None \<Rightarrow> ?s1
     | Some t \<Rightarrow> if map_of (active_by_thread ?s1) t = Some tok
                 then ?s1\<lparr>active_by_thread := bt_remove t (active_by_thread ?s1)\<rparr> else ?s1"
  have tok: "tokens_ok ?s" using inv by (simp add: cred_inv_but_def)
  have active: "map_of (active_by_thread ?s) t = Some tok \<longleftrightarrow> cred_thread_id r = Some t" for t
    using tokens_ok_iff [OF tok, of tok t] Some by auto
  have uniq: "tok' = tok" if "map_of (active_by_thread ?s) t = Some tok'" "t \<in> ?T" for t tok'
    using that active [of t] by auto
  have "cred_inv (snd (take_protocol_sessions ?s2 tok))"
    by (rule drop_token_inv [where T = ?T, OF inv _ uniq])
       (use active tok in \<open>auto simp: tokens_ok_def split: option.splits\<close>)
  moreover have "cred_state (remove_token S tok) = snd (take_protocol_sessions ?s2 tok)"
    by (simp add: remove_token_def Some Let_def split: prod.split)
  ultimately show ?thesis by simp
qed

lemma revoke_one_inv:
  assumes "cred_inv s" "map_of (active_by_thread s) t = Some tok"
  shows "cred_inv (snd (take_protocol_sessions
    (s\<lparr>active_by_thread := bt_remove t (active_by_thread s), by_token := bt_remove tok (by_token s)\<rparr>) tok))"
proof (rule drop_token_inv [OF assms(1), of tok "{t}"])
  have tok: "tokens_ok s" using assms(1) by (simp add: cred_inv_but_def)
  obtain r where r: "map_of (by_token s) tok = Some r" "cred_thread_id r = Some t"
    by (rule tokens_ok_unique [OF tok assms(2)])
  show "t' \<in> {t}" if "map_of (active_by_thread s) t' = Some tok" for t'
    using tokens_ok_unique [OF tok that] r by auto
qed (use assms in \<open>auto simp: cred_inv_but_def tokens_ok_def\<close>)

lemma revoke_loop_inv:
  "cred_inv s \<Longrightarrow> cred_inv (snd (revoke_loop ts s h l))"
proof (induction ts s h l rule: revoke_loop.induct)
  case (2 t ts s h l)
  then show ?case using revoke_one_inv [of s t]
    by (auto split: option.splits prod.splits)
qed simp

lemma activate_inv:
  assumes inv: "cred_inv (cred_state S)"
  shows "cred_inv (cred_state (snd (activate S tok t)))"
proof (cases "\<exists>r. map_of (by_token (cred_state S)) tok = Some r \<and> cred_thread_id r = None")
  case False
  then show ?thesis using inv by (auto simp: activate_def Let_def split: option.splits)
next
  case True
  then obtain r where r: "map_of (by_token (cred_state S)) tok = Some r" "cred_thread_id r = None" by blast
  let ?s = "cred_state S"
  let ?s1 = "?s\<lparr>by_token := bt_insert tok (r\<lparr>cred_thread_id := Some t\<rparr>) (by_token ?s),
               active_by_thread := bt_insert t tok (active_by_thread ?s)\<rparr>"
  have tok: "tokens_ok ?s" using inv by (simp add: cred_inv_but_def)
  have iff: "(\<exists>r. map_of (by_token ?s) k = Some r \<and> cred_thread_id r = Some u)
      \<longleftrightarrow> map_of (active_by_thread ?s) u = Some k" for k u using tok by (simp add: tokens_ok_def)
  have fresh: "map_of (active_by_thread ?s) u \<noteq> Some tok" for u using iff [of tok u] r by auto
  have wf: "bt_wf (by_token ?s1)" "bt_wf (active_by_thread ?s1)" "length (by_token ?s1) \<le> MAX_MCP_CREDENTIALS"
    using tok length_bt_insert_old [of "by_token ?s" tok] r(1) by (auto simp: tokens_ok_def)
  have s1: "sessions_listed ?s1" "session_bounds ?s1"
    using inv sessions_cong [of ?s1 ?s] by (simp_all add: cred_inv_but_def)
  have live: "live_sessions D s'"
    if "http_sessions s' = http_sessions ?s" "legacy_sessions s' = legacy_sessions ?s"
      "\<And>k. map_of (by_token ?s) k \<noteq> None \<Longrightarrow> map_of (by_token s') k \<noteq> None \<or> k \<in> D" for D s'
    using inv that by (auto simp: cred_inv_but_def live_sessions_def)
  show ?thesis
  proof (cases "map_of (active_by_thread ?s) t")
    case None
    have "(\<exists>r. map_of (by_token ?s1) k = Some r \<and> cred_thread_id r = Some u)
      \<longleftrightarrow> map_of (active_by_thread ?s1) u = Some k" for k u
      using iff [of k u] fresh [of u] None r by auto
    moreover have "live_sessions {} ?s1" by (rule live) auto
    ultimately have "cred_inv ?s1"
      using wf s1 unfolding cred_inv_but_def tokens_ok_def by auto
    then show ?thesis using r None by (simp add: activate_def Let_def)
  next
    case (Some prev)
    let ?s2 = "?s1\<lparr>by_token := bt_remove prev (by_token ?s1)\<rparr>"
    have ne: "prev \<noteq> tok" using fresh Some by auto
    have "(\<exists>r. map_of (by_token ?s2) k = Some r \<and> cred_thread_id r = Some u)
      \<longleftrightarrow> map_of (active_by_thread ?s2) u = Some k" for k u
      using iff [of k u] iff [of prev u] iff [of k t] fresh [of u] Some ne r by auto
    then have "tokens_ok ?s2"
      using wf length_bt_remove [of prev "by_token ?s1"] unfolding tokens_ok_def by auto
    moreover have "live_sessions {prev} ?s2" by (rule live) auto
    moreover have "sessions_listed ?s2" "session_bounds ?s2"
      using s1 sessions_cong [of ?s2 ?s1] by simp_all
    ultimately have "cred_inv (snd (take_protocol_sessions ?s2 prev))"
      by (intro take_protocol_sessions_inv) (simp add: cred_inv_but_def)
    then show ?thesis using r Some by (auto simp: activate_def Let_def split: prod.splits)
  qed
qed

lemma bind_session_inv:
  assumes inv: "cred_inv s" and sh: "shrinks s s1" and known: "map_of (by_token s) tok \<noteq> None"
    and room: "credential_protocol_session_count s1 tok < MAX_MCP_SESSIONS_PER_CREDENTIAL"
      "length (http_sessions s1) + length (legacy_sessions s1) < MAX_MCP_PROTOCOL_SESSIONS"
  shows "cred_inv (s1\<lparr>http_sessions := bt_insert i tok (http_sessions s1),
           protocol_session_order := protocol_session_order s1 @ [Http i]\<rparr>)" (is "cred_inv ?h")
    and "cred_inv (s1\<lparr>legacy_sessions := bt_insert i (tok, c) (legacy_sessions s1),
           protocol_session_order := protocol_session_order s1 @ [Legacy i]\<rparr>)" (is "cred_inv ?l")
proof -
  have same: "by_token s1 = by_token s" "active_by_thread s1 = active_by_thread s" "sessions_listed s1"
    using sh by (auto simp: shrinks_def)
  have tok: "tokens_ok ?h" "tokens_ok ?l" using inv same by (auto simp: cred_inv_but_def tokens_ok_def)
  have sub: "map_of (http_sessions s1) j = Some t \<Longrightarrow> map_of (http_sessions s) j = Some t"
    "map_of (legacy_sessions s1) j = Some v \<Longrightarrow> map_of (legacy_sessions s) j = Some v" for j t v
    using sh unfolding shrinks_def map_le_def by (metis domI)+
  have live: "live_sessions {} s1"
    using inv sub same unfolding cred_inv_but_def live_sessions_def by metis
  then have "live_sessions {} ?h" "live_sessions {} ?l"
    using known same by (auto simp: live_sessions_def split: if_splits)
  moreover have "sessions_listed ?h" "sessions_listed ?l"
    using same(3) by (auto simp: sessions_listed_def)
  moreover have "session_bounds ?h" "session_bounds ?l"
  proof -
    have c: "credential_protocol_session_count s1 t \<le> MAX_MCP_SESSIONS_PER_CREDENTIAL" for t
      using inv sh unfolding cred_inv_but_def session_bounds_def shrinks_def by (meson le_trans)
    have "credential_protocol_session_count ?h t
        \<le> credential_protocol_session_count s1 t + (if t = tok then 1 else 0)"
      "credential_protocol_session_count ?l t
        \<le> credential_protocol_session_count s1 t + (if t = tok then 1 else 0)" for t
      using length_filter_bt_insert [of "\<lambda>(_, b). b = t" i tok "http_sessions s1"]
        length_filter_bt_insert [of "\<lambda>(_, b, _). b = t" i "(tok, c)" "legacy_sessions s1"]
      by (auto simp: credential_protocol_session_count_def)
    then have "credential_protocol_session_count ?h t \<le> MAX_MCP_SESSIONS_PER_CREDENTIAL"
      "credential_protocol_session_count ?l t \<le> MAX_MCP_SESSIONS_PER_CREDENTIAL" for t
      using c [of t] room(1) by (smt (verit, best) Suc_eq_plus1 Suc_leI add.right_neutral le_trans)+
    then show "session_bounds ?h" "session_bounds ?l"
      using room(2) length_bt_insert [of i tok "http_sessions s1"]
        length_bt_insert [of i "(tok, c)" "legacy_sessions s1"] by (auto simp: session_bounds_def)
  qed
  ultimately show "cred_inv ?h" "cred_inv ?l" using tok by (simp_all add: cred_inv_but_def)
qed

lemma bind_http_session_new:
  assumes "cred_inv s" "map_of (by_token s) tok \<noteq> None" "map_of (http_sessions s) i = None"
  obtains ev s1 where "bind_http_session s i tok = (Ok ev, s1\<lparr>http_sessions := bt_insert i tok (http_sessions s1),
      protocol_session_order := protocol_session_order s1 @ [Http i]\<rparr>)" "shrinks s s1"
    "cred_inv (snd (bind_http_session s i tok))"
proof -
  have "sessions_listed s" using assms(1) by (simp add: cred_inv_but_def)
  then obtain ev s1 where s1: "make_protocol_session_capacity s tok = (Ok ev, s1)" "shrinks s s1"
    "credential_protocol_session_count s1 tok < MAX_MCP_SESSIONS_PER_CREDENTIAL"
    "length (http_sessions s1) + length (legacy_sessions s1) < MAX_MCP_PROTOCOL_SESSIONS"
    by (rule make_capacity_ok)
  show ?thesis
    by (rule that [of ev s1])
       (use assms s1 bind_session_inv(1) [OF assms(1) s1(2) assms(2) s1(3,4)] in
        \<open>simp_all add: bind_http_session_def bt_contains_def\<close>)
qed

lemma bind_http_session_inv:
  assumes "cred_inv s"
  shows "cred_inv (snd (bind_http_session s i tok))"
proof (cases "map_of (by_token s) tok = None \<or> map_of (http_sessions s) i \<noteq> None")
  case True
  then show ?thesis using assms by (auto simp: bind_http_session_def bt_contains_def split: option.splits)
next
  case False
  then show ?thesis using bind_http_session_new [OF assms] by blast
qed

lemma bind_legacy_session_inv:
  assumes "cred_inv s"
  shows "cred_inv (snd (bind_legacy_session s i tok c))"
proof (cases "map_of (by_token s) tok")
  case None
  then show ?thesis using assms by (simp add: bind_legacy_session_def bt_contains_def)
next
  case (Some r)
  have "sessions_listed s" using assms by (simp add: cred_inv_but_def)
  then obtain ev s1 where s1: "make_protocol_session_capacity s tok = (Ok ev, s1)" "shrinks s s1"
    "credential_protocol_session_count s1 tok < MAX_MCP_SESSIONS_PER_CREDENTIAL"
    "length (http_sessions s1) + length (legacy_sessions s1) < MAX_MCP_PROTOCOL_SESSIONS"
    by (rule make_capacity_ok)
  from bind_session_inv(2) [OF assms s1(2) _ s1(3,4)] s1(1) Some show ?thesis
    by (simp add: bind_legacy_session_def bt_contains_def)
qed

lemma unbind_inv:
  assumes "cred_inv s"
  shows "cred_inv (unbind_http_session s i)" "cred_inv (unbind_legacy_session s i)"
proof -
  have "sessions_listed s" using assms by (simp add: cred_inv_but_def)
  then have l: "sessions_listed (unbind_http_session s i)" "sessions_listed (unbind_legacy_session s i)"
    by (auto simp: sessions_listed_def unbind_http_session_def unbind_legacy_session_def)
  have c: "credential_protocol_session_count (unbind_http_session s i) t \<le> credential_protocol_session_count s t"
    "credential_protocol_session_count (unbind_legacy_session s i) t \<le> credential_protocol_session_count s t" for t
    by (simp_all add: credential_protocol_session_count_def unbind_http_session_def
        unbind_legacy_session_def length_filter_bt_remove)
  have n: "length (bt_remove i (http_sessions s)) \<le> length (http_sessions s)"
    "length (bt_remove i (legacy_sessions s)) \<le> length (legacy_sessions s)"
    by (simp_all add: length_bt_remove)
  have b: "session_bounds (unbind_http_session s i)" "session_bounds (unbind_legacy_session s i)"
    using assms n le_trans [OF c(1)] le_trans [OF c(2)]
    by (auto simp: cred_inv_but_def session_bounds_def unbind_http_session_def unbind_legacy_session_def)
  then show "cred_inv (unbind_http_session s i)" "cred_inv (unbind_legacy_session s i)"
    using assms l by (auto simp: cred_inv_but_def tokens_ok_def live_sessions_def
        unbind_http_session_def unbind_legacy_session_def split: if_splits)
qed

section \<open>Reachable stores\<close>

text \<open>A staged token is a new random UUID.\<close>

inductive cred_step :: "mcp_credential_store \<Rightarrow> mcp_credential_store \<Rightarrow> bool" where
  stage: "map_of (by_token (cred_state S)) tok = None \<Longrightarrow>
    cred_step S (S\<lparr>cred_state := snd (stage tok (cred_state S) a)\<rparr>)"
| activate: "cred_step S (snd (activate S tok t))"
| remove: "cred_step S (remove_token S tok)"
| revoke: "cred_step S (revoke_threads S ts)"
| revoke_all: "cred_step S (revoke_all S)"
| bind_http: "cred_step S (S\<lparr>cred_state := snd (bind_http_session (cred_state S) i tok)\<rparr>)"
| bind_legacy: "cred_step S (S\<lparr>cred_state := snd (bind_legacy_session (cred_state S) i tok c)\<rparr>)"
| unbind_http: "cred_step S (S\<lparr>cred_state := unbind_http_session (cred_state S) i\<rparr>)"
| unbind_legacy: "cred_step S (S\<lparr>cred_state := unbind_legacy_session (cred_state S) i\<rparr>)"

inductive cred_reachable :: "mcp_credential_store \<Rightarrow> bool" where
  start: "cred_reachable \<lparr>cred_state = credentials_default, http_session_manager = b, closed_http = [],
    cancelled = []\<rparr>"
| step: "cred_reachable S \<Longrightarrow> cred_step S S' \<Longrightarrow> cred_reachable S'"

lemma cred_inv_default: "cred_inv credentials_default"
  by (simp add: cred_inv_defs credentials_default_def credential_protocol_session_count_def)

lemma cred_step_inv: "cred_step S S' \<Longrightarrow> cred_inv (cred_state S) \<Longrightarrow> cred_inv (cred_state S')"
proof (induction rule: cred_step.induct)
  case (revoke S ts)
  then show ?case
    using revoke_loop_inv [of "cred_state S" ts "[]" "[]"]
    by (auto simp: revoke_threads_def split: prod.splits)
next
  case (revoke_all S)
  show ?case by (simp add: revoke_all_def cred_inv_default)
qed (simp_all add: stage_inv activate_inv remove_token_inv bind_http_session_inv
      bind_legacy_session_inv unbind_inv)

lemma cred_reachable_inv: "cred_reachable S \<Longrightarrow> cred_inv (cred_state S)"
  by (induction rule: cred_reachable.induct) (auto simp: cred_inv_default cred_step_inv)

section \<open>Revocation\<close>

text \<open>A token is dead: it neither authenticates nor resolves, and no session accepts it.\<close>

definition token_dead :: "mcp_credential_state \<Rightarrow> str \<Rightarrow> bool" where
  "token_dead s tok =
     (authenticate s (''Bearer '' @ tok) = None \<and> resolve_token s tok = None
      \<and> (\<forall>i. http_session_authorization s i tok \<noteq> Authorized)
      \<and> (\<forall>i c. map_of (legacy_sessions s) i \<noteq> Some (tok, c)))"

lemma token_dead_iff:
  assumes "cred_inv s"
  shows "token_dead s tok \<longleftrightarrow> map_of (by_token s) tok = None"
proof -
  have p: "strip_prefix (''Bearer '' @ tok) ''Bearer '' = Some tok" by (simp add: strip_prefix_Some)
  have a: "authenticate s (''Bearer '' @ tok) = None \<longleftrightarrow> map_of (by_token s) tok = None"
    unfolding authenticate_def p by simp
  have h: "map_of (by_token s) tok = None \<Longrightarrow> map_of (http_sessions s) i \<noteq> Some tok" for i
    using assms unfolding cred_inv_but_def live_sessions_def by blast
  have l: "map_of (by_token s) tok = None \<Longrightarrow> map_of (legacy_sessions s) i \<noteq> Some (tok, c)" for i c
    using assms unfolding cred_inv_but_def live_sessions_def by blast
  show ?thesis
    unfolding token_dead_def a using h l
    by (auto simp: resolve_token_def http_session_authorization_def split: option.splits)
qed

lemma resolve_active:
  "resolve_token s tok = Some (Active a t) \<longleftrightarrow>
     (\<exists>r. map_of (by_token s) tok = Some r \<and> cred_agent_id r = a \<and> cred_thread_id r = Some t)"
  by (cases "map_of (by_token s) tok") (auto simp: resolve_token_def split: option.splits)

lemma revoke_loop_spec:
  assumes "cred_inv s" "revoke_loop ts s h l = ((h', l'), s')"
  shows "map_of (by_token s') tok =
      (if \<exists>t\<in>set ts. map_of (active_by_thread s) t = Some tok then None else map_of (by_token s) tok)
    \<and> set h \<subseteq> set h' \<and> set l \<subseteq> set l'
    \<and> ((\<exists>t\<in>set ts. map_of (active_by_thread s) t = Some tok) \<longrightarrow>
        (\<forall>i. map_of (http_sessions s) i = Some tok \<longrightarrow> i \<in> set h')
        \<and> (\<forall>i c. map_of (legacy_sessions s) i = Some (tok, c) \<longrightarrow> c \<in> set l'))"
  using assms
proof (induction ts arbitrary: s h l)
  case (Cons t ts)
  have ok: "tokens_ok s" using Cons.prems(1) by (simp add: cred_inv_but_def)
  show ?case
  proof (cases "map_of (active_by_thread s) t")
    case None
    then show ?thesis using Cons by simp
  next
    case (Some tk)
    let ?s1 = "s\<lparr>active_by_thread := bt_remove t (active_by_thread s), by_token := bt_remove tk (by_token s)\<rparr>"
    obtain hh ll s2 where t: "take_protocol_sessions ?s1 tk = ((hh, ll), s2)" by (metis surj_pair)
    have inv2: "cred_inv s2" using revoke_one_inv [OF Cons.prems(1) Some] t by simp
    have r2: "revoke_loop ts s2 (h @ hh) (l @ ll) = ((h', l'), s')"
      using Cons.prems(2) Some t by simp
    have l1: "sessions_listed ?s1"
      using Cons.prems(1) sessions_cong(1) [of ?s1 s] by (simp add: cred_inv_but_def)
    note spec = take_protocol_sessions_spec [OF l1 t]
    have act: "map_of (active_by_thread s) t' = Some tk \<longleftrightarrow> t' = t" for t'
      using tokens_ok_unique [OF ok] Some by (metis option.inject)
    note IH = Cons.IH [OF inv2 r2]
    show ?thesis
    proof (cases "tok = tk")
      case True
      have "set hh \<subseteq> set h'" "set ll \<subseteq> set l'" "set h \<subseteq> set h'" "set l \<subseteq> set l'" using IH by auto
      moreover have "map_of (by_token s') tok = None" using IH by (simp add: spec(1) True)
      moreover have "map_of (http_sessions s) i = Some tok \<Longrightarrow> i \<in> set hh" for i
        using spec(7) [of i] True by simp
      moreover have "map_of (legacy_sessions s) i = Some (tok, c) \<Longrightarrow> c \<in> set ll" for i c
        using spec(8) [of i c] True by simp
      ultimately show ?thesis using Some True by auto
    next
      case False
      have a2: "(\<exists>t'\<in>set ts. map_of (active_by_thread s2) t' = Some tok)
          \<longleftrightarrow> (\<exists>t'\<in>set (t # ts). map_of (active_by_thread s) t' = Some tok)"
        using False Some by (auto simp: spec(2)) (metis option.inject)
      have s2: "map_of (by_token s2) tok = map_of (by_token s) tok" using False by (simp add: spec(1))
      have m2: "map_of (http_sessions s) i = Some tok \<Longrightarrow> map_of (http_sessions s2) i = Some tok"
        "map_of (legacy_sessions s) i = Some (tok, c) \<Longrightarrow> map_of (legacy_sessions s2) i = Some (tok, c)"
        for i c using False by (simp_all add: spec(3,4))
      show ?thesis
        using IH unfolding a2 s2 set_append by (blast intro: m2)
    qed
  qed
qed simp

section \<open>Properties\<close>



text \<open>
  C19: revoking threads kills exactly their credentials. The token of a revoked thread neither
  authenticates nor resolves any more and no session accepts it; its HTTP sessions are handed to
  the session manager for closing and its legacy sessions are cancelled; every other credential is
  kept as it was.
\<close>

theorem mcp_revocation_effective:
  assumes "cred_reachable S" "http_session_manager S"
  shows "let S' = revoke_threads S ts in
    (\<forall>tok a t. resolve_token (cred_state S) tok = Some (Active a t) \<longrightarrow> t \<in> set ts \<longrightarrow>
        token_dead (cred_state S') tok
        \<and> (\<forall>i. http_session_authorization (cred_state S) i tok = Authorized \<longrightarrow> i \<in> set (closed_http S'))
        \<and> (\<forall>i c. map_of (legacy_sessions (cred_state S)) i = Some (tok, c) \<longrightarrow> c \<in> set (cancelled S')))
    \<and> (\<forall>tok p. resolve_token (cred_state S) tok = Some p \<longrightarrow> (\<forall>a t. p = Active a t \<longrightarrow> t \<notin> set ts) \<longrightarrow>
        resolve_token (cred_state S') tok = Some p)"
proof -
  let ?s = "cred_state S"
  note inv = cred_reachable_inv [OF assms(1)]
  have ok: "tokens_ok ?s" using inv by (simp add: cred_inv_but_def)
  obtain h l s' where r: "revoke_loop ts ?s [] [] = ((h, l), s')" by (metis surj_pair)
  have S': "revoke_threads S ts = close_protocol_sessions h l (S\<lparr>cred_state := s'\<rparr>)"
    by (simp add: revoke_threads_def r)
  have inv': "cred_inv s'" using revoke_loop_inv [OF inv, of ts "[]" "[]"] r by simp
  note spec = revoke_loop_spec [OF inv r]
  have act: "map_of (active_by_thread ?s) t = Some tok \<longleftrightarrow> (\<exists>a. resolve_token ?s tok = Some (Active a t))" for tok t
    using tokens_ok_iff [OF ok, of tok t] by (simp add: resolve_active)
  have dead: "token_dead s' tok \<and> (\<forall>i. http_session_authorization ?s i tok = Authorized \<longrightarrow> i \<in> set h)
      \<and> (\<forall>i c. map_of (legacy_sessions ?s) i = Some (tok, c) \<longrightarrow> c \<in> set l)"
    if "resolve_token ?s tok = Some (Active a t)" "t \<in> set ts" for tok a t
  proof -
    have e: "\<exists>t\<in>set ts. map_of (active_by_thread ?s) t = Some tok" using act that by blast
    then show ?thesis
      using spec [of tok] token_dead_iff [OF inv', of tok]
      by (auto simp: http_session_authorization_def split: option.splits if_splits)
  qed
  have alive: "resolve_token s' tok = Some p"
    if "resolve_token ?s tok = Some p" "\<forall>a t. p = Active a t \<longrightarrow> t \<notin> set ts" for tok p
  proof -
    have "\<not> (\<exists>t\<in>set ts. map_of (active_by_thread ?s) t = Some tok)" using act that by auto
    then show ?thesis using spec [of tok] that(1) by (simp add: resolve_token_def)
  qed
  show ?thesis
    unfolding Let_def S' using dead alive assms(2)
    by (simp add: close_protocol_sessions_def)
qed

definition demo_credentials :: mcp_credential_store where
  "demo_credentials =
     \<lparr>cred_state = snd (stage ''dcm_1'' credentials_default ''agent''), http_session_manager = True,
      closed_http = [], cancelled = []\<rparr>"

lemma demo_credentials_reachable: "cred_reachable demo_credentials"
proof -
  let ?S0 = "\<lparr>cred_state = credentials_default, http_session_manager = True, closed_http = [], cancelled = []\<rparr>"
  have "cred_step ?S0 (?S0\<lparr>cred_state := snd (stage ''dcm_1'' (cred_state ?S0) ''agent'')\<rparr>)"
    by (rule cred_step.stage) (simp add: credentials_default_def)
  from cred_reachable.step [OF cred_reachable.start this] show ?thesis
    by (simp add: demo_credentials_def)
qed

theorem mcp_revocation_effective_witness:
  "let S = snd (activate demo_credentials ''dcm_1'' ''t'') in
   resolve_token (cred_state S) ''dcm_1'' = Some (Active ''agent'' ''t'')
   \<and> token_dead (cred_state (revoke_threads S [''t''])) ''dcm_1''"
proof -
  let ?S = "snd (activate demo_credentials ''dcm_1'' ''t'')"
  have r: "cred_reachable ?S"
    by (rule cred_reachable.step [OF demo_credentials_reachable cred_step.activate])
  have m: "http_session_manager ?S" by code_simp
  have a: "resolve_token (cred_state ?S) ''dcm_1'' = Some (Active ''agent'' ''t'')" by code_simp
  show ?thesis using mcp_revocation_effective [OF r m, of "[''t'']"] a by (simp add: Let_def)
qed

text \<open>
  A live credential can always open another HTTP session. Binding a new session never fails
  and ends, the session is then authorized for this token and for no other, the limit per
  credential still holds, no credential is touched and no other session changes its owner.
\<close>

theorem mcp_bind_http_session_total:
  assumes "cred_reachable S" "authenticate (cred_state S) (''Bearer '' @ tok) \<noteq> None"
    and "http_session_authorization (cred_state S) i tok = UnknownSession"
  shows "\<exists>ev s'. bind_http_session (cred_state S) i tok = (Ok ev, s')
    \<and> http_session_authorization s' i tok = Authorized
    \<and> (\<forall>tok'. tok' \<noteq> tok \<longrightarrow> http_session_authorization s' i tok' = WrongCredential)
    \<and> (\<forall>t. resolve_token s' t = resolve_token (cred_state S) t)
    \<and> (\<forall>j t. j \<noteq> i \<longrightarrow> http_session_authorization s' j t = Authorized \<longrightarrow>
         http_session_authorization (cred_state S) j t = Authorized)
    \<and> credential_protocol_session_count s' tok \<le> MAX_MCP_SESSIONS_PER_CREDENTIAL"
proof -
  let ?s = "cred_state S"
  note inv = cred_reachable_inv [OF assms(1)]
  have p: "strip_prefix (''Bearer '' @ tok) ''Bearer '' = Some tok" by (simp add: strip_prefix_Some)
  have known: "map_of (by_token ?s) tok \<noteq> None" using assms(2) unfolding authenticate_def p by auto
  have new: "map_of (http_sessions ?s) i = None"
    using assms(3) by (auto simp: http_session_authorization_def split: option.splits if_splits)
  obtain ev s1 where b: "bind_http_session ?s i tok = (Ok ev, s1\<lparr>http_sessions := bt_insert i tok (http_sessions s1),
      protocol_session_order := protocol_session_order s1 @ [Http i]\<rparr>)" "shrinks ?s s1"
      "cred_inv (snd (bind_http_session ?s i tok))"
    by (rule bind_http_session_new [OF inv known new])
  have sub: "map_of (http_sessions s1) j = Some t \<Longrightarrow> map_of (http_sessions ?s) j = Some t" for j t
    using b(2) unfolding shrinks_def map_le_def by (metis domI)
  have tok: "by_token s1 = by_token ?s" using b(2) by (simp add: shrinks_def)
  have bound: "credential_protocol_session_count (snd (bind_http_session ?s i tok)) tok
      \<le> MAX_MCP_SESSIONS_PER_CREDENTIAL" using b(3) by (simp add: cred_inv_but_def session_bounds_def)
  show ?thesis
    using bound b(1) tok sub
    by (auto simp: http_session_authorization_def resolve_token_def split: option.splits if_splits)
qed

theorem mcp_bind_http_session_total_witness:
  "\<exists>ev s'. bind_http_session (cred_state demo_credentials) ''s1'' ''dcm_1'' = (Ok ev, s')
     \<and> http_session_authorization s' ''s1'' ''dcm_1'' = Authorized"
proof -
  have "authenticate (cred_state demo_credentials) (''Bearer '' @ ''dcm_1'') \<noteq> None" by code_simp
  moreover have "http_session_authorization (cred_state demo_credentials) ''s1'' ''dcm_1'' = UnknownSession"
    by code_simp
  ultimately show ?thesis
    using mcp_bind_http_session_total [OF demo_credentials_reachable, of "''dcm_1''" "''s1''"] by blast
qed

text \<open>
  Activating a credential hands the thread over. A pending token is activated for its thread,
  any credential the thread had before is dead with its sessions, and a token can be activated
  only once: a second attempt, or one with an unknown token, changes nothing.
\<close>

theorem mcp_activation_replaces:
  assumes "cred_reachable S"
  shows "case resolve_token (cred_state S) tok of
      Some (Pending a) \<Rightarrow>
        fst (activate S tok t) = Ok ()
        \<and> resolve_token (cred_state (snd (activate S tok t))) tok = Some (Active a t)
        \<and> (\<forall>tok' a'. resolve_token (cred_state S) tok' = Some (Active a' t) \<longrightarrow>
             token_dead (cred_state (snd (activate S tok t))) tok')
    | _ \<Rightarrow> activate S tok t = (Err UnknownPending, S)"
proof (cases "\<exists>a. resolve_token (cred_state S) tok = Some (Pending a)")
  case False
  then show ?thesis
    by (auto simp: resolve_token_def activate_def Let_def split: option.splits mcp_credential_principal.splits)
next
  case True
  let ?s = "cred_state S" and ?S' = "snd (activate S tok t)"
  note inv = cred_reachable_inv [OF assms]
  have inv': "cred_inv (cred_state ?S')" by (rule activate_inv [OF inv])
  have ok: "tokens_ok ?s" using inv by (simp add: cred_inv_but_def)
  obtain r where r: "map_of (by_token ?s) tok = Some r" "cred_thread_id r = None"
      "resolve_token ?s tok = Some (Pending (cred_agent_id r))"
    using True by (auto simp: resolve_token_def split: option.splits)
  have ne: "map_of (active_by_thread ?s) u \<noteq> Some tok" for u using tokens_ok_iff [OF ok, of tok u] r by auto
  have tk: "map_of (by_token (cred_state ?S')) k = (if k = tok then Some (r\<lparr>cred_thread_id := Some t\<rparr>)
      else if map_of (active_by_thread ?s) t = Some k then None else map_of (by_token ?s) k)" for k
    using r ne [of t]
    by (auto simp: activate_def Let_def take_protocol_sessions_def split: option.splits)
  have "token_dead (cred_state ?S') tok'" if "resolve_token ?s tok' = Some (Active a' t)" for tok' a'
  proof -
    have "map_of (active_by_thread ?s) t = Some tok'"
      using that tokens_ok_iff [OF ok, of tok' t] by (auto simp: resolve_active)
    moreover have "tok' \<noteq> tok" using that r by auto
    ultimately show ?thesis using token_dead_iff [OF inv', of tok'] tk [of tok'] by simp
  qed
  moreover have "fst (activate S tok t) = Ok ()"
    using r by (auto simp: activate_def Let_def split: option.splits prod.splits)
  moreover have "resolve_token (cred_state ?S') tok = Some (Active (cred_agent_id r) t)"
    using tk [of tok] by (simp add: resolve_token_def)
  ultimately show ?thesis using r(3) by simp
qed

theorem mcp_activation_replaces_witness:
  "resolve_token (cred_state demo_credentials) ''dcm_1'' = Some (Pending ''agent'')
   \<and> fst (activate demo_credentials ''dcm_1'' ''t'') = Ok ()"
proof -
  have "resolve_token (cred_state demo_credentials) ''dcm_1'' = Some (Pending ''agent'')" by code_simp
  then show ?thesis
    using mcp_activation_replaces [OF demo_credentials_reachable, of "''dcm_1''" "''t''"] by simp
qed

end
