(* ===== verification/Agent_Messaging.thy ===== *)
theory Agent_Messaging
  imports Serde Canonical_Events Rust_Text
begin

text \<open>
  The message envelope of \<open>services/rust-bridge/src/agent_messaging.rs\<close>: the framed JSON text by
  which one agent thread writes to another, its recognition in a stream of text, and the check
  that keeps users from forging it. The MCP server of that file is not modelled.
\<close>

definition AGENT_MESSAGE_ENVELOPE_VERSION :: nat where "AGENT_MESSAGE_ENVELOPE_VERSION = 1"
definition SEND_AGENT_MESSAGE_TOOL :: str where "SEND_AGENT_MESSAGE_TOOL = ''send_agent_message''"

definition ENVELOPE_PREFIX :: str where
  "ENVELOPE_PREFIX = ''<<<dappercode.dev/agent-message:v1>>>'' @ [char_of (10::nat)]"

definition ENVELOPE_SUFFIX :: str where
  "ENVELOPE_SUFFIX = char_of (10::nat) # ''<<<dappercode.dev/agent-message:end>>>''"

record agent_message_envelope =
  env_version :: nat
  env_message_id :: str
  sender_thread_id :: str
  reply_to_thread_id :: str
  recipient_thread_id :: str
  recipient_relation :: agent_relation_kind
  sender_title :: "str option"
  env_body :: str
  reply_tool :: str

section \<open>White space\<close>

definition is_ascii_whitespace :: "char \<Rightarrow> bool" where
  "is_ascii_whitespace c = (byte c \<in> {0x20, 0x09, 0x0A, 0x0C, 0x0D})"

text \<open>\<open>trim_matches\<close> with the ASCII white-space characters.\<close>

definition trim_ascii_start :: "str \<Rightarrow> str" where
  "trim_ascii_start s = dropWhile is_ascii_whitespace s"

definition trim_ascii :: "str \<Rightarrow> str" where
  "trim_ascii s = rev (dropWhile is_ascii_whitespace (rev (trim_ascii_start s)))"

section \<open>The envelope\<close>

fun relation_inverse :: "agent_relation_kind \<Rightarrow> agent_relation_kind" where
  "relation_inverse Parent = SubAgent"
| "relation_inverse SubAgent = Parent"

fun ser_relation :: "agent_relation_kind \<Rightarrow> json" where
  "ser_relation Parent = JString ''parent''"
| "ser_relation SubAgent = JString ''sub_agent''"

definition de_relation :: "json \<Rightarrow> agent_relation_kind option" where
  "de_relation = de_unit_variant [(''parent'', Parent), (''sub_agent'', SubAgent)]"

definition ser_envelope :: "agent_message_envelope \<Rightarrow> json" where
  "ser_envelope e =
     JObject
       [(''version'', JInt (int (env_version e))),
        (''messageId'', JString (env_message_id e)),
        (''senderThreadId'', JString (sender_thread_id e)),
        (''replyToThreadId'', JString (reply_to_thread_id e)),
        (''recipientThreadId'', JString (recipient_thread_id e)),
        (''recipientRelation'', ser_relation (recipient_relation e)),
        (''senderTitle'', case sender_title e of None \<Rightarrow> JNull | Some t \<Rightarrow> JString t),
        (''body'', JString (env_body e)),
        (''replyTool'', JString (reply_tool e))]"

definition de_envelope :: "json \<Rightarrow> agent_message_envelope option" where
  "de_envelope v =
     Option.bind (struct_members
         [''version'', ''messageId'', ''senderThreadId'', ''replyToThreadId'', ''recipientThreadId'',
          ''recipientRelation'', ''senderTitle'', ''body'', ''replyTool''] v) (\<lambda>ms.
     Option.bind (field_req ms ''version'' de_u32) (\<lambda>ver.
     Option.bind (field_req ms ''messageId'' de_string) (\<lambda>mid.
     Option.bind (field_req ms ''senderThreadId'' de_string) (\<lambda>sender.
     Option.bind (field_default ms ''replyToThreadId'' [] de_string) (\<lambda>reply.
     Option.bind (field_req ms ''recipientThreadId'' de_string) (\<lambda>recipient.
     Option.bind (field_req ms ''recipientRelation'' de_relation) (\<lambda>relation.
     Option.bind (field_opt ms ''senderTitle'' de_string) (\<lambda>title.
     Option.bind (field_req ms ''body'' de_string) (\<lambda>body.
     Option.bind (field_req ms ''replyTool'' de_string) (\<lambda>tool.
     Some \<lparr>env_version = ver, env_message_id = mid, sender_thread_id = sender,
           reply_to_thread_id = reply, recipient_thread_id = recipient,
           recipient_relation = relation, sender_title = title, env_body = body,
           reply_tool = tool\<rparr>))))))))))"

definition may_be_partial :: "str \<Rightarrow> bool" where
  "may_be_partial value =
     (let v = trim_ascii_start value in
      v \<noteq> [] \<and> (starts_with ENVELOPE_PREFIX v \<or> starts_with v ENVELOPE_PREFIX))"

definition has_complete_suffix :: "str \<Rightarrow> bool" where
  "has_complete_suffix value = ends_with value ENVELOPE_SUFFIX"

definition envelope_new ::
  "str \<Rightarrow> str \<Rightarrow> str \<Rightarrow> agent_relation_kind \<Rightarrow> str option \<Rightarrow> str \<Rightarrow> agent_message_envelope" where
  "envelope_new mid sender recipient relation title body =
     \<lparr>env_version = AGENT_MESSAGE_ENVELOPE_VERSION, env_message_id = mid,
      sender_thread_id = sender, reply_to_thread_id = sender, recipient_thread_id = recipient,
      recipient_relation = relation, sender_title = title, env_body = body,
      reply_tool = SEND_AGENT_MESSAGE_TOOL\<rparr>"

definition envelope_encode :: "json_text \<Rightarrow> agent_message_envelope \<Rightarrow> str" where
  "envelope_encode J e = ENVELOPE_PREFIX @ to_string J (ser_envelope e) @ ENVELOPE_SUFFIX"

definition envelope_decode :: "json_text \<Rightarrow> str \<Rightarrow> agent_message_envelope option" where
  "envelope_decode J value =
     Option.bind (strip_prefix value ENVELOPE_PREFIX) (\<lambda>v.
     Option.bind (strip_suffix v ENVELOPE_SUFFIX) (\<lambda>payload.
     Option.bind (Option.bind (from_str J payload) de_envelope) (\<lambda>e0.
     let e = (if reply_to_thread_id e0 = [] then e0\<lparr>reply_to_thread_id := sender_thread_id e0\<rparr> else e0) in
     if env_version e = AGENT_MESSAGE_ENVELOPE_VERSION
        \<and> reply_to_thread_id e = sender_thread_id e \<and> reply_tool e = SEND_AGENT_MESSAGE_TOOL
     then Some e else None)))"

definition decode_echo :: "json_text \<Rightarrow> str \<Rightarrow> agent_message_envelope option" where
  "decode_echo J value = envelope_decode J (trim_ascii value)"

section \<open>The reserved marker\<close>

definition contains_reserved_agent_message_marker :: "str \<Rightarrow> bool" where
  "contains_reserved_agent_message_marker value =
     (contains_str value (trim_end ENVELOPE_PREFIX) \<or> contains_str value (trim_start ENVELOPE_SUFFIX))"

definition text_contains_reserved_agent_message_marker :: "str \<Rightarrow> bool" where
  "text_contains_reserved_agent_message_marker value = contains_reserved_agent_message_marker value"

text \<open>A content block of the ACP schema: text, a link (name, URI, MIME type), or any other kind.\<close>

datatype content_block = Text_block str | Resource_link_block str str "str option" | Other_block

fun scan_prompt :: "content_block list \<Rightarrow> str \<Rightarrow> bool \<Rightarrow> str \<times> bool" where
  "scan_prompt [] combined found = (combined, found)"
| "scan_prompt (Text_block t # bs) combined found =
     scan_prompt bs (combined @ t) (found \<or> contains_reserved_agent_message_marker t)"
| "scan_prompt (Resource_link_block _ _ _ # bs) combined found = scan_prompt bs combined found"
| "scan_prompt (Other_block # bs) combined found = scan_prompt bs combined found"

definition prompt_contains_agent_message_envelope :: "content_block list \<Rightarrow> bool" where
  "prompt_contains_agent_message_envelope prompt =
     (case scan_prompt prompt [] False of (combined, found) \<Rightarrow>
        found \<or> contains_reserved_agent_message_marker combined)"

section \<open>Lemmas\<close>

lemma marker_words:
  "trim_end ENVELOPE_PREFIX = ''<<<dappercode.dev/agent-message:v1>>>''"
  "trim_start ENVELOPE_SUFFIX = ''<<<dappercode.dev/agent-message:end>>>''"
  by code_simp+

lemma envelope_frame: "envelope_decode J v = Some e \<Longrightarrow> \<exists>p. v = ENVELOPE_PREFIX @ p @ ENVELOPE_SUFFIX"
  by (auto simp: envelope_decode_def strip_prefix_Some strip_suffix_Some split: Option.bind_splits)

lemma trim_ascii_parts: "\<exists>a b. s = a @ trim_ascii s @ b \<and> (\<forall>c\<in>set a \<union> set b. is_ascii_whitespace c)"
proof -
  let ?s = "trim_ascii_start s"
  have s: "s = takeWhile is_ascii_whitespace s @ ?s" by (simp add: trim_ascii_start_def)
  have "?s = trim_ascii s @ rev (takeWhile is_ascii_whitespace (rev ?s))"
    unfolding trim_ascii_def by (metis rev_append rev_rev_ident takeWhile_dropWhile_id)
  with s show ?thesis
    by (intro exI [of _ "takeWhile is_ascii_whitespace s"]
        exI [of _ "rev (takeWhile is_ascii_whitespace (rev ?s))"])
       (auto dest: set_takeWhileD)
qed

lemma frame_chars:
  "hd ENVELOPE_PREFIX = CHR ''<''" "ENVELOPE_PREFIX \<noteq> []" "last ENVELOPE_SUFFIX = CHR ''>''"
  "ENVELOPE_SUFFIX \<noteq> []" "\<not> is_ascii_whitespace (CHR ''<'')" "\<not> is_ascii_whitespace (CHR ''>'')"
  by (simp_all add: ENVELOPE_PREFIX_def ENVELOPE_SUFFIX_def is_ascii_whitespace_def)

lemma dropWhile_core:
  "m \<noteq> [] \<Longrightarrow> \<not> P (hd m) \<Longrightarrow> \<forall>c\<in>set a. P c \<Longrightarrow> dropWhile P (a @ m) = m"
  by (induction a) (auto simp: neq_Nil_conv)

lemma trim_ascii_framed:
  assumes "\<forall>c\<in>set a \<union> set b. is_ascii_whitespace c"
  shows "trim_ascii (a @ (ENVELOPE_PREFIX @ p @ ENVELOPE_SUFFIX) @ b) = ENVELOPE_PREFIX @ p @ ENVELOPE_SUFFIX"
proof -
  let ?m = "ENVELOPE_PREFIX @ p @ ENVELOPE_SUFFIX"
  have m: "?m \<noteq> []" "hd ?m = CHR ''<''" "last ?m = CHR ''>''"
    by (simp_all add: frame_chars)
  have "trim_ascii_start (a @ ?m @ b) = ?m @ b"
    unfolding trim_ascii_start_def using assms m(1,2) frame_chars(5)
    by (intro dropWhile_core) (simp_all add: frame_chars(1,2))
  moreover have "dropWhile is_ascii_whitespace (rev b @ rev ?m) = rev ?m"
  proof (rule dropWhile_core)
    show "rev ?m \<noteq> []" using m(1) by blast
    show "\<not> is_ascii_whitespace (hd (rev ?m))" unfolding hd_rev m(3) by (rule frame_chars(6))
  qed (use assms in auto)
  ultimately show ?thesis unfolding trim_ascii_def by (simp only: rev_append) simp
qed

lemma de_relation_ser [simp]: "de_relation (ser_relation r) = Some r"
  by (cases r) (simp_all add: de_relation_def de_unit_variant_def)

lemma de_envelope_ser: "env_version e < 2 ^ 32 \<Longrightarrow> de_envelope (ser_envelope e) = Some e"
  by (cases "sender_title e")
     (simp_all add: de_envelope_def ser_envelope_def struct_members_def field_req_def field_opt_def
      field_default_def de_u32_simp de_option_def)

lemma decode_encode_envelope:
  assumes "json_codec J"
  shows "envelope_decode J (envelope_encode J (envelope_new m s r k t b)) = Some (envelope_new m s r k t b)"
proof -
  let ?e = "envelope_new m s r k t b"
  have "strip_prefix (envelope_encode J ?e) ENVELOPE_PREFIX = Some (to_string J (ser_envelope ?e) @ ENVELOPE_SUFFIX)"
    by (simp add: strip_prefix_Some envelope_encode_def)
  moreover have "strip_suffix (to_string J (ser_envelope ?e) @ ENVELOPE_SUFFIX) ENVELOPE_SUFFIX
      = Some (to_string J (ser_envelope ?e))" by (simp add: strip_suffix_Some)
  moreover have "de_envelope (ser_envelope ?e) = Some ?e"
    by (rule de_envelope_ser) (simp add: envelope_new_def AGENT_MESSAGE_ENVELOPE_VERSION_def)
  ultimately show ?thesis
    by (simp add: envelope_decode_def json_codec.parse_print [OF assms]) (simp add: envelope_new_def)
qed

lemma scan_prompt_spec:
  "scan_prompt bs c f = (c @ concat [t. Text_block t \<leftarrow> bs],
     f \<or> (\<exists>t. Text_block t \<in> set bs \<and> contains_reserved_agent_message_marker t))"
  by (induction bs c f rule: scan_prompt.induct) auto

lemma decoded_has_marker:
  assumes "decode_echo J v = Some e"
  shows "contains_reserved_agent_message_marker v"
proof -
  obtain p where p: "trim_ascii v = ENVELOPE_PREFIX @ p @ ENVELOPE_SUFFIX"
    using assms envelope_frame [of J "trim_ascii v" e] by (auto simp: decode_echo_def)
  obtain a b where v: "v = a @ trim_ascii v @ b" using trim_ascii_parts by blast
  have r: "ENVELOPE_PREFIX = trim_end ENVELOPE_PREFIX @ [char_of (10 :: nat)]"
    unfolding marker_words by (simp add: ENVELOPE_PREFIX_def)
  have "\<exists>x y. v = x @ trim_end ENVELOPE_PREFIX @ y"
  proof (intro exI)
    have "v = a @ ENVELOPE_PREFIX @ p @ ENVELOPE_SUFFIX @ b" using v unfolding p by simp
    then show "v = a @ trim_end ENVELOPE_PREFIX @ [char_of (10 :: nat)] @ p @ ENVELOPE_SUFFIX @ b" using r
      by (metis append.assoc)
  qed
  then show ?thesis
    unfolding contains_reserved_agent_message_marker_def contains_str_iff by blast
qed

section \<open>Properties\<close>

text \<open>
  C20: a message survives its envelope: what a bridge encodes for another thread decodes to the
  same message, also when an agent echoes it with white space around it, it is recognised as
  complete, and it carries the reserved marker.
\<close>

theorem envelope_roundtrip:
  assumes "json_codec J" "\<forall>c\<in>set a \<union> set b. is_ascii_whitespace c"
  shows "let e = envelope_new mid sender recipient relation title body in
    decode_echo J (a @ envelope_encode J e @ b) = Some e
    \<and> has_complete_suffix (envelope_encode J e)
    \<and> contains_reserved_agent_message_marker (a @ envelope_encode J e @ b)"
proof -
  let ?e = "envelope_new mid sender recipient relation title body"
  have d: "decode_echo J (a @ envelope_encode J ?e @ b) = Some ?e"
    using decode_encode_envelope [OF assms(1)] trim_ascii_framed [OF assms(2)]
    by (simp add: decode_echo_def envelope_encode_def)
  moreover have "has_complete_suffix (envelope_encode J ?e)"
    unfolding has_complete_suffix_def ends_with_iff envelope_encode_def by (metis append.assoc)
  ultimately show ?thesis using decoded_has_marker [OF d] by (simp add: Let_def)
qed

theorem envelope_roundtrip_witness:
  "let e = envelope_new ''m'' ''s'' ''r'' Parent None ''hello'' in
   decode_echo plain_json ('' '' @ envelope_encode plain_json e @ []) = Some e"
  using envelope_roundtrip [OF plain.json_codec_axioms, of "'' ''" "[]" "''m''" "''s''" "''r''" Parent None "''hello''"]
  by (simp add: Let_def is_ascii_whitespace_def)

text \<open>
  C21: a user cannot forge a message. A text without the reserved marker never decodes as an
  envelope, and a prompt that passes the check contains no text block and no concatenation of its
  text blocks that would.
\<close>

theorem envelope_not_forgeable:
  assumes "\<not> prompt_contains_agent_message_envelope prompt"
  shows "decode_echo J (concat [t. Text_block t \<leftarrow> prompt]) = None
    \<and> (\<forall>t. Text_block t \<in> set prompt \<longrightarrow> decode_echo J t = None)"
proof -
  have "\<not> contains_reserved_agent_message_marker (concat [t. Text_block t \<leftarrow> prompt])"
    "\<And>t. Text_block t \<in> set prompt \<Longrightarrow> \<not> contains_reserved_agent_message_marker t"
    using assms by (auto simp: prompt_contains_agent_message_envelope_def scan_prompt_spec)
  then show ?thesis using decoded_has_marker by (metis not_None_eq)
qed

theorem envelope_not_forgeable_witness:
  "\<not> prompt_contains_agent_message_envelope [Text_block ''<<<dapper'', Other_block, Text_block ''code'']
   \<and> decode_echo plain_json ''<<<dapper'' = None"
proof -
  have "\<not> prompt_contains_agent_message_envelope [Text_block ''<<<dapper'', Other_block, Text_block ''code'']"
    by code_simp
  then show ?thesis using envelope_not_forgeable [where J = plain_json] by fastforce
qed

text \<open>
  Streamed text can be released early. If the text received so far cannot be the beginning of
  an envelope, no continuation of it decodes as one; and every non-empty beginning of an encoded
  message is still recognised as a possible envelope.
\<close>

theorem envelope_streaming_decision:
  assumes "trim_ascii_start v \<noteq> []"
  shows "(\<not> may_be_partial v \<longrightarrow> decode_echo J (v @ w) = None)
    \<and> (v @ w = envelope_encode J e \<longrightarrow> may_be_partial v)"
proof -
  have core: "may_be_partial v" if "\<exists>q. trim_ascii_start (v @ w) = ENVELOPE_PREFIX @ q"
  proof -
    have "\<exists>c\<in>set v. \<not> is_ascii_whitespace c" using assms by (auto simp: trim_ascii_start_def)
    then have "trim_ascii_start (v @ w) = trim_ascii_start v @ w"
      by (auto simp: trim_ascii_start_def dropWhile_append1)
    with that obtain q where "trim_ascii_start v @ w = ENVELOPE_PREFIX @ q" by auto
    then have "\<exists>us. trim_ascii_start v = ENVELOPE_PREFIX @ us \<or> ENVELOPE_PREFIX = trim_ascii_start v @ us"
      unfolding append_eq_append_conv2 by (elim exE disjE conjE) (metis)+
    then show ?thesis using assms unfolding may_be_partial_def Let_def starts_with_iff by blast
  qed
  have "may_be_partial v" if d: "decode_echo J (v @ w) = Some e'" for e'
  proof (rule core)
    obtain p where p: "trim_ascii (v @ w) = ENVELOPE_PREFIX @ p @ ENVELOPE_SUFFIX"
      using d envelope_frame [of J "trim_ascii (v @ w)" e'] by (auto simp: decode_echo_def)
    have "trim_ascii_start (v @ w) = trim_ascii (v @ w)
        @ rev (takeWhile is_ascii_whitespace (rev (trim_ascii_start (v @ w))))"
      unfolding trim_ascii_def by (metis rev_append rev_rev_ident takeWhile_dropWhile_id)
    then show "\<exists>q. trim_ascii_start (v @ w) = ENVELOPE_PREFIX @ q" unfolding p append.assoc by blast
  qed
  moreover have "may_be_partial v" if "v @ w = envelope_encode J e"
  proof (rule core)
    have "trim_ascii_start (envelope_encode J e) = envelope_encode J e"
      by (simp add: trim_ascii_start_def envelope_encode_def ENVELOPE_PREFIX_def is_ascii_whitespace_def)
    then show "\<exists>q. trim_ascii_start (v @ w) = ENVELOPE_PREFIX @ q"
      unfolding that by (auto simp: envelope_encode_def)
  qed
  ultimately show ?thesis by (metis not_None_eq)
qed

theorem envelope_streaming_decision_witness:
  "trim_ascii_start '' Hi'' \<noteq> [] \<and> \<not> may_be_partial '' Hi''
   \<and> decode_echo plain_json ('' Hi'' @ '' there'') = None"
proof -
  have "trim_ascii_start '' Hi'' \<noteq> []" "\<not> may_be_partial '' Hi''" by code_simp+
  then show ?thesis using envelope_streaming_decision [of "'' Hi''" plain_json "'' there''"] by blast
qed

end
