(* ===== verification/Queue_Types.thy ===== *)
theory Queue_Types
  imports Canonical_Events Retirement_Fence Storage
begin

text \<open>
  The types of the queue service: the queue requests, responses and states of
  \<open>services/rust-bridge/src/bridge_protocol.rs\<close>, with the constants and the predicates of
  \<open>queue_service.rs\<close> on identifiers and errors. Sets of identifiers are HOL sets, sequences are
  lists, time stamps are the strings the source keeps.
\<close>

section \<open>Constants\<close>

definition QUEUE_RECEIPT_STORE_MAX_BYTES :: nat where "QUEUE_RECEIPT_STORE_MAX_BYTES = 1024 * 1024"
definition SUBMISSION_DEDUPE_LIMIT :: nat where "SUBMISSION_DEDUPE_LIMIT = 1024"
definition QUEUE_COMPLETION_DISPOSITION_LIMIT :: nat where "QUEUE_COMPLETION_DISPOSITION_LIMIT = 1024"
definition QUEUE_MAX_ITEMS_PER_THREAD :: nat where "QUEUE_MAX_ITEMS_PER_THREAD = 100"
definition QUEUE_MAX_BYTES_PER_THREAD :: nat where "QUEUE_MAX_BYTES_PER_THREAD = 1024 * 1024"
definition QUEUE_DISPATCH_RETRY_MIN_MS :: nat where "QUEUE_DISPATCH_RETRY_MIN_MS = 250"
definition QUEUE_DISPATCH_RETRY_MAX_MS :: nat where "QUEUE_DISPATCH_RETRY_MAX_MS = 30000"

definition DEFINITIVE_SETTLEMENT_INTERRUPTED_PREFIX :: str where
  "DEFINITIVE_SETTLEMENT_INTERRUPTED_PREFIX =
     ''queue definitive-failure persistence settlement was interrupted by shutdown''"

definition SCHEDULED_PROMPT_SUBMISSION_PREFIX :: str where
  "SCHEDULED_PROMPT_SUBMISSION_PREFIX = ''scheduled-prompt:''"

definition SCHEDULED_PROMPT_PUBLIC_ACTION_ERROR :: str where
  "SCHEDULED_PROMPT_PUBLIC_ACTION_ERROR = ''scheduled prompts are managed by the scheduler''"

definition INDETERMINATE_OPERATION_PREFIX :: str where
  "INDETERMINATE_OPERATION_PREFIX = ''indeterminate operation outcome: ''"

definition dispatch_failure_is_indeterminate :: "str \<Rightarrow> bool" where
  "dispatch_failure_is_indeterminate error = starts_with error INDETERMINATE_OPERATION_PREFIX"

definition definitive_settlement_was_interrupted :: "str \<Rightarrow> bool" where
  "definitive_settlement_was_interrupted error =
     starts_with error DEFINITIVE_SETTLEMENT_INTERRUPTED_PREFIX"

section \<open>Requests and responses\<close>

record bridge_thread_queue_send_request =
  sq_thread_id :: str
  sq_submission_id :: str
  sq_content :: str
  sq_turn_start :: json

record bridge_thread_queue_steer_request =
  stq_thread_id :: str
  stq_item_id :: str

record bridge_thread_queue_cancel_request =
  cq_thread_id :: str
  cq_item_id :: str

record bridge_thread_queue_edit_request =
  eq_thread_id :: str
  eq_item_id :: str

record bridge_thread_queue_edit_commit_request =
  ecq_thread_id :: str
  ecq_item_id :: str
  ecq_content :: str

record bridge_queued_message =
  qm_id :: str
  qm_created_at :: str
  qm_content :: str
  qm_agent_message :: "agent_message_origin option"

record bridge_queued_message_entry =
  qe_id :: str
  qe_submission_id :: str
  qe_created_at :: str
  qe_content :: str
  qe_turn_start :: json
  qe_agent_message :: "agent_message_origin option"

record bridge_thread_queue_error =
  te_message :: str
  te_operation :: str
  te_at :: str
  te_item_id :: "str option"

record bridge_thread_queue_state =
  ts_thread_id :: str
  ts_items :: "bridge_queued_message list"
  ts_pending_steers :: "bridge_queued_message list"
  ts_pending_steer_count :: nat
  ts_editing_item_id :: "str option"
  ts_waiting_for_tool_calls :: bool
  ts_steering_in_flight :: bool
  ts_last_error :: "bridge_thread_queue_error option"

datatype bridge_thread_queue_disposition = Queued | Sent

record bridge_thread_queue_send_response =
  resp_submission_id :: str
  resp_disposition :: bridge_thread_queue_disposition
  resp_queue :: bridge_thread_queue_state
  resp_turn_id :: "str option"

record bridge_queue_submission_receipt =
  rc_submission_id :: str
  rc_thread_id :: str
  rc_disposition :: bridge_thread_queue_disposition
  rc_turn_id :: "str option"

record bridge_thread_queue_action_response =
  act_ok :: bool
  act_queue :: bridge_thread_queue_state

section \<open>The runtime state of a thread's queue\<close>

record pending_steer_dispatch =
  sd_entry :: bridge_queued_message_entry
  sd_expected_turn_id :: str
  sd_expected_run_id :: str
  sd_prompt_generation :: nat
  sd_crossed_completion_boundary :: bool

datatype queue_completion_disposition = Final | Continued

datatype queue_submission_cancel_outcome = Cancel_Cancelled | Cancel_NotFound | Cancel_Sent

record bridge_thread_queue_runtime =
  rt_items :: "bridge_queued_message_entry list"
  rt_pending_steers :: "bridge_queued_message_entry list"
  rt_editing_item_id :: "str option"
  rt_steer_prepare_in_flight :: bool
  rt_steer_dispatch_in_flight :: "pending_steer_dispatch option"
  rt_active_turn_id :: "str option"
  rt_active_run_id :: "str option"
  rt_active_prompt_generation :: "nat option"
  rt_active_tool_call_ids :: "str set"
  rt_live_generation_known :: bool
  rt_thread_running :: bool
  rt_turn_start_in_flight :: bool
  rt_dispatch_retry_attempt :: nat
  rt_dispatch_retry_scheduled :: bool
  rt_action_in_flight_item_id :: "str option"
  rt_pending_approval_ids :: "str set"
  rt_pending_user_input_ids :: "str set"
  rt_pending_completion_event_ids :: "nat list"
  rt_last_error :: "bridge_thread_queue_error option"
  rt_last_error_submission_id :: "str option"

definition runtime_default :: bridge_thread_queue_runtime where
  "runtime_default =
     \<lparr>rt_items = [], rt_pending_steers = [], rt_editing_item_id = None,
      rt_steer_prepare_in_flight = False, rt_steer_dispatch_in_flight = None,
      rt_active_turn_id = None, rt_active_run_id = None, rt_active_prompt_generation = None,
      rt_active_tool_call_ids = {}, rt_live_generation_known = False, rt_thread_running = False,
      rt_turn_start_in_flight = False, rt_dispatch_retry_attempt = 0,
      rt_dispatch_retry_scheduled = False, rt_action_in_flight_item_id = None,
      rt_pending_approval_ids = {}, rt_pending_user_input_ids = {},
      rt_pending_completion_event_ids = [], rt_last_error = None,
      rt_last_error_submission_id = None\<rparr>"

section \<open>Scheduled prompts in the queue\<close>

definition is_scheduled_prompt_entry :: "bridge_queued_message_entry \<Rightarrow> bool" where
  "is_scheduled_prompt_entry entry =
     starts_with (qe_submission_id entry) SCHEDULED_PROMPT_SUBMISSION_PREFIX"

definition is_scheduled_prompt_item :: "bridge_thread_queue_runtime \<Rightarrow> str \<Rightarrow> bool" where
  "is_scheduled_prompt_item runtime item_id =
     list_ex (\<lambda>entry. qe_id entry = item_id \<and> is_scheduled_prompt_entry entry)
       (rt_items runtime @ rt_pending_steers runtime
        @ (case rt_steer_dispatch_in_flight runtime of
             None \<Rightarrow> [] | Some dispatch \<Rightarrow> [sd_entry dispatch]))"

section \<open>Snapshots and blockers\<close>

definition to_public :: "bridge_queued_message_entry \<Rightarrow> bridge_queued_message" where
  "to_public entry =
     \<lparr>qm_id = qe_id entry, qm_created_at = qe_created_at entry,
      qm_content = (case qe_agent_message entry of
          Some m \<Rightarrow> origin_body m | None \<Rightarrow> qe_content entry),
      qm_agent_message = qe_agent_message entry\<rparr>"

definition snapshot_for_thread ::
  "str \<Rightarrow> bridge_thread_queue_runtime option \<Rightarrow> bridge_thread_queue_state" where
  "snapshot_for_thread thread_id runtime =
     (case runtime of
        None \<Rightarrow>
          \<lparr>ts_thread_id = thread_id, ts_items = [], ts_pending_steers = [],
           ts_pending_steer_count = 0, ts_editing_item_id = None,
           ts_waiting_for_tool_calls = False, ts_steering_in_flight = False,
           ts_last_error = None\<rparr>
      | Some rt \<Rightarrow>
          let steers = map to_public (filter (\<lambda>e. \<not> is_scheduled_prompt_entry e)
                ((case rt_steer_dispatch_in_flight rt of None \<Rightarrow> [] | Some d \<Rightarrow> [sd_entry d])
                 @ rt_pending_steers rt))
          in
          \<lparr>ts_thread_id = thread_id,
           ts_items = map to_public (filter (\<lambda>e. \<not> is_scheduled_prompt_entry e) (rt_items rt)),
           ts_pending_steers = steers,
           ts_pending_steer_count = length steers,
           ts_editing_item_id =
             (case rt_editing_item_id rt of
                None \<Rightarrow> None
              | Some i \<Rightarrow> if is_scheduled_prompt_item rt i then None else Some i),
           ts_waiting_for_tool_calls =
             (rt_pending_steers rt \<noteq> [] \<and> rt_active_tool_call_ids rt \<noteq> {}),
           ts_steering_in_flight = (rt_steer_dispatch_in_flight rt \<noteq> None),
           ts_last_error =
             (case rt_last_error_submission_id rt of
                Some s \<Rightarrow> if starts_with s SCHEDULED_PROMPT_SUBMISSION_PREFIX then None
                          else rt_last_error rt
              | None \<Rightarrow> rt_last_error rt)\<rparr>)"

definition runtime_has_blockers :: "bridge_thread_queue_runtime \<Rightarrow> bool" where
  "runtime_has_blockers rt =
     (rt_thread_running rt \<or> rt_turn_start_in_flight rt
      \<or> rt_action_in_flight_item_id rt \<noteq> None \<or> rt_editing_item_id rt \<noteq> None
      \<or> rt_steer_prepare_in_flight rt \<or> rt_steer_dispatch_in_flight rt \<noteq> None
      \<or> rt_pending_steers rt \<noteq> [] \<or> rt_pending_approval_ids rt \<noteq> {}
      \<or> rt_pending_user_input_ids rt \<noteq> {})"

definition runtime_is_blocked_or_occupied :: "bridge_thread_queue_runtime \<Rightarrow> bool" where
  "runtime_is_blocked_or_occupied rt = (runtime_has_blockers rt \<or> rt_items rt \<noteq> [])"

end
