(* ===== verification/Submission_Store.thy ===== *)
theory Submission_Store
  imports Queue_Types Serde
begin

text \<open>
  The idempotency state of the queue service (\<open>services/rust-bridge/src/queue_service.rs\<close>): which
  submissions have a result, which are durably pending because a dispatch may have crossed the
  boundary to an agent, and which are only being queued. Results with disposition \<open>Sent\<close> and the
  pending submissions are kept in a private file.

  The record holds the fields of \<open>BridgeQueueService\<close> that concern submissions and the directory of
  the file; the counter of running settlements only feeds the status report and is left out. Hash
  maps are sorted association lists: no result depends on their iteration order.
  JSON text, the messages of system and parse errors and SHA-256 are parameters. Each write of the
  file has an \<open>io_env\<close> of its own that says which system calls fail.
\<close>

section \<open>State\<close>

record queue_ext =
  qx_json :: json_text
  qx_show_io :: "io_error \<Rightarrow> str"
  qx_show_serde :: "str \<Rightarrow> str"
  qx_show_read :: str
  qx_sha256_hex :: "str \<Rightarrow> str"

record durable_queue_receipt =
  dr_thread_id :: str
  dr_turn_id :: str

record durable_queue_receipt_file =
  rf_receipts :: "(str, durable_queue_receipt) btree"
  rf_order :: "str list"
  rf_pending :: "(str, str) btree"
  rf_pending_order :: "str list"

record durable_queue_submissions =
  ds_results :: "(str, bridge_queue_submission_receipt) btree"
  ds_order :: "str list"
  ds_pending :: "(str, str) btree"
  ds_pending_order :: "str list"

record submission_store =
  submission_results :: "(str, bridge_queue_submission_receipt) btree"
  submission_order :: "str list"
  submission_volatile_pending :: "(str, str) btree"
  submission_pending :: "(str, str) btree"
  submission_pending_order :: "str list"
  submission_store_path :: "storage_path option"
  submission_dirty :: bool
  definitive_settlement_shutdown :: bool
  interrupted_definitive_settlements :: "(str, str \<times> str) btree"
  submission_completion_wake :: bool
  store_directory :: directory

definition submission_source_turn_id :: "queue_ext \<Rightarrow> str \<Rightarrow> str" where
  "submission_source_turn_id X submission_id = ''queue-'' @ qx_sha256_hex X submission_id"

definition bound_elsewhere :: str where
  "bound_elsewhere = ''submissionId is already bound to another thread''"

definition outcome_indeterminate :: str where
  "outcome_indeterminate =
     ''submission outcome is indeterminate after a worker interruption; refresh the thread before choosing a new submissionId''"

definition already_queued :: str where
  "already_queued = ''submissionId is already being queued''"

text \<open>The back-off shared by the retry loops of the queue, in milliseconds.\<close>

definition sat_mul :: "nat \<Rightarrow> nat \<Rightarrow> nat" where
  "sat_mul a b = min (a * b) usize_max"

definition dispatch_retry_delay_ms :: "nat \<Rightarrow> nat" where
  "dispatch_retry_delay_ms attempt =
     min (sat_mul QUEUE_DISPATCH_RETRY_MIN_MS (2 ^ min (attempt - 1) 16)) QUEUE_DISPATCH_RETRY_MAX_MS"

section \<open>The file\<close>

text \<open>The first occurrence of every element, in order: \<open>retain(|x| seen.insert(x))\<close>.\<close>

definition dedup_first :: "'a list \<Rightarrow> 'a list" where
  "dedup_first xs = rev (remdups (rev xs))"

definition normalize_queue_pending :: "(str, str) btree \<Rightarrow> str list \<Rightarrow> str + str list" where
  "normalize_queue_pending pending order =
     (if SUBMISSION_DEDUPE_LIMIT < length pending
      then Err (''queue durable pending state exceeds the ''
             @ show_nat SUBMISSION_DEDUPE_LIMIT @ ''-entry limit'')
      else let kept = dedup_first (filter (bt_contains pending) order);
               missing = filter (\<lambda>s. s \<notin> set kept) (map fst pending)
           in Ok (kept @ sort missing))"

definition ser_durable_receipt :: "durable_queue_receipt \<Rightarrow> json" where
  "ser_durable_receipt r =
     JObject [(''threadId'', JString (dr_thread_id r)), (''turnId'', JString (dr_turn_id r))]"

definition de_durable_receipt :: "json \<Rightarrow> durable_queue_receipt option" where
  "de_durable_receipt v =
     Option.bind (open_members [''threadId'', ''turnId''] v) (\<lambda>ms.
     Option.bind (field_req ms ''threadId'' de_string) (\<lambda>t.
     Option.bind (field_req ms ''turnId'' de_string) (\<lambda>u.
     Some \<lparr>dr_thread_id = t, dr_turn_id = u\<rparr>)))"

definition ser_receipt_file :: "durable_queue_receipt_file \<Rightarrow> json" where
  "ser_receipt_file f =
     JObject [(''receipts'', ser_btree ser_durable_receipt (rf_receipts f)),
              (''order'', ser_strings (rf_order f)),
              (''pending'', ser_btree JString (rf_pending f)),
              (''pendingOrder'', ser_strings (rf_pending_order f))]"

definition de_receipt_file :: "json \<Rightarrow> durable_queue_receipt_file option" where
  "de_receipt_file v =
     Option.bind (open_members [''receipts'', ''order'', ''pending'', ''pendingOrder''] v) (\<lambda>ms.
     Option.bind (field_default ms ''receipts'' [] (de_btree False de_durable_receipt)) (\<lambda>rs.
     Option.bind (field_default ms ''order'' [] (de_vec de_string)) (\<lambda>ord.
     Option.bind (field_default ms ''pending'' [] (de_btree False de_string)) (\<lambda>pend.
     Option.bind (field_default ms ''pendingOrder'' [] (de_vec de_string)) (\<lambda>pord.
     Some \<lparr>rf_receipts = rs, rf_order = ord, rf_pending = pend, rf_pending_order = pord\<rparr>)))))"

text \<open>\<open>while order.len() > limit\<close>: forget the oldest.\<close>

fun evict_oldest :: "nat \<Rightarrow> str list \<Rightarrow> (str, 'a) btree \<Rightarrow> str list \<times> (str, 'a) btree" where
  "evict_oldest limit [] m = ([], m)"
| "evict_oldest limit (x # xs) m =
     (if limit < length (x # xs) then evict_oldest limit xs (bt_remove x m) else (x # xs, m))"

definition receipt_of_durable ::
  "str \<times> durable_queue_receipt \<Rightarrow> str \<times> bridge_queue_submission_receipt" where
  "receipt_of_durable e =
     (case e of (s, r) \<Rightarrow>
        (s, \<lparr>rc_submission_id = s, rc_thread_id = dr_thread_id r, rc_disposition = Sent,
             rc_turn_id = Some (dr_turn_id r)\<rparr>))"

definition load_submission_store ::
  "queue_ext \<Rightarrow> bool \<Rightarrow> str \<Rightarrow> directory \<Rightarrow> str + durable_queue_submissions" where
  "load_submission_store X readable_file file_name dir =
     (case dir file_name of
        None \<Rightarrow> Ok \<lparr>ds_results = [], ds_order = [], ds_pending = [], ds_pending_order = []\<rparr>
      | Some bytes \<Rightarrow>
          if \<not> readable_file
          then Err (''failed to read queue idempotency state: '' @ qx_show_read X)
          else if QUEUE_RECEIPT_STORE_MAX_BYTES < length bytes
          then Err (''queue idempotency state exceeds ''
                 @ show_nat QUEUE_RECEIPT_STORE_MAX_BYTES @ '' bytes'')
          else case Option.bind (from_str (qx_json X) bytes) de_receipt_file of
                 None \<Rightarrow> Err (''invalid queue idempotency state: '' @ qx_show_serde X bytes)
               | Some f \<Rightarrow>
                   (case evict_oldest SUBMISSION_DEDUPE_LIMIT (rf_order f) (rf_receipts f) of
                      (order, receipts) \<Rightarrow>
                        let retained = bt_retain (\<lambda>k _. k \<in> set order) receipts in
                        res_bind (normalize_queue_pending (rf_pending f) (rf_pending_order f)) (\<lambda>po.
                          Ok \<lparr>ds_results = map receipt_of_durable retained, ds_order = order,
                              ds_pending = rf_pending f, ds_pending_order = po\<rparr>)))"

definition store_of_durable :: "storage_path option \<Rightarrow> directory \<Rightarrow> durable_queue_submissions \<Rightarrow> submission_store" where
  "store_of_durable path dir d =
     \<lparr>submission_results = ds_results d, submission_order = ds_order d,
      submission_volatile_pending = [], submission_pending = ds_pending d,
      submission_pending_order = ds_pending_order d, submission_store_path = path,
      submission_dirty = False, definitive_settlement_shutdown = False,
      interrupted_definitive_settlements = [], submission_completion_wake = False,
      store_directory = dir\<rparr>"

text \<open>Collecting the receipts that are written: sent, with a turn.\<close>

fun collect_receipts ::
  "(str, bridge_queue_submission_receipt) btree \<Rightarrow> str list \<Rightarrow> durable_queue_receipt_file
     \<Rightarrow> durable_queue_receipt_file" where
  "collect_receipts results [] f = f"
| "collect_receipts results (s # order) f =
     collect_receipts results order
       (case map_of results s of
          None \<Rightarrow> f
        | Some r \<Rightarrow>
            (case (rc_disposition r, rc_turn_id r) of
               (Sent, Some turn_id) \<Rightarrow>
                 f\<lparr>rf_order := rf_order f @ [s],
                   rf_receipts := bt_insert s
                     \<lparr>dr_thread_id = rc_thread_id r, dr_turn_id = turn_id\<rparr> (rf_receipts f)\<rparr>
             | _ \<Rightarrow> f))"

text \<open>Dropping the oldest receipts in batches until the file fits its budget.\<close>

definition div_ceil :: "nat \<Rightarrow> nat \<Rightarrow> nat" where
  "div_ceil a b = (a + b - 1) div b"

function shrink_to_budget :: "queue_ext \<Rightarrow> durable_queue_receipt_file \<Rightarrow> str option" where
  "shrink_to_budget X f =
     (let bytes = to_string (qx_json X) (ser_receipt_file f) in
      if length bytes \<le> QUEUE_RECEIPT_STORE_MAX_BYTES then Some bytes
      else if rf_order f = [] then None
      else
        let batch_size = max 1 (div_ceil (sat_mul (length (rf_order f))
                (length bytes - QUEUE_RECEIPT_STORE_MAX_BYTES)) (length bytes));
            n = min batch_size (length (rf_order f))
        in shrink_to_budget X
             (f\<lparr>rf_order := drop n (rf_order f),
                rf_receipts := fold bt_remove (take n (rf_order f)) (rf_receipts f)\<rparr>))"
  by pat_completeness auto
termination
  by (relation "measure (\<lambda>p. length (rf_order (snd p)))") (auto simp: Let_def)

declare shrink_to_budget.simps [simp del]

definition persist_submission_snapshot_locked ::
  "queue_ext \<Rightarrow> io_env \<Rightarrow> (str, bridge_queue_submission_receipt) btree \<Rightarrow> str list \<Rightarrow> (str, str) btree
     \<Rightarrow> str list \<Rightarrow> submission_store \<Rightarrow> (str + unit) \<times> submission_store" where
  "persist_submission_snapshot_locked X env results order pending pending_order s =
     (case submission_store_path s of
        None \<Rightarrow> (Ok (), s\<lparr>submission_dirty := False\<rparr>)
      | Some path \<Rightarrow>
          (case normalize_queue_pending pending pending_order of
             Inl e \<Rightarrow> (Err e, s)
           | Inr po \<Rightarrow>
               let snapshot = collect_receipts results order
                     \<lparr>rf_receipts = [], rf_order = [], rf_pending = pending, rf_pending_order = po\<rparr>
               in (case shrink_to_budget X snapshot of
                     None \<Rightarrow>
                       (Err ''queue durable pending state exceeds the idempotency byte budget'',
                        s\<lparr>submission_dirty := True\<rparr>)
                   | Some bytes \<Rightarrow>
                       (case atomic_write_private env path bytes (store_directory s) of
                          (Inr _, dir) \<Rightarrow>
                            (Ok (), s\<lparr>submission_dirty := False, store_directory := dir\<rparr>)
                        | (Inl e, dir) \<Rightarrow>
                            (Err (''failed to persist queue idempotency state: '' @ qx_show_io X e),
                             s\<lparr>submission_dirty := True, store_directory := dir\<rparr>)))))"

definition persist_submission_store_locked ::
  "queue_ext \<Rightarrow> io_env \<Rightarrow> submission_store \<Rightarrow> (str + unit) \<times> submission_store" where
  "persist_submission_store_locked X env s =
     persist_submission_snapshot_locked X env (submission_results s) (submission_order s)
       (submission_pending s) (submission_pending_order s) s"

section \<open>Operations\<close>

text \<open>
  What \<open>lookup_submission\<close> and \<open>reserve_submission\<close> check first, in this order: a durable pending
  mark, a result (after making sure it is on disk), a volatile mark.
\<close>

definition known_submission ::
  "queue_ext \<Rightarrow> io_env \<Rightarrow> str \<Rightarrow> str \<Rightarrow> submission_store
     \<Rightarrow> (str + bridge_queue_submission_receipt option) \<times> submission_store" where
  "known_submission X env submission_id thread_id s =
     (case map_of (submission_pending s) submission_id of
        Some t \<Rightarrow> (Err (if t \<noteq> thread_id then bound_elsewhere else outcome_indeterminate), s)
      | None \<Rightarrow>
        (case map_of (submission_results s) submission_id of
           Some r \<Rightarrow>
             if rc_thread_id r \<noteq> thread_id then (Err bound_elsewhere, s)
             else (case persist_submission_store_locked X env s of
                     (Inl e, s') \<Rightarrow> (Err e, s')
                   | (Inr _, s') \<Rightarrow> (Ok (Some r), s'))
         | None \<Rightarrow>
           (case map_of (submission_volatile_pending s) submission_id of
              Some t \<Rightarrow> (Err (if t \<noteq> thread_id then bound_elsewhere else already_queued), s)
            | None \<Rightarrow> (Ok None, s))))"

text \<open>A failed write of the new pending mark is rolled back, in memory and (best effort) on disk.\<close>

definition persist_or_rollback ::
  "queue_ext \<Rightarrow> io_env \<Rightarrow> io_env \<Rightarrow> (str, str) btree \<Rightarrow> str list \<Rightarrow> submission_store
     \<Rightarrow> (str + unit) \<times> submission_store" where
  "persist_or_rollback X env env' previous_pending previous_order s =
     (case persist_submission_store_locked X env s of
        (Inr _, s') \<Rightarrow> (Ok (), s')
      | (Inl e, s') \<Rightarrow>
          (Err e, snd (persist_submission_store_locked X env'
             (s'\<lparr>submission_pending := previous_pending,
                 submission_pending_order := previous_order\<rparr>))))"

definition pending_limit_reached :: str where
  "pending_limit_reached =
     ''queue durable pending admission limit reached (max '' @ show_nat SUBMISSION_DEDUPE_LIMIT @ '')''"

definition reserve_receipt ::
  "queue_ext \<Rightarrow> io_env \<Rightarrow> io_env \<Rightarrow> str \<Rightarrow> str \<Rightarrow> bool \<Rightarrow> submission_store
     \<Rightarrow> (str + bridge_queue_submission_receipt option) \<times> submission_store" where
  "reserve_receipt X env env' submission_id thread_id persist_pending s =
     (case known_submission X env submission_id thread_id s of
        (Inl e, s') \<Rightarrow> (Err e, s')
      | (Inr (Some r), s') \<Rightarrow> (Ok (Some r), s')
      | (Inr None, s') \<Rightarrow>
          if \<not> persist_pending
          then (Ok None, s'\<lparr>submission_volatile_pending :=
                  bt_insert submission_id thread_id (submission_volatile_pending s')\<rparr>)
          else if SUBMISSION_DEDUPE_LIMIT \<le> length (submission_pending s')
          then (Err pending_limit_reached, s')
          else
            (case persist_or_rollback X env env' (submission_pending s') (submission_pending_order s')
                    (s'\<lparr>submission_pending := bt_insert submission_id thread_id (submission_pending s'),
                        submission_pending_order := submission_pending_order s' @ [submission_id]\<rparr>) of
               (Inl e, s'') \<Rightarrow> (Err e, s'')
             | (Inr _, s'') \<Rightarrow> (Ok None, s'')))"

definition release_submission ::
  "queue_ext \<Rightarrow> io_env \<Rightarrow> str \<Rightarrow> submission_store \<Rightarrow> (str + unit) \<times> submission_store" where
  "release_submission X env submission_id s =
     (if \<not> bt_contains (submission_pending s) submission_id
      then (Ok (), s\<lparr>submission_volatile_pending :=
              bt_remove submission_id (submission_volatile_pending s)\<rparr>)
      else
        let pending = bt_remove submission_id (submission_pending s);
            pending_order = filter (\<lambda>c. c \<noteq> submission_id) (submission_pending_order s)
        in (case persist_submission_snapshot_locked X env (submission_results s) (submission_order s)
                   pending pending_order s of
              (Inl e, s') \<Rightarrow> (Err e, s')
            | (Inr _, s') \<Rightarrow>
                (Ok (), s'\<lparr>submission_pending := pending, submission_pending_order := pending_order,
                          submission_volatile_pending :=
                            bt_remove submission_id (submission_volatile_pending s')\<rparr>)))"

text \<open>
  The settlement of a definitive failure retries until the file is written or the service shuts
  down. Each attempt has its \<open>io_env\<close> and says whether the shutdown is seen after it; running out
  of attempts (the value \<open>None\<close>) means that the loop is still waiting.
\<close>

definition interrupted_message :: "str \<Rightarrow> str \<Rightarrow> str" where
  "interrupted_message dispatch_error persist_error =
     DEFINITIVE_SETTLEMENT_INTERRUPTED_PREFIX @ ''; dispatch failed: '' @ dispatch_error
       @ ''; last persistence error: '' @ persist_error"

fun settle_definitive_dispatch_failure ::
  "queue_ext \<Rightarrow> (io_env \<times> bool) list \<Rightarrow> str \<Rightarrow> str \<Rightarrow> str \<Rightarrow> submission_store
     \<Rightarrow> ((str + unit) \<times> submission_store) option" where
  "settle_definitive_dispatch_failure X [] submission_id thread_id dispatch_error s = None"
| "settle_definitive_dispatch_failure X ((env, shutdown) # attempts) submission_id thread_id dispatch_error s =
     (case release_submission X env submission_id s of
        (Inr _, s') \<Rightarrow> Some (Ok (), s')
      | (Inl persist_error, s') \<Rightarrow>
          if definitive_settlement_shutdown s' \<or> shutdown then
            let error = interrupted_message dispatch_error persist_error in
            Some (Err error,
                  (if starts_with submission_id SCHEDULED_PROMPT_SUBMISSION_PREFIX
                   then s'\<lparr>interrupted_definitive_settlements :=
                          bt_insert submission_id (thread_id, error)
                            (interrupted_definitive_settlements s')\<rparr>
                   else s')\<lparr>definitive_settlement_shutdown := True\<rparr>)
          else settle_definitive_dispatch_failure X attempts submission_id thread_id dispatch_error s')"

definition settle_interrupted_definitive_failure ::
  "queue_ext \<Rightarrow> (io_env \<times> bool) list \<Rightarrow> str \<Rightarrow> str \<Rightarrow> str \<Rightarrow> submission_store
     \<Rightarrow> ((str + unit) \<times> submission_store) option" where
  "settle_interrupted_definitive_failure X attempts thread_id submission_id dispatch_error s =
     (if (\<exists>owner \<in> set_option (map_of (submission_pending s) submission_id). owner \<noteq> thread_id)
      then Some (Err bound_elsewhere, s)
      else settle_definitive_dispatch_failure X attempts submission_id thread_id dispatch_error s)"

definition begin_definitive_settlement_shutdown :: "submission_store \<Rightarrow> submission_store" where
  "begin_definitive_settlement_shutdown s = s\<lparr>definitive_settlement_shutdown := True\<rparr>"

definition clear_interrupted_definitive_settlements :: "str list \<Rightarrow> submission_store \<Rightarrow> submission_store" where
  "clear_interrupted_definitive_settlements ids s =
     s\<lparr>interrupted_definitive_settlements := fold bt_remove ids (interrupted_definitive_settlements s)\<rparr>"

definition mark_submission_dispatch_pending ::
  "queue_ext \<Rightarrow> io_env \<Rightarrow> io_env \<Rightarrow> str \<Rightarrow> str \<Rightarrow> submission_store \<Rightarrow> (str + unit) \<times> submission_store" where
  "mark_submission_dispatch_pending X env env' submission_id thread_id s =
     (if (\<exists>t \<in> set_option (map_of (submission_volatile_pending s) submission_id). t \<noteq> thread_id)
      then (Err bound_elsewhere, s)
      else
        let marked =
              (case map_of (submission_pending s) submission_id of
                 Some t \<Rightarrow> if t \<noteq> thread_id then Err bound_elsewhere else Ok s
               | None \<Rightarrow>
                   if SUBMISSION_DEDUPE_LIMIT \<le> length (submission_pending s)
                   then Err pending_limit_reached
                   else Ok (s\<lparr>submission_pending := bt_insert submission_id thread_id (submission_pending s),
                             submission_pending_order := submission_pending_order s @ [submission_id]\<rparr>))
        in (case marked of
              Inl e \<Rightarrow> (Err e, s)
            | Inr s1 \<Rightarrow>
                (case persist_or_rollback X env env' (submission_pending s) (submission_pending_order s) s1 of
                   (Inl e, s2) \<Rightarrow> (Err e, s2)
                 | (Inr _, s2) \<Rightarrow>
                     (Ok (), s2\<lparr>submission_volatile_pending :=
                        bt_remove submission_id (submission_volatile_pending s2)\<rparr>))))"

definition forget_submission_result_locked ::
  "queue_ext \<Rightarrow> io_env \<Rightarrow> str \<Rightarrow> submission_store \<Rightarrow> (str + unit) \<times> submission_store" where
  "forget_submission_result_locked X env submission_id s =
     persist_submission_store_locked X env
       (s\<lparr>submission_results := bt_remove submission_id (submission_results s),
          submission_order := filter (\<lambda>c. c \<noteq> submission_id) (submission_order s),
          submission_pending := bt_remove submission_id (submission_pending s),
          submission_pending_order := filter (\<lambda>c. c \<noteq> submission_id) (submission_pending_order s),
          submission_volatile_pending := bt_remove submission_id (submission_volatile_pending s)\<rparr>)"

definition remember_submission_result ::
  "queue_ext \<Rightarrow> io_env \<Rightarrow> bridge_thread_queue_send_response \<Rightarrow> submission_store
     \<Rightarrow> (str + unit) \<times> submission_store" where
  "remember_submission_result X env result s =
     (let submission_id = resp_submission_id result;
          was_sent = (resp_disposition result = Sent);
          receipt = \<lparr>rc_submission_id = submission_id, rc_thread_id = ts_thread_id (resp_queue result),
                     rc_disposition = resp_disposition result, rc_turn_id = resp_turn_id result\<rparr>;
          order = (if bt_contains (submission_results s) submission_id then submission_order s
                   else submission_order s @ [submission_id])
      in (case evict_oldest SUBMISSION_DEDUPE_LIMIT order
                 (bt_insert submission_id receipt (submission_results s)) of
            (order', results') \<Rightarrow>
              let s1 = s\<lparr>submission_results := results', submission_order := order',
                    submission_pending := bt_remove submission_id (submission_pending s),
                    submission_pending_order :=
                      filter (\<lambda>c. c \<noteq> submission_id) (submission_pending_order s),
                    submission_volatile_pending :=
                      (if was_sent then bt_remove submission_id (submission_volatile_pending s)
                       else bt_insert submission_id (rc_thread_id receipt)
                              (submission_volatile_pending s))\<rparr>
              in (case persist_submission_store_locked X env s1 of
                    (Inl e, s2) \<Rightarrow> (Err e, s2)
                  | (Inr _, s2) \<Rightarrow>
                      (Ok (), if was_sent then s2\<lparr>submission_completion_wake := True\<rparr> else s2))))"

fun remember_sent_submission_until_persisted ::
  "queue_ext \<Rightarrow> io_env list \<Rightarrow> bridge_thread_queue_send_response \<Rightarrow> submission_store
     \<Rightarrow> submission_store option" where
  "remember_sent_submission_until_persisted X [] result s = None"
| "remember_sent_submission_until_persisted X (env # envs) result s =
     (case remember_submission_result X env result s of
        (Inr _, s') \<Rightarrow> Some s'
      | (Inl _, s') \<Rightarrow> remember_sent_submission_until_persisted X envs result s')"

definition submission_was_sent ::
  "queue_ext \<Rightarrow> io_env \<Rightarrow> str \<Rightarrow> str \<Rightarrow> submission_store \<Rightarrow> (str + bool) \<times> submission_store" where
  "submission_was_sent X env thread_id submission_id s =
     (if (\<exists>r \<in> set_option (map_of (submission_results s) submission_id).
            rc_thread_id r = thread_id \<and> rc_disposition r = Sent)
      then (case persist_submission_store_locked X env s of
              (Inl e, s') \<Rightarrow> (Err e, s')
            | (Inr _, s') \<Rightarrow> (Ok True, s'))
      else (Ok False, s))"

text \<open>The submissions of retired threads; the first half of \<open>commit_thread_retirement\<close>.\<close>

definition retire_submissions ::
  "queue_ext \<Rightarrow> io_env \<Rightarrow> str list \<Rightarrow> submission_store \<Rightarrow> (str + unit) \<times> submission_store" where
  "retire_submissions X env thread_ids s =
     (let results = bt_retain (\<lambda>_ r. rc_thread_id r \<notin> set thread_ids) (submission_results s);
          order = filter (bt_contains results) (submission_order s);
          volatile = bt_retain (\<lambda>_ t. t \<notin> set thread_ids) (submission_volatile_pending s);
          pending = bt_retain (\<lambda>_ t. t \<notin> set thread_ids) (submission_pending s);
          pending_order = filter (bt_contains pending) (submission_pending_order s)
      in (case persist_submission_snapshot_locked X env results order pending pending_order s of
            (Inl e, s') \<Rightarrow> (Err e, s')
          | (Inr _, s') \<Rightarrow>
              (Ok (), s'\<lparr>submission_results := results, submission_order := order,
                        submission_volatile_pending := volatile, submission_pending := pending,
                        submission_pending_order := pending_order\<rparr>)))"

end
