(* ===== verification/Bridge_Prompt.thy ===== *)
theory Bridge_Prompt
  imports Agent_Messaging
begin

text \<open>
  \<open>bridge_prompt\<close> of \<open>services/rust-bridge/src/runtime_backend.rs\<close>: the input of a turn as content
  blocks, and \<open>turn_start_contains_agent_message_envelope\<close> of \<open>queue_service.rs\<close>. The schema of the
  agent protocol that reads a block in its own form is a parameter. Paths are Unix paths.
\<close>

definition path_components :: "str \<Rightarrow> str list" where
  "path_components path = filter (\<lambda>c. c \<noteq> [] \<and> c \<noteq> ''.'') (split_on (CHR ''/'') path)"

definition file_name_of :: "str \<Rightarrow> str option" where
  "file_name_of path =
     (let cs = path_components path in
      if cs = [] \<or> last cs = ''..'' then None else Some (last cs))"

definition extension_of :: "str \<Rightarrow> str option" where
  "extension_of path =
     (case file_name_of path of
        None \<Rightarrow> None
      | Some name \<Rightarrow>
          let parts = split_on (CHR ''.'') name in
          if length parts < 2 \<or> (length parts = 2 \<and> hd parts = []) then None else Some (last parts))"

definition mime_type_of :: "str \<Rightarrow> str option" where
  "mime_type_of path =
     (case map_option (map ascii_lower) (extension_of path) of
        None \<Rightarrow> None
      | Some e \<Rightarrow>
          if e = ''jpg'' \<or> e = ''jpeg'' then Some ''image/jpeg''
          else if e = ''png'' then Some ''image/png''
          else if e = ''gif'' then Some ''image/gif''
          else if e = ''webp'' then Some ''image/webp'' else None)"

definition non_blank_str :: "json option \<Rightarrow> str option" where
  "non_blank_str v =
     (case Option.bind v as_str of None \<Rightarrow> None | Some s \<Rightarrow> if blank s then None else Some s)"

definition bridge_block :: "(json \<Rightarrow> content_block option) \<Rightarrow> json \<Rightarrow> str + content_block" where
  "bridge_block schema block =
     (case as_str block of
        Some text \<Rightarrow> Ok (Text_block text)
      | None \<Rightarrow>
        (case schema block of
           Some c \<Rightarrow> Ok c
         | None \<Rightarrow>
           (case Option.bind (json_get block ''type'') as_str of
              None \<Rightarrow> Err ''input block requires type''
            | Some ty \<Rightarrow>
                if ty = ''text'' then
                  (case Option.bind (json_get block ''text'') as_str of
                     None \<Rightarrow> Err ''text input block requires text''
                   | Some text \<Rightarrow> Ok (Text_block text))
                else if ty = ''mention'' then
                  (case non_blank_str (json_get block ''path'') of
                     None \<Rightarrow> Err ''mention input block requires path''
                   | Some path \<Rightarrow>
                       Ok (Resource_link_block
                         (case non_blank_str (json_get block ''name'') of None \<Rightarrow> path | Some n \<Rightarrow> n) path None))
                else if ty = ''localImage'' then
                  (case non_blank_str (json_get block ''path'') of
                     None \<Rightarrow> Err ''localImage input block requires path''
                   | Some path \<Rightarrow>
                       Ok (Resource_link_block
                         (case file_name_of path of None \<Rightarrow> path | Some n \<Rightarrow> n) path (mime_type_of path)))
                else Err (''unsupported input block type: '' @ ty))))"

fun bridge_blocks :: "(json \<Rightarrow> content_block option) \<Rightarrow> json list \<Rightarrow> str + content_block list" where
  "bridge_blocks schema [] = Ok []"
| "bridge_blocks schema (b # bs) =
     res_bind (bridge_block schema b) (\<lambda>c. res_bind (bridge_blocks schema bs) (\<lambda>cs. Ok (c # cs)))"

definition bridge_prompt :: "(json \<Rightarrow> content_block option) \<Rightarrow> json \<Rightarrow> str + content_block list" where
  "bridge_prompt schema params =
     (case Option.bind (json_get params ''input'') as_array of
        None \<Rightarrow> Err ''input must be an array''
      | Some input \<Rightarrow>
          res_bind (bridge_blocks schema input) (\<lambda>prompt.
            if prompt = [] then Err ''ACP prompt requires at least one content block'' else Ok prompt))"

definition turn_start_contains_agent_message_envelope ::
  "(json \<Rightarrow> content_block option) \<Rightarrow> json \<Rightarrow> bool" where
  "turn_start_contains_agent_message_envelope schema turn_start =
     (case bridge_prompt schema turn_start of
        Inl _ \<Rightarrow> False | Inr prompt \<Rightarrow> prompt_contains_agent_message_envelope prompt)"

end
