(* ===== verification/Thread_Queue.thy ===== *)
theory Thread_Queue
  imports Submission_Store Bridge_Prompt
begin

text \<open>
  The message queue of a thread (\<open>services/rust-bridge/src/queue_service.rs\<close>): sending, steering,
  cancelling and editing queued messages, dispatching them to the agent, and following the run
  through its canonical events.

  The record is \<open>BridgeQueueService\<close> without its locks: an operation holds the thread's actor from
  the first read of the runtime to its last change, so it is one step here; where the source
  releases the actor the operation is split. What an operation sends to others is the list
  \<open>qs_outputs\<close>: snapshots for the clients, turns for the agent, background tasks it starts. The
  agent runtime (the trait \<open>QueueRuntimeDispatcher\<close>) is a parameter: its answers are arguments.
  A retry loop that is still waiting is the value \<open>None\<close>.
\<close>

section \<open>The service\<close>

datatype queue_output =
    Broadcast_queue bridge_thread_queue_state
  | Turn_start str json str
  | Spawn_auto_dispatch str
  | Spawn_steer_dispatch str
  | Schedule_auto_dispatch_retry str nat
  | Update_agent_message str agent_message_disposition
  | Record_agent_messages "(str \<times> agent_message_origin) list"
  | Remove_agent_message str
  | Publish_agent_message str

record queue_service =
  qs_threads :: "(str, bridge_thread_queue_runtime) btree"
  qs_store :: submission_store
  qs_completion_dispositions :: "(nat, queue_completion_disposition) btree"
  qs_fence :: fence_state
  qs_next_queue_item_id :: nat
  qs_outputs :: "queue_output list"

text \<open>What a snapshot of the agent runtime tells the queue.\<close>

record queue_runtime_snapshot =
  snap_active_source_turn_id :: "str option"
  snap_active_run_id :: "str option"
  snap_active_generation :: "nat option"
  snap_active_tool_ids :: "str set"
  snap_history_reconstruction :: bool
  snap_pending_approval_ids :: "str set"
  snap_pending_user_input_ids :: "str set"

definition emit :: "queue_output \<Rightarrow> queue_service \<Rightarrow> queue_service" where
  "emit out S = S\<lparr>qs_outputs := qs_outputs S @ [out]\<rparr>"

definition set_runtime :: "str \<Rightarrow> bridge_thread_queue_runtime \<Rightarrow> queue_service \<Rightarrow> queue_service" where
  "set_runtime t rt S = S\<lparr>qs_threads := bt_insert t rt (qs_threads S)\<rparr>"

definition runtime_of :: "queue_service \<Rightarrow> str \<Rightarrow> bridge_thread_queue_runtime option" where
  "runtime_of S t = map_of (qs_threads S) t"

text \<open>\<open>threads.entry(t).or_default()\<close>.\<close>

definition runtime_or_default :: "queue_service \<Rightarrow> str \<Rightarrow> bridge_thread_queue_runtime" where
  "runtime_or_default S t = (case runtime_of S t of None \<Rightarrow> runtime_default | Some rt \<Rightarrow> rt)"

definition update_runtime ::
  "str \<Rightarrow> (bridge_thread_queue_runtime \<Rightarrow> bridge_thread_queue_runtime) \<Rightarrow> queue_service \<Rightarrow> queue_service" where
  "update_runtime t f S = (case runtime_of S t of None \<Rightarrow> S | Some rt \<Rightarrow> set_runtime t (f rt) S)"

definition on_store ::
  "(submission_store \<Rightarrow> 'a \<times> submission_store) \<Rightarrow> queue_service \<Rightarrow> 'a \<times> queue_service" where
  "on_store f S = (case f (qs_store S) of (r, st) \<Rightarrow> (r, S\<lparr>qs_store := st\<rparr>))"

definition read_queue :: "queue_service \<Rightarrow> str \<Rightarrow> bridge_thread_queue_state" where
  "read_queue S thread_id =
     (let t = trim thread_id in
      if t = [] then snapshot_for_thread [] None else snapshot_for_thread t (runtime_of S t))"

definition next_queued_message_id :: "queue_service \<Rightarrow> str \<times> queue_service" where
  "next_queued_message_id S =
     (''queue-'' @ show_nat (qs_next_queue_item_id S),
      S\<lparr>qs_next_queue_item_id := fetch_inc (qs_next_queue_item_id S)\<rparr>)"

definition record_completion_disposition ::
  "nat \<Rightarrow> queue_completion_disposition \<Rightarrow> queue_service \<Rightarrow> queue_service" where
  "record_completion_disposition event_id disposition S =
     (let ds = qs_completion_dispositions S;
          kept = (if QUEUE_COMPLETION_DISPOSITION_LIMIT \<le> length ds
                  then (case ds of [] \<Rightarrow> ds | (oldest, _) # _ \<Rightarrow> bt_remove oldest ds) else ds)
      in S\<lparr>qs_completion_dispositions := bt_insert event_id disposition kept\<rparr>)"

definition record_completions ::
  "nat list \<Rightarrow> queue_completion_disposition \<Rightarrow> queue_service \<Rightarrow> queue_service" where
  "record_completions ids disposition S = fold (\<lambda>i. record_completion_disposition i disposition) ids S"

definition queue_error :: "str \<Rightarrow> str \<Rightarrow> str \<Rightarrow> str option \<Rightarrow> bridge_thread_queue_error" where
  "queue_error msg operation now item_id =
     \<lparr>te_message = msg, te_operation = operation, te_at = now, te_item_id = item_id\<rparr>"

text \<open>Three attempts; the answers of the agent-message journal are the argument.\<close>

definition persist_agent_message_disposition ::
  "(nat \<Rightarrow> str + unit) \<Rightarrow> str \<Rightarrow> agent_message_disposition \<Rightarrow> queue_service \<Rightarrow> (str + unit) \<times> queue_service" where
  "persist_agent_message_disposition answers message_id disposition S =
     (let S1 = emit (Update_agent_message message_id disposition) S in
      case answers 0 of
        Inr u \<Rightarrow> (Ok u, S1)
      | Inl _ \<Rightarrow>
          let S2 = emit (Update_agent_message message_id disposition) S1 in
          (case answers 1 of
             Inr u \<Rightarrow> (Ok u, S2)
           | Inl _ \<Rightarrow> (answers 2, emit (Update_agent_message message_id disposition) S2)))"

section \<open>Submissions\<close>

definition submission_response ::
  "queue_service \<Rightarrow> bridge_queue_submission_receipt \<Rightarrow> bridge_thread_queue_send_response" where
  "submission_response S rc =
     \<lparr>resp_submission_id = rc_submission_id rc, resp_disposition = rc_disposition rc,
      resp_queue = read_queue S (rc_thread_id rc), resp_turn_id = rc_turn_id rc\<rparr>"

definition answer_receipt ::
  "(str + bridge_queue_submission_receipt option) \<times> queue_service
     \<Rightarrow> (str + bridge_thread_queue_send_response option) \<times> queue_service" where
  "answer_receipt p =
     (case p of
        (Inl e, S) \<Rightarrow> (Err e, S)
      | (Inr None, S) \<Rightarrow> (Ok None, S)
      | (Inr (Some rc), S) \<Rightarrow> (Ok (Some (submission_response S rc)), S))"

definition lookup_submission ::
  "queue_ext \<Rightarrow> io_env \<Rightarrow> str \<Rightarrow> str \<Rightarrow> queue_service
     \<Rightarrow> (str + bridge_thread_queue_send_response option) \<times> queue_service" where
  "lookup_submission X env submission_id thread_id S =
     answer_receipt (on_store (known_submission X env submission_id thread_id) S)"

definition reserve_submission ::
  "queue_ext \<Rightarrow> io_env \<Rightarrow> io_env \<Rightarrow> str \<Rightarrow> str \<Rightarrow> bool \<Rightarrow> queue_service
     \<Rightarrow> (str + bridge_thread_queue_send_response option) \<times> queue_service" where
  "reserve_submission X env env' submission_id thread_id persist_pending S =
     answer_receipt (on_store (reserve_receipt X env env' submission_id thread_id persist_pending) S)"

section \<open>Hydration\<close>

definition hydrate_thread_runtime :: "queue_runtime_snapshot \<Rightarrow> bridge_thread_queue_runtime" where
  "hydrate_thread_runtime snap =
     (let live = (snap_active_generation snap \<noteq> None \<and> \<not> snap_history_reconstruction snap) in
      runtime_default\<lparr>rt_active_turn_id := snap_active_source_turn_id snap,
        rt_active_run_id := snap_active_run_id snap,
        rt_active_prompt_generation := snap_active_generation snap,
        rt_active_tool_call_ids := snap_active_tool_ids snap,
        rt_live_generation_known := live, rt_thread_running := live,
        rt_pending_approval_ids := snap_pending_approval_ids snap,
        rt_pending_user_input_ids := snap_pending_user_input_ids snap\<rparr>)"

definition ensure_thread_runtime ::
  "str + queue_runtime_snapshot \<Rightarrow> str \<Rightarrow> queue_service \<Rightarrow> (str + unit) \<times> queue_service" where
  "ensure_thread_runtime snapshot thread_id S =
     (let t = trim thread_id in
      case validate_queue_identifier ''threadId'' t of
        Inl e \<Rightarrow> (Err e, S)
      | Inr _ \<Rightarrow>
          if runtime_of S t \<noteq> None then (Ok (), S)
          else (case snapshot of
                  Inl e \<Rightarrow> (Err e, S)
                | Inr snap \<Rightarrow> (Ok (), set_runtime t (hydrate_thread_runtime snap) S)))"

section \<open>Sending\<close>

text \<open>The answers of the world to one \<open>send\<close>.\<close>

record send_env =
  se_snapshot :: "str + queue_runtime_snapshot"
  se_lookup_io :: io_env
  se_reserve_io :: io_env
  se_rollback_io :: io_env
  se_remember_io :: io_env
  se_turn_start :: "str + str"
  se_settlement :: "(io_env \<times> bool) list"
  se_created_at :: str
  se_failed_at :: str

definition item_bytes_of :: "queue_ext \<Rightarrow> json \<Rightarrow> str \<Rightarrow> nat" where
  "item_bytes_of X turn_start content = sat_add (length (to_string (qx_json X) turn_start)) (length content)"

definition queued_bytes :: "queue_ext \<Rightarrow> bridge_queued_message_entry list \<Rightarrow> nat" where
  "queued_bytes X items =
     sum_list (map (\<lambda>item. length (qe_content item) + length (to_string (qx_json X) (qe_turn_start item))) items)"

definition validate_send :: "queue_ext \<Rightarrow> str \<Rightarrow> str \<Rightarrow> str \<Rightarrow> json \<Rightarrow> str + unit" where
  "validate_send X t sid content turn_start =
     res_bind (validate_queue_identifier ''threadId'' t) (\<lambda>_.
     if content = [] then Err ''content must not be empty''
     else if sid = [] then Err ''submissionId must not be empty''
     else if PUSH_ID_MAX_BYTES < length sid
     then Err (''submissionId must be at most '' @ show_nat PUSH_ID_MAX_BYTES @ '' bytes'')
     else if QUEUE_MAX_CONTENT_BYTES < length content
     then Err (''queue content exceeds '' @ show_nat QUEUE_MAX_CONTENT_BYTES @ '' bytes (actual ''
            @ show_nat (length content) @ '')'')
     else if QUEUE_MAX_ITEM_BYTES < item_bytes_of X turn_start content
     then Err (''queue item exceeds '' @ show_nat QUEUE_MAX_ITEM_BYTES @ '' bytes (actual ''
            @ show_nat (item_bytes_of X turn_start content) @ '')'')
     else Ok ())"

text \<open>The queueing half: the thread is busy or has messages waiting.\<close>

definition enqueue_message ::
  "queue_ext \<Rightarrow> send_env \<Rightarrow> str \<Rightarrow> bridge_queued_message_entry \<Rightarrow> queue_service
     \<Rightarrow> (str + bridge_thread_queue_send_response) \<times> queue_service" where
  "enqueue_message X E t item S =
     (let rt = runtime_or_default S t;
          bytes = item_bytes_of X (qe_turn_start item) (qe_content item);
          waiting = queued_bytes X (rt_items rt)
      in
      if QUEUE_MAX_ITEMS_PER_THREAD \<le> length (rt_items rt)
      then (Err (''queue limit reached for thread (max '' @ show_nat QUEUE_MAX_ITEMS_PER_THREAD @ '')''), S)
      else if QUEUE_MAX_BYTES_PER_THREAD < sat_add waiting bytes
      then (Err (''resource_limit:queue_thread_bytes:'' @ show_nat QUEUE_MAX_BYTES_PER_THREAD @ '':''
             @ show_nat (sat_add waiting bytes)), S)
      else
        let rt' = rt\<lparr>rt_items := rt_items rt @ [item], rt_last_error := None\<rparr>;
            snapshot = snapshot_for_thread t (Some rt');
            S1 = set_runtime t rt' S;
            unqueue = update_runtime t (\<lambda>r. r\<lparr>rt_items := filter (\<lambda>i. qe_id i \<noteq> qe_id item) (rt_items r)\<rparr>)
        in (case reserve_submission X (se_reserve_io E) (se_rollback_io E) (qe_submission_id item) t False S1 of
              (Inl e, S2) \<Rightarrow> (Err e, unqueue S2)
            | (Inr (Some result), S2) \<Rightarrow> (Ok result, unqueue S2)
            | (Inr None, S2) \<Rightarrow>
                let result = \<lparr>resp_submission_id = qe_submission_id item, resp_disposition = Queued,
                              resp_queue = snapshot, resp_turn_id = None\<rparr>
                in (case on_store (remember_submission_result X (se_remember_io E) result)
                           (emit (Broadcast_queue snapshot) S2) of
                      (Inl e, S3) \<Rightarrow> (Err e, S3)
                    | (Inr _, S3) \<Rightarrow> (Ok result, S3))))"

text \<open>The dispatching half: the submission becomes durably pending, then the turn starts.\<close>

definition dispatch_message ::
  "queue_ext \<Rightarrow> send_env \<Rightarrow> str \<Rightarrow> bridge_queued_message_entry \<Rightarrow> queue_service
     \<Rightarrow> ((str + bridge_thread_queue_send_response) \<times> queue_service) option" where
  "dispatch_message X E t item S =
     (case reserve_submission X (se_reserve_io E) (se_rollback_io E) (qe_submission_id item) t True S of
        (Inl e, S1) \<Rightarrow> Some (Err e, S1)
      | (Inr (Some result), S1) \<Rightarrow> Some (Ok result, S1)
      | (Inr None, S1) \<Rightarrow>
          let S2 = set_runtime t ((runtime_or_default S1 t)
                     \<lparr>rt_turn_start_in_flight := True, rt_last_error := None\<rparr>) S1;
              S3 = emit (Turn_start t (qe_turn_start item)
                     (submission_source_turn_id X (qe_submission_id item))) S2
          in (case se_turn_start E of
                Inr turn_id \<Rightarrow>
                  let rt = (runtime_or_default S3 t)\<lparr>rt_turn_start_in_flight := False,
                        rt_thread_running := True, rt_active_turn_id := Some turn_id, rt_last_error := None\<rparr>;
                      result = \<lparr>resp_submission_id = qe_submission_id item, resp_disposition = Sent,
                                resp_queue = snapshot_for_thread t (Some rt), resp_turn_id = Some turn_id\<rparr>
                  in (case on_store (remember_submission_result X (se_remember_io E) result)
                             (set_runtime t rt S3) of
                        (Inl e, S4) \<Rightarrow> Some (Err e, S4)
                      | (Inr _, S4) \<Rightarrow> Some (Ok result, S4))
              | Inl error \<Rightarrow>
                  let S4 = update_runtime t (\<lambda>r. r\<lparr>rt_turn_start_in_flight := False,
                        rt_last_error := Some (queue_error error ''dispatch'' (se_failed_at E) (Some (qe_id item))),
                        rt_last_error_submission_id := Some (qe_submission_id item)\<rparr>) S3
                  in if dispatch_failure_is_indeterminate error then Some (Err error, S4)
                     else (case settle_definitive_dispatch_failure X (se_settlement E)
                                  (qe_submission_id item) t error (qs_store S4) of
                             None \<Rightarrow> None
                           | Some (Inl e, st) \<Rightarrow> Some (Err e, S4\<lparr>qs_store := st\<rparr>)
                           | Some (Inr _, st) \<Rightarrow> Some (Err error, S4\<lparr>qs_store := st\<rparr>))))"

definition send_message_with_origin ::
  "queue_ext \<Rightarrow> send_env \<Rightarrow> bridge_thread_queue_send_request \<Rightarrow> agent_message_origin option \<Rightarrow> bool
     \<Rightarrow> queue_service \<Rightarrow> ((str + bridge_thread_queue_send_response) \<times> queue_service) option" where
  "send_message_with_origin X E request origin admitted S =
     (let t = trim (sq_thread_id request);
          sid = trim (sq_submission_id request);
          content = trim (sq_content request)
      in case validate_send X t sid content (sq_turn_start request) of
           Inl e \<Rightarrow> Some (Err e, S)
         | Inr _ \<Rightarrow>
       (case (if admitted then Ok () else admit (qs_fence S) t) of
           Inl e \<Rightarrow> Some (Err e, S)
         | Inr _ \<Rightarrow>
       (case ensure_thread_runtime (se_snapshot E) t S of
           (Inl e, S1) \<Rightarrow> Some (Err e, S1)
         | (Inr _, S1) \<Rightarrow>
       (case lookup_submission X (se_lookup_io E) sid t S1 of
           (Inl e, S2) \<Rightarrow> Some (Err e, S2)
         | (Inr (Some result), S2) \<Rightarrow> Some (Ok result, S2)
         | (Inr None, S2) \<Rightarrow>
       (case next_queued_message_id S2 of
           (item_id, S3) \<Rightarrow>
             let item = \<lparr>qe_id = item_id, qe_submission_id = sid, qe_created_at = se_created_at E,
                         qe_content = content, qe_turn_start = sq_turn_start request,
                         qe_agent_message = origin\<rparr>
             in if (case runtime_of S3 t of None \<Rightarrow> False | Some rt \<Rightarrow> runtime_is_blocked_or_occupied rt)
                then Some (enqueue_message X E t item S3)
                else dispatch_message X E t item S3)))))"

definition send_message ::
  "(json \<Rightarrow> content_block option) \<Rightarrow> queue_ext \<Rightarrow> send_env \<Rightarrow> bridge_thread_queue_send_request
     \<Rightarrow> queue_service \<Rightarrow> ((str + bridge_thread_queue_send_response) \<times> queue_service) option" where
  "send_message schema X E request S =
     (if turn_start_contains_agent_message_envelope schema (sq_turn_start request)
      then Some (Err ''agent message envelopes are reserved for the bridge'', S)
      else if starts_with (trim (sq_submission_id request)) SCHEDULED_PROMPT_SUBMISSION_PREFIX
      then Some (Err ''scheduled prompt submission IDs are reserved for the bridge'', S)
      else send_message_with_origin X E request None False S)"

definition send_scheduled_prompt_admitted ::
  "(json \<Rightarrow> content_block option) \<Rightarrow> queue_ext \<Rightarrow> send_env \<Rightarrow> bridge_thread_queue_send_request
     \<Rightarrow> queue_service \<Rightarrow> ((str + bridge_thread_queue_send_response) \<times> queue_service) option" where
  "send_scheduled_prompt_admitted schema X E request S =
     (if turn_start_contains_agent_message_envelope schema (sq_turn_start request)
      then Some (Err ''agent message envelopes are reserved for the bridge'', S)
      else if \<not> starts_with (trim (sq_submission_id request)) SCHEDULED_PROMPT_SUBMISSION_PREFIX
      then Some (Err ''scheduled prompt submission ID must use the reserved prefix'', S)
      else send_message_with_origin X E request None True S)"

end
