(* ===== verification/Queue_Actions.thy ===== *)
theory Queue_Actions
  imports Thread_Queue
begin

text \<open>
  The actions on queued messages (\<open>services/rust-bridge/src/queue_service.rs\<close>): steering, cancelling
  and editing by the user, cancelling and reconciling by the scheduler, and the removal of a
  deleted thread.
\<close>

definition action_response ::
  "bridge_thread_queue_state \<Rightarrow> bridge_thread_queue_action_response" where
  "action_response snapshot = \<lparr>act_ok = True, act_queue = snapshot\<rparr>"

text \<open>\<open>iter().position\<close> followed by \<open>remove\<close>: the first entry with the property, and the others.\<close>

fun take_first :: "('a \<Rightarrow> bool) \<Rightarrow> 'a list \<Rightarrow> ('a \<times> 'a list) option" where
  "take_first P [] = None"
| "take_first P (x # xs) =
     (if P x then Some (x, xs) else map_option (\<lambda>(y, ys). (y, x # ys)) (take_first P xs))"

definition validate_item_request :: "str \<Rightarrow> str \<Rightarrow> str + unit" where
  "validate_item_request t i =
     res_bind (validate_queue_identifier ''threadId'' t) (\<lambda>_. validate_queue_identifier ''itemId'' i)"

section \<open>Steering\<close>

definition steering_message :: "bridge_queued_message_entry \<Rightarrow> bridge_queued_message_entry" where
  "steering_message e =
     e\<lparr>qe_agent_message := map_option (\<lambda>m. m\<lparr>origin_disposition := Message_Steering\<rparr>) (qe_agent_message e)\<rparr>"

definition steer_message_inner ::
  "str + queue_runtime_snapshot \<Rightarrow> str + bool \<Rightarrow> bridge_thread_queue_steer_request \<Rightarrow> bool \<Rightarrow> queue_service
     \<Rightarrow> (str + bridge_thread_queue_action_response) \<times> queue_service" where
  "steer_message_inner snapshot supports_steer request automatic S =
     (let t = trim (stq_thread_id request); i = trim (stq_item_id request) in
      case validate_item_request t i of Inl e \<Rightarrow> (Err e, S) | Inr _ \<Rightarrow>
     (case admit (qs_fence S) t of Inl e \<Rightarrow> (Err e, S) | Inr _ \<Rightarrow>
     (case ensure_thread_runtime snapshot t S of (Inl e, S1) \<Rightarrow> (Err e, S1) | (Inr _, S1) \<Rightarrow>
     (case runtime_of S1 t of
        None \<Rightarrow> (Err ''queue state unavailable'', S1)
      | Some rt \<Rightarrow>
          let found = List.find (\<lambda>e. qe_id e = i) (rt_items rt) in
          if \<not> automatic \<and> (\<exists>e \<in> set_option found. is_scheduled_prompt_entry e)
          then (Err SCHEDULED_PROMPT_PUBLIC_ACTION_ERROR, S1)
          else (case supports_steer of
             Inl e \<Rightarrow> (Err e, S1)
           | Inr False \<Rightarrow> (Err ''ACP steering extension is not negotiated for this agent'', S1)
           | Inr True \<Rightarrow>
          (case found of
             None \<Rightarrow> (Err ''queued message not found'', S1)
           | Some item \<Rightarrow>
          if \<not> automatic \<and> qe_agent_message item \<noteq> None
          then (Err ''agent messages are steered automatically'', S1)
          else if \<not> automatic \<and> is_scheduled_prompt_item rt i
          then (Err SCHEDULED_PROMPT_PUBLIC_ACTION_ERROR, S1)
          else if rt_turn_start_in_flight rt \<or> rt_action_in_flight_item_id rt \<noteq> None
          then (Err ''queue is busy processing another action'', S1)
          else if rt_editing_item_id rt \<noteq> None
          then (Err ''finish editing the queued message before steering'', S1)
          else if \<not> rt_thread_running rt \<or> rt_active_turn_id rt = None \<or> rt_active_run_id rt = None
               \<or> rt_active_prompt_generation rt = None \<or> \<not> rt_live_generation_known rt
          then (Err ''no live ACP prompt generation available to steer'', S1)
          else (case take_first (\<lambda>e. qe_id e = i) (rt_items rt) of
             None \<Rightarrow> (Err ''queued message not found'', S1)
           | Some (removed, rest) \<Rightarrow>
               let rt' = rt\<lparr>rt_items := rest,
                     rt_pending_steers := rt_pending_steers rt @ [steering_message removed],
                     rt_last_error := None\<rparr>;
                   snap = snapshot_for_thread t (Some rt');
                   S2 = emit (Broadcast_queue snap) (set_runtime t rt' S1)
               in (Ok (action_response snap),
                   if automatic then S2 else emit (Spawn_steer_dispatch t) S2))))))))"

definition steer_message ::
  "str + queue_runtime_snapshot \<Rightarrow> str + bool \<Rightarrow> bridge_thread_queue_steer_request \<Rightarrow> queue_service
     \<Rightarrow> (str + bridge_thread_queue_action_response) \<times> queue_service" where
  "steer_message snapshot supports_steer request S =
     steer_message_inner snapshot supports_steer request False S"

section \<open>Cancelling\<close>

record cancel_env =
  ce_journal :: "nat \<Rightarrow> str + unit"
  ce_forget_io :: io_env
  ce_now :: str
  ce_now_forget :: str

text \<open>The removal of the item from the runtime: the new runtime, the submission and the agent message.\<close>

definition remove_queued_item ::
  "bridge_thread_queue_runtime \<Rightarrow> str \<Rightarrow> str + (bridge_thread_queue_runtime \<times> str \<times> str option)" where
  "remove_queued_item rt i =
     (if is_scheduled_prompt_item rt i then Err SCHEDULED_PROMPT_PUBLIC_ACTION_ERROR
      else if rt_action_in_flight_item_id rt = Some i
      then Err ''cannot cancel a queued message while it is being processed''
      else (case take_first (\<lambda>e. qe_id e = i) (rt_items rt) of
         Some (e, rest) \<Rightarrow>
           Ok (rt\<lparr>rt_items := rest,
                  rt_editing_item_id := (if rt_editing_item_id rt = Some i then None else rt_editing_item_id rt),
                  rt_last_error := None\<rparr>,
               qe_submission_id e, map_option origin_message_id (qe_agent_message e))
       | None \<Rightarrow>
      (case take_first (\<lambda>e. qe_id e = i) (rt_pending_steers rt) of
         Some (e, rest) \<Rightarrow>
           Ok (rt\<lparr>rt_pending_steers := rest, rt_last_error := None\<rparr>,
               qe_submission_id e, map_option origin_message_id (qe_agent_message e))
       | None \<Rightarrow>
           if (\<exists>d \<in> set_option (rt_steer_dispatch_in_flight rt). qe_id (sd_entry d) = i)
           then Err ''cannot cancel a steer already dispatched to the agent''
           else Err ''queued message not found'')))"

text \<open>A failure to persist becomes the thread's last error, and the snapshot is taken again.\<close>

definition note_persist_error ::
  "str \<Rightarrow> str \<Rightarrow> str \<Rightarrow> str + unit \<Rightarrow> bridge_thread_queue_state \<times> queue_service
     \<Rightarrow> bridge_thread_queue_state \<times> queue_service" where
  "note_persist_error t i now r p =
     (case (r, runtime_of (snd p) t) of
        (Inl e, Some rt) \<Rightarrow>
          let rt' = rt\<lparr>rt_last_error := Some (queue_error e ''persist'' now (Some i)),
                       rt_last_error_submission_id := None\<rparr>
          in (snapshot_for_thread t (Some rt'), set_runtime t rt' (snd p))
      | _ \<Rightarrow> p)"

definition cancel_message ::
  "queue_ext \<Rightarrow> cancel_env \<Rightarrow> bridge_thread_queue_cancel_request \<Rightarrow> queue_service
     \<Rightarrow> (str + bridge_thread_queue_action_response) \<times> queue_service" where
  "cancel_message X E request S =
     (let t = trim (cq_thread_id request); i = trim (cq_item_id request) in
      case validate_item_request t i of Inl e \<Rightarrow> (Err e, S) | Inr _ \<Rightarrow>
     (case runtime_of S t of
        None \<Rightarrow> (Err ''queued message not found'', S)
      | Some rt \<Rightarrow>
     (case remove_queued_item rt i of
        Inl e \<Rightarrow> (Err e, S)
      | Inr (rt', submission_id, agent_message_id) \<Rightarrow>
          let S1 = set_runtime t rt' S;
              snap1 = snapshot_for_thread t (Some rt');
              p2 = (case agent_message_id of
                      None \<Rightarrow> (snap1, S1)
                    | Some m \<Rightarrow>
                        (case persist_agent_message_disposition (ce_journal E) m Message_Cancelled S1 of
                           (r, S2) \<Rightarrow> note_persist_error t i (ce_now E) r (snap1, S2)));
              p3 = (case on_store (forget_submission_result_locked X (ce_forget_io E) submission_id) (snd p2) of
                      (r, S3) \<Rightarrow> note_persist_error t i (ce_now_forget E) r (fst p2, S3));
              S4 = emit (Broadcast_queue (fst p3)) (snd p3)
          in (Ok (action_response (fst p3)),
              if runtime_has_blockers rt' then S4 else emit (Spawn_auto_dispatch t) S4))))"

section \<open>Editing\<close>

definition start_message_edit ::
  "bridge_thread_queue_edit_request \<Rightarrow> queue_service
     \<Rightarrow> (str + bridge_thread_queue_action_response) \<times> queue_service" where
  "start_message_edit request S =
     (let t = trim (eq_thread_id request); i = trim (eq_item_id request) in
      case validate_item_request t i of Inl e \<Rightarrow> (Err e, S) | Inr _ \<Rightarrow>
     (case runtime_of S t of
        None \<Rightarrow> (Err ''queue state unavailable'', S)
      | Some rt \<Rightarrow>
          let done_with = (\<lambda>rt'. let snap = snapshot_for_thread t (Some rt') in
                (Ok (action_response snap), emit (Broadcast_queue snap) (set_runtime t rt' S)))
          in
          if is_scheduled_prompt_item rt i then (Err SCHEDULED_PROMPT_PUBLIC_ACTION_ERROR, S)
          else if rt_turn_start_in_flight rt \<or> rt_action_in_flight_item_id rt \<noteq> None
          then (Err ''queue is busy processing another action'', S)
          else if (\<exists>e \<in> set_option (List.find (\<lambda>e. qe_id e = i) (rt_items rt)). qe_agent_message e \<noteq> None)
          then (Err ''agent messages are read-only'', S)
          else if rt_steer_prepare_in_flight rt \<or> rt_steer_dispatch_in_flight rt \<noteq> None
               \<or> rt_pending_steers rt \<noteq> []
          then (Err ''finish steering queued messages before editing'', S)
          else (case rt_editing_item_id rt of
             Some j \<Rightarrow>
               if j \<noteq> i then (Err ''another queued message is already being edited'', S) else done_with rt
           | None \<Rightarrow>
               if rt_items rt = [] \<or> qe_id (hd (rt_items rt)) \<noteq> i
               then (Err ''only the next queued message can be edited'', S)
               else done_with (rt\<lparr>rt_editing_item_id := Some i, rt_last_error := None\<rparr>))))"

text \<open>The first part of type text gets the new content.\<close>

definition is_text_part :: "json \<Rightarrow> bool" where
  "is_text_part part = (Option.bind (json_get part ''type'') as_str = Some ''text'')"

fun replace_text_part :: "str \<Rightarrow> json list \<Rightarrow> json list option" where
  "replace_text_part content [] = None"
| "replace_text_part content (p # ps) =
     (if is_text_part p
      then (case as_object p of
              None \<Rightarrow> None
            | Some kvs \<Rightarrow> Some (JObject (object_insert ''text'' (JString content) kvs) # ps))
      else map_option (Cons p) (replace_text_part content ps))"

definition replace_turn_start_text :: "json \<Rightarrow> str \<Rightarrow> str + json" where
  "replace_turn_start_text turn_start content =
     (case turn_start of
        JObject kvs \<Rightarrow>
          (case Option.bind (map_of kvs ''input'') as_array of
             None \<Rightarrow> Err ''queued turnStart input is unavailable''
           | Some input \<Rightarrow>
               (case replace_text_part content input of
                  None \<Rightarrow> Err ''queued turnStart text input is unavailable''
                | Some input' \<Rightarrow> Ok (JObject (object_insert ''input'' (JArray input') kvs))))
      | _ \<Rightarrow> Err ''queued turnStart input is unavailable'')"

definition other_queued_bytes :: "queue_ext \<Rightarrow> bridge_queued_message_entry list \<Rightarrow> nat" where
  "other_queued_bytes X items =
     fold (\<lambda>item acc. sat_add acc
         (sat_add (length (qe_content item)) (length (to_string (qx_json X) (qe_turn_start item))))) items 0"

fun replace_first :: "('a \<Rightarrow> bool) \<Rightarrow> 'a \<Rightarrow> 'a list \<Rightarrow> 'a list" where
  "replace_first P y [] = []"
| "replace_first P y (x # xs) = (if P x then y # xs else x # replace_first P y xs)"

definition commit_message_edit ::
  "(json \<Rightarrow> content_block option) \<Rightarrow> queue_ext \<Rightarrow> bridge_thread_queue_edit_commit_request \<Rightarrow> queue_service
     \<Rightarrow> (str + bridge_thread_queue_action_response) \<times> queue_service" where
  "commit_message_edit schema X request S =
     (let t = trim (ecq_thread_id request); i = trim (ecq_item_id request); content = trim (ecq_content request) in
      case validate_item_request t i of Inl e \<Rightarrow> (Err e, S) | Inr _ \<Rightarrow>
      if content = [] then (Err ''content must not be empty'', S)
      else if QUEUE_MAX_CONTENT_BYTES < length content
      then (Err (''queue content exceeds '' @ show_nat QUEUE_MAX_CONTENT_BYTES @ '' bytes (actual ''
             @ show_nat (length content) @ '')''), S)
      else (case runtime_of S t of
        None \<Rightarrow> (Err ''queue state unavailable'', S)
      | Some rt \<Rightarrow>
          if is_scheduled_prompt_item rt i then (Err SCHEDULED_PROMPT_PUBLIC_ACTION_ERROR, S)
          else if rt_editing_item_id rt \<noteq> Some i then (Err ''queued message is not being edited'', S)
          else (case take_first (\<lambda>e. qe_id e = i) (rt_items rt) of
             None \<Rightarrow> (Err ''queued message not found'', S)
           | Some (item, others) \<Rightarrow>
          (case replace_turn_start_text (qe_turn_start item) content of
             Inl e \<Rightarrow> (Err e, S)
           | Inr turn_start \<Rightarrow>
               if turn_start_contains_agent_message_envelope schema turn_start
               then (Err ''agent message envelopes are reserved for the bridge'', S)
               else let bytes = item_bytes_of X turn_start content in
               if QUEUE_MAX_ITEM_BYTES < bytes
               then (Err (''queue item exceeds '' @ show_nat QUEUE_MAX_ITEM_BYTES @ '' bytes (actual ''
                      @ show_nat bytes @ '')''), S)
               else let all_bytes = sat_add (other_queued_bytes X others) bytes in
               if QUEUE_MAX_BYTES_PER_THREAD < all_bytes
               then (Err (''resource_limit:queue_thread_bytes:'' @ show_nat QUEUE_MAX_BYTES_PER_THREAD @ '':''
                      @ show_nat all_bytes), S)
               else
                 let item' = item\<lparr>qe_content := content, qe_turn_start := turn_start\<rparr>;
                     rt' = rt\<lparr>rt_items := replace_first (\<lambda>e. qe_id e = i) item' (rt_items rt),
                              rt_editing_item_id := None, rt_last_error := None\<rparr>;
                     snap = snapshot_for_thread t (Some rt');
                     S1 = emit (Broadcast_queue snap) (set_runtime t rt' S)
                 in (Ok (action_response snap),
                     if runtime_has_blockers rt' then S1 else emit (Spawn_auto_dispatch t) S1)))))"

definition cancel_message_edit ::
  "bridge_thread_queue_edit_request \<Rightarrow> queue_service
     \<Rightarrow> (str + bridge_thread_queue_action_response) \<times> queue_service" where
  "cancel_message_edit request S =
     (let t = trim (eq_thread_id request); i = trim (eq_item_id request) in
      case validate_item_request t i of Inl e \<Rightarrow> (Err e, S) | Inr _ \<Rightarrow>
     (case runtime_of S t of
        None \<Rightarrow> (Err ''queue state unavailable'', S)
      | Some rt \<Rightarrow>
          if is_scheduled_prompt_item rt i then (Err SCHEDULED_PROMPT_PUBLIC_ACTION_ERROR, S)
          else if rt_editing_item_id rt \<noteq> Some i then (Err ''queued message is not being edited'', S)
          else
            let rt' = rt\<lparr>rt_editing_item_id := None, rt_last_error := None\<rparr>;
                snap = snapshot_for_thread t (Some rt');
                S1 = emit (Broadcast_queue snap) (set_runtime t rt' S)
            in (Ok (action_response snap),
                if runtime_has_blockers rt' then S1 else emit (Spawn_auto_dispatch t) S1)))"

section \<open>The scheduler's actions\<close>

text \<open>Removing the entry of a submission, wherever it waits.\<close>

definition remove_submission_entry ::
  "bridge_thread_queue_runtime \<Rightarrow> str \<Rightarrow> (bridge_queued_message_entry \<times> bridge_thread_queue_runtime) option" where
  "remove_submission_entry rt sid =
     (let settle = (\<lambda>e r. (e, r\<lparr>rt_editing_item_id :=
              (if rt_editing_item_id r = Some (qe_id e) then None else rt_editing_item_id r),
            rt_last_error := None\<rparr>))
      in case take_first (\<lambda>e. qe_submission_id e = sid) (rt_items rt) of
           Some (e, rest) \<Rightarrow> Some (settle e (rt\<lparr>rt_items := rest\<rparr>))
         | None \<Rightarrow>
           (case take_first (\<lambda>e. qe_submission_id e = sid) (rt_pending_steers rt) of
              Some (e, rest) \<Rightarrow> Some (settle e (rt\<lparr>rt_pending_steers := rest\<rparr>))
            | None \<Rightarrow> None))"

definition cancel_submission ::
  "queue_ext \<Rightarrow> io_env \<Rightarrow> str \<Rightarrow> str \<Rightarrow> queue_service
     \<Rightarrow> (str + queue_submission_cancel_outcome) \<times> queue_service" where
  "cancel_submission X env thread_id submission_id S =
     (let t = trim thread_id; sid = trim submission_id; st = qs_store S in
      case res_bind (validate_queue_identifier ''threadId'' t) (\<lambda>_. validate_queue_identifier ''submissionId'' sid) of
        Inl e \<Rightarrow> (Err e, S)
      | Inr _ \<Rightarrow>
        if (\<exists>rc \<in> set_option (map_of (submission_results st) sid). rc_thread_id rc \<noteq> t)
        then (Err bound_elsewhere, S)
        else if (\<exists>rc \<in> set_option (map_of (submission_results st) sid). rc_disposition rc = Sent)
        then (Ok Cancel_Sent, S)
        else (case Option.bind (runtime_of S t) (\<lambda>rt. remove_submission_entry rt sid) of
          None \<Rightarrow>
            let durable_owner = map_of (submission_pending st) sid;
                volatile_owner = map_of (submission_volatile_pending st) sid
            in
            if (\<exists>owner \<in> set_option durable_owner \<union> set_option volatile_owner. owner \<noteq> t)
            then (Err bound_elsewhere, S)
            else (case on_store (forget_submission_result_locked X env sid) S of
                    (Inl e, S1) \<Rightarrow> (Err e, S1)
                  | (Inr _, S1) \<Rightarrow>
                      (Ok (if durable_owner \<noteq> None then Cancel_Sent else Cancel_NotFound), S1))
        | Some (entry, rt') \<Rightarrow>
            (case on_store (forget_submission_result_locked X env (qe_submission_id entry)) (set_runtime t rt' S) of
               (Inl e, S1) \<Rightarrow> (Err e, S1)
             | (Inr _, S1) \<Rightarrow>
                 let S2 = emit (Broadcast_queue (snapshot_for_thread t (Some rt'))) S1
                 in (Ok Cancel_Cancelled,
                     if runtime_has_blockers rt' then S2 else emit (Spawn_auto_dispatch t) S2))))"

definition reconcile_indeterminate_submission ::
  "queue_ext \<Rightarrow> io_env \<Rightarrow> io_env \<Rightarrow> str + str option \<Rightarrow> str \<Rightarrow> str \<Rightarrow> queue_service
     \<Rightarrow> (str + bridge_thread_queue_send_response option) \<times> queue_service" where
  "reconcile_indeterminate_submission X env env' reconcile_turn_start thread_id submission_id S =
     (let t = trim thread_id; sid = trim submission_id; st = qs_store S in
      case res_bind (validate_queue_identifier ''threadId'' t) (\<lambda>_. validate_queue_identifier ''submissionId'' sid) of
        Inl e \<Rightarrow> (Err e, S)
      | Inr _ \<Rightarrow>
        (case map_of (submission_results st) sid of
           Some rc \<Rightarrow>
             if rc_thread_id rc \<noteq> t then (Err bound_elsewhere, S)
             else (case on_store (persist_submission_store_locked X env) S of
                     (Inl e, S1) \<Rightarrow> (Err e, S1)
                   | (Inr _, S1) \<Rightarrow> (Ok (Some (submission_response S1 rc)), S1))
         | None \<Rightarrow>
           (case map_of (submission_pending st) sid of
              None \<Rightarrow> (Ok None, S)
            | Some owner \<Rightarrow>
                if owner \<noteq> t then (Err bound_elsewhere, S)
                else (case reconcile_turn_start of
                  Inl e \<Rightarrow> (Err e, S)
                | Inr reconciled \<Rightarrow>
                    let result = \<lparr>resp_submission_id = sid, resp_disposition = Sent,
                          resp_queue = read_queue S t,
                          resp_turn_id = Some (case reconciled of
                             None \<Rightarrow> submission_source_turn_id X sid | Some u \<Rightarrow> u)\<rparr>
                    in (case on_store (remember_submission_result X env' result) S of
                          (Inl e, S1) \<Rightarrow> (Err e, S1)
                        | (Inr _, S1) \<Rightarrow> (Ok (Some result), S1))))))"

section \<open>Retirement of threads\<close>

definition begin_thread_retirement :: "str list \<Rightarrow> str + str list" where
  "begin_thread_retirement thread_ids = normalize_retiring_thread_ids thread_ids"

definition commit_thread_retirement ::
  "queue_ext \<Rightarrow> io_env \<Rightarrow> str list \<Rightarrow> queue_service \<Rightarrow> (str + unit) \<times> queue_service" where
  "commit_thread_retirement X env thread_ids S =
     (case on_store (retire_submissions X env thread_ids) S of
        (Inl e, S1) \<Rightarrow> (Err e, S1)
      | (Inr _, S1) \<Rightarrow> (Ok (), S1\<lparr>qs_threads := fold bt_remove thread_ids (qs_threads S1)\<rparr>))"

definition publish_thread_retirement :: "str list \<Rightarrow> queue_service \<Rightarrow> queue_service" where
  "publish_thread_retirement thread_ids S =
     fold (\<lambda>t. emit (Broadcast_queue (snapshot_for_thread t None))) thread_ids S"

end
