(* ===== verification/Queue_Dispatch.thy ===== *)
theory Queue_Dispatch
  imports Queue_Actions
begin

text \<open>
  The background work of the queue (\<open>services/rust-bridge/src/queue_service.rs\<close>): dispatching the
  next queued message, delivering steering messages into a running turn, and following the agent's
  canonical events. Steering releases the thread's actor while it waits for the agent, so each
  stretch between two waits is an operation of its own; \<open>drain_pending_steers\<close> runs them in turn.
\<close>

section \<open>Dispatching the next message\<close>

record drain_env =
  de_mark_io :: io_env
  de_rollback_io :: io_env
  de_turn_start :: "str + str"
  de_remember_ios :: "io_env list"
  de_settlement :: "(io_env \<times> bool) list"
  de_journal :: "nat \<Rightarrow> str + unit"
  de_now :: str

text \<open>The back-off of the next attempt, unless one is already scheduled.\<close>

definition note_retry :: "bridge_thread_queue_runtime \<Rightarrow> bridge_thread_queue_runtime" where
  "note_retry rt = rt\<lparr>rt_dispatch_retry_attempt := sat_add_u32 (rt_dispatch_retry_attempt rt) 1,
     rt_dispatch_retry_scheduled := True\<rparr>"

definition schedule_auto_dispatch_retry :: "str \<Rightarrow> nat \<Rightarrow> queue_service \<Rightarrow> queue_service" where
  "schedule_auto_dispatch_retry t attempt S =
     emit (Schedule_auto_dispatch_retry t (dispatch_retry_delay_ms attempt)) S"

text \<open>The pending mark could not be written: the message goes back to the front.\<close>

definition drain_mark_failed ::
  "str \<Rightarrow> str \<Rightarrow> str \<Rightarrow> bridge_queued_message_entry \<Rightarrow> queue_service \<Rightarrow> queue_service" where
  "drain_mark_failed now error t item S =
     (case runtime_of S t of
        None \<Rightarrow> S
      | Some rt \<Rightarrow>
          let rt' = (note_retry rt)\<lparr>rt_turn_start_in_flight := False, rt_items := item # rt_items rt,
                rt_last_error := Some (queue_error error ''persist'' now (Some (qe_id item))),
                rt_last_error_submission_id := Some (qe_submission_id item)\<rparr>;
              S1 = emit (Broadcast_queue (snapshot_for_thread t (Some rt'))) (set_runtime t rt' S)
          in if rt_dispatch_retry_scheduled rt then S1
             else schedule_auto_dispatch_retry t (rt_dispatch_retry_attempt rt') S1)"

definition drain_dispatched ::
  "queue_ext \<Rightarrow> drain_env \<Rightarrow> str \<Rightarrow> bridge_queued_message_entry \<Rightarrow> str \<Rightarrow> queue_service \<Rightarrow> queue_service option" where
  "drain_dispatched X E t item turn_id S =
     (case runtime_of S t of
        None \<Rightarrow> Some S
      | Some rt \<Rightarrow>
          let rt' = rt\<lparr>rt_turn_start_in_flight := False, rt_thread_running := True,
                rt_active_turn_id := Some turn_id, rt_last_error := None,
                rt_pending_completion_event_ids := []\<rparr>;
              result = \<lparr>resp_submission_id = qe_submission_id item, resp_disposition = Sent,
                        resp_queue = snapshot_for_thread t (Some rt'),
                        resp_turn_id = Some turn_id\<rparr>;
              S1 = set_runtime t rt' S
          in (case remember_sent_submission_until_persisted X (de_remember_ios E) result (qs_store S1) of
                None \<Rightarrow> None
              | Some st \<Rightarrow>
                  let S2 = S1\<lparr>qs_store := st\<rparr>;
                      S3 = (case qe_agent_message item of
                              None \<Rightarrow> S2
                            | Some m \<Rightarrow> snd (persist_agent_message_disposition (de_journal E)
                                 (origin_message_id m) Message_Sent S2))
                  in Some (record_completions (rt_pending_completion_event_ids rt) Continued S3)))"

definition drain_failed ::
  "queue_ext \<Rightarrow> drain_env \<Rightarrow> str \<Rightarrow> bridge_queued_message_entry \<Rightarrow> str \<Rightarrow> queue_service \<Rightarrow> queue_service option" where
  "drain_failed X E t item error S =
     (let indeterminate = dispatch_failure_is_indeterminate error;
          settled = (if indeterminate then Some (None, qs_store S)
                     else map_option (\<lambda>(r, st). (case r of Inl e \<Rightarrow> Some e | Inr _ \<Rightarrow> None, st))
                            (settle_definitive_dispatch_failure X (de_settlement E)
                               (qe_submission_id item) t error (qs_store S)))
      in case settled of
           None \<Rightarrow> None
         | Some (settlement_error, st) \<Rightarrow>
             let S1 = S\<lparr>qs_store := st\<rparr>;
                 converged = (\<not> indeterminate \<and> settlement_error = None);
                 retry = (converged \<and> \<not> definitive_settlement_shutdown st);
                 visible = (case settlement_error of None \<Rightarrow> error | Some e \<Rightarrow> e)
             in (case runtime_of S1 t of
                   None \<Rightarrow> Some S1
                 | Some rt \<Rightarrow>
                     let rt1 = rt\<lparr>rt_turn_start_in_flight := False,
                           rt_items := (if indeterminate then rt_items rt else item # rt_items rt)\<rparr>;
                         rt2 = (if retry then note_retry rt1 else rt1);
                         rt3 = rt2\<lparr>rt_last_error := Some (queue_error visible ''dispatch'' (de_now E) (Some (qe_id item))),
                           rt_last_error_submission_id := Some (qe_submission_id item),
                           rt_pending_completion_event_ids := []\<rparr>;
                         S2 = emit (Broadcast_queue (snapshot_for_thread t (Some rt3))) (set_runtime t rt3 S1);
                         S3 = (if retry \<and> \<not> rt_dispatch_retry_scheduled rt
                               then schedule_auto_dispatch_retry t (rt_dispatch_retry_attempt rt3) S2 else S2);
                         S4 = (case (indeterminate, qe_agent_message item) of
                                 (True, Some m) \<Rightarrow> snd (persist_agent_message_disposition (de_journal E)
                                     (origin_message_id m) Message_Cancelled S3)
                               | _ \<Rightarrow> S3)
                     in Some (record_completions (rt_pending_completion_event_ids rt) Final S4)))"

definition drain_thread_queue ::
  "queue_ext \<Rightarrow> drain_env \<Rightarrow> str \<Rightarrow> queue_service \<Rightarrow> queue_service option" where
  "drain_thread_queue X E t S =
     (case admit (qs_fence S) t of
        Inl _ \<Rightarrow> Some S
      | Inr _ \<Rightarrow>
     (case runtime_of S t of
        None \<Rightarrow> Some S
      | Some rt \<Rightarrow>
          if runtime_has_blockers rt then Some S
          else (case rt_items rt of
             [] \<Rightarrow>
               Some (record_completions (rt_pending_completion_event_ids rt) Final
                 (set_runtime t (rt\<lparr>rt_pending_completion_event_ids := []\<rparr>) S))
           | item # rest \<Rightarrow>
               let rt1 = rt\<lparr>rt_items := rest, rt_turn_start_in_flight := True, rt_last_error := None\<rparr>;
                   S1 = emit (Broadcast_queue (snapshot_for_thread t (Some rt1))) (set_runtime t rt1 S)
               in (case on_store (mark_submission_dispatch_pending X (de_mark_io E) (de_rollback_io E)
                            (qe_submission_id item) t) S1 of
                     (Inl error, S2) \<Rightarrow> Some (drain_mark_failed (de_now E) error t item S2)
                   | (Inr _, S2) \<Rightarrow>
                       let S3 = update_runtime t (\<lambda>r. r\<lparr>rt_dispatch_retry_attempt := 0\<rparr>) S2;
                           S4 = emit (Turn_start t (qe_turn_start item)
                                  (submission_source_turn_id X (qe_submission_id item))) S3
                       in (case de_turn_start E of
                             Inr turn_id \<Rightarrow> drain_dispatched X E t item turn_id S4
                           | Inl error \<Rightarrow> drain_failed X E t item error S4)))))"

text \<open>The scheduled task: the flag is cleared when the delay is over, then the queue is drained.\<close>

definition auto_dispatch_retry ::
  "queue_ext \<Rightarrow> drain_env \<Rightarrow> str \<Rightarrow> queue_service \<Rightarrow> queue_service option" where
  "auto_dispatch_retry X E t S =
     drain_thread_queue X E t (update_runtime t (\<lambda>r. r\<lparr>rt_dispatch_retry_scheduled := False\<rparr>) S)"

section \<open>Steering\<close>

definition pending_steer_can_bypass_tools :: "bridge_thread_queue_runtime \<Rightarrow> bool \<Rightarrow> bool" where
  "pending_steer_can_bypass_tools rt supports_live =
     ((case rt_pending_steers rt of [] \<Rightarrow> False | e # _ \<Rightarrow> qe_agent_message e \<noteq> None) \<and> supports_live)"

text \<open>First stretch: claim the preparation, if the thread can be steered now.\<close>

definition prepare_steer_claim :: "bool \<Rightarrow> str \<Rightarrow> queue_service \<Rightarrow> (bool \<times> queue_service) option" where
  "prepare_steer_claim supports_live t S =
     (case runtime_of S t of
        None \<Rightarrow> None
      | Some rt \<Rightarrow>
          let live = pending_steer_can_bypass_tools rt supports_live in
          if rt_pending_steers rt = [] \<or> rt_steer_prepare_in_flight rt
             \<or> rt_steer_dispatch_in_flight rt \<noteq> None \<or> rt_turn_start_in_flight rt
             \<or> rt_action_in_flight_item_id rt \<noteq> None
             \<or> (rt_active_tool_call_ids rt \<noteq> {} \<and> \<not> live)
             \<or> (live \<and> (rt_pending_approval_ids rt \<noteq> {} \<or> rt_pending_user_input_ids rt \<noteq> {}))
             \<or> \<not> rt_live_generation_known rt \<or> \<not> rt_thread_running rt
          then None
          else Some (live, set_runtime t (rt\<lparr>rt_steer_prepare_in_flight := True\<rparr>) S))"

text \<open>Second stretch: the agent has answered; \<open>True\<close> means that steering goes on.\<close>

definition prepare_steer_answered ::
  "str \<Rightarrow> str + nat \<Rightarrow> str \<Rightarrow> queue_service \<Rightarrow> bool \<times> queue_service" where
  "prepare_steer_answered now answer t S =
     (case runtime_of S t of
        None \<Rightarrow> (False, S)
      | Some rt \<Rightarrow>
          let rt1 = rt\<lparr>rt_steer_prepare_in_flight := False\<rparr>;
              front = (case rt_pending_steers rt of [] \<Rightarrow> None | e # _ \<Rightarrow> Some e);
              rt2 = (case answer of
                       Inr _ \<Rightarrow> rt1
                     | Inl error \<Rightarrow> rt1\<lparr>rt_last_error_submission_id := map_option qe_submission_id front,
                         rt_last_error := Some (queue_error error ''steer'' now (map_option qe_id front))\<rparr>);
              snap = snapshot_for_thread t (Some rt2);
              auto = (rt_pending_steers rt2 = [] \<and> \<not> rt_thread_running rt2
                      \<and> (rt_items rt2 \<noteq> [] \<or> rt_pending_completion_event_ids rt2 \<noteq> []));
              S1 = set_runtime t rt2 S;
              S2 = (if ts_last_error snap \<noteq> None then emit (Broadcast_queue snap) S1 else S1);
              S3 = (if auto then emit (Spawn_auto_dispatch t) S2 else S2)
          in (ts_last_error snap = None \<and> \<not> auto, S3))"

definition fail_steer_dispatch :: "str \<Rightarrow> str \<Rightarrow> str \<Rightarrow> str \<Rightarrow> queue_service \<Rightarrow> queue_service" where
  "fail_steer_dispatch now t item_id error S =
     (case runtime_of S t of
        None \<Rightarrow> S
      | Some rt \<Rightarrow>
          let rt' = (case rt_steer_dispatch_in_flight rt of
                       None \<Rightarrow> rt\<lparr>rt_last_error_submission_id := None\<rparr>
                     | Some owned \<Rightarrow>
                         rt\<lparr>rt_steer_dispatch_in_flight := None,
                            rt_pending_steers := sd_entry owned # rt_pending_steers rt,
                            rt_last_error_submission_id := Some (qe_submission_id (sd_entry owned))\<rparr>)
                    \<lparr>rt_last_error := Some (queue_error error ''steer'' now (Some item_id))\<rparr>
          in emit (Broadcast_queue (snapshot_for_thread t (Some rt'))) (set_runtime t rt' S))"

text \<open>Third stretch: take the first steering message for delivery.\<close>

datatype 'a steer_decision = Steer_again | Steer_stop | Steer_with 'a

definition begin_steer_dispatch ::
  "bool \<Rightarrow> bool \<Rightarrow> str \<Rightarrow> queue_service \<Rightarrow> pending_steer_dispatch steer_decision \<times> queue_service" where
  "begin_steer_dispatch supports_live prepared_live t S =
     (case runtime_of S t of
        None \<Rightarrow> (Steer_stop, S)
      | Some rt \<Rightarrow>
          let live = pending_steer_can_bypass_tools rt supports_live in
          if live \<noteq> prepared_live then (Steer_again, S)
          else if rt_steer_dispatch_in_flight rt \<noteq> None \<or> rt_turn_start_in_flight rt
             \<or> rt_action_in_flight_item_id rt \<noteq> None
             \<or> (rt_active_tool_call_ids rt \<noteq> {} \<and> \<not> live)
             \<or> \<not> rt_live_generation_known rt \<or> \<not> rt_thread_running rt
             \<or> rt_pending_approval_ids rt \<noteq> {} \<or> rt_pending_user_input_ids rt \<noteq> {}
          then (Steer_stop, S)
          else (case (rt_active_turn_id rt, rt_active_run_id rt, rt_active_prompt_generation rt, rt_pending_steers rt) of
             (Some turn, Some run', Some gen, e # rest) \<Rightarrow>
               let d = \<lparr>sd_entry = e, sd_expected_turn_id = turn, sd_expected_run_id = run',
                        sd_prompt_generation = gen, sd_crossed_completion_boundary = False\<rparr>
               in (Steer_with d, set_runtime t
                     (rt\<lparr>rt_pending_steers := rest, rt_steer_dispatch_in_flight := Some d\<rparr>) S)
           | _ \<Rightarrow> (Steer_stop, S)))"

text \<open>Fourth stretch: the delivery is answered.\<close>

datatype harness_agent_message_outcome = Delivered | Deferred

definition requeued_message :: "bridge_queued_message_entry \<Rightarrow> bridge_queued_message_entry" where
  "requeued_message e =
     e\<lparr>qe_agent_message := map_option (\<lambda>m. m\<lparr>origin_disposition := Message_Queued\<rparr>) (qe_agent_message e)\<rparr>"

text \<open>An undelivered message returns to the front of the steers, or of the queue when the run is over.\<close>

definition return_steer ::
  "pending_steer_dispatch \<Rightarrow> bridge_thread_queue_runtime \<Rightarrow> bridge_thread_queue_runtime" where
  "return_steer owned rt =
     (if sd_crossed_completion_boundary owned
      then rt\<lparr>rt_items := requeued_message (sd_entry owned) # rt_items rt\<rparr>
      else rt\<lparr>rt_pending_steers := sd_entry owned # rt_pending_steers rt\<rparr>)"

definition answered_steer_runtime ::
  "str \<Rightarrow> str + harness_agent_message_outcome \<Rightarrow> pending_steer_dispatch \<Rightarrow> bridge_thread_queue_runtime
     \<Rightarrow> bridge_thread_queue_runtime" where
  "answered_steer_runtime now answer owned rt =
     (let rt0 = rt\<lparr>rt_steer_dispatch_in_flight := None\<rparr> in
      case answer of
        Inr Delivered \<Rightarrow> rt0\<lparr>rt_last_error := None\<rparr>
      | Inr Deferred \<Rightarrow> (return_steer owned rt0)\<lparr>rt_last_error := None\<rparr>
      | Inl e \<Rightarrow>
          (if dispatch_failure_is_indeterminate e then rt0 else return_steer owned rt0)
            \<lparr>rt_last_error := Some (queue_error e ''steer'' now (Some (qe_id (sd_entry owned)))),
             rt_last_error_submission_id := Some (qe_submission_id (sd_entry owned))\<rparr>)"

definition finish_steer_dispatch ::
  "queue_ext \<Rightarrow> io_env list \<Rightarrow> (nat \<Rightarrow> str + unit) \<Rightarrow> str \<Rightarrow> str + harness_agent_message_outcome
     \<Rightarrow> pending_steer_dispatch \<Rightarrow> str \<Rightarrow> queue_service \<Rightarrow> (bool \<times> queue_service) option" where
  "finish_steer_dispatch X ios journal now answer dispatch t S =
     (case runtime_of S t of
        None \<Rightarrow> Some (False, S)
      | Some rt \<Rightarrow>
     (case rt_steer_dispatch_in_flight rt of
        None \<Rightarrow> Some (False, S)
      | Some owned \<Rightarrow>
          if qe_id (sd_entry owned) \<noteq> qe_id (sd_entry dispatch) then Some (False, S)
          else
            let crossed = sd_crossed_completion_boundary owned;
                indeterminate = (case answer of Inl e \<Rightarrow> dispatch_failure_is_indeterminate e | Inr _ \<Rightarrow> False);
                message_id = map_option origin_message_id (qe_agent_message (sd_entry owned));
                rt2 = answered_steer_runtime now answer owned rt;
                snap = snapshot_for_thread t (Some rt2);
                S1 = emit (Broadcast_queue snap) (set_runtime t rt2 S)
            in (case answer of
                  Inr Delivered \<Rightarrow>
                    (case remember_sent_submission_until_persisted X ios
                            \<lparr>resp_submission_id = qe_submission_id (sd_entry owned), resp_disposition = Sent,
                             resp_queue = snap, resp_turn_id = Some (sd_expected_turn_id dispatch)\<rparr> (qs_store S1) of
                       None \<Rightarrow> None
                     | Some st \<Rightarrow>
                         let S2 = S1\<lparr>qs_store := st\<rparr> in
                         Some (True, case message_id of
                                       None \<Rightarrow> S2
                                     | Some m \<Rightarrow> snd (persist_agent_message_disposition journal m Message_Sent S2)))
                | Inr Deferred \<Rightarrow>
                    let S2 = (case (crossed, message_id) of
                                (True, Some m) \<Rightarrow> snd (persist_agent_message_disposition journal m Message_Queued S1)
                              | _ \<Rightarrow> S1)
                    in Some (False, if crossed then emit (Spawn_auto_dispatch t) S2 else S2)
                | Inl _ \<Rightarrow>
                    let S2 = (case (indeterminate, crossed, message_id) of
                                (True, _, Some m) \<Rightarrow> snd (persist_agent_message_disposition journal m Message_Cancelled S1)
                              | (False, True, Some m) \<Rightarrow> snd (persist_agent_message_disposition journal m Message_Queued S1)
                              | _ \<Rightarrow> S1)
                    in Some (False, emit (Spawn_auto_dispatch t) S2))))"

text \<open>
  One round of the loop per answer of the agent. \<open>None\<close> is a loop that still waits, and the panic of
  \<open>result.expect(...)\<close> when a refused preparation left no visible error.
\<close>

record steer_env =
  sv_supports_live :: bool
  sv_prepare :: "str + nat"
  sv_verify :: "str + bool"
  sv_deliver :: "str + harness_agent_message_outcome"
  sv_remember_ios :: "io_env list"
  sv_journal :: "nat \<Rightarrow> str + unit"
  sv_now :: str

fun steer_rounds ::
  "(json \<Rightarrow> content_block option) \<Rightarrow> queue_ext \<Rightarrow> steer_env list \<Rightarrow> str \<Rightarrow> queue_service \<Rightarrow> queue_service option" where
  "steer_rounds schema X [] t S = None"
| "steer_rounds schema X (E # Es) t S =
     (case prepare_steer_claim (sv_supports_live E) t S of
        None \<Rightarrow> Some S
      | Some (prepared_live, S1) \<Rightarrow>
     (case prepare_steer_answered (sv_now E) (sv_prepare E) t S1 of
        (False, S2) \<Rightarrow> Some S2
      | (True, S2) \<Rightarrow>
     (case sv_prepare E of
        Inl _ \<Rightarrow> None
      | Inr epoch \<Rightarrow>
     (case sv_verify E of
        Inl error \<Rightarrow> Some (fail_steer_dispatch (sv_now E) t ''prepare'' error S2)
      | Inr False \<Rightarrow> steer_rounds schema X Es t S2
      | Inr True \<Rightarrow>
     (case begin_steer_dispatch (sv_supports_live E) prepared_live t S2 of
        (Steer_again, S3) \<Rightarrow> steer_rounds schema X Es t S3
      | (Steer_stop, S3) \<Rightarrow> Some S3
      | (Steer_with d, S3) \<Rightarrow>
     (case bridge_prompt schema (qe_turn_start (sd_entry d)) of
        Inl error \<Rightarrow> Some (fail_steer_dispatch (sv_now E) t (qe_id (sd_entry d)) error S3)
      | Inr prompt \<Rightarrow>
     (case finish_steer_dispatch X (sv_remember_ios E) (sv_journal E) (sv_now E) (sv_deliver E) d t S3 of
        None \<Rightarrow> None
      | Some (False, S4) \<Rightarrow> Some S4
      | Some (True, S4) \<Rightarrow> steer_rounds schema X Es t S4)))))))"

definition drain_pending_steers ::
  "(json \<Rightarrow> content_block option) \<Rightarrow> queue_ext \<Rightarrow> steer_env list \<Rightarrow> str \<Rightarrow> queue_service \<Rightarrow> queue_service option" where
  "drain_pending_steers schema X Es t S =
     (case admit (qs_fence S) t of Inl _ \<Rightarrow> Some S | Inr _ \<Rightarrow> steer_rounds schema X Es t S)"

section \<open>Canonical events\<close>

definition run_started :: "str \<Rightarrow> str \<Rightarrow> str \<Rightarrow> nat \<Rightarrow> queue_service \<Rightarrow> queue_service" where
  "run_started t run_id source_turn_id gen S =
     (let rt = runtime_or_default S t;
          rt' = rt\<lparr>rt_pending_completion_event_ids := [], rt_thread_running := True,
            rt_turn_start_in_flight := False, rt_active_turn_id := Some source_turn_id,
            rt_active_run_id := Some run_id, rt_active_prompt_generation := Some gen,
            rt_active_tool_call_ids := {}, rt_live_generation_known := True, rt_last_error := None\<rparr>
      in record_completions (rt_pending_completion_event_ids rt) Continued (set_runtime t rt' S))"

text \<open>\<open>while let Some(entry) = pending_steers.pop_back()\<close>: the steers return to the front of the queue.\<close>

function requeue_steers ::
  "bridge_queued_message_entry list \<Rightarrow> bridge_queued_message_entry list \<Rightarrow> str list
     \<Rightarrow> bridge_queued_message_entry list \<times> str list" where
  "requeue_steers steers items ids =
     (if steers = [] then (items, ids)
      else let e = last steers in
        requeue_steers (butlast steers) (requeued_message e # items)
          (case qe_agent_message e of None \<Rightarrow> ids | Some m \<Rightarrow> ids @ [origin_message_id m]))"
  by pat_completeness auto
termination
  by (relation "measure (\<lambda>p. length (fst p))") auto

declare requeue_steers.simps [simp del]

definition run_ended ::
  "(str \<Rightarrow> nat \<Rightarrow> str + unit) \<Rightarrow> nat \<Rightarrow> str \<Rightarrow> str \<Rightarrow> nat \<Rightarrow> queue_service \<Rightarrow> queue_service" where
  "run_ended journal event_id t source_turn_id gen S =
     (let rt = runtime_or_default S t in
      if rt_active_turn_id rt \<noteq> Some source_turn_id \<or> rt_active_prompt_generation rt \<noteq> Some gen
      then set_runtime t rt S
      else
        let continuing = rt_turn_start_in_flight rt;
            preparing = rt_steer_prepare_in_flight rt
        in (case requeue_steers (rt_pending_steers rt) (rt_items rt) [] of
              (items, requeued) \<Rightarrow>
        let rt1 = rt\<lparr>rt_thread_running := False,
              rt_active_turn_id := (if continuing then rt_active_turn_id rt else None),
              rt_active_run_id := (if continuing then rt_active_run_id rt else None),
              rt_active_prompt_generation := (if continuing then rt_active_prompt_generation rt else None),
              rt_active_tool_call_ids := {}, rt_live_generation_known := False,
              rt_pending_approval_ids := {}, rt_pending_user_input_ids := {},
              rt_pending_steers := [], rt_items := items,
              rt_steer_dispatch_in_flight := map_option (\<lambda>d. d\<lparr>sd_crossed_completion_boundary := True\<rparr>)
                (rt_steer_dispatch_in_flight rt)\<rparr>;
            should_dispatch = (\<not> continuing \<and> \<not> preparing \<and> rt_steer_dispatch_in_flight rt = None
              \<and> rt_editing_item_id rt = None \<and> items \<noteq> []);
            should_wait = (continuing \<or> preparing \<or> rt_steer_dispatch_in_flight rt \<noteq> None);
            auto = (continuing \<or> preparing \<or> should_dispatch);
            record_now = (\<not> auto \<and> (rt_editing_item_id rt \<noteq> None \<or> \<not> should_wait));
            rt2 = (if auto then rt1\<lparr>rt_pending_completion_event_ids :=
                     rt_pending_completion_event_ids rt1 @ [event_id]\<rparr> else rt1);
            S1 = set_runtime t rt2 S;
            S2 = fold (\<lambda>m z. snd (persist_agent_message_disposition (journal m) m Message_Queued z)) requeued S1
        in if auto then emit (Spawn_auto_dispatch t) S2
           else if record_now then record_completion_disposition event_id Final S2 else S2))"

definition tool_event ::
  "str \<Rightarrow> str option \<Rightarrow> str option \<Rightarrow> nat option \<Rightarrow> str \<Rightarrow> str \<Rightarrow> queue_service \<Rightarrow> queue_service" where
  "tool_event t run_id source_turn_id gen tool_call_id tool_status S =
     (let rt = runtime_or_default S t; S0 = set_runtime t rt S in
      if gen \<noteq> rt_active_prompt_generation rt \<or> run_id \<noteq> rt_active_run_id rt
         \<or> source_turn_id \<noteq> rt_active_turn_id rt
      then S0
      else
        let settle = (\<lambda>rt'. let S1 = set_runtime t rt' S in
              if rt_active_tool_call_ids rt' = {} \<and> rt_pending_steers rt' \<noteq> []
                 \<and> rt_steer_dispatch_in_flight rt' = None
              then emit (Spawn_steer_dispatch t) S1 else S1)
        in if tool_status = ''pending'' \<or> tool_status = ''in_progress''
           then settle (rt\<lparr>rt_active_tool_call_ids := insert tool_call_id (rt_active_tool_call_ids rt)\<rparr>)
           else if tool_status = ''completed'' \<or> tool_status = ''failed''
           then settle (rt\<lparr>rt_active_tool_call_ids := rt_active_tool_call_ids rt - {tool_call_id}\<rparr>)
           else set_runtime t (rt\<lparr>rt_live_generation_known := False\<rparr>) S)"

text \<open>An interaction was resolved: steering may go on when nothing else holds it back.\<close>

definition interaction_resolved ::
  "bool \<Rightarrow> str \<Rightarrow> (bridge_thread_queue_runtime \<Rightarrow> bridge_thread_queue_runtime) \<Rightarrow> queue_service \<Rightarrow> queue_service" where
  "interaction_resolved supports_live t f S =
     (case runtime_of S t of
        None \<Rightarrow> S
      | Some rt \<Rightarrow>
          let rt' = f rt; S1 = set_runtime t rt' S in
          if rt_pending_approval_ids rt' = {} \<and> rt_pending_user_input_ids rt' = {}
             \<and> (rt_active_tool_call_ids rt' = {} \<or> pending_steer_can_bypass_tools rt' supports_live)
             \<and> rt_pending_steers rt' \<noteq> []
          then emit (Spawn_steer_dispatch t) S1 else S1)"

definition handle_canonical_event ::
  "bool \<Rightarrow> (str \<Rightarrow> nat \<Rightarrow> str + unit) \<Rightarrow> nat \<Rightarrow> canonical_event \<Rightarrow> queue_service \<Rightarrow> queue_service" where
  "handle_canonical_event supports_live journal event_id ev S =
     (case event_thread_id ev of
        None \<Rightarrow> S
      | Some t \<Rightarrow>
     (case admit (qs_fence S) t of
        Inl _ \<Rightarrow> S
      | Inr _ \<Rightarrow>
     (case ev of
        RunStarted _ t run_id source_turn_id gen \<Rightarrow> run_started t run_id source_turn_id gen S
      | RunFinished _ t _ source_turn_id gen _ \<Rightarrow> run_ended journal event_id t source_turn_id gen S
      | RunFailed _ t _ source_turn_id gen _ \<Rightarrow> run_ended journal event_id t source_turn_id gen S
      | Tool _ t run_id source_turn_id gen tool_call_id _ tool_status _ _ _ _ \<Rightarrow>
          tool_event t run_id source_turn_id gen tool_call_id tool_status S
      | PermissionRequested a \<Rightarrow>
          let rt = runtime_or_default S (approval_thread_id a) in
          set_runtime (approval_thread_id a)
            (rt\<lparr>rt_pending_approval_ids := insert (approval_request_id a) (rt_pending_approval_ids rt)\<rparr>) S
      | PermissionResolved _ t request_id _ \<Rightarrow>
          interaction_resolved supports_live t
            (\<lambda>rt. rt\<lparr>rt_pending_approval_ids := rt_pending_approval_ids rt - {request_id}\<rparr>) S
      | ElicitationRequested r \<Rightarrow>
          let rt = runtime_or_default S (input_thread_id r) in
          set_runtime (input_thread_id r)
            (rt\<lparr>rt_pending_user_input_ids := insert (input_request_id r) (rt_pending_user_input_ids rt)\<rparr>) S
      | ElicitationResolved _ t request_id _ \<Rightarrow>
          interaction_resolved supports_live t
            (\<lambda>rt. rt\<lparr>rt_pending_user_input_ids := rt_pending_user_input_ids rt - {request_id}\<rparr>) S
      | _ \<Rightarrow> S)))"

end
