(* ===== verification/Queue_Agent.thy ===== *)
theory Queue_Agent
  imports Queue_Dispatch
begin

text \<open>
  More of \<open>BridgeQueueService\<close> (\<open>services/rust-bridge/src/queue_service.rs\<close>): messages from one agent to
  another, the reconciliation of all threads with the agents, the status for the health report, and
  the wait for the fate of a completed run.
\<close>

section \<open>Agent messages\<close>

text \<open>
  The answers of the world to one agent message: of the send, of the agent-message journal, and of
  the agent about steering.
\<close>

record agent_send_env =
  ae_send :: send_env
  ae_record :: "str + unit"
  ae_settle :: "nat \<Rightarrow> str + unit"
  ae_supports_steer :: "str + bool"
  ae_snapshot :: "str + queue_runtime_snapshot"
  ae_steer_supports :: "str + bool"
  ae_accept :: "nat \<Rightarrow> str + unit"

definition agent_message_turn_start :: "str \<Rightarrow> json" where
  "agent_message_turn_start content =
     JObject [(''input'', JArray [JObject [(''type'', JString ''text''), (''text'', JString content),
       (''text_elements'', JArray [])]])]"

definition agent_submission_id :: "agent_message_envelope \<Rightarrow> str" where
  "agent_submission_id e = ''agent-message:'' @ env_message_id e"

definition agent_send_request :: "json_text \<Rightarrow> agent_message_envelope \<Rightarrow> bridge_thread_queue_send_request" where
  "agent_send_request J e =
     \<lparr>sq_thread_id = recipient_thread_id e, sq_submission_id = agent_submission_id e,
      sq_content = envelope_encode J e, sq_turn_start = agent_message_turn_start (envelope_encode J e)\<rparr>"

text \<open>A send that failed: the recorded activity is settled as cancelled, or removed.\<close>

definition agent_message_failed :: "agent_send_env \<Rightarrow> str \<Rightarrow> str \<Rightarrow> queue_service \<Rightarrow> queue_service" where
  "agent_message_failed A message_id error S =
     (if dispatch_failure_is_indeterminate error
      then snd (persist_agent_message_disposition (ae_settle A) message_id Message_Cancelled S)
      else emit (Remove_agent_message message_id) S)"

text \<open>The steering of a message that was queued, where the agent supports it.\<close>

definition steer_agent_message ::
  "agent_send_env \<Rightarrow> agent_message_envelope \<Rightarrow> queue_service \<Rightarrow> agent_message_disposition \<times> queue_service" where
  "steer_agent_message A e S =
     (case runtime_of S (recipient_thread_id e) of
        None \<Rightarrow> (Message_Queued, S)
      | Some rt \<Rightarrow>
          (case find (\<lambda>i. qe_submission_id i = agent_submission_id e) (rt_items rt) of
             None \<Rightarrow> (Message_Queued, S)
           | Some item \<Rightarrow>
               if ae_supports_steer A \<noteq> Ok True then (Message_Queued, S)
               else (case steer_message_inner (ae_snapshot A) (ae_steer_supports A)
                            \<lparr>stq_thread_id = recipient_thread_id e, stq_item_id = qe_id item\<rparr> True S of
                       (Inr _, S') \<Rightarrow> (Message_Steering, S')
                     | (Inl _, S') \<Rightarrow> (Message_Queued, S'))))"

definition agent_message_accepted ::
  "agent_send_env \<Rightarrow> agent_message_envelope \<Rightarrow> agent_message_disposition \<Rightarrow> queue_service \<Rightarrow> queue_service" where
  "agent_message_accepted A e disposition S =
     (let S1 = (if disposition = Message_Queued then emit (Publish_agent_message (env_message_id e)) S
        else (case persist_agent_message_disposition (ae_accept A) (env_message_id e) disposition S of
                (Inr _, S') \<Rightarrow> S'
              | (Inl _, S') \<Rightarrow> emit (Publish_agent_message (env_message_id e)) S'))
      in if disposition = Message_Steering then emit (Spawn_steer_dispatch (recipient_thread_id e)) S1 else S1)"

definition send_agent_message ::
  "queue_ext \<Rightarrow> agent_send_env \<Rightarrow> agent_message_envelope \<Rightarrow> agent_message_origin \<Rightarrow> agent_message_origin
     \<Rightarrow> queue_service \<Rightarrow> ((str + agent_message_disposition) \<times> queue_service) option" where
  "send_agent_message X A e recipient_origin sender_origin S =
     (case admit_threads (qs_fence S) [sender_thread_id e, recipient_thread_id e] of
        Inl err \<Rightarrow> Some (Err err, S)
      | Inr _ \<Rightarrow>
          let S1 = emit (Record_agent_messages
                [(recipient_thread_id e, recipient_origin), (sender_thread_id e, sender_origin)]) S
          in (case ae_record A of
                Inl err \<Rightarrow> Some (Err err, S1)
              | Inr _ \<Rightarrow>
          (case send_message_with_origin X (ae_send A) (agent_send_request (qx_json X) e)
                  (Some recipient_origin) True S1 of
             None \<Rightarrow> None
           | Some (Inl err, S2) \<Rightarrow> Some (Err err, agent_message_failed A (env_message_id e) err S2)
           | Some (Inr result, S2) \<Rightarrow>
               let (disposition, S3) = (if resp_disposition result = Sent then (Message_Sent, S2)
                     else steer_agent_message A e S2)
               in Some (Ok disposition, agent_message_accepted A e disposition S3))))"

section \<open>Reconciliation\<close>

text \<open>One thread: what the agent says replaces what the queue believed; an error makes it cautious.\<close>

definition reconciled_runtime ::
  "bridge_thread_queue_runtime \<Rightarrow> bridge_thread_queue_runtime \<Rightarrow> bridge_thread_queue_runtime" where
  "reconciled_runtime hydrated rt =
     rt\<lparr>rt_active_turn_id := rt_active_turn_id hydrated, rt_active_run_id := rt_active_run_id hydrated,
        rt_active_prompt_generation := rt_active_prompt_generation hydrated,
        rt_active_tool_call_ids := rt_active_tool_call_ids hydrated,
        rt_live_generation_known := rt_live_generation_known hydrated,
        rt_thread_running := rt_thread_running hydrated,
        rt_pending_approval_ids := rt_pending_approval_ids hydrated,
        rt_pending_user_input_ids := rt_pending_user_input_ids hydrated\<rparr>"

definition unreconciled_runtime :: "str \<Rightarrow> str \<Rightarrow> bridge_thread_queue_runtime \<Rightarrow> bridge_thread_queue_runtime" where
  "unreconciled_runtime now error rt =
     rt\<lparr>rt_thread_running := True, rt_live_generation_known := False, rt_active_tool_call_ids := {},
        rt_last_error := Some (queue_error error ''reconcile'' now None), rt_last_error_submission_id := None\<rparr>"

definition reconcile_thread :: "str + queue_runtime_snapshot \<Rightarrow> str \<Rightarrow> str \<Rightarrow> queue_service \<Rightarrow> queue_service" where
  "reconcile_thread answer now t S =
     (case answer of
        Inl error \<Rightarrow> update_runtime t (unreconciled_runtime now error) S
      | Inr snap \<Rightarrow>
          let S1 = update_runtime t (reconciled_runtime (hydrate_thread_runtime snap)) S in
          (case runtime_of S1 t of
             None \<Rightarrow> S1
           | Some rt \<Rightarrow>
               if rt_pending_steers rt \<noteq> [] \<and> rt_active_tool_call_ids rt = {} \<and> rt_live_generation_known rt
               then emit (Spawn_steer_dispatch t) S1 else S1))"

text \<open>The loop over the threads that were tracked at its start, with the answer for each.\<close>

definition reconcile_all_threads ::
  "(str \<Rightarrow> str + queue_runtime_snapshot) \<Rightarrow> (str \<Rightarrow> str) \<Rightarrow> queue_service \<Rightarrow> queue_service" where
  "reconcile_all_threads answers now S =
     fold (\<lambda>t. reconcile_thread (answers t) (now t) t) (map fst (qs_threads S)) S"

section \<open>Deletion of threads\<close>

text \<open>The operations on the fence, with the barrier against admissions held.\<close>

definition begin_retirement_fence :: "str list \<Rightarrow> queue_service \<Rightarrow> (str + retirement_lease) \<times> queue_service" where
  "begin_retirement_fence thread_ids S =
     (case normalize_retiring_thread_ids thread_ids of
        Inl e \<Rightarrow> (Err e, S)
      | Inr ids \<Rightarrow> (case begin_blocked (qs_fence S) ids of (lease, fence) \<Rightarrow> (Ok lease, S\<lparr>qs_fence := fence\<rparr>)))"

definition install_deleted_thread_tombstones :: "str list \<Rightarrow> queue_service \<Rightarrow> (str + unit) \<times> queue_service" where
  "install_deleted_thread_tombstones thread_ids S =
     (case normalize_retiring_thread_ids thread_ids of
        Inl e \<Rightarrow> (Err e, S)
      | Inr ids \<Rightarrow> (Ok (), S\<lparr>qs_fence := mark_deleted_blocked (qs_fence S) ids\<rparr>))"

text \<open>The deletion of a family of threads from the queue alone.\<close>

definition retire_threads :: "queue_ext \<Rightarrow> io_env \<Rightarrow> str list \<Rightarrow> queue_service \<Rightarrow> (str + unit) \<times> queue_service" where
  "retire_threads X env thread_ids S =
     (case begin_retirement_fence thread_ids S of
        (Inl e, S1) \<Rightarrow> (Err e, S1)
      | (Inr lease, S1) \<Rightarrow>
          let end_fence = (\<lambda>S. S\<lparr>qs_fence := finish lease (qs_fence S)\<rparr>) in
          (case begin_thread_retirement thread_ids of
             Inl e \<Rightarrow> (Err e, end_fence S1)
           | Inr ids \<Rightarrow>
               (case commit_thread_retirement X env ids S1 of
                  (Inl e, S2) \<Rightarrow> (Err e, end_fence S2)
                | (Inr _, S2) \<Rightarrow> (Ok (), end_fence (publish_thread_retirement thread_ids S2)))))"

section \<open>Status\<close>

record queue_status =
  qst_tracked_threads :: nat
  qst_depth :: nat
  qst_busy_threads :: nat
  qst_active_runs :: nat
  qst_pending_steers :: nat
  qst_pending_approvals :: nat
  qst_pending_user_inputs :: nat
  qst_other_live_work :: nat

definition queue_status_of :: "queue_ext \<Rightarrow> io_env \<Rightarrow> nat \<Rightarrow> queue_service \<Rightarrow> queue_status \<times> queue_service" where
  "queue_status_of X env settlements_active S =
     (let S' = (if submission_dirty (qs_store S) then snd (on_store (persist_submission_store_locked X env) S) else S);
          blockers = sat_add (of_bool (submission_dirty (qs_store S'))) settlements_active;
          rts = map snd (qs_threads S')
      in (\<lparr>qst_tracked_threads = length rts,
           qst_depth = sum_list (map (\<lambda>rt. length (rt_items rt)) rts),
           qst_busy_threads = length (filter runtime_is_blocked_or_occupied rts),
           qst_active_runs = length (filter (\<lambda>rt. rt_thread_running rt \<or> rt_active_run_id rt \<noteq> None \<or> rt_turn_start_in_flight rt) rts),
           qst_pending_steers = sum_list (map (\<lambda>rt. length (rt_pending_steers rt) + of_bool (rt_steer_dispatch_in_flight rt \<noteq> None)) rts),
           qst_pending_approvals = sum_list (map (\<lambda>rt. card (rt_pending_approval_ids rt)) rts),
           qst_pending_user_inputs = sum_list (map (\<lambda>rt. card (rt_pending_user_input_ids rt)) rts),
           qst_other_live_work = sat_add
             (sum_list (map (\<lambda>rt. of_bool (rt_editing_item_id rt \<noteq> None) + of_bool (rt_steer_prepare_in_flight rt)
                + of_bool (rt_action_in_flight_item_id rt \<noteq> None) + length (rt_pending_completion_event_ids rt)) rts))
             blockers\<rparr>, S'))"

section \<open>Completions\<close>

definition QUEUE_COMPLETION_DISPOSITION_WAIT_MS :: nat where "QUEUE_COMPLETION_DISPOSITION_WAIT_MS = 2000"

definition take_completion_disposition ::
  "nat \<Rightarrow> queue_service \<Rightarrow> queue_completion_disposition option \<times> queue_service" where
  "take_completion_disposition event_id S =
     (map_of (qs_completion_dispositions S) event_id,
      S\<lparr>qs_completion_dispositions := bt_remove event_id (qs_completion_dispositions S)\<rparr>)"

text \<open>
  The wait: each poll has the state it finds, the time, and whether a notification ends the wait that
  follows it before the deadline.
\<close>

fun wait_for_completion_disposition ::
  "nat \<Rightarrow> nat \<Rightarrow> (queue_service \<times> nat \<times> bool) list \<Rightarrow> queue_completion_disposition option" where
  "wait_for_completion_disposition event_id started [] = None"
| "wait_for_completion_disposition event_id started ((S, now, notified) # polls) =
     (case fst (take_completion_disposition event_id S) of
        Some d \<Rightarrow> Some d
      | None \<Rightarrow>
          if started + QUEUE_COMPLETION_DISPOSITION_WAIT_MS \<le> now \<or> \<not> notified then None
          else wait_for_completion_disposition event_id started polls)"

end
