(* ===== verification/Message_Queue.thy ===== *)
theory Message_Queue
  imports Queue_Agent "HOL-Library.Multiset"
begin

text \<open>
  What the queue of a thread promises, as an abstract machine: messages wait in \<open>mq_items\<close>, may be
  moved to \<open>mq_steers\<close> to be delivered into the running turn, and one of them may be on its way.
  \<open>mq_step n m\<close> lists every way in which such a queue changes while the next message number goes
  from \<open>n\<close> to \<open>m\<close>;
  \<open>mq_ok\<close> is its invariant. \<open>Queue_Refinement\<close> shows that the operations of the queue service are
  steps of this machine.
\<close>

record message_queue =
  mq_items :: "bridge_queued_message_entry list"
  mq_steers :: "bridge_queued_message_entry list"
  mq_in_flight :: "bridge_queued_message_entry option"
  mq_editing :: "str option"

definition mq_empty :: message_queue where
  "mq_empty = \<lparr>mq_items = [], mq_steers = [], mq_in_flight = None, mq_editing = None\<rparr>"

definition queue_item_id :: "nat \<Rightarrow> str" where
  "queue_item_id n = ''queue-'' @ show_nat n"

definition withdrawn_edit :: "bridge_queued_message_entry \<Rightarrow> str option \<Rightarrow> str option" where
  "withdrawn_edit e editing = (if editing = Some (qe_id e) then None else editing)"

inductive mq_step :: "nat \<Rightarrow> nat \<Rightarrow> message_queue \<Rightarrow> message_queue \<Rightarrow> bool" for n m where
  keep: "mq_step n m q q"
| accept: "qe_id e = queue_item_id n \<Longrightarrow> n < m \<Longrightarrow> mq_step n m q (q\<lparr>mq_items := mq_items q @ [e]\<rparr>)"
| dispatch: "mq_items q = e # es \<Longrightarrow> mq_steers q = [] \<Longrightarrow> mq_in_flight q = None \<Longrightarrow> mq_editing q = None \<Longrightarrow>
    mq_step n m q (q\<lparr>mq_items := es\<rparr>)"
| steer: "take_first P (mq_items q) = Some (e, rest) \<Longrightarrow> \<not> is_scheduled_prompt_entry e \<Longrightarrow> mq_editing q = None \<Longrightarrow>
    mq_step n m q (q\<lparr>mq_items := rest, mq_steers := mq_steers q @ [steering_message e]\<rparr>)"
| deliver_begin: "mq_steers q = e # es \<Longrightarrow> mq_in_flight q = None \<Longrightarrow>
    mq_step n m q (q\<lparr>mq_steers := es, mq_in_flight := Some e\<rparr>)"
| deliver_end: "mq_step n m q (q\<lparr>mq_in_flight := None\<rparr>)"
| deliver_return: "mq_in_flight q = Some e \<Longrightarrow>
    mq_step n m q (q\<lparr>mq_in_flight := None, mq_steers := e # mq_steers q\<rparr>)"
| deliver_requeue: "mq_in_flight q = Some e \<Longrightarrow>
    mq_step n m q (q\<lparr>mq_in_flight := None, mq_items := requeued_message e # mq_items q\<rparr>)"
| run_end: "mq_step n m q (q\<lparr>mq_steers := [], mq_items := map requeued_message (mq_steers q) @ mq_items q\<rparr>)"
| withdraw_item: "take_first P (mq_items q) = Some (e, rest) \<Longrightarrow>
    mq_step n m q (q\<lparr>mq_items := rest, mq_editing := withdrawn_edit e (mq_editing q)\<rparr>)"
| withdraw_steer: "take_first P (mq_steers q) = Some (e, rest) \<Longrightarrow> ed \<in> {mq_editing q, withdrawn_edit e (mq_editing q)} \<Longrightarrow>
    mq_step n m q (q\<lparr>mq_steers := rest, mq_editing := ed\<rparr>)"
| edit_begin: "mq_items q = e # es \<Longrightarrow> \<not> is_scheduled_prompt_entry e \<Longrightarrow> qe_agent_message e = None \<Longrightarrow>
    mq_steers q = [] \<Longrightarrow> mq_in_flight q = None \<Longrightarrow>
    mq_step n m q (q\<lparr>mq_editing := Some (qe_id e)\<rparr>)"
| edit_commit: "mq_editing q = Some i \<Longrightarrow> take_first (\<lambda>e. qe_id e = i) (mq_items q) = Some (e, rest) \<Longrightarrow>
    mq_step n m q (q\<lparr>mq_items := replace_first (\<lambda>e. qe_id e = i) (e\<lparr>qe_content := c, qe_turn_start := ts\<rparr>) (mq_items q),
                   mq_editing := None\<rparr>)"
| edit_cancel: "mq_step n m q (q\<lparr>mq_editing := None\<rparr>)"

section \<open>The invariant\<close>

definition mq_ids :: "message_queue \<Rightarrow> str list" where
  "mq_ids q = map qe_id (mq_items q @ mq_steers q @ (case mq_in_flight q of None \<Rightarrow> [] | Some e \<Rightarrow> [e]))"

text \<open>
  Message numbers are unique and below the next one; nothing the scheduler owns is steered; a
  message being edited is the next one, and steering waits for it.
\<close>

definition numbered :: "nat \<Rightarrow> str list \<Rightarrow> bool" where
  "numbered n ids = (distinct ids \<and> (\<forall>i \<in> set ids. \<exists>k < n. i = queue_item_id k))"

definition edit_ok :: "message_queue \<Rightarrow> bool" where
  "edit_ok q =
     (case mq_editing q of
        None \<Rightarrow> True
      | Some i \<Rightarrow> mq_steers q = [] \<and> mq_in_flight q = None
          \<and> (case mq_items q of
               [] \<Rightarrow> False
             | e # _ \<Rightarrow> qe_id e = i \<and> \<not> is_scheduled_prompt_entry e \<and> qe_agent_message e = None))"

definition mq_ok :: "nat \<Rightarrow> message_queue \<Rightarrow> bool" where
  "mq_ok n q =
     (numbered n (mq_ids q) \<and> edit_ok q
      \<and> (\<forall>e \<in> set (mq_steers q) \<union> set_option (mq_in_flight q). \<not> is_scheduled_prompt_entry e))"

lemma queue_item_id_inj [simp]: "queue_item_id m = queue_item_id n \<longleftrightarrow> m = n"
  by (simp add: queue_item_id_def)

lemma relabelled_entry [simp]:
  "qe_id (requeued_message e) = qe_id e" "qe_id (steering_message e) = qe_id e"
  "is_scheduled_prompt_entry (requeued_message e) = is_scheduled_prompt_entry e"
  "is_scheduled_prompt_entry (steering_message e) = is_scheduled_prompt_entry e"
  by (simp_all add: requeued_message_def steering_message_def is_scheduled_prompt_entry_def)

lemma take_first_Some:
  "take_first P xs = Some (x, rest) \<Longrightarrow>
     \<exists>as bs. xs = as @ x # bs \<and> rest = as @ bs \<and> P x \<and> (\<forall>a \<in> set as. \<not> P a)"
proof (induction xs arbitrary: rest)
  case (Cons y ys)
  show ?case
  proof (cases "P y")
    case True
    then show ?thesis using Cons.prems by (intro exI [of _ "[]"] exI [of _ ys]) simp
  next
    case False
    then obtain r where r: "take_first P ys = Some (x, r)" "rest = y # r" using Cons.prems by auto
    obtain as bs where "ys = as @ x # bs \<and> r = as @ bs \<and> P x \<and> (\<forall>a \<in> set as. \<not> P a)"
      using Cons.IH [OF r(1)] by (elim exE)
    then show ?thesis using r(2) False by (intro exI [of _ "y # as"] exI [of _ bs]) simp
  qed
qed simp

lemma replace_first_Some:
  assumes "take_first P xs = Some (x, rest)"
  shows "\<exists>as bs. xs = as @ x # bs \<and> replace_first P y xs = as @ y # bs \<and> P x"
proof -
  have "replace_first P y (as @ x # bs) = as @ y # bs" if "P x" "\<forall>a \<in> set as. \<not> P a" for as bs
    using that by (induction as) auto
  with take_first_Some [OF assms] show ?thesis by blast
qed

lemma mq_ok_empty [simp]: "mq_ok n mq_empty"
  by (simp add: mq_ok_def mq_empty_def mq_ids_def numbered_def edit_ok_def)

lemma numbered_subset:
  assumes "mset ids' \<subseteq># mset ids" "numbered n ids" "n \<le> m"
  shows "numbered m ids'"
proof -
  have "mset ids \<subseteq># mset_set (set ids)" using assms(2) by (simp add: numbered_def mset_set_set)
  then have "mset ids' \<subseteq># mset_set (set ids)" using assms(1) by (rule subset_mset.order_trans [rotated])
  then have "count (mset ids') a \<le> 1" for a
    by (rule order_trans [OF mset_subset_eq_count]) (simp add: count_mset_set')
  then have "distinct ids'" by (auto simp: distinct_count_atmost_1 le_Suc_eq count_mset_0_iff)
  moreover have "set ids' \<subseteq> set ids" using set_mset_mono [OF assms(1)] by simp
  ultimately show ?thesis using assms(2,3) by (fastforce simp: numbered_def)
qed

lemma numbered_accept:
  assumes "numbered n ids"
  shows "queue_item_id n \<notin> set ids" "mset ids' = add_mset (queue_item_id n) (mset ids) \<Longrightarrow> n < m \<Longrightarrow> numbered m ids'"
proof -
  show new: "queue_item_id n \<notin> set ids" using assms by (auto simp: numbered_def)
  assume less: "n < m" and m: "mset ids' = add_mset (queue_item_id n) (mset ids)"
  then have "set ids' = insert (queue_item_id n) (set ids)" by (metis set_mset_add_mset_insert set_mset_mset)
  moreover have "distinct ids'"
  proof -
    have "mset ids' = mset (queue_item_id n # ids)" using m by simp
    then show ?thesis using new assms by (metis distinct.simps(2) mset_eq_imp_distinct_iff numbered_def)
  qed
  ultimately show "numbered m ids'" using assms less by (auto simp: numbered_def intro: less_trans)
qed

lemma mset_mq_ids:
  "mset (mq_ids q) = image_mset qe_id (mset (mq_items q)) + image_mset qe_id (mset (mq_steers q))
     + (case mq_in_flight q of None \<Rightarrow> {#} | Some e \<Rightarrow> {#qe_id e#})"
  by (simp add: mq_ids_def split: option.split)

text \<open>Every step keeps the message numbers unique.\<close>

lemma mq_step_numbered:
  assumes "mq_step n m q q'" "numbered n (mq_ids q)" "n \<le> m"
  shows "numbered m (mq_ids q')"
proof -
  have "mset (mq_ids q') \<subseteq># mset (mq_ids q) \<or> n < m \<and> mset (mq_ids q') = add_mset (queue_item_id n) (mset (mq_ids q))"
    using assms(1)
  proof cases
    case (edit_commit i e rest ts c)
    obtain as bs where "mq_items q = as @ e # bs"
        "replace_first (\<lambda>e. qe_id e = i) (e\<lparr>qe_content := c, qe_turn_start := ts\<rparr>) (mq_items q)
           = as @ e\<lparr>qe_content := c, qe_turn_start := ts\<rparr> # bs"
      using replace_first_Some [OF edit_commit(3)] by blast
    then show ?thesis using edit_commit(1) by (simp add: mset_mq_ids)
  next
    case run_end
    then show ?thesis by (simp add: mset_mq_ids image_mset.compositionality comp_def)
  qed (auto simp: mset_mq_ids subseteq_mset_def dest!: take_first_Some split: option.splits if_splits)
  then show ?thesis using numbered_subset [OF _ assms(2,3)] numbered_accept [OF assms(2)] by blast
qed

text \<open>Every step keeps the invariant; the next number grows when a message is accepted.\<close>

lemma mq_step_ok:
  assumes "mq_step n m q q'" "mq_ok n q" "n \<le> m"
  shows "mq_ok m q'"
proof -
  have edit: "edit_ok q" and sched: "\<forall>e \<in> set (mq_steers q) \<union> set_option (mq_in_flight q). \<not> is_scheduled_prompt_entry e"
    and num: "numbered n (mq_ids q)" using assms(2) by (simp_all add: mq_ok_def)
  have "edit_ok q'"
    using assms(1) edit
    by cases (auto simp: edit_ok_def withdrawn_edit_def dest!: take_first_Some simp: Cons_eq_append_conv append_eq_Cons_conv
        split: option.splits list.splits if_splits)
  moreover have "\<forall>e \<in> set (mq_steers q') \<union> set_option (mq_in_flight q'). \<not> is_scheduled_prompt_entry e"
    using assms(1) sched by cases (auto dest!: take_first_Some)
  ultimately show ?thesis using mq_step_numbered [OF assms(1) num assms(3)] by (simp add: mq_ok_def)
qed

end
