(* ===== verification/Submission_Guarantees.thy ===== *)
theory Submission_Guarantees
  imports Submission_Store
begin

text \<open>
  What the idempotency state of the queue guarantees: its tables stay within their limits and
  agree, a written file reads back with every pending submission and no invented receipt, and a
  submission that may have reached an agent is known after a restart.
\<close>

section \<open>Lists and maps\<close>

lemma set_dedup_first [simp]: "set (dedup_first xs) = set xs"
  and distinct_dedup_first [simp]: "distinct (dedup_first xs)"
  by (simp_all add: dedup_first_def)

lemma dedup_first_id: "distinct xs \<Longrightarrow> dedup_first xs = xs"
  by (simp add: dedup_first_def distinct_remdups_id)

lemma evict_oldest_spec:
  "evict_oldest l order m = (drop (length order - l) order, fold bt_remove (take (length order - l) order) m)"
  by (induction l order m rule: evict_oldest.induct) (auto simp: Suc_diff_le not_less)

lemma map_of_bt_retain:
  "bt_wf m \<Longrightarrow> map_of (bt_retain P m) k = (case map_of m k of Some v \<Rightarrow> if P k v then Some v else None | None \<Rightarrow> None)"
proof (induction m)
  case (Cons e m)
  obtain k' v where e: "e = (k', v)" by fastforce
  have wf: "bt_wf m" and new: "k' \<notin> fst ` set m" using Cons.prems by (auto simp: bt_wf_def e)
  then have "map_of m k' = None" by (simp add: map_of_eq_None_iff)
  with Cons.IH [OF wf] show ?case by (auto simp: bt_retain_def e split: option.splits)
qed (simp add: bt_retain_def)

lemma bt_contains_iff: "bt_contains m k \<longleftrightarrow> k \<in> fst ` set m"
  by (simp add: bt_contains_def map_of_eq_None_iff)

lemma normalize_queue_pending_Ok:
  assumes "normalize_queue_pending pending order = Ok po" "bt_wf pending"
  shows "distinct po \<and> set po = fst ` set pending \<and> length pending \<le> SUBMISSION_DEDUPE_LIMIT"
proof -
  define kept where "kept = dedup_first (filter (bt_contains pending) order)"
  have po: "po = kept @ sort (filter (\<lambda>s. s \<notin> set kept) (map fst pending))"
    and len: "length pending \<le> SUBMISSION_DEDUPE_LIMIT"
    using assms(1) by (auto simp: normalize_queue_pending_def Let_def kept_def split: if_splits)
  have "set kept \<subseteq> fst ` set pending" "distinct kept" by (auto simp: kept_def bt_contains_iff)
  moreover have "distinct (map fst pending)" using assms(2) by (simp add: bt_wf_def)
  ultimately show ?thesis using len by (auto simp: po)
qed

lemma normalize_queue_pending_id:
  assumes "distinct order" "set order = fst ` set pending" "length pending \<le> SUBMISSION_DEDUPE_LIMIT"
  shows "normalize_queue_pending pending order = Ok order"
proof -
  have "filter (bt_contains pending) order = order"
    using assms(2) by (auto simp: bt_contains_def map_of_eq_None_iff intro!: filter_True)
  moreover have "filter (\<lambda>s. s \<notin> set order) (map fst pending) = []"
    using assms(2) by (auto simp: filter_empty_conv)
  ultimately show ?thesis
    using assms by (simp add: normalize_queue_pending_def dedup_first_id)
qed

section \<open>Reading back the file\<close>

definition file_wf :: "durable_queue_receipt_file \<Rightarrow> bool" where
  "file_wf f = (bt_wf (rf_receipts f) \<and> bt_wf (rf_pending f))"

lemma de_durable_receipt_ser [simp]: "de_durable_receipt (ser_durable_receipt r) = Some r"
  by (simp add: de_durable_receipt_def ser_durable_receipt_def open_members_def struct_members_def
      field_req_def)

lemma de_receipt_file_ser: "file_wf f \<Longrightarrow> de_receipt_file (ser_receipt_file f) = Some f"
  by (simp add: file_wf_def de_receipt_file_def ser_receipt_file_def open_members_def
      struct_members_def field_default_def de_btree_ser)

definition sent_receipt :: "(str, bridge_queue_submission_receipt) btree \<Rightarrow> str \<Rightarrow> durable_queue_receipt option" where
  "sent_receipt results s =
     (case map_of results s of
        Some r \<Rightarrow> (if rc_disposition r = Sent
                  then map_option (\<lambda>u. \<lparr>dr_thread_id = rc_thread_id r, dr_turn_id = u\<rparr>) (rc_turn_id r)
                  else None)
      | None \<Rightarrow> None)"

lemma collect_receipts_step:
  "collect_receipts results (s # order) f =
     collect_receipts results order
       (case sent_receipt results s of
          None \<Rightarrow> f
        | Some d \<Rightarrow> f\<lparr>rf_order := rf_order f @ [s], rf_receipts := bt_insert s d (rf_receipts f)\<rparr>)"
  by (auto simp: sent_receipt_def split: option.splits bridge_thread_queue_disposition.splits)

lemma collect_receipts_spec:
  "rf_order (collect_receipts results order f) = rf_order f @ filter (\<lambda>s. sent_receipt results s \<noteq> None) order
   \<and> map_of (rf_receipts (collect_receipts results order f)) =
       (\<lambda>k. if k \<in> set order \<and> sent_receipt results k \<noteq> None then sent_receipt results k
            else map_of (rf_receipts f) k)
   \<and> rf_pending (collect_receipts results order f) = rf_pending f
   \<and> rf_pending_order (collect_receipts results order f) = rf_pending_order f
   \<and> (bt_wf (rf_receipts f) \<longrightarrow> bt_wf (rf_receipts (collect_receipts results order f)))"
proof (induction order arbitrary: f)
  case (Cons s order)
  show ?case
    unfolding collect_receipts_step
    by (cases "sent_receipt results s") (auto simp: Cons.IH fun_eq_iff bt_wf_insert)
qed auto

definition evict_front :: "nat \<Rightarrow> durable_queue_receipt_file \<Rightarrow> durable_queue_receipt_file" where
  "evict_front n f = f\<lparr>rf_order := drop n (rf_order f),
     rf_receipts := fold bt_remove (take n (rf_order f)) (rf_receipts f)\<rparr>"

lemma evict_front_evict_front: "evict_front n (evict_front k f) = evict_front (k + n) f"
proof -
  have "take (k + n) (rf_order f) = take k (rf_order f) @ take n (drop k (rf_order f))"
    by (simp add: take_add)
  then show ?thesis by (simp add: evict_front_def add.commute)
qed

lemma shrink_to_budget_Some:
  "shrink_to_budget X f = Some bytes \<Longrightarrow>
     \<exists>n. bytes = to_string (qx_json X) (ser_receipt_file (evict_front n f))
       \<and> length bytes \<le> QUEUE_RECEIPT_STORE_MAX_BYTES
       \<and> (length (to_string (qx_json X) (ser_receipt_file f)) \<le> QUEUE_RECEIPT_STORE_MAX_BYTES \<longrightarrow> n = 0)"
proof (induction X f rule: shrink_to_budget.induct)
  case (1 X f)
  let ?b = "to_string (qx_json X) (ser_receipt_file f)"
  show ?case
  proof (cases "length ?b \<le> QUEUE_RECEIPT_STORE_MAX_BYTES")
    case True
    then have "bytes = ?b" using 1(2) by (simp add: shrink_to_budget.simps [of X f])
    moreover have "evict_front 0 f = f" by (simp add: evict_front_def)
    ultimately show ?thesis using True by (intro exI [of _ 0]) simp
  next
    case False
    let ?n = "min (max 1 (div_ceil (sat_mul (length (rf_order f))
                (length ?b - QUEUE_RECEIPT_STORE_MAX_BYTES)) (length ?b))) (length (rf_order f))"
    have ne: "rf_order f \<noteq> []" using 1(2) False by (auto simp: shrink_to_budget.simps [of X f])
    have s: "shrink_to_budget X (evict_front ?n f) = Some bytes"
      using 1(2) False ne by (simp add: shrink_to_budget.simps [of X f] evict_front_def Let_def)
    then obtain n where "bytes = to_string (qx_json X) (ser_receipt_file (evict_front n (evict_front ?n f)))"
        "length bytes \<le> QUEUE_RECEIPT_STORE_MAX_BYTES"
      using 1(1) [OF refl False ne refl refl] by (auto simp: evict_front_def)
    then show ?thesis using False unfolding evict_front_evict_front by blast
  qed
qed

section \<open>Writing and restarting\<close>

definition restored :: "(str, bridge_queue_submission_receipt) btree \<Rightarrow> str \<Rightarrow> bridge_queue_submission_receipt option" where
  "restored results k = map_option (\<lambda>d. snd (receipt_of_durable (k, d))) (sent_receipt results k)"

lemma map_of_receipt_of_durable:
  "map_of (map receipt_of_durable m) k = map_option (\<lambda>d. snd (receipt_of_durable (k, d))) (map_of m k)"
  by (induction m) (auto simp: receipt_of_durable_def)

lemma evict_front_file_wf: "file_wf f \<Longrightarrow> file_wf (evict_front n f)"
  by (simp add: file_wf_def evict_front_def bt_wf_fold_bt_remove)

lemma load_written_file:
  assumes "json_codec (qx_json X)" "file_wf F" "dir f = Some (to_string (qx_json X) (ser_receipt_file F))"
    "length (to_string (qx_json X) (ser_receipt_file F)) \<le> QUEUE_RECEIPT_STORE_MAX_BYTES"
    "normalize_queue_pending (rf_pending F) (rf_pending_order F) = Ok po"
  shows "load_submission_store X True f dir =
    (let G = evict_front (length (rf_order F) - SUBMISSION_DEDUPE_LIMIT) F in
     Ok \<lparr>ds_results = map receipt_of_durable (bt_retain (\<lambda>k _. k \<in> set (rf_order G)) (rf_receipts G)),
         ds_order = rf_order G, ds_pending = rf_pending F, ds_pending_order = po\<rparr>)"
  using assms de_receipt_file_ser [OF assms(2)]
  by (simp add: load_submission_store_def json_codec.parse_print Let_def evict_oldest_spec evict_front_def)

definition store_at :: "queue_ext \<Rightarrow> storage_path \<Rightarrow> str \<Rightarrow> bool" where
  "store_at X path f = (json_codec (qx_json X) \<and> path_parent path \<noteq> None \<and> path_file_name path = Some f)"

lemma persist_frame:
  assumes "persist_submission_snapshot_locked X env R O' P PO s = (r, s')"
  shows "\<exists>b dir. s' = s\<lparr>submission_dirty := b, store_directory := dir\<rparr>"
proof -
  have "\<exists>b dir. s' = s\<lparr>submission_dirty := b, store_directory := dir\<rparr>
    \<or> s' = s\<lparr>submission_dirty := b\<rparr> \<or> s' = s"
    using assms
    by (auto simp: persist_submission_snapshot_locked_def Let_def split: option.splits sum.splits prod.splits)
  moreover have "s\<lparr>submission_dirty := b\<rparr> = s\<lparr>submission_dirty := b, store_directory := store_directory s\<rparr>"
    "s = s\<lparr>submission_dirty := submission_dirty s, store_directory := store_directory s\<rparr>" for b
    by simp_all
  ultimately show ?thesis by blast
qed

lemma persist_Ok_load:
  assumes "store_at X path f" "submission_store_path s = Some path" "bt_wf P"
    and "persist_submission_snapshot_locked X env R O' P PO s = (Ok u, s')"
  shows "\<exists>N po d. load_submission_store X True f (store_directory s') = Ok d
    \<and> normalize_queue_pending P PO = Ok po \<and> ds_pending d = P
    \<and> normalize_queue_pending P po = Ok (ds_pending_order d)
    \<and> ds_order d = drop N (filter (\<lambda>k. sent_receipt R k \<noteq> None) O')
    \<and> (\<forall>k. map_of (ds_results d) k =
         (if k \<in> set (ds_order d) \<and> k \<notin> set (take N (filter (\<lambda>k. sent_receipt R k \<noteq> None) O'))
          then restored R k else None))
    \<and> (length (to_string (qx_json X) (ser_receipt_file (collect_receipts R O'
           \<lparr>rf_receipts = [], rf_order = [], rf_pending = P, rf_pending_order = po\<rparr>)))
         \<le> QUEUE_RECEIPT_STORE_MAX_BYTES \<longrightarrow> length O' \<le> SUBMISSION_DEDUPE_LIMIT \<longrightarrow> N = 0)"
proof -
  obtain po bytes where po: "normalize_queue_pending P PO = Ok po"
    and sh: "shrink_to_budget X (collect_receipts R O'
        \<lparr>rf_receipts = [], rf_order = [], rf_pending = P, rf_pending_order = po\<rparr>) = Some bytes"
    and w: "\<exists>r0. atomic_write_private env path bytes (store_directory s) = (Ok r0, store_directory s')"
    using assms(2,4)
    by (auto simp: persist_submission_snapshot_locked_def Let_def split: option.splits sum.splits prod.splits)
  define S where "S = collect_receipts R O'
        \<lparr>rf_receipts = [], rf_order = [], rf_pending = P, rf_pending_order = po\<rparr>"
  define so where "so = filter (\<lambda>k. sent_receipt R k \<noteq> None) O'"
  have C: "rf_order S = so" "rf_pending S = P" "rf_pending_order S = po" "bt_wf (rf_receipts S)"
    "map_of (rf_receipts S) k = (if k \<in> set O' \<and> sent_receipt R k \<noteq> None then sent_receipt R k else None)" for k
    using collect_receipts_spec [of R O' "\<lparr>rf_receipts = [], rf_order = [], rf_pending = P, rf_pending_order = po\<rparr>"]
    by (auto simp: S_def so_def)
  have wfS: "file_wf S" using C assms(3) by (simp add: file_wf_def)
  obtain n where b: "bytes = to_string (qx_json X) (ser_receipt_file (evict_front n S))"
      "length bytes \<le> QUEUE_RECEIPT_STORE_MAX_BYTES"
    and n0: "length (to_string (qx_json X) (ser_receipt_file S)) \<le> QUEUE_RECEIPT_STORE_MAX_BYTES \<longrightarrow> n = 0"
    using shrink_to_budget_Some [OF sh [folded S_def]] by blast
  define N where "N = n + (length so - n - SUBMISSION_DEDUPE_LIMIT)"
  have dirf: "store_directory s' f = Some bytes"
    using w atomic_write_private_file [of path f env bytes "store_directory s"] assms(1)
    by (auto simp: store_at_def)
  have po2: "\<exists>q. normalize_queue_pending P po = Ok q"
    using po by (auto simp: normalize_queue_pending_def split: if_splits)
  then obtain q where q: "normalize_queue_pending P po = Ok q" by blast
  have G: "evict_front (length (rf_order (evict_front n S)) - SUBMISSION_DEDUPE_LIMIT) (evict_front n S)
      = evict_front N S"
    unfolding evict_front_evict_front N_def using C by (simp add: evict_front_def)
  have l: "load_submission_store X True f (store_directory s') =
      Ok \<lparr>ds_results = map receipt_of_durable (bt_retain (\<lambda>k _. k \<in> set (rf_order (evict_front N S)))
              (rf_receipts (evict_front N S))),
          ds_order = rf_order (evict_front N S), ds_pending = P, ds_pending_order = q\<rparr>"
    using load_written_file [of X "evict_front n S" "store_directory s'" f q] assms(1) wfS dirf b q C
    by (simp add: store_at_def evict_front_file_wf G Let_def) (simp add: evict_front_def)
  have ordN: "rf_order (evict_front N S) = drop N so"
    using C by (simp add: evict_front_def)
  have wfR: "bt_wf (rf_receipts (evict_front N S))"
    using evict_front_file_wf [OF wfS, of N] by (simp add: file_wf_def)
  have sub: "k \<in> set O'" "sent_receipt R k \<noteq> None" if "k \<in> set (drop N so)" for k
    using set_drop_subset [of N so] that by (auto simp: so_def)
  have recs: "map_of (rf_receipts (evict_front N S)) k =
      (if k \<in> set (take N so) then None else if k \<in> set O' then sent_receipt R k else None)" for k
    using C by (auto simp: evict_front_def map_of_fold_bt_remove)
  have res: "map_of (map receipt_of_durable (bt_retain (\<lambda>k _. k \<in> set (rf_order (evict_front N S)))
              (rf_receipts (evict_front N S)))) k =
      (if k \<in> set (drop N so) \<and> k \<notin> set (take N so) then restored R k else None)" for k
    using sub [of k]
    by (auto simp: map_of_receipt_of_durable map_of_bt_retain [OF wfR] recs ordN restored_def
        split: option.splits)
  have "N = 0" if "n = 0" "length O' \<le> SUBMISSION_DEDUPE_LIMIT"
    using that le_trans [OF length_filter_le [of "\<lambda>k. sent_receipt R k \<noteq> None" O', folded so_def] that(2)]
    by (simp add: N_def)
  with n0 have N0: "length (to_string (qx_json X) (ser_receipt_file S)) \<le> QUEUE_RECEIPT_STORE_MAX_BYTES \<longrightarrow>
      length O' \<le> SUBMISSION_DEDUPE_LIMIT \<longrightarrow> N = 0" by blast
  show ?thesis
    unfolding so_def [symmetric]
    by (intro exI [of _ N] exI [of _ po] exI [where x = "\<lparr>ds_results = map receipt_of_durable
          (bt_retain (\<lambda>k _. k \<in> set (rf_order (evict_front N S))) (rf_receipts (evict_front N S))),
        ds_order = rf_order (evict_front N S), ds_pending = P, ds_pending_order = q\<rparr>"] conjI allI)
      (use l po q ordN res N0 in \<open>simp_all flip: S_def\<close>)
qed

lemma persist_Ok_pending:
  assumes "store_at X path f" "submission_store_path s = Some path" "bt_wf P"
    and "persist_submission_snapshot_locked X env R O' P PO s = (Ok u, s')"
  shows "\<exists>d. load_submission_store X True f (store_directory s') = Ok d \<and> ds_pending d = P"
  using persist_Ok_load [OF assms] by (elim exE conjE) (intro exI conjI; assumption)

lemma persist_Err_file:
  assumes "store_at X path f" "submission_store_path s = Some path" "task_joins env"
    and "persist_submission_snapshot_locked X env R O' P PO s = (Err e, s')"
  shows "store_directory s' f = store_directory s f"
  using assms atomic_write_private_file [of path f env _ "store_directory s"]
  by (fastforce simp: persist_submission_snapshot_locked_def store_at_def Let_def
      split: option.splits sum.splits prod.splits)

section \<open>The invariant\<close>

definition receipts_wf :: "(str, bridge_queue_submission_receipt) btree \<Rightarrow> bool" where
  "receipts_wf m = (\<forall>(k, r)\<in>set m. rc_submission_id r = k \<and> (rc_disposition r = Sent \<longrightarrow> rc_turn_id r \<noteq> None))"

definition store_inv :: "submission_store \<Rightarrow> bool" where
  "store_inv s =
     (bt_wf (submission_results s) \<and> bt_wf (submission_volatile_pending s) \<and> bt_wf (submission_pending s)
      \<and> fst ` set (submission_results s) \<subseteq> set (submission_order s)
      \<and> length (submission_order s) \<le> SUBMISSION_DEDUPE_LIMIT
      \<and> distinct (submission_pending_order s)
      \<and> set (submission_pending_order s) = fst ` set (submission_pending s)
      \<and> length (submission_pending s) \<le> SUBMISSION_DEDUPE_LIMIT
      \<and> receipts_wf (submission_results s))"

text \<open>What is durable: every pending submission of the memory is pending in the file.\<close>

definition store_durable :: "queue_ext \<Rightarrow> str \<Rightarrow> submission_store \<Rightarrow> bool" where
  "store_durable X f s =
     (\<exists>d. load_submission_store X True f (store_directory s) = Ok d
        \<and> map_of (submission_pending s) \<subseteq>\<^sub>m map_of (ds_pending d))"

lemma bt_retain_length: "length (bt_retain P m) \<le> length m"
  by (simp add: bt_retain_def)

lemma bt_remove_length: "length (bt_remove k m) \<le> length m"
  by (simp add: bt_remove_def)

lemma fst_bt_remove: "fst ` set (bt_remove k m) = fst ` set m - {k}"
  by (auto simp: bt_remove_def)

lemma fst_set_bt_insert: "fst ` set (bt_insert k v m) = insert k (fst ` set m)"
  using fst_bt_insert [of k v m] by simp

lemma receipts_wf_filter: "receipts_wf m \<Longrightarrow> receipts_wf (filter P m)"
  by (auto simp: receipts_wf_def)

lemma receipts_wf_insert:
  "bt_wf m \<Longrightarrow> receipts_wf m \<Longrightarrow> rc_submission_id r = k \<Longrightarrow> (rc_disposition r = Sent \<longrightarrow> rc_turn_id r \<noteq> None)
     \<Longrightarrow> receipts_wf (bt_insert k r m)"
  by (auto simp: receipts_wf_def bt_insert_set)

lemma persist_inv:
  assumes "persist_submission_snapshot_locked X env R O' P PO s = (r, s')"
  shows "store_inv (s'\<lparr>submission_results := a, submission_order := b, submission_volatile_pending := v,
      submission_pending := p, submission_pending_order := q\<rparr>) =
     store_inv (s\<lparr>submission_results := a, submission_order := b, submission_volatile_pending := v,
      submission_pending := p, submission_pending_order := q\<rparr>)"
    "store_inv s' = store_inv s"
  using persist_frame [OF assms] by (elim exE, simp add: store_inv_def)+

lemma store_inv_volatile:
  "store_inv s \<Longrightarrow> bt_wf v \<Longrightarrow> store_inv (s\<lparr>submission_volatile_pending := v\<rparr>)"
  by (simp add: store_inv_def)

lemma store_inv_add_pending:
  assumes "store_inv s" "map_of (submission_pending s) i = None"
    "length (submission_pending s) < SUBMISSION_DEDUPE_LIMIT"
  shows "store_inv (s\<lparr>submission_pending := bt_insert i t (submission_pending s),
      submission_pending_order := submission_pending_order s @ [i]\<rparr>)"
  using assms
  by (auto simp: store_inv_def fst_set_bt_insert length_bt_insert_new map_of_eq_None_iff bt_wf_insert)

lemma store_inv_drop_pending:
  assumes "store_inv s"
  shows "store_inv (s\<lparr>submission_pending := bt_remove i (submission_pending s),
      submission_pending_order := filter (\<lambda>c. c \<noteq> i) (submission_pending_order s)\<rparr>)"
  using assms bt_remove_length [of i "submission_pending s"]
  by (auto simp: store_inv_def fst_bt_remove bt_wf_remove)

lemma store_inv_drop_result:
  assumes "store_inv s"
  shows "store_inv (s\<lparr>submission_results := bt_remove i (submission_results s),
      submission_order := filter (\<lambda>c. c \<noteq> i) (submission_order s)\<rparr>)"
proof -
  have "length (filter (\<lambda>c. c \<noteq> i) (submission_order s)) \<le> SUBMISSION_DEDUPE_LIMIT"
    using assms le_trans [OF length_filter_le] by (auto simp: store_inv_def)
  moreover have "receipts_wf (bt_remove i (submission_results s))"
    using assms by (simp add: store_inv_def bt_remove_def receipts_wf_filter)
  ultimately show ?thesis using assms by (auto simp: store_inv_def fst_bt_remove bt_wf_remove)
qed

lemma store_inv_add_result:
  assumes "store_inv s" "rc_submission_id r = i" "rc_disposition r = Sent \<longrightarrow> rc_turn_id r \<noteq> None"
    "evict_oldest SUBMISSION_DEDUPE_LIMIT
       (if bt_contains (submission_results s) i then submission_order s else submission_order s @ [i])
       (bt_insert i r (submission_results s)) = (order', results')"
  shows "store_inv (s\<lparr>submission_results := results', submission_order := order'\<rparr>)"
proof -
  define ord where "ord = (if bt_contains (submission_results s) i then submission_order s
    else submission_order s @ [i])"
  define n where "n = length ord - SUBMISSION_DEDUPE_LIMIT"
  have eq: "order' = drop n ord" "results' = fold bt_remove (take n ord) (bt_insert i r (submission_results s))"
    using assms(4) by (simp_all add: evict_oldest_spec flip: ord_def n_def)
  have sub: "fst ` set (bt_insert i r (submission_results s)) \<subseteq> set ord"
    using assms(1) by (auto simp: store_inv_def fst_set_bt_insert ord_def bt_contains_iff)
  have "k \<in> set (drop n ord)" if "k \<in> fst ` set results'" for k
  proof -
    have "k \<in> fst ` set (bt_insert i r (submission_results s))" "k \<notin> set (take n ord)"
      using that by (auto simp: eq fold_bt_remove)
    then have "k \<in> set (take n ord @ drop n ord)" using sub by auto
    then show ?thesis using \<open>k \<notin> set (take n ord)\<close> by (metis Un_iff set_append)
  qed
  moreover have "length order' \<le> SUBMISSION_DEDUPE_LIMIT" by (simp add: eq n_def)
  moreover have "bt_wf results'" "receipts_wf results'"
    using assms(1-3)
    by (auto simp: eq store_inv_def fold_bt_remove
        intro!: receipts_wf_filter receipts_wf_insert bt_wf_filter bt_wf_insert)
  ultimately show ?thesis using assms(1) by (auto simp: store_inv_def eq)
qed

section \<open>Runs\<close>

text \<open>
  A run of the store: it starts from what a restart reads, and every operation may hit any fault of
  the file system (the worker task of a write is joined). A result that says \<open>Sent\<close> has a turn.
\<close>

inductive store_run :: "queue_ext \<Rightarrow> storage_path \<Rightarrow> str \<Rightarrow> submission_store \<Rightarrow> bool"
  for X path f where
  start: "load_submission_store X True f dir = Ok d \<Longrightarrow> store_run X path f (store_of_durable (Some path) dir d)"
| lookup: "store_run X path f s \<Longrightarrow> task_joins env \<Longrightarrow>
    known_submission X env i t s = (r, s') \<Longrightarrow> store_run X path f s'"
| reserve: "store_run X path f s \<Longrightarrow> task_joins env \<Longrightarrow> task_joins env' \<Longrightarrow>
    reserve_receipt X env env' i t p s = (r, s') \<Longrightarrow> store_run X path f s'"
| release: "store_run X path f s \<Longrightarrow> task_joins env \<Longrightarrow>
    release_submission X env i s = (q, s') \<Longrightarrow> store_run X path f s'"
| mark: "store_run X path f s \<Longrightarrow> task_joins env \<Longrightarrow> task_joins env' \<Longrightarrow>
    mark_submission_dispatch_pending X env env' i t s = (q, s') \<Longrightarrow> store_run X path f s'"
| forget: "store_run X path f s \<Longrightarrow> task_joins env \<Longrightarrow>
    forget_submission_result_locked X env i s = (q, s') \<Longrightarrow> store_run X path f s'"
| remember: "store_run X path f s \<Longrightarrow> task_joins env \<Longrightarrow>
    resp_disposition result = Sent \<longrightarrow> resp_turn_id result \<noteq> None \<Longrightarrow>
    remember_submission_result X env result s = (q, s') \<Longrightarrow> store_run X path f s'"
| was_sent: "store_run X path f s \<Longrightarrow> task_joins env \<Longrightarrow>
    submission_was_sent X env t i s = (b, s') \<Longrightarrow> store_run X path f s'"
| retire: "store_run X path f s \<Longrightarrow> task_joins env \<Longrightarrow>
    retire_submissions X env ts s = (q, s') \<Longrightarrow> store_run X path f s'"
| settle: "store_run X path f s \<Longrightarrow> \<forall>(env, _)\<in>set attempts. task_joins env \<Longrightarrow>
    settle_definitive_dispatch_failure X attempts i t e s = Some (q, s') \<Longrightarrow> store_run X path f s'"
| shutdown: "store_run X path f s \<Longrightarrow> store_run X path f (begin_definitive_settlement_shutdown s)"
| clear: "store_run X path f s \<Longrightarrow> store_run X path f (clear_interrupted_definitive_settlements ids s)"

definition store_ok :: "queue_ext \<Rightarrow> storage_path \<Rightarrow> str \<Rightarrow> submission_store \<Rightarrow> bool" where
  "store_ok X path f s = (store_inv s \<and> store_durable X f s \<and> submission_store_path s = Some path)"

lemma load_file_only: "dir f = dir' f \<Longrightarrow> load_submission_store X b f dir = load_submission_store X b f dir'"
  by (simp add: load_submission_store_def)

text \<open>
  The shape of every operation: a write of some snapshot, after which the memory is \<open>s2\<close>, whose
  pending submissions are among those written if the write succeeded and among the old ones if not.
\<close>

lemma store_ok_write:
  assumes at: "store_at X path f" and ok: "store_ok X path f s" and j: "task_joins env"
    and s1: "submission_store_path s1 = Some path" "store_directory s1 = store_directory s"
    and w: "persist_submission_snapshot_locked X env R O' P PO s1 = (r, s')" and P: "bt_wf P"
    and s2: "store_inv s2" "store_directory s2 = store_directory s'" "submission_store_path s2 = Some path"
    and inc: "is_ok r \<Longrightarrow> map_of (submission_pending s2) \<subseteq>\<^sub>m map_of P"
      "\<not> is_ok r \<Longrightarrow> map_of (submission_pending s2) \<subseteq>\<^sub>m map_of (submission_pending s)"
  shows "store_ok X path f s2"
proof (cases r)
  case (Inl e)
  then have "store_directory s' f = store_directory s f"
    using persist_Err_file [OF at s1(1) j] w s1(2) by simp
  then have "load_submission_store X True f (store_directory s2) = load_submission_store X True f (store_directory s)"
    using load_file_only [of "store_directory s'" f "store_directory s" X True] s2(2) by simp
  moreover obtain d where "load_submission_store X True f (store_directory s) = Ok d"
      "map_of (submission_pending s) \<subseteq>\<^sub>m map_of (ds_pending d)"
    using ok by (auto simp: store_ok_def store_durable_def)
  ultimately have "store_durable X f s2"
    using inc(2) Inl map_le_trans [of "map_of (submission_pending s2)" "map_of (submission_pending s)"]
    by (auto simp: store_durable_def)
  then show ?thesis using s2 by (simp add: store_ok_def)
next
  case (Inr u)
  obtain d where "load_submission_store X True f (store_directory s') = Ok d" "ds_pending d = P"
    using persist_Ok_pending [OF at s1(1) P w [unfolded Inr]] by (elim exE conjE)
  then have "store_durable X f s2" using inc(1) Inr s2(2) by (auto simp: store_durable_def)
  then show ?thesis using s2 by (simp add: store_ok_def)
qed

lemma store_ok_frame:
  "store_ok X path f s \<Longrightarrow> store_inv s' \<Longrightarrow> store_directory s' = store_directory s \<Longrightarrow>
     submission_pending s' = submission_pending s \<Longrightarrow> submission_store_path s' = Some path \<Longrightarrow> store_ok X path f s'"
  by (simp add: store_ok_def store_durable_def)

lemma persist_store_ok:
  assumes "store_at X path f" "store_ok X path f s" "task_joins env"
    and "persist_submission_store_locked X env s = (r, s')"
  shows "store_ok X path f s'"
proof -
  obtain b dir where s': "s' = s\<lparr>submission_dirty := b, store_directory := dir\<rparr>"
    using persist_frame assms(4) unfolding persist_submission_store_locked_def by blast
  show ?thesis
    by (rule store_ok_write [OF assms(1-3) _ _ assms(4) [unfolded persist_submission_store_locked_def]])
       (use assms(2) in \<open>auto simp: store_ok_def store_inv_def s'\<close>)
qed

lemma known_submission_ok:
  assumes "store_at X path f" "store_ok X path f s" "task_joins env"
    and "known_submission X env i t s = (r, s')"
  shows "store_ok X path f s'"
  using assms(2,4) persist_store_ok [OF assms(1-3)]
  by (auto simp: known_submission_def split: option.splits if_splits prod.splits sum.splits)

lemma known_submission_None:
  assumes "known_submission X env i t s = (Ok None, s')"
  shows "s' = s \<and> map_of (submission_pending s) i = None \<and> map_of (submission_results s) i = None
    \<and> map_of (submission_volatile_pending s) i = None"
  using assms
  by (auto simp: known_submission_def split: option.splits if_splits prod.splits sum.splits)

lemma persist_or_rollback_ok:
  assumes at: "store_at X path f" and ok: "store_ok X path f s" and j: "task_joins env" "task_joins env'"
    and inv: "store_inv (s\<lparr>submission_pending := p, submission_pending_order := q\<rparr>)"
    and w: "persist_or_rollback X env env' (submission_pending s) (submission_pending_order s)
      (s\<lparr>submission_pending := p, submission_pending_order := q\<rparr>) = (r, s')"
  shows "store_ok X path f s' \<and> submission_pending s' = (if is_ok r then p else submission_pending s)"
proof -
  let ?s1 = "s\<lparr>submission_pending := p, submission_pending_order := q\<rparr>"
  obtain r1 s2 where p1: "persist_submission_store_locked X env ?s1 = (r1, s2)" by fastforce
  obtain b dir where s2: "s2 = ?s1\<lparr>submission_dirty := b, store_directory := dir\<rparr>"
    using persist_frame p1 unfolding persist_submission_store_locked_def by blast
  note p1' = p1 [unfolded persist_submission_store_locked_def]
  have path: "submission_store_path ?s1 = Some path" using ok by (simp add: store_ok_def)
  show ?thesis
  proof (cases r1)
    case (Inr u)
    have "store_ok X path f s2"
      by (rule store_ok_write [OF at ok j(1) path _ p1'])
         (use inv path Inr in \<open>auto simp: s2 store_inv_def\<close>)
    then show ?thesis using w p1 Inr by (auto simp: persist_or_rollback_def s2)
  next
    case (Inl e)
    let ?s3 = "s2\<lparr>submission_pending := submission_pending s, submission_pending_order := submission_pending_order s\<rparr>"
    obtain r4 s4 where p4: "persist_submission_store_locked X env' ?s3 = (r4, s4)" by fastforce
    obtain b4 dir4 where s4: "s4 = ?s3\<lparr>submission_dirty := b4, store_directory := dir4\<rparr>"
      using persist_frame p4 unfolding persist_submission_store_locked_def by blast
    have "store_ok X path f ?s3"
      by (rule store_ok_write [OF at ok j(1) path _ p1'])
         (use inv path Inl ok in \<open>auto simp: s2 store_inv_def store_ok_def\<close>)
    then have "store_ok X path f s4" using persist_store_ok [OF at _ j(2) p4] by blast
    then show ?thesis using w p1 Inl p4 by (auto simp: persist_or_rollback_def s4)
  qed
qed

lemma store_ok_volatile:
  "store_ok X path f s \<Longrightarrow> bt_wf v \<Longrightarrow> store_ok X path f (s\<lparr>submission_volatile_pending := v\<rparr>)"
  by (simp add: store_ok_def store_inv_def store_durable_def)

lemma store_ok_parts:
  assumes "store_ok X path f s"
  shows "store_inv s" "submission_store_path s = Some path" "bt_wf (submission_pending s)"
    "bt_wf (submission_volatile_pending s)" "length (submission_pending s) \<le> SUBMISSION_DEDUPE_LIMIT"
  using assms by (simp_all add: store_ok_def store_inv_def)

lemma reserve_receipt_ok:
  assumes "store_at X path f" "store_ok X path f s" "task_joins env" "task_joins env'"
    and "reserve_receipt X env env' i t p s = (r, s')"
  shows "store_ok X path f s' \<and> (r = Ok None \<longrightarrow> p \<longrightarrow> submission_pending s' = bt_insert i t (submission_pending s))
    \<and> (\<not> is_ok r \<longrightarrow> submission_pending s' = submission_pending s)"
proof -
  obtain r1 s1 where k: "known_submission X env i t s = (r1, s1)" by fastforce
  note ok1 = known_submission_ok [OF assms(1-3) k]
  have pend: "submission_pending s1 = submission_pending s"
    using k persist_frame [of X env "submission_results s" "submission_order s" "submission_pending s"
        "submission_pending_order s" s]
    by (fastforce simp: known_submission_def persist_submission_store_locked_def
        split: option.splits if_splits prod.splits sum.splits)
  show ?thesis
  proof (cases "r1 = Ok None")
    case False
    then show ?thesis using assms(5) k ok1 pend
      by (auto simp: reserve_receipt_def split: sum.splits option.splits)
  next
    case True
    note kn = known_submission_None [OF k [unfolded True]]
    show ?thesis
    proof (cases "p \<and> length (submission_pending s) < SUBMISSION_DEDUPE_LIMIT")
      case False
      then show ?thesis using assms(2,5) k True kn store_ok_parts [OF assms(2)]
        by (auto simp: reserve_receipt_def not_less split: if_splits intro!: store_ok_volatile)
    next
      case room: True
      obtain r2 s2 where pr: "persist_or_rollback X env env' (submission_pending s) (submission_pending_order s)
          (s\<lparr>submission_pending := bt_insert i t (submission_pending s),
             submission_pending_order := submission_pending_order s @ [i]\<rparr>) = (r2, s2)" by fastforce
      have "store_inv (s\<lparr>submission_pending := bt_insert i t (submission_pending s),
             submission_pending_order := submission_pending_order s @ [i]\<rparr>)"
        using store_inv_add_pending kn room store_ok_parts(1) [OF assms(2)] by blast
      from persist_or_rollback_ok [OF assms(1-4) this pr]
      show ?thesis using assms(5) k True kn room pr
        by (auto simp: reserve_receipt_def split: sum.splits)
    qed
  qed
qed

lemma mark_submission_dispatch_pending_ok:
  assumes "store_at X path f" "store_ok X path f s" "task_joins env" "task_joins env'"
    and "mark_submission_dispatch_pending X env env' i t s = (r, s')"
  shows "store_ok X path f s' \<and> (is_ok r \<longrightarrow> map_of (submission_pending s') i = Some t)"
proof (cases "\<exists>t' \<in> set_option (map_of (submission_volatile_pending s) i). t' \<noteq> t")
  case True
  then show ?thesis using assms(2,5) by (auto simp: mark_submission_dispatch_pending_def)
next
  case False
  show ?thesis
  proof (cases "map_of (submission_pending s) i")
    case (Some t')
    show ?thesis
    proof (cases "t' = t")
      case True
      obtain r2 s2 where pr: "persist_or_rollback X env env' (submission_pending s) (submission_pending_order s)
          (s\<lparr>submission_pending := submission_pending s, submission_pending_order := submission_pending_order s\<rparr>)
          = (r2, s2)" by fastforce
      from persist_or_rollback_ok [OF assms(1-4) _ pr] store_ok_parts(1) [OF assms(2)]
      have "store_ok X path f s2 \<and> submission_pending s2 = submission_pending s" by (simp split: if_splits)
      then show ?thesis using assms(5) False Some True pr
        by (auto simp: mark_submission_dispatch_pending_def split: sum.splits
            intro!: store_ok_volatile bt_wf_remove dest: store_ok_parts(4))
    next
      case neq: False
      then show ?thesis using assms(2,5) False Some by (auto simp: mark_submission_dispatch_pending_def)
    qed
  next
    case None
    show ?thesis
    proof (cases "length (submission_pending s) < SUBMISSION_DEDUPE_LIMIT")
      case False
      then show ?thesis using assms(2,5) \<open>\<not> (\<exists>t' \<in> _. _)\<close> None
        by (auto simp: mark_submission_dispatch_pending_def)
    next
      case room: True
      obtain r2 s2 where pr: "persist_or_rollback X env env' (submission_pending s) (submission_pending_order s)
          (s\<lparr>submission_pending := bt_insert i t (submission_pending s),
             submission_pending_order := submission_pending_order s @ [i]\<rparr>) = (r2, s2)" by fastforce
      have "store_inv (s\<lparr>submission_pending := bt_insert i t (submission_pending s),
             submission_pending_order := submission_pending_order s @ [i]\<rparr>)"
        using store_inv_add_pending None room store_ok_parts(1) [OF assms(2)] by blast
      from persist_or_rollback_ok [OF assms(1-4) this pr]
      show ?thesis using assms(5) False None room pr
        by (auto simp: mark_submission_dispatch_pending_def split: sum.splits if_splits
            intro!: store_ok_volatile bt_wf_remove dest: store_ok_parts(4))
    qed
  qed
qed

lemma release_submission_ok:
  assumes "store_at X path f" "store_ok X path f s" "task_joins env"
    and "release_submission X env i s = (r, s')"
  shows "store_ok X path f s' \<and> (is_ok r \<longrightarrow> map_of (submission_pending s') i = None)
    \<and> (\<not> is_ok r \<longrightarrow> submission_pending s' = submission_pending s)
    \<and> definitive_settlement_shutdown s' = definitive_settlement_shutdown s"
proof (cases "bt_contains (submission_pending s) i")
  case False
  then show ?thesis using assms(2,4) store_ok_parts(4) [OF assms(2)]
    by (auto simp: release_submission_def bt_contains_def intro!: store_ok_volatile bt_wf_remove)
next
  case True
  let ?p = "bt_remove i (submission_pending s)"
  let ?q = "filter (\<lambda>c. c \<noteq> i) (submission_pending_order s)"
  obtain r1 s1 where p1: "persist_submission_snapshot_locked X env (submission_results s) (submission_order s)
      ?p ?q s = (r1, s1)" by fastforce
  obtain b dir where s1: "s1 = s\<lparr>submission_dirty := b, store_directory := dir\<rparr>"
    using persist_frame [OF p1] by blast
  note parts = store_ok_parts [OF assms(2)]
  have drop: "store_inv (s\<lparr>submission_pending := ?p, submission_pending_order := ?q\<rparr>)"
    by (rule store_inv_drop_pending [OF parts(1)])
  show ?thesis
  proof (cases r1)
    case (Inl e)
    have "store_ok X path f s1"
      by (rule store_ok_write [OF assms(1-3) parts(2) refl p1])
         (use parts Inl in \<open>auto simp: s1 store_inv_def bt_wf_remove\<close>)
    then show ?thesis using assms(4) True p1 Inl by (auto simp: release_submission_def Let_def s1)
  next
    case (Inr u)
    have "store_ok X path f (s1\<lparr>submission_pending := ?p, submission_pending_order := ?q\<rparr>)"
      by (rule store_ok_write [OF assms(1-3) parts(2) refl p1])
         (use parts drop Inr in \<open>auto simp: s1 store_inv_def bt_wf_remove\<close>)
    from store_ok_volatile [OF this bt_wf_remove [OF parts(4), of i]]
    show ?thesis using assms(4) True p1 Inr by (auto simp: release_submission_def Let_def s1)
  qed
qed

lemma forget_submission_ok:
  assumes "store_at X path f" "store_ok X path f s" "task_joins env"
    and "forget_submission_result_locked X env i s = (r, s')"
  shows "store_ok X path f s'"
proof -
  note parts = store_ok_parts [OF assms(2)]
  define s1 where "s1 = s\<lparr>submission_results := bt_remove i (submission_results s),
          submission_order := filter (\<lambda>c. c \<noteq> i) (submission_order s),
          submission_pending := bt_remove i (submission_pending s),
          submission_pending_order := filter (\<lambda>c. c \<noteq> i) (submission_pending_order s),
          submission_volatile_pending := bt_remove i (submission_volatile_pending s)\<rparr>"
  have inv: "store_inv s1"
    using store_inv_volatile [OF store_inv_drop_pending [OF store_inv_drop_result [OF parts(1), of i], of i]
        bt_wf_remove [OF parts(4), of i]]
    by (simp add: s1_def)
  have p: "persist_submission_snapshot_locked X env (submission_results s1) (submission_order s1)
      (submission_pending s1) (submission_pending_order s1) s1 = (r, s')"
    using assms(4) by (simp add: forget_submission_result_locked_def persist_submission_store_locked_def s1_def)
  obtain b dir where s': "s' = s1\<lparr>submission_dirty := b, store_directory := dir\<rparr>"
    using persist_frame [OF p] by blast
  have inc: "map_of (submission_pending s1) \<subseteq>\<^sub>m map_of (submission_pending s)"
    by (simp add: s1_def map_le_def)
  show ?thesis
    by (rule store_ok_write [OF assms(1-3) _ _ p])
       (use inv parts inc in \<open>auto simp: s' s1_def store_inv_def\<close>)
qed

lemma remember_submission_ok:
  assumes "store_at X path f" "store_ok X path f s" "task_joins env"
    and "resp_disposition result = Sent \<longrightarrow> resp_turn_id result \<noteq> None"
    and "remember_submission_result X env result s = (r, s')"
  shows "store_ok X path f s'"
proof -
  note parts = store_ok_parts [OF assms(2)]
  define i where "i = resp_submission_id result"
  define rc where "rc = \<lparr>rc_submission_id = i, rc_thread_id = ts_thread_id (resp_queue result),
      rc_disposition = resp_disposition result, rc_turn_id = resp_turn_id result\<rparr>"
  obtain order' results' where ev: "evict_oldest SUBMISSION_DEDUPE_LIMIT
       (if bt_contains (submission_results s) i then submission_order s else submission_order s @ [i])
       (bt_insert i rc (submission_results s)) = (order', results')" by fastforce
  define v where "v = (if resp_disposition result = Sent then bt_remove i (submission_volatile_pending s)
      else bt_insert i (rc_thread_id rc) (submission_volatile_pending s))"
  define s1 where "s1 = s\<lparr>submission_results := results', submission_order := order',
        submission_pending := bt_remove i (submission_pending s),
        submission_pending_order := filter (\<lambda>c. c \<noteq> i) (submission_pending_order s),
        submission_volatile_pending := v\<rparr>"
  have v: "bt_wf v" using parts(4) by (auto simp: v_def intro: bt_wf_insert bt_wf_remove)
  have "store_inv (s\<lparr>submission_results := results', submission_order := order'\<rparr>)"
    by (rule store_inv_add_result [OF parts(1) _ _ ev]) (use assms(4) in \<open>simp_all add: rc_def\<close>)
  from store_inv_volatile [OF store_inv_drop_pending [OF this, of i] v]
  have inv: "store_inv s1" by (simp add: s1_def)
  obtain r2 s2 where p: "persist_submission_store_locked X env s1 = (r2, s2)" by fastforce
  note p' = p [unfolded persist_submission_store_locked_def]
  obtain b dir where s2: "s2 = s1\<lparr>submission_dirty := b, store_directory := dir\<rparr>"
    using persist_frame [OF p'] by blast
  have inc: "map_of (submission_pending s1) \<subseteq>\<^sub>m map_of (submission_pending s)"
    by (simp add: s1_def map_le_def)
  have ok2: "store_ok X path f s2"
    by (rule store_ok_write [OF assms(1-3) _ _ p'])
       (use inv parts inc in \<open>auto simp: s2 s1_def store_inv_def\<close>)
  have "store_ok X path f (s2\<lparr>submission_completion_wake := True\<rparr>)"
    using ok2 by (simp add: store_ok_def store_inv_def store_durable_def)
  moreover have "s' = s2 \<or> s' = s2\<lparr>submission_completion_wake := True\<rparr>"
    using assms(5) p
    by (auto simp: remember_submission_result_def Let_def ev [unfolded rc_def] i_def [symmetric] rc_def
        s1_def v_def split: sum.splits if_splits)
  ultimately show ?thesis using ok2 by blast
qed

lemma submission_was_sent_ok:
  assumes "store_at X path f" "store_ok X path f s" "task_joins env"
    and "submission_was_sent X env t i s = (r, s')"
  shows "store_ok X path f s'"
  using assms(2,4) persist_store_ok [OF assms(1-3)]
  by (auto simp: submission_was_sent_def split: if_splits prod.splits sum.splits)

lemma store_inv_retire:
  assumes "store_inv s"
  shows "store_inv (s\<lparr>submission_results := bt_retain P (submission_results s),
      submission_order := filter (bt_contains (bt_retain P (submission_results s))) (submission_order s),
      submission_volatile_pending := bt_retain Q (submission_volatile_pending s),
      submission_pending := bt_retain R (submission_pending s),
      submission_pending_order := filter (bt_contains (bt_retain R (submission_pending s))) (submission_pending_order s)\<rparr>)"
proof -
  have sub: "fst ` set (bt_retain R (submission_pending s)) \<subseteq> fst ` set (submission_pending s)"
    "fst ` set (bt_retain P (submission_results s)) \<subseteq> fst ` set (submission_results s)"
    by (auto simp: bt_retain_def)
  have "set (filter (bt_contains (bt_retain R (submission_pending s))) (submission_pending_order s))
      = fst ` set (bt_retain R (submission_pending s))"
    using sub assms by (auto simp: store_inv_def bt_contains_iff)
  moreover have "fst ` set (bt_retain P (submission_results s)) \<subseteq> set (submission_order s)"
    using sub(2) assms unfolding store_inv_def by (meson subset_trans)
  then have "fst ` set (bt_retain P (submission_results s))
      \<subseteq> set (filter (bt_contains (bt_retain P (submission_results s))) (submission_order s))"
    by (auto simp: bt_contains_iff)
  moreover have "length (filter (bt_contains (bt_retain P (submission_results s))) (submission_order s))
      \<le> SUBMISSION_DEDUPE_LIMIT" "length (bt_retain R (submission_pending s)) \<le> SUBMISSION_DEDUPE_LIMIT"
    using assms le_trans [OF length_filter_le] le_trans [OF bt_retain_length] by (auto simp: store_inv_def)
  moreover have "receipts_wf (bt_retain P (submission_results s))"
    using assms by (simp add: store_inv_def bt_retain_def receipts_wf_filter)
  ultimately show ?thesis using assms by (simp add: store_inv_def bt_wf_retain)
qed

lemma retire_submissions_ok:
  assumes "store_at X path f" "store_ok X path f s" "task_joins env"
    and "retire_submissions X env ts s = (r, s')"
  shows "store_ok X path f s'"
proof -
  note parts = store_ok_parts [OF assms(2)]
  define R where "R = bt_retain (\<lambda>_ r. rc_thread_id r \<notin> set ts) (submission_results s)"
  define P where "P = bt_retain (\<lambda>_ t. t \<notin> set ts) (submission_pending s)"
  define V where "V = bt_retain (\<lambda>_ t. t \<notin> set ts) (submission_volatile_pending s)"
  define s2 where "s2 d = d\<lparr>submission_results := R,
      submission_order := filter (bt_contains R) (submission_order s), submission_volatile_pending := V,
      submission_pending := P, submission_pending_order := filter (bt_contains P) (submission_pending_order s)\<rparr>" for d :: submission_store
  obtain r1 s1 where p: "persist_submission_snapshot_locked X env R (filter (bt_contains R) (submission_order s))
      P (filter (bt_contains P) (submission_pending_order s)) s = (r1, s1)" by fastforce
  have out: "r = r1" "s' = (if is_ok r1 then s2 s1 else s1)"
    using assms(4) p by (auto simp: retire_submissions_def Let_def R_def P_def V_def s2_def split: sum.splits)
  obtain b dir where s1: "s1 = s\<lparr>submission_dirty := b, store_directory := dir\<rparr>"
    using persist_frame [OF p] by blast
  have inv: "store_inv (s2 s)" unfolding s2_def R_def P_def V_def by (rule store_inv_retire [OF parts(1)])
  show ?thesis
  proof (rule store_ok_write [OF assms(1-3) parts(2) refl p])
    show "bt_wf P" using parts(3) by (simp add: P_def bt_wf_retain)
    show "store_inv s'" using inv parts(1) by (simp add: out s2_def s1 store_inv_def)
    show "store_directory s' = store_directory s1" "submission_store_path s' = Some path"
      using parts(2) by (simp_all add: out s2_def s1)
    show "map_of (submission_pending s') \<subseteq>\<^sub>m map_of P" if "is_ok r1"
      using that by (simp add: out s2_def)
    show "map_of (submission_pending s') \<subseteq>\<^sub>m map_of (submission_pending s)" if "\<not> is_ok r1"
      using that by (simp add: out s1)
  qed
qed

lemma settle_ok:
  assumes "store_at X path f" "store_ok X path f s" "\<forall>(env, _)\<in>set attempts. task_joins env"
    and "settle_definitive_dispatch_failure X attempts i t e s = Some (r, s')"
  shows "store_ok X path f s'"
  using assms(2-4)
proof (induction attempts arbitrary: s)
  case (Cons a attempts)
  obtain env sh where a: "a = (env, sh)" by fastforce
  obtain r1 s1 where rel: "release_submission X env i s = (r1, s1)" by fastforce
  have ok1: "store_ok X path f s1"
    using release_submission_ok [OF assms(1) Cons.prems(1) _ rel] Cons.prems(2) a by simp
  have frame: "store_ok X path f (s1\<lparr>interrupted_definitive_settlements := m, definitive_settlement_shutdown := True\<rparr>)"
    "store_ok X path f (s1\<lparr>definitive_settlement_shutdown := True\<rparr>)" for m
    using ok1 by (simp_all add: store_ok_def store_inv_def store_durable_def)
  show ?case
    using Cons.prems rel a ok1 frame Cons.IH [OF ok1]
    by (auto simp: Let_def split: sum.splits if_splits)
qed simp

lemma load_store_ok:
  assumes "load_submission_store X True f dir = Ok d"
  shows "store_ok X path f (store_of_durable (Some path) dir d)"
proof (cases "dir f")
  case None
  then show ?thesis using assms
    by (auto simp: load_submission_store_def store_ok_def store_of_durable_def store_inv_def
        store_durable_def receipts_wf_def)
next
  case (Some bytes)
  obtain F po where F: "Option.bind (from_str (qx_json X) bytes) de_receipt_file = Some F"
      "normalize_queue_pending (rf_pending F) (rf_pending_order F) = Ok po"
    and d: "d = (let G = evict_front (length (rf_order F) - SUBMISSION_DEDUPE_LIMIT) F in
       \<lparr>ds_results = map receipt_of_durable (bt_retain (\<lambda>k _. k \<in> set (rf_order G)) (rf_receipts G)),
         ds_order = rf_order G, ds_pending = rf_pending F, ds_pending_order = po\<rparr>)"
    using assms Some
    by (auto simp: load_submission_store_def res_bind_Ok Let_def evict_oldest_spec evict_front_def
        split: if_splits option.splits)
  have wf: "bt_wf (rf_pending F)" "bt_wf (rf_receipts F)"
    using F(1) by (auto simp: de_receipt_file_def field_default_def de_btree_wf split: bind_splits option.splits)
  define G where "G = evict_front (length (rf_order F) - SUBMISSION_DEDUPE_LIMIT) F"
  define m where "m = bt_retain (\<lambda>k _. k \<in> set (rf_order G)) (rf_receipts G)"
  have "bt_wf m" using wf by (simp add: m_def G_def evict_front_def bt_wf_retain bt_wf_fold_bt_remove)
  moreover have "map fst (map receipt_of_durable m) = map fst m"
    by (auto simp: receipt_of_durable_def)
  ultimately have "bt_wf (map receipt_of_durable m)" by (simp only: bt_wf_def)
  moreover have "fst ` set (map receipt_of_durable m) \<subseteq> set (rf_order G)"
    by (auto simp: m_def receipt_of_durable_def bt_retain_def)
  moreover have "receipts_wf (map receipt_of_durable m)"
    by (auto simp: receipts_wf_def receipt_of_durable_def)
  moreover have "length (rf_order G) \<le> SUBMISSION_DEDUPE_LIMIT" by (simp add: G_def evict_front_def)
  ultimately have "store_inv (store_of_durable (Some path) dir d)"
    using normalize_queue_pending_Ok [OF F(2) wf(1)] wf(1)
    by (simp add: d store_inv_def store_of_durable_def Let_def flip: G_def m_def)
  then show ?thesis using assms by (simp add: store_ok_def store_durable_def store_of_durable_def)
qed

lemma store_run_ok:
  assumes "store_at X path f" "store_run X path f s"
  shows "store_ok X path f s"
  using assms(2)
proof (induction rule: store_run.induct)
  case (start dir d)
  then show ?case by (rule load_store_ok)
next
  case (shutdown s)
  then show ?case
    by (simp add: begin_definitive_settlement_shutdown_def store_ok_def store_inv_def store_durable_def)
next
  case (clear s ids)
  then show ?case
    by (simp add: clear_interrupted_definitive_settlements_def store_ok_def store_inv_def store_durable_def)
next
  case (lookup s env i t r s')
  from known_submission_ok [OF assms(1) lookup(4,2,3)] show ?case .
next
  case (reserve s env env' i t p r s')
  from reserve_receipt_ok [OF assms(1) reserve(5,2,3,4)] show ?case by blast
next
  case (release s env i q s')
  from release_submission_ok [OF assms(1) release(4,2,3)] show ?case by blast
next
  case (mark s env env' i t q s')
  from mark_submission_dispatch_pending_ok [OF assms(1) mark(5,2,3,4)] show ?case by blast
next
  case (forget s env i q s')
  from forget_submission_ok [OF assms(1) forget(4,2,3)] show ?case .
next
  case (remember s env result q s')
  from remember_submission_ok [OF assms(1) remember(5,2,3,4)] show ?case .
next
  case (was_sent s env t i b s')
  from submission_was_sent_ok [OF assms(1) was_sent(4,2,3)] show ?case .
next
  case (retire s env ts q s')
  from retire_submissions_ok [OF assms(1) retire(4,2,3)] show ?case .
next
  case (settle s attempts i t e q s')
  from settle_ok [OF assms(1) settle(4,2,3)] show ?case .
qed

end
