(* ===== verification/Submission_Properties.thy ===== *)
theory Submission_Properties
  imports Submission_Guarantees
begin

text \<open>
  The guarantees of the idempotency state, stated over its operations, and a concrete store on
  which they are evaluated.
\<close>

section \<open>A concrete store\<close>

definition demo_queue :: queue_ext where
  "demo_queue = \<lparr>qx_json = plain_json, qx_show_io = (\<lambda>_. ''io''), qx_show_serde = (\<lambda>_. ''syntax''),
     qx_show_read = ''read'', qx_sha256_hex = (\<lambda>s. s)\<rparr>"

definition queue_path :: storage_path where
  "queue_path = \<lparr>path_parent = Some ''state'', path_file_name = Some ''queue''\<rparr>"

definition demo_store :: submission_store where
  "demo_store = store_of_durable (Some queue_path) Map.empty
     \<lparr>ds_results = [], ds_order = [], ds_pending = [], ds_pending_order = []\<rparr>"

lemma demo_store_at: "store_at demo_queue queue_path ''queue''"
  by (simp add: store_at_def demo_queue_def queue_path_def plain.json_codec_axioms)

lemma demo_store_run: "store_run demo_queue queue_path ''queue'' demo_store"
  unfolding demo_store_def by (rule store_run.start) (simp add: load_submission_store_def)

section \<open>Storage that works\<close>

text \<open>Every system call of the write succeeds; the temporary name is free.\<close>

definition storage_works :: "io_env \<Rightarrow> bool" where
  "storage_works env = (parent_opens env \<and> temp_opens env \<and> write_succeeds env \<and> chmod_succeeds env
     \<and> sync_succeeds env \<and> rename_succeeds env \<and> task_joins env)"

lemma atomic_write_private_works:
  "storage_works env \<Longrightarrow> path_parent path \<noteq> None \<Longrightarrow> path_file_name path = Some f \<Longrightarrow>
     temporary_name env f \<notin> dom dir \<Longrightarrow> is_ok (fst (atomic_write_private env path bytes dir))"
  by (auto simp: storage_works_def atomic_write_private_def atomic_write_private_unix_def
      write_temp_and_rename_def Let_def domIff)


lemma evict_all:
  "fold bt_remove (rf_order S) (rf_receipts S) = [] \<Longrightarrow> rf_pending S = P \<Longrightarrow> rf_pending_order S = po \<Longrightarrow>
     evict_front (length (rf_order S)) S
       = \<lparr>rf_receipts = [], rf_order = [], rf_pending = P, rf_pending_order = po\<rparr>"
  by (cases S) (simp add: evict_front_def)

lemma shrink_to_budget_succeeds:
  "length (to_string (qx_json X) (ser_receipt_file (evict_front (length (rf_order f)) f)))
     \<le> QUEUE_RECEIPT_STORE_MAX_BYTES \<Longrightarrow> shrink_to_budget X f \<noteq> None"
proof (induction X f rule: shrink_to_budget.induct)
  case (1 X f)
  let ?b = "to_string (qx_json X) (ser_receipt_file f)"
  show ?case
  proof (cases "length ?b \<le> QUEUE_RECEIPT_STORE_MAX_BYTES")
    case True
    then show ?thesis by (simp add: shrink_to_budget.simps [of X f])
  next
    case False
    then have ne: "rf_order f \<noteq> []" using 1(2) by (cases f) (auto simp: evict_front_def)
    let ?n = "min (max 1 (div_ceil (sat_mul (length (rf_order f))
                (length ?b - QUEUE_RECEIPT_STORE_MAX_BYTES)) (length ?b))) (length (rf_order f))"
    have "evict_front (length (rf_order (evict_front ?n f))) (evict_front ?n f)
        = evict_front (length (rf_order f)) f"
      unfolding evict_front_evict_front by (simp add: evict_front_def)
    then have "shrink_to_budget X (evict_front ?n f) \<noteq> None"
      using 1(1) [OF refl False ne refl refl] 1(2) by (simp add: evict_front_def)
    then show ?thesis using False ne
      by (simp add: shrink_to_budget.simps [of X f] evict_front_def Let_def)
  qed
qed

text \<open>A write can only be refused for its size when the pending submissions alone exceed the budget.\<close>

definition pending_fits :: "queue_ext \<Rightarrow> (str, str) btree \<Rightarrow> str list \<Rightarrow> bool" where
  "pending_fits X P po = (length (to_string (qx_json X) (ser_receipt_file
     \<lparr>rf_receipts = [], rf_order = [], rf_pending = P, rf_pending_order = po\<rparr>)) \<le> QUEUE_RECEIPT_STORE_MAX_BYTES)"

lemma collected_shrinks:
  assumes "pending_fits X P po"
  shows "shrink_to_budget X (collect_receipts R order
    \<lparr>rf_receipts = [], rf_order = [], rf_pending = P, rf_pending_order = po\<rparr>) \<noteq> None"
proof (rule shrink_to_budget_succeeds)
  let ?f0 = "\<lparr>rf_receipts = [], rf_order = [], rf_pending = P, rf_pending_order = po\<rparr>"
  let ?S = "collect_receipts R order ?f0"
  note C = collect_receipts_spec [of R order ?f0]
  have "map_of (fold bt_remove (rf_order ?S) (rf_receipts ?S)) = Map.empty"
    using C by (auto simp: map_of_fold_bt_remove fun_eq_iff)
  then have "fold bt_remove (rf_order ?S) (rf_receipts ?S) = []" by simp
  then have "evict_front (length (rf_order ?S)) ?S = ?f0"
    by (rule evict_all) (use C in simp_all)
  then show "length (to_string (qx_json X) (ser_receipt_file (evict_front (length (rf_order ?S)) ?S)))
      \<le> QUEUE_RECEIPT_STORE_MAX_BYTES"
    using assms by (simp add: pending_fits_def)
qed

lemma persist_works:
  assumes "store_at X path f" "submission_store_path s = Some path" "storage_works env"
    "temporary_name env f \<notin> dom (store_directory s)" "normalize_queue_pending P PO = Ok po" "pending_fits X P po"
  shows "is_ok (fst (persist_submission_snapshot_locked X env R O' P PO s))"
proof -
  obtain bytes where "shrink_to_budget X (collect_receipts R O'
      \<lparr>rf_receipts = [], rf_order = [], rf_pending = P, rf_pending_order = po\<rparr>) = Some bytes"
    using collected_shrinks [OF assms(6)] by blast
  moreover have "is_ok (fst (atomic_write_private env path bytes (store_directory s)))"
    using atomic_write_private_works [OF assms(3) _ _ assms(4)] assms(1) by (simp add: store_at_def)
  ultimately show ?thesis using assms(2,5)
    by (auto simp: persist_submission_snapshot_locked_def Let_def split: sum.splits prod.splits)
qed


lemma persist_fields [simp]:
  "submission_results (snd (persist_submission_snapshot_locked X env R O' P PO z)) = submission_results z"
  "submission_volatile_pending (snd (persist_submission_snapshot_locked X env R O' P PO z)) = submission_volatile_pending z"
  "submission_pending (snd (persist_submission_snapshot_locked X env R O' P PO z)) = submission_pending z"
  using persist_frame [of X env R O' P PO z, OF prod.collapse [symmetric]] by auto

lemma persist_fields_of:
  assumes "persist_submission_snapshot_locked X env R O' P PO z = (r, z')"
  shows "submission_results z' = submission_results z" "submission_pending z' = submission_pending z"
    "submission_volatile_pending z' = submission_volatile_pending z"
  using persist_fields [of X env R O' P PO z] by (simp_all add: assms)





lemma demo_fits_empty: "pending_fits demo_queue [] []"
  by (simp add: pending_fits_def demo_queue_def plain_json_def ser_receipt_file_def ser_btree_def
      ser_strings_def enc_str_def QUEUE_RECEIPT_STORE_MAX_BYTES_def)

section \<open>Properties\<close>


definition reserved_store :: submission_store where
  "reserved_store = snd (reserve_receipt demo_queue all_good all_good ''s'' ''t'' True demo_store)"

lemma demo_reserve_works:
  "reserve_receipt demo_queue all_good all_good ''s'' ''t'' True demo_store = (Ok None, reserved_store)"
proof -
  have fits: "pending_fits demo_queue [(''s'', ''t'')] [''s'']"
    by (simp add: pending_fits_def demo_queue_def plain_json_def ser_receipt_file_def ser_btree_def
        ser_strings_def enc_str_def QUEUE_RECEIPT_STORE_MAX_BYTES_def)
  let ?s1 = "demo_store\<lparr>submission_pending := [(''s'', ''t'')], submission_pending_order := [''s'']\<rparr>"
  have "is_ok (fst (persist_submission_snapshot_locked demo_queue all_good [] [] [(''s'', ''t'')] [''s''] ?s1))"
  proof (rule persist_works [OF demo_store_at _ _ _ _ fits])
    show "normalize_queue_pending [(''s'', ''t'')] [''s''] = Ok [''s'']" by code_simp
  qed (simp_all add: demo_store_def store_of_durable_def storage_works_def all_good_def)
  then obtain u s2 where p: "persist_submission_snapshot_locked demo_queue all_good [] [] [(''s'', ''t'')] [''s''] ?s1
      = (Ok u, s2)"
    by (metis (no_types, lifting) is_ok_iff prod.collapse)
  have "fst (reserve_receipt demo_queue all_good all_good ''s'' ''t'' True demo_store) = Ok None"
    using p
    by (simp add: reserve_receipt_def known_submission_def demo_store_def store_of_durable_def
        persist_or_rollback_def persist_submission_store_locked_def SUBMISSION_DEDUPE_LIMIT_def)
  then show ?thesis unfolding reserved_store_def by (metis prod.collapse)
qed


lemma reserved_store_run: "store_run demo_queue queue_path ''queue'' reserved_store"
  by (rule store_run.reserve [OF demo_store_run _ _ demo_reserve_works]) (simp_all add: all_good_def)



text \<open>
  Reserving a submission is all or nothing. In every run, a reservation for dispatch either
  finds the submission unknown and leaves exactly one more pending mark, or reports the stored
  result of the same thread, or fails; a failure leaves the pending marks, the results and the
  volatile marks as they were.
\<close>

theorem submission_reserve_all_or_nothing:
  assumes "store_at X path f" "store_run X path f s" "task_joins env" "task_joins env'"
    and "reserve_receipt X env env' i t True s = (r, s')"
  shows "submission_results s' = submission_results s
    \<and> submission_volatile_pending s' = submission_volatile_pending s
    \<and> (case r of
         Inr None \<Rightarrow> map_of (submission_pending s) i = None \<and> map_of (submission_results s) i = None
           \<and> map_of (submission_pending s') = (map_of (submission_pending s))(i \<mapsto> t)
           \<and> length (submission_pending s') = length (submission_pending s) + 1
       | Inr (Some rc) \<Rightarrow> map_of (submission_results s) i = Some rc \<and> rc_thread_id rc = t
           \<and> submission_pending s' = submission_pending s
       | Inl e \<Rightarrow> submission_pending s' = submission_pending s)"
proof -
  note ok = store_run_ok [OF assms(1,2)]
  note R = reserve_receipt_ok [OF assms(1) ok assms(3-5)]
  have same: "submission_results s' = submission_results s \<and> submission_volatile_pending s' = submission_volatile_pending s"
    using assms(5)
    by (auto simp: reserve_receipt_def known_submission_def persist_or_rollback_def
        persist_submission_store_locked_def dest: persist_fields_of
        split: sum.splits option.splits if_splits prod.splits)
  show ?thesis
  proof (cases r)
    case (Inl e)
    then show ?thesis using same R by simp
  next
    case (Inr o')
    show ?thesis
    proof (cases o')
      case None
      have "map_of (submission_pending s) i = None \<and> map_of (submission_results s) i = None"
        using assms(5) Inr None known_submission_None [of X env i t s]
        by (auto simp: reserve_receipt_def split: sum.splits option.splits prod.splits)
      then show ?thesis using same R Inr None
        by (simp add: length_bt_insert_new [of "submission_pending s" i t])
    next
      case (Some rc)
      have "\<exists>s1. known_submission X env i t s = (Ok (Some rc), s1) \<and> s' = s1"
        using assms(5) Inr Some
        by (auto simp: reserve_receipt_def split: sum.splits option.splits prod.splits if_splits)
      then have "map_of (submission_results s) i = Some rc \<and> rc_thread_id rc = t
          \<and> submission_pending s' = submission_pending s"
        by (auto simp: known_submission_def persist_submission_store_locked_def dest: persist_fields_of
            split: sum.splits option.splits if_splits prod.splits)
      then show ?thesis using same Inr Some by simp
    qed
  qed
qed

theorem submission_reserve_all_or_nothing_witness:
  "map_of (submission_pending reserved_store) = (map_of (submission_pending demo_store))(''s'' \<mapsto> ''t'')
   \<and> submission_results reserved_store = submission_results demo_store"
  using submission_reserve_all_or_nothing [OF demo_store_at demo_store_run _ _ demo_reserve_works]
  by (simp add: all_good_def)







text \<open>
  The tables of the store stay within their limits and agree. In every run, with any faults,
  there are at most 1024 results and at most 1024 pending submissions, the pending order lists
  every pending submission exactly once, and a result is filed under its own submission.
\<close>

theorem submission_tables_bounded:
  assumes "store_at X path f" "store_run X path f s"
  shows "length (submission_results s) \<le> SUBMISSION_DEDUPE_LIMIT
    \<and> length (submission_pending s) \<le> SUBMISSION_DEDUPE_LIMIT
    \<and> distinct (submission_pending_order s)
    \<and> set (submission_pending_order s) = dom (map_of (submission_pending s))
    \<and> (\<forall>k rc. map_of (submission_results s) k = Some rc \<longrightarrow> rc_submission_id rc = k)"
proof -
  have inv: "store_inv s" using store_ok_parts(1) [OF store_run_ok [OF assms]] .
  have "length (submission_results s) = card (fst ` set (submission_results s))"
    using inv distinct_card [of "map fst (submission_results s)"] by (simp add: store_inv_def bt_wf_def)
  also have "\<dots> \<le> card (set (submission_order s))"
    by (rule card_mono) (use inv in \<open>simp_all add: store_inv_def\<close>)
  also have "\<dots> \<le> SUBMISSION_DEDUPE_LIMIT"
    using le_trans [OF card_length, of "submission_order s"] inv by (simp add: store_inv_def)
  finally have "length (submission_results s) \<le> SUBMISSION_DEDUPE_LIMIT" .
  moreover have "rc_submission_id rc = k" if "map_of (submission_results s) k = Some rc" for k rc
    using map_of_SomeD [OF that] inv by (auto simp: store_inv_def receipts_wf_def)
  ultimately show ?thesis using inv by (simp add: store_inv_def dom_map_of_conv_image_fst)
qed

theorem submission_tables_bounded_witness:
  "length (submission_pending reserved_store) \<le> SUBMISSION_DEDUPE_LIMIT
   \<and> set (submission_pending_order reserved_store) = dom (map_of (submission_pending reserved_store))"
  using submission_tables_bounded [OF demo_store_at reserved_store_run] by blast

lemma evict_keeps_last:
  assumes "length order \<le> l" "0 < l" "i \<notin> set order \<or> map_of m i \<noteq> None"
    "evict_oldest l (if map_of m i \<noteq> None then order else order @ [i]) (bt_insert i r m) = (order', m')"
  shows "map_of m' i = Some r"
proof (cases "map_of m i")
  case None
  then have "i \<notin> set order" using assms(3) by simp
  moreover have "take (length (order @ [i]) - l) (order @ [i]) = take (Suc (length order) - l) order"
    using assms(1,2) by simp
  ultimately have "i \<notin> set (take (length (order @ [i]) - l) (order @ [i]))"
    by (metis in_set_takeD)
  then show ?thesis using assms(4) None by (auto simp: evict_oldest_spec map_of_fold_bt_remove)
next
  case (Some v)
  then show ?thesis using assms(1,4) by (auto simp: evict_oldest_spec)
qed

text \<open>
  A delivered submission is answered from its receipt. Once a result \<open>Sent\<close> is remembered the
  pending mark is gone, the scheduler is woken, and a later lookup of the submission never finds
  it unknown: for its thread it returns the stored receipt (or a storage error), for another
  thread it fails.
\<close>

theorem submission_sent_is_replayed:
  assumes "store_at X path f" "store_run X path f s" "resp_disposition result = Sent"
    and "resp_submission_id result \<notin> set (submission_order s)
       \<or> map_of (submission_results s) (resp_submission_id result) \<noteq> None"
    and "remember_submission_result X env result s = (Ok u, s')"
  shows "let i = resp_submission_id result; t = ts_thread_id (resp_queue result) in
    map_of (submission_pending s') i = None \<and> submission_completion_wake s'
    \<and> (\<forall>env' t'. case fst (known_submission X env' i t' s') of
         Inr None \<Rightarrow> False
       | Inr (Some rc) \<Rightarrow> t' = t \<and> rc_disposition rc = Sent \<and> rc_turn_id rc = resp_turn_id result
       | Inl e \<Rightarrow> t' = t \<or> e = bound_elsewhere)"
proof -
  let ?i = "resp_submission_id result"
  let ?rc = "\<lparr>rc_submission_id = ?i, rc_thread_id = ts_thread_id (resp_queue result),
      rc_disposition = Sent, rc_turn_id = resp_turn_id result\<rparr>"
  have inv: "store_inv s" using store_ok_parts(1) [OF store_run_ok [OF assms(1,2)]] .
  obtain order' results' where ev: "evict_oldest SUBMISSION_DEDUPE_LIMIT
       (if map_of (submission_results s) ?i \<noteq> None then submission_order s else submission_order s @ [?i])
       (bt_insert ?i ?rc (submission_results s)) = (order', results')" by fastforce
  have res: "map_of results' ?i = Some ?rc"
    by (rule evict_keeps_last [OF _ _ assms(4) ev])
       (use inv in \<open>simp_all add: store_inv_def SUBMISSION_DEDUPE_LIMIT_def\<close>)
  define s1 where "s1 = s\<lparr>submission_results := results', submission_order := order',
        submission_pending := bt_remove ?i (submission_pending s),
        submission_pending_order := filter (\<lambda>c. c \<noteq> ?i) (submission_pending_order s),
        submission_volatile_pending := bt_remove ?i (submission_volatile_pending s)\<rparr>"
  obtain s2 u2 where p: "persist_submission_store_locked X env s1 = (Ok u2, s2)"
    and s': "s' = s2\<lparr>submission_completion_wake := True\<rparr>"
    using assms(3,5) ev
    by (auto simp: remember_submission_result_def Let_def bt_contains_def s1_def split: sum.splits prod.splits)
  note F = persist_fields_of [OF p [unfolded persist_submission_store_locked_def]]
  have pend: "map_of (submission_pending s') ?i = None" and r': "map_of (submission_results s') ?i = Some ?rc"
    using F res by (simp_all add: s' s1_def)
  then show ?thesis
    by (auto simp: Let_def s' known_submission_def split: sum.splits prod.splits)
qed

definition demo_sent :: bridge_thread_queue_send_response where
  "demo_sent = \<lparr>resp_submission_id = ''s'', resp_disposition = Sent,
      resp_queue = snapshot_for_thread ''t'' None, resp_turn_id = Some ''u''\<rparr>"

theorem submission_sent_is_replayed_witness:
  "let s' = snd (remember_submission_result demo_queue all_good demo_sent demo_store) in
   submission_completion_wake s' \<and> fst (known_submission demo_queue all_good ''s'' ''t'' s') \<noteq> Ok None"
proof -
  have works: "is_ok (fst (persist_submission_snapshot_locked demo_queue all_good R O' [] [] s))"
    if "submission_store_path s = Some queue_path" "store_directory s = Map.empty" for R O' s
  proof (rule persist_works [OF demo_store_at that(1) _ _ _ demo_fits_empty])
    show "normalize_queue_pending [] [] = Ok []" by code_simp
  qed (simp_all add: that storage_works_def all_good_def)
  have no: False if "persist_submission_snapshot_locked demo_queue all_good R O' [] [] s = (Err e, s')"
    "submission_store_path s = Some queue_path" "store_directory s = Map.empty" for R O' s e s'
    using works [OF that(2,3), of R O'] that(1) by simp
  have "is_ok (fst (remember_submission_result demo_queue all_good demo_sent demo_store))"
    by (auto simp: remember_submission_result_def Let_def persist_submission_store_locked_def demo_store_def
        store_of_durable_def demo_sent_def bt_remove_def bt_contains_def evict_oldest_spec
        SUBMISSION_DEDUPE_LIMIT_def split: sum.splits prod.splits dest: no)
  then obtain u where r: "remember_submission_result demo_queue all_good demo_sent demo_store
      = (Ok u, snd (remember_submission_result demo_queue all_good demo_sent demo_store))"
    by (metis is_ok_iff prod.collapse)
  show ?thesis
    using submission_sent_is_replayed [OF demo_store_at demo_store_run _ _ r]
    by (auto simp: Let_def demo_sent_def demo_store_def store_of_durable_def split: sum.splits option.splits)
qed

end
