(* ===== verification/Queue_Guarantees.thy ===== *)
theory Queue_Guarantees
  imports Queue_Dispatch Submission_Properties
begin

text \<open>
  What the queue of a thread guarantees: at most one turn per submission, order of the messages,
  scheduled prompts out of the users' reach, and no message lost when a run ends.
\<close>

section \<open>Frames of the small operations\<close>

lemma emit_simps [simp]:
  "qs_threads (emit out S) = qs_threads S" "qs_store (emit out S) = qs_store S"
  "qs_fence (emit out S) = qs_fence S" "qs_outputs (emit out S) = qs_outputs S @ [out]"
  "qs_next_queue_item_id (emit out S) = qs_next_queue_item_id S"
  "runtime_of (emit out S) t = runtime_of S t"
  "qs_completion_dispositions (emit out S) = qs_completion_dispositions S"
  by (simp_all add: emit_def runtime_of_def)

lemma set_runtime_simps [simp]:
  "qs_store (set_runtime t rt S) = qs_store S" "qs_fence (set_runtime t rt S) = qs_fence S"
  "qs_outputs (set_runtime t rt S) = qs_outputs S"
  "qs_next_queue_item_id (set_runtime t rt S) = qs_next_queue_item_id S"
  "runtime_of (set_runtime t rt S) t' = (if t' = t then Some rt else runtime_of S t')"
  by (simp_all add: set_runtime_def runtime_of_def)

lemma update_runtime_simps [simp]:
  "qs_store (update_runtime t f S) = qs_store S" "qs_fence (update_runtime t f S) = qs_fence S"
  "qs_outputs (update_runtime t f S) = qs_outputs S"
  "qs_next_queue_item_id (update_runtime t f S) = qs_next_queue_item_id S"
  "runtime_of (update_runtime t f S) t' = (if t' = t then map_option f (runtime_of S t) else runtime_of S t')"
  by (auto simp: update_runtime_def split: option.splits)

lemma store_update_simps [simp]:
  "runtime_of (S\<lparr>qs_store := st\<rparr>) t = runtime_of S t"
  by (simp add: runtime_of_def)

lemma on_store_result:
  "on_store g S = (r, S') \<longleftrightarrow> r = fst (g (qs_store S)) \<and> S' = S\<lparr>qs_store := snd (g (qs_store S))\<rparr>"
  by (auto simp: on_store_def split: prod.splits)

lemma record_completion_simps [simp]:
  "qs_outputs (record_completion_disposition i d S) = qs_outputs S"
  "qs_store (record_completion_disposition i d S) = qs_store S"
  "runtime_of (record_completion_disposition i d S) t = runtime_of S t"
  "qs_next_queue_item_id (record_completion_disposition i d S) = qs_next_queue_item_id S"
  by (simp_all add: record_completion_disposition_def Let_def runtime_of_def)

lemma record_completions_simps [simp]:
  "qs_outputs (record_completions ids d S) = qs_outputs S"
  "qs_store (record_completions ids d S) = qs_store S"
  "runtime_of (record_completions ids d S) t = runtime_of S t"
  "qs_next_queue_item_id (record_completions ids d S) = qs_next_queue_item_id S"
  unfolding record_completions_def by (induction ids arbitrary: S) auto

definition turn_starts :: "queue_output list \<Rightarrow> queue_output list" where
  "turn_starts outs = filter (\<lambda>x. case x of Turn_start _ _ _ \<Rightarrow> True | _ \<Rightarrow> False) outs"

lemma turn_starts_simps [simp]:
  "turn_starts [] = []" "turn_starts (xs @ ys) = turn_starts xs @ turn_starts ys"
  "turn_starts (Broadcast_queue b # xs) = turn_starts xs"
  "turn_starts (Turn_start t v u # xs) = Turn_start t v u # turn_starts xs"
  "turn_starts (Spawn_auto_dispatch t # xs) = turn_starts xs"
  "turn_starts (Spawn_steer_dispatch t # xs) = turn_starts xs"
  "turn_starts (Schedule_auto_dispatch_retry t n # xs) = turn_starts xs"
  "turn_starts (Update_agent_message m d # xs) = turn_starts xs"
  "turn_starts (Record_agent_messages ms # xs) = turn_starts xs"
  "turn_starts (Remove_agent_message m # xs) = turn_starts xs"
  "turn_starts (Publish_agent_message m # xs) = turn_starts xs"
  by (simp_all add: turn_starts_def)

lemma persist_agent_message_frame [simp]:
  "turn_starts (qs_outputs (snd (persist_agent_message_disposition a m d S))) = turn_starts (qs_outputs S)"
  "qs_store (snd (persist_agent_message_disposition a m d S)) = qs_store S"
  "runtime_of (snd (persist_agent_message_disposition a m d S)) t = runtime_of S t"
  by (auto simp: persist_agent_message_disposition_def Let_def split: sum.splits)

section \<open>Sending\<close>

lemma ensure_thread_runtime_frame:
  "ensure_thread_runtime snap t S = (r, S') \<Longrightarrow>
     qs_store S' = qs_store S \<and> qs_outputs S' = qs_outputs S \<and> qs_next_queue_item_id S' = qs_next_queue_item_id S
     \<and> (\<forall>t'. runtime_of S t' \<noteq> None \<longrightarrow> runtime_of S' t' = runtime_of S t')"
  by (auto simp: ensure_thread_runtime_def Let_def split: sum.splits if_splits)

lemma lookup_submission_None:
  assumes "lookup_submission X env sid t S = (Ok None, S')"
  shows "S' = S \<and> map_of (submission_pending (qs_store S)) sid = None
    \<and> map_of (submission_results (qs_store S)) sid = None
    \<and> map_of (submission_volatile_pending (qs_store S)) sid = None"
proof -
  have k: "known_submission X env sid t (qs_store S) = (Ok None, snd (known_submission X env sid t (qs_store S)))"
    and S': "S' = S\<lparr>qs_store := snd (known_submission X env sid t (qs_store S))\<rparr>"
    using assms by (auto simp: lookup_submission_def answer_receipt_def on_store_def
        split: prod.splits sum.splits option.splits)
  from known_submission_None [OF k] show ?thesis using S' by simp
qed

lemma reserve_submission_cases:
  assumes "reserve_submission X env env' sid t p S = (r, S')"
  shows "\<exists>q st. reserve_receipt X env env' sid t p (qs_store S) = (q, st) \<and> S' = S\<lparr>qs_store := st\<rparr>
    \<and> (r = Ok None \<longleftrightarrow> q = Ok None) \<and> (is_ok r \<longleftrightarrow> is_ok q)"
  using assms
  by (auto simp: reserve_submission_def answer_receipt_def on_store_def
      split: prod.splits sum.splits option.splits)

lemma enqueue_message_no_turn:
  "enqueue_message X E t item S = (r, S') \<Longrightarrow> turn_starts (qs_outputs S') = turn_starts (qs_outputs S)"
  by (auto simp: enqueue_message_def Let_def on_store_def dest!: reserve_submission_cases
      split: if_splits prod.splits sum.splits option.splits)

lemma release_memory:
  assumes "release_submission X env i s = (r, s1)"
  shows "case r of Inr _ \<Rightarrow> map_of (submission_pending s1) i = None
    | Inl _ \<Rightarrow> submission_pending s1 = submission_pending s"
  using assms
  by (auto simp: release_submission_def Let_def bt_contains_def dest: persist_fields_of
      split: if_splits sum.splits prod.splits)

lemma settle_memory:
  "settle_definitive_dispatch_failure X as i t e s = Some (r, s') \<Longrightarrow>
     (case r of Inr _ \<Rightarrow> map_of (submission_pending s') i = None
      | Inl x \<Rightarrow> submission_pending s' = submission_pending s \<and> definitive_settlement_was_interrupted x)"
proof (induction as arbitrary: s)
  case (Cons a as)
  obtain env b where a: "a = (env, b)" by fastforce
  obtain q s1 where rel: "release_submission X env i s = (q, s1)" by fastforce
  have int: "definitive_settlement_was_interrupted (interrupted_message e y)" for y
    by (simp add: definitive_settlement_was_interrupted_def interrupted_message_def starts_with_def)
  show ?case
    using Cons a rel release_memory [OF rel] int
    by (auto simp: Let_def split: sum.splits if_splits)
qed simp

text \<open>The three ways a dispatch ends, given that the submission was reserved.\<close>

definition dispatch_outcome ::
  "str + str \<Rightarrow> str \<Rightarrow> str \<Rightarrow> str + bridge_thread_queue_send_response \<Rightarrow> submission_store \<Rightarrow> bool" where
  "dispatch_outcome answer sid t r st =
     (case answer of
        Inr turn_id \<Rightarrow>
          (case r of Inl _ \<Rightarrow> True
           | Inr resp \<Rightarrow> resp_disposition resp = Sent \<and> resp_turn_id resp = Some turn_id)
      | Inl error \<Rightarrow>
          if dispatch_failure_is_indeterminate error
          then r = Err error \<and> map_of (submission_pending st) sid = Some t
          else r = Err error \<and> map_of (submission_pending st) sid = None
            \<or> (\<exists>e. r = Err e \<and> definitive_settlement_was_interrupted e
                  \<and> map_of (submission_pending st) sid = Some t))"

lemma dispatch_message_cases:
  assumes "dispatch_message X E t item S = Some (r, S')"
  shows "(turn_starts (qs_outputs S') = turn_starts (qs_outputs S)
      \<and> fst (reserve_submission X (se_reserve_io E) (se_rollback_io E) (qe_submission_id item) t True S) \<noteq> Ok None)
    \<or> (\<exists>st. reserve_receipt X (se_reserve_io E) (se_rollback_io E) (qe_submission_id item) t True (qs_store S) = (Ok None, st)
        \<and> turn_starts (qs_outputs S') = turn_starts (qs_outputs S)
            @ [Turn_start t (qe_turn_start item) (submission_source_turn_id X (qe_submission_id item))]
        \<and> (map_of (submission_pending st) (qe_submission_id item) = Some t \<longrightarrow>
             dispatch_outcome (se_turn_start E) (qe_submission_id item) t r (qs_store S')))"
proof -
  let ?sid = "qe_submission_id item"
  obtain q S1 where res: "reserve_submission X (se_reserve_io E) (se_rollback_io E) ?sid t True S = (q, S1)" by fastforce
  obtain q' st where R: "reserve_receipt X (se_reserve_io E) (se_rollback_io E) ?sid t True (qs_store S) = (q', st)"
      "S1 = S\<lparr>qs_store := st\<rparr>" "q = Ok None \<longleftrightarrow> q' = Ok None"
    using reserve_submission_cases [OF res] by blast
  show ?thesis
  proof (cases "q = Ok None")
    case False
    then have "qs_outputs S' = qs_outputs S1"
      using assms res by (auto simp: dispatch_message_def split: sum.splits option.splits)
    then show ?thesis using False R res by simp
  next
    case True
    show ?thesis
    proof (cases "se_turn_start E")
      case (Inr turn_id)
      then show ?thesis using assms res True R
        by (auto simp: dispatch_message_def Let_def on_store_def dispatch_outcome_def
            split: prod.splits sum.splits)
    next
      case (Inl error)
      show ?thesis
      proof (cases "dispatch_failure_is_indeterminate error")
        case ind: True
        then show ?thesis using assms res True R Inl
          by (auto simp: dispatch_message_def Let_def dispatch_outcome_def)
      next
        case ind: False
        then obtain q2 st2 where settle: "settle_definitive_dispatch_failure X (se_settlement E) ?sid t error st
            = Some (q2, st2)"
          using assms res True R Inl by (auto simp: dispatch_message_def Let_def split: option.splits)
        have r: "r = (case q2 of Inl e \<Rightarrow> Err e | Inr _ \<Rightarrow> Err error)" "qs_store S' = st2"
            "turn_starts (qs_outputs S') = turn_starts (qs_outputs S)
              @ [Turn_start t (qe_turn_start item) (submission_source_turn_id X ?sid)]"
          using assms res True R Inl ind settle by (auto simp: dispatch_message_def Let_def split: sum.splits)
        show ?thesis
          using settle_memory [OF settle] r R True ind Inl
          by (auto simp: dispatch_outcome_def split: sum.splits)
      qed
    qed
  qed
qed

text \<open>A send as far as its decision: rejected, answered, queued, or dispatched.\<close>

lemma send_message_cases:
  assumes "send_message_with_origin X E request origin adm S = Some (r, S')"
  shows "(turn_starts (qs_outputs S') = turn_starts (qs_outputs S))
    \<or> (\<exists>item S3. qe_submission_id item = trim (sq_submission_id request)
        \<and> qe_turn_start item = sq_turn_start request \<and> qs_store S3 = qs_store S \<and> qs_outputs S3 = qs_outputs S
        \<and> map_of (submission_pending (qs_store S)) (qe_submission_id item) = None
        \<and> map_of (submission_results (qs_store S)) (qe_submission_id item) = None
        \<and> map_of (submission_volatile_pending (qs_store S)) (qe_submission_id item) = None
        \<and> (\<forall>rt. runtime_of S (trim (sq_thread_id request)) = Some rt \<longrightarrow> \<not> runtime_is_blocked_or_occupied rt)
        \<and> dispatch_message X E (trim (sq_thread_id request)) item S3 = Some (r, S'))"
proof -
  let ?t = "trim (sq_thread_id request)"
  let ?sid = "trim (sq_submission_id request)"
  obtain q1 S1 where ens: "ensure_thread_runtime (se_snapshot E) ?t S = (q1, S1)" by fastforce
  obtain q2 S2 where lk: "lookup_submission X (se_lookup_io E) ?sid ?t S1 = (q2, S2)" by fastforce
  note F = ensure_thread_runtime_frame [OF ens]
  have out2: "qs_outputs S2 = qs_outputs S1"
    using lk by (auto simp: lookup_submission_def answer_receipt_def on_store_def
        split: prod.splits sum.splits option.splits)
  define S3 where "S3 = snd (next_queued_message_id S2)"
  define item where "item = \<lparr>qe_id = fst (next_queued_message_id S2), qe_submission_id = ?sid,
      qe_created_at = se_created_at E, qe_content = trim (sq_content request),
      qe_turn_start = sq_turn_start request, qe_agent_message = origin\<rparr>"
  have S3: "qs_outputs S3 = qs_outputs S2" "qs_store S3 = qs_store S2" "runtime_of S3 t' = runtime_of S2 t'" for t'
    by (simp_all add: S3_def next_queued_message_id_def runtime_of_def)
  let ?busy = "case runtime_of S3 ?t of None \<Rightarrow> False | Some rt \<Rightarrow> runtime_is_blocked_or_occupied rt"
  have cases: "qs_outputs S' = qs_outputs S \<or> q1 = Ok () \<and> q2 = Ok None
      \<and> (if ?busy then enqueue_message X E ?t item S3 = (r, S') else dispatch_message X E ?t item S3 = Some (r, S'))"
    using assms ens lk F out2
    by (auto simp: send_message_with_origin_def Let_def S3_def item_def next_queued_message_id_def
        split: sum.splits option.splits if_splits)
  show ?thesis
  proof (cases "qs_outputs S' = qs_outputs S")
    case True
    then show ?thesis by simp
  next
    case False
    with cases have ok: "q1 = Ok ()" "q2 = Ok None" by blast+
    note L = lookup_submission_None [OF lk [unfolded ok(2)]]
    show ?thesis
    proof (cases ?busy)
      case True
      then show ?thesis using cases False enqueue_message_no_turn [of X E ?t item S3 r S'] S3 L F by simp
    next
      case idle: False
      have "\<not> runtime_is_blocked_or_occupied rt" if "runtime_of S ?t = Some rt" for rt
        using idle that F S3 L by (auto split: option.splits)
      then show ?thesis
        using cases False idle S3 L F
        by (intro disjI2 exI [of _ item] exI [of _ S3]) (simp add: item_def)
    qed
  qed
qed

text \<open>A send returns, except while the settlement of a definitive failure is being retried.\<close>

lemma dispatch_message_returns:
  assumes "\<forall>e. se_turn_start E = Err e \<longrightarrow> \<not> dispatch_failure_is_indeterminate e \<longrightarrow>
     (\<forall>st. settle_definitive_dispatch_failure X (se_settlement E) (qe_submission_id item) t e st \<noteq> None)"
  shows "dispatch_message X E t item S \<noteq> None"
proof (cases "se_turn_start E")
  case (Inl e)
  then have "dispatch_failure_is_indeterminate e \<or>
      (\<forall>st. settle_definitive_dispatch_failure X (se_settlement E) (qe_submission_id item) t e st \<noteq> None)"
    using assms by blast
  then show ?thesis using Inl
    by (auto simp: dispatch_message_def Let_def split: prod.split sum.split option.split)
       (metis option.distinct(1))
qed (auto simp: dispatch_message_def Let_def split: prod.split sum.split option.split)

lemma send_message_returns:
  assumes "\<forall>e. se_turn_start E = Err e \<longrightarrow> \<not> dispatch_failure_is_indeterminate e \<longrightarrow>
     (\<forall>st. settle_definitive_dispatch_failure X (se_settlement E) (trim (sq_submission_id request))
       (trim (sq_thread_id request)) e st \<noteq> None)"
  shows "send_message_with_origin X E request origin adm S \<noteq> None"
proof -
  have "dispatch_message X E (trim (sq_thread_id request)) item S3 \<noteq> None"
    if "qe_submission_id item = trim (sq_submission_id request)" for item S3
    by (rule dispatch_message_returns) (use assms that in simp)
  then show ?thesis
    by (simp add: send_message_with_origin_def Let_def split: prod.split sum.split option.split)
qed

section \<open>Dispatching the next message\<close>

lemma drain_dispatched_runtime:
  assumes "drain_dispatched X E t item turn_id S = Some S'" "runtime_of S t = Some rt"
  shows "\<exists>rt'. runtime_of S' t = Some rt' \<and> rt_items rt' = rt_items rt \<and> rt_thread_running rt'
    \<and> \<not> rt_turn_start_in_flight rt' \<and> rt_active_turn_id rt' = Some turn_id
    \<and> turn_starts (qs_outputs S') = turn_starts (qs_outputs S)"
  using assms
  by (auto simp: drain_dispatched_def Let_def split: option.splits)

lemma note_retry_fields [simp]:
  "rt_items (note_retry rt) = rt_items rt"
  "rt_turn_start_in_flight (note_retry rt) = rt_turn_start_in_flight rt"
  "rt_pending_steers (note_retry rt) = rt_pending_steers rt"
  "rt_steer_dispatch_in_flight (note_retry rt) = rt_steer_dispatch_in_flight rt"
  "rt_dispatch_retry_scheduled (note_retry rt)"
  by (simp_all add: note_retry_def)

lemma drain_failed_runtime:
  assumes "drain_failed X E t item error S = Some S'" "runtime_of S t = Some rt"
  shows "\<exists>rt'. runtime_of S' t = Some rt'
    \<and> rt_items rt' = (if dispatch_failure_is_indeterminate error then rt_items rt else item # rt_items rt)
    \<and> \<not> rt_turn_start_in_flight rt'
    \<and> turn_starts (qs_outputs S') = turn_starts (qs_outputs S)"
  using assms
  by (auto simp: drain_failed_def Let_def schedule_auto_dispatch_retry_def split: option.splits)

lemma drain_mark_failed_runtime:
  assumes "runtime_of S t = Some rt"
  shows "\<exists>rt'. runtime_of (drain_mark_failed now error t item S) t = Some rt' \<and> rt_items rt' = item # rt_items rt
    \<and> \<not> rt_turn_start_in_flight rt' \<and> rt_dispatch_retry_scheduled rt'
    \<and> turn_starts (qs_outputs (drain_mark_failed now error t item S)) = turn_starts (qs_outputs S)"
  using assms by (auto simp: drain_mark_failed_def Let_def schedule_auto_dispatch_retry_def)

text \<open>A drain that starts a turn starts that of the first message, on a thread nothing blocks.\<close>

definition drain_turn ::
  "queue_ext \<Rightarrow> drain_env \<Rightarrow> str \<Rightarrow> queue_service \<Rightarrow> queue_service
     \<Rightarrow> bridge_thread_queue_runtime \<Rightarrow> bridge_thread_queue_runtime \<Rightarrow> bool" where
  "drain_turn X E t S S' rt rt' =
     (\<exists>item rest st. rt_items rt = item # rest \<and> \<not> runtime_has_blockers rt
        \<and> turn_starts (qs_outputs S') = turn_starts (qs_outputs S)
            @ [Turn_start t (qe_turn_start item) (submission_source_turn_id X (qe_submission_id item))]
        \<and> mark_submission_dispatch_pending X (de_mark_io E) (de_rollback_io E) (qe_submission_id item) t
            (qs_store S) = (Ok (), st)
        \<and> rt_items rt' = (case de_turn_start E of
              Inr _ \<Rightarrow> rest
            | Inl e \<Rightarrow> if dispatch_failure_is_indeterminate e then rest else item # rest)
        \<and> (rt_thread_running rt' \<or> \<not> is_ok (de_turn_start E)))"

lemma drain_thread_queue_cases:
  assumes "drain_thread_queue X E t S = Some S'" "runtime_of S t = Some rt"
  shows "\<exists>rt'. runtime_of S' t = Some rt' \<and>
    (turn_starts (qs_outputs S') = turn_starts (qs_outputs S) \<and> rt_items rt' = rt_items rt
     \<or> drain_turn X E t S S' rt rt')"
proof (cases "is_ok (admit (qs_fence S) t) \<and> \<not> runtime_has_blockers rt")
  case False
  then have "S' = S" using assms by (auto simp: drain_thread_queue_def is_ok_def split: sum.splits)
  then show ?thesis using assms by simp
next
  case True
  then obtain u where adm: "admit (qs_fence S) t = Ok u" by (auto simp: is_ok_iff)
  show ?thesis
  proof (cases "rt_items rt")
    case Nil
    then show ?thesis using assms adm True by (auto simp: drain_thread_queue_def)
  next
    case (Cons item rest)
    let ?rt1 = "rt\<lparr>rt_items := rest, rt_turn_start_in_flight := True, rt_last_error := None\<rparr>"
    let ?S1 = "emit (Broadcast_queue (snapshot_for_thread t (Some ?rt1))) (set_runtime t ?rt1 S)"
    obtain q st where mk: "mark_submission_dispatch_pending X (de_mark_io E) (de_rollback_io E)
        (qe_submission_id item) t (qs_store S) = (q, st)" by fastforce
    have on: "on_store (mark_submission_dispatch_pending X (de_mark_io E) (de_rollback_io E)
        (qe_submission_id item) t) ?S1 = (q, ?S1\<lparr>qs_store := st\<rparr>)" by (simp add: on_store_def mk)
    show ?thesis
    proof (cases q)
      case (Inl error)
      then have "S' = drain_mark_failed (de_now E) error t item (?S1\<lparr>qs_store := st\<rparr>)"
        using assms adm True Cons on by (simp add: drain_thread_queue_def Let_def)
      then show ?thesis
        using drain_mark_failed_runtime [of "?S1\<lparr>qs_store := st\<rparr>" t ?rt1 "de_now E" error item] Cons by auto
    next
      case (Inr v)
      let ?S4 = "emit (Turn_start t (qe_turn_start item) (submission_source_turn_id X (qe_submission_id item)))
          (update_runtime t (\<lambda>r. r\<lparr>rt_dispatch_retry_attempt := 0\<rparr>) (?S1\<lparr>qs_store := st\<rparr>))"
      have S4: "runtime_of ?S4 t = Some (?rt1\<lparr>rt_dispatch_retry_attempt := 0\<rparr>)"
        "turn_starts (qs_outputs ?S4) = turn_starts (qs_outputs S)
              @ [Turn_start t (qe_turn_start item) (submission_source_turn_id X (qe_submission_id item))]"
        by simp_all
      show ?thesis
      proof (cases "de_turn_start E")
        case ans: (Inr turn_id)
        then have "drain_dispatched X E t item turn_id ?S4 = Some S'"
          using assms adm True Cons on Inr by (simp add: drain_thread_queue_def Let_def)
        from drain_dispatched_runtime [OF this S4(1)]
        show ?thesis using S4(2) ans Cons True mk Inr by (auto simp: drain_turn_def)
      next
        case ans: (Inl error)
        then have "drain_failed X E t item error ?S4 = Some S'"
          using assms adm True Cons on Inr by (simp add: drain_thread_queue_def Let_def)
        from drain_failed_runtime [OF this S4(1)]
        show ?thesis using S4(2) ans Cons True mk Inr by (auto simp: drain_turn_def)
      qed
    qed
  qed
qed

end
