(* ===== verification/Queue_Refinement.thy ===== *)
theory Queue_Refinement
  imports Message_Queue Queue_Guarantees
begin

text \<open>
  The operations of the queue service are steps of the abstract message queue, thread by thread:
  \<open>view_of\<close> forgets everything but the messages and the edit, and \<open>evolves\<close> says that every thread
  makes an abstract step. \<open>queue_step\<close> interleaves all operations, with each stretch of the
  steering loop between two waits as a step of its own.
\<close>

definition view_of :: "bridge_thread_queue_runtime \<Rightarrow> message_queue" where
  "view_of rt =
     \<lparr>mq_items = rt_items rt, mq_steers = rt_pending_steers rt,
      mq_in_flight = map_option sd_entry (rt_steer_dispatch_in_flight rt), mq_editing = rt_editing_item_id rt\<rparr>"

definition queue_view :: "queue_service \<Rightarrow> str \<Rightarrow> message_queue" where
  "queue_view S t = (case runtime_of S t of None \<Rightarrow> mq_empty | Some rt \<Rightarrow> view_of rt)"

definition evolves :: "queue_service \<Rightarrow> queue_service \<Rightarrow> bool" where
  "evolves S S' =
     (qs_next_queue_item_id S \<le> qs_next_queue_item_id S'
      \<and> (\<forall>t. (runtime_of S' t = None \<longrightarrow> runtime_of S t = None)
          \<and> mq_step (qs_next_queue_item_id S) (qs_next_queue_item_id S') (queue_view S t) (queue_view S' t)))"

definition service_ok :: "queue_service \<Rightarrow> bool" where
  "service_ok S = (\<forall>t. mq_ok (qs_next_queue_item_id S) (queue_view S t))"

lemma evolves_ok: "evolves S S' \<Longrightarrow> service_ok S \<Longrightarrow> service_ok S'"
  by (auto simp: evolves_def service_ok_def intro: mq_step_ok)

lemma view_of_simps [simp]:
  "mq_items (view_of rt) = rt_items rt" "mq_steers (view_of rt) = rt_pending_steers rt"
  "mq_in_flight (view_of rt) = map_option sd_entry (rt_steer_dispatch_in_flight rt)"
  "mq_editing (view_of rt) = rt_editing_item_id rt"
  by (simp_all add: view_of_def)

lemma view_of_default [simp]: "view_of runtime_default = mq_empty" "view_of (hydrate_thread_runtime s) = mq_empty"
  by (simp_all add: view_of_def runtime_default_def mq_empty_def hydrate_thread_runtime_def Let_def)

lemma queue_view_Some: "runtime_of S t = Some rt \<Longrightarrow> queue_view S t = view_of rt"
  by (simp add: queue_view_def)

lemma queue_view_default: "queue_view S t = view_of (runtime_or_default S t)"
  by (simp add: queue_view_def runtime_or_default_def split: option.split)

lemma queue_view_cong: "runtime_of S t = runtime_of S' t' \<Longrightarrow> queue_view S t = queue_view S' t'"
  by (simp add: queue_view_def)

text \<open>An operation that changes the runtime of one thread only.\<close>

lemma evolves_thread:
  assumes "\<And>t'. runtime_of S' t' = (if t' = t then Some rt' else runtime_of S t')"
    and "mq_step (qs_next_queue_item_id S) (qs_next_queue_item_id S') (queue_view S t) (view_of rt')"
    and "qs_next_queue_item_id S \<le> qs_next_queue_item_id S'"
  shows "evolves S S'"
  using assms by (auto simp: evolves_def queue_view_def intro: mq_step.keep)

lemma evolves_same:
  assumes "\<And>t'. runtime_of S' t' = runtime_of S t'" "qs_next_queue_item_id S \<le> qs_next_queue_item_id S'"
  shows "evolves S S'"
  using assms by (auto simp: evolves_def queue_view_def intro: mq_step.keep)

lemma evolves_refl [simp]: "evolves S S"
  by (rule evolves_same) simp_all

lemma evolves_one:
  assumes "\<forall>t'. t' \<noteq> t \<longrightarrow> queue_view S' t' = queue_view S t'" "\<forall>t'. runtime_of S' t' = None \<longrightarrow> runtime_of S t' = None"
    and "mq_step (qs_next_queue_item_id S) (qs_next_queue_item_id S') (queue_view S t) (queue_view S' t)"
    and "qs_next_queue_item_id S \<le> qs_next_queue_item_id S'"
  shows "evolves S S'"
  unfolding evolves_def using assms by (metis mq_step.keep)

text \<open>Changes of the thread's state outside the view.\<close>

lemma evolves_view:
  assumes "\<And>t'. runtime_of S' t' = (if t' = t then Some rt' else runtime_of S t')"
    and "view_of rt' = queue_view S t" "qs_next_queue_item_id S \<le> qs_next_queue_item_id S'"
  shows "evolves S S'"
  using assms by (intro evolves_thread [of S' t rt' S]) (simp_all add: mq_step.keep)

text \<open>Operations that leave every view as it is.\<close>

definition same_views :: "queue_service \<Rightarrow> queue_service \<Rightarrow> bool" where
  "same_views S S' =
     (qs_next_queue_item_id S' = qs_next_queue_item_id S
      \<and> (\<forall>t. queue_view S' t = queue_view S t \<and> (runtime_of S' t = None \<longrightarrow> runtime_of S t = None)))"

lemma same_views_refl [simp]: "same_views S S"
  by (simp add: same_views_def)

lemma same_views_trans: "same_views S S1 \<Longrightarrow> same_views S1 S2 \<Longrightarrow> same_views S S2"
  by (simp add: same_views_def)

lemma same_views_evolves: "same_views S S1 \<Longrightarrow> evolves S1 S2 \<Longrightarrow> evolves S S2"
  by (auto simp: same_views_def evolves_def)

lemma evolves_if_same: "same_views S S' \<Longrightarrow> evolves S S'"
  by (erule same_views_evolves) simp

section \<open>Sending\<close>

lemma next_id_simps [simp]:
  "qs_next_queue_item_id (S\<lparr>qs_store := st\<rparr>) = qs_next_queue_item_id S"
  "qs_next_queue_item_id (snd (persist_agent_message_disposition a m ad S)) = qs_next_queue_item_id S"
  by (auto simp: persist_agent_message_disposition_def Let_def split: sum.splits)

lemma queue_view_simps [simp]:
  "queue_view (S\<lparr>qs_store := st\<rparr>) t = queue_view S t"
  "queue_view (emit out S) t = queue_view S t"
  "queue_view (record_completions ids d S) t = queue_view S t"
  "queue_view (record_completion_disposition i d S) t = queue_view S t"
  "queue_view (snd (persist_agent_message_disposition a m ad S)) t = queue_view S t"
  "queue_view (set_runtime t' rt S) t = (if t = t' then view_of rt else queue_view S t)"
  by (simp_all add: queue_view_def)

lemma evolves_outside [simp]:
  "evolves S (S'\<lparr>qs_store := st\<rparr>) = evolves S S'"
  "evolves S (emit out S') = evolves S S'"
  "evolves S (record_completions ids d S') = evolves S S'"
  "evolves S (record_completion_disposition i d S') = evolves S S'"
  "evolves S (snd (persist_agent_message_disposition a m ad S')) = evolves S S'"
  by (simp_all add: evolves_def)

lemma evolves_persist_agent:
  "persist_agent_message_disposition a m ad S' = (r, S1) \<Longrightarrow> evolves S S1 = evolves S S'"
  by (metis evolves_outside(5) snd_conv)

lemma same_views_outside [simp]:
  "same_views S (S'\<lparr>qs_store := st\<rparr>) = same_views S S'"
  "same_views S (emit out S') = same_views S S'"
  "same_views S (record_completions ids d S') = same_views S S'"
  "same_views S (record_completion_disposition i d S') = same_views S S'"
  "same_views S (snd (persist_agent_message_disposition a m ad S')) = same_views S S'"
  by (simp_all add: same_views_def)

lemma same_views_set:
  "same_views S S' \<Longrightarrow> view_of rt = queue_view S t \<Longrightarrow> same_views S (set_runtime t rt S')"
  by (auto simp: same_views_def)

lemma same_views_update:
  assumes "same_views S S'" "\<And>rt. view_of (f rt) = view_of rt"
  shows "same_views S (update_runtime t f S')"
proof (cases "runtime_of S' t")
  case (Some rt)
  then have "view_of (f rt) = queue_view S t" using assms by (metis queue_view_Some same_views_def)
  then show ?thesis using Some assms(1) by (simp add: update_runtime_def same_views_set)
qed (simp add: update_runtime_def assms(1))

lemma evolves_set:
  assumes "mq_step (qs_next_queue_item_id S) (qs_next_queue_item_id S) (queue_view S t) (view_of rt)"
  shows "evolves S (set_runtime t rt S)"
  using assms by (auto simp: evolves_def intro: mq_step.keep)

lemma ensure_thread_runtime_view:
  "ensure_thread_runtime snap t S = (r, S') \<Longrightarrow> same_views S S'"
  by (auto simp: ensure_thread_runtime_def Let_def same_views_def queue_view_def split: sum.splits if_splits)

lemma lookup_submission_view: "lookup_submission X env sid t S = (r, S') \<Longrightarrow> same_views S S'"
  by (auto simp: lookup_submission_def answer_receipt_def on_store_def split: prod.splits sum.splits option.splits)

lemma reserve_submission_view:
  assumes "reserve_submission X env env' sid t p S = (r, S')"
  shows "same_views S S'" "runtime_of S' t' = runtime_of S t'"
  using reserve_submission_cases [OF assms] by auto

lemma dispatch_message_view:
  assumes "dispatch_message X E t item S = Some (r, S')"
  shows "same_views S S'"
proof -
  obtain q S1 where res: "reserve_submission X (se_reserve_io E) (se_rollback_io E) (qe_submission_id item) t True S
      = (q, S1)" by fastforce
  note V = reserve_submission_view [OF res]
  have v: "view_of (rt\<lparr>rt_turn_start_in_flight := a, rt_last_error := b\<rparr>) = view_of rt"
    "view_of (rt\<lparr>rt_turn_start_in_flight := a, rt_thread_running := c, rt_active_turn_id := d, rt_last_error := b\<rparr>) = view_of rt"
    "view_of (rt\<lparr>rt_turn_start_in_flight := a, rt_last_error := b, rt_last_error_submission_id := e\<rparr>) = view_of rt"
    for rt a b c d e by (simp_all add: view_of_def)
  define S3 where "S3 = emit (Turn_start t (qe_turn_start item) (submission_source_turn_id X (qe_submission_id item)))
      (set_runtime t ((runtime_or_default S1 t)\<lparr>rt_turn_start_in_flight := True, rt_last_error := None\<rparr>) S1)"
  have "view_of (runtime_or_default S1 t) = queue_view S t"
    using V(1) by (simp add: same_views_def queue_view_default)
  then have S3: "same_views S S3" by (simp add: S3_def V(1) same_views_set v)
  then have v3: "view_of (runtime_or_default S3 t) = queue_view S t" by (simp add: same_views_def queue_view_default)
  consider "q \<noteq> Ok None" | (started) turn_id where "q = Ok None" "se_turn_start E = Ok turn_id"
    | (failed) error where "q = Ok None" "se_turn_start E = Err error" by (cases "se_turn_start E") auto
  then show ?thesis
  proof cases
    case 1
    then have "S' = S1" using assms res by (auto simp: dispatch_message_def split: sum.splits option.splits)
    then show ?thesis using V(1) by simp
  next
    case started
    then obtain st where "S' = (set_runtime t ((runtime_or_default S3 t)\<lparr>rt_turn_start_in_flight := False,
        rt_thread_running := True, rt_active_turn_id := Some turn_id, rt_last_error := None\<rparr>) S3)\<lparr>qs_store := st\<rparr>"
      using assms res
      by (auto simp: dispatch_message_def Let_def on_store_def S3_def split: prod.splits sum.splits)
    then show ?thesis using S3 v3 by (simp add: same_views_set v)
  next
    case failed
    then obtain a b st where "S' = update_runtime t (\<lambda>r. r\<lparr>rt_turn_start_in_flight := False, rt_last_error := a,
        rt_last_error_submission_id := b\<rparr>) S3 \<or> S' = (update_runtime t (\<lambda>r. r\<lparr>rt_turn_start_in_flight := False,
        rt_last_error := a, rt_last_error_submission_id := b\<rparr>) S3)\<lparr>qs_store := st\<rparr>"
      using assms res
      by (simp add: dispatch_message_def Let_def S3_def split: option.splits prod.splits sum.splits if_splits) blast+
    then show ?thesis using same_views_update [OF S3, of _ t] v(3) by auto
  qed
qed

lemma enqueue_message_evolves:
  assumes "enqueue_message X E t item S = (r, S')"
    and "\<forall>e \<in> set (mq_items (queue_view S t)). qe_id e \<noteq> qe_id item"
  shows "qs_next_queue_item_id S' = qs_next_queue_item_id S
    \<and> (\<forall>t'. t' \<noteq> t \<longrightarrow> queue_view S' t' = queue_view S t')
    \<and> (\<forall>t'. runtime_of S' t' = None \<longrightarrow> runtime_of S t' = None)
    \<and> (queue_view S' t = queue_view S t
       \<or> queue_view S' t = (queue_view S t)\<lparr>mq_items := mq_items (queue_view S t) @ [item]\<rparr>)"
proof -
  let ?rt = "runtime_or_default S t"
  let ?rt' = "?rt\<lparr>rt_items := rt_items ?rt @ [item], rt_last_error := None\<rparr>"
  obtain q S2 where res: "reserve_submission X (se_reserve_io E) (se_rollback_io E) (qe_submission_id item) t False
      (set_runtime t ?rt' S) = (q, S2)" by fastforce
  note V = reserve_submission_view [OF res]
  have fresh: "filter (\<lambda>i. qe_id i \<noteq> qe_id item) (rt_items ?rt) = rt_items ?rt"
    using assms(2) by (auto simp: queue_view_default intro!: filter_True)
  have n: "qs_next_queue_item_id S2 = qs_next_queue_item_id S" using V(1) by (simp add: same_views_def)
  have run: "runtime_of S2 t' = (if t' = t then Some ?rt' else runtime_of S t')" for t' by (simp add: V(2))
  have "S' = S \<or> S' = update_runtime t (\<lambda>r. r\<lparr>rt_items := filter (\<lambda>i. qe_id i \<noteq> qe_id item) (rt_items r)\<rparr>) S2
      \<or> (\<exists>out st. S' = (emit out S2)\<lparr>qs_store := st\<rparr>)"
    using assms(1) res
    by (auto simp: enqueue_message_def Let_def on_store_def split: if_splits prod.splits sum.splits option.splits)
  moreover have "queue_view S2 t = (queue_view S t)\<lparr>mq_items := mq_items (queue_view S t) @ [item]\<rparr>"
    unfolding queue_view_default [of S t] queue_view_Some [of S2 t ?rt', simplified run, simplified] by (simp add: view_of_def)
  moreover have "queue_view (update_runtime t (\<lambda>r. r\<lparr>rt_items := filter (\<lambda>i. qe_id i \<noteq> qe_id item) (rt_items r)\<rparr>) S2) t
      = queue_view S t"
    unfolding queue_view_default [of S t] update_runtime_def run by (simp add: view_of_def fresh)
  moreover have "queue_view S2 t' = queue_view S t'" if "t' \<noteq> t" for t' using that by (simp add: queue_view_def run)
  ultimately show ?thesis
    by (elim disjE exE) (auto simp: run n queue_view_def)
qed

text \<open>A send makes a step of the addressed thread: it accepts one message or none.\<close>

lemma send_message_evolves:
  assumes "send_message_with_origin X E request origin adm S = Some (r, S')"
    and "service_ok S" "qs_next_queue_item_id S + 1 < 2 ^ 64"
  shows "evolves S S'"
proof -
  let ?t = "trim (sq_thread_id request)"
  let ?sid = "trim (sq_submission_id request)"
  let ?n = "qs_next_queue_item_id S"
  obtain q1 S1 where ens: "ensure_thread_runtime (se_snapshot E) ?t S = (q1, S1)" by fastforce
  obtain q2 S2 where lk: "lookup_submission X (se_lookup_io E) ?sid ?t S1 = (q2, S2)" by fastforce
  have V: "same_views S S1" "same_views S S2"
    using ensure_thread_runtime_view [OF ens] lookup_submission_view [OF lk] same_views_trans by blast+
  define S3 where "S3 = snd (next_queued_message_id S2)"
  define item where "item = \<lparr>qe_id = fst (next_queued_message_id S2), qe_submission_id = ?sid,
      qe_created_at = se_created_at E, qe_content = trim (sq_content request),
      qe_turn_start = sq_turn_start request, qe_agent_message = origin\<rparr>"
  have n2: "qs_next_queue_item_id S2 = ?n" using V by (simp add: same_views_def)
  then have S3: "qs_next_queue_item_id S3 = Suc ?n" "queue_view S3 t = queue_view S t"
      "runtime_of S3 t = None \<Longrightarrow> runtime_of S t = None" and item: "qe_id item = queue_item_id ?n" for t
    using V assms(3) by (simp_all add: S3_def item_def next_queued_message_id_def same_views_def queue_view_def
        runtime_of_def queue_item_id_def fetch_inc_exact)
  have "same_views S S' \<or> enqueue_message X E ?t item S3 = (r, S') \<or> dispatch_message X E ?t item S3 = Some (r, S')"
    using assms(1) ens lk V
    by (auto simp: send_message_with_origin_def Let_def S3_def item_def next_queued_message_id_def
        split: sum.splits option.splits if_splits)
  then show ?thesis
  proof (elim disjE)
    assume "same_views S S'"
    then show ?thesis by (rule evolves_if_same)
  next
    assume "dispatch_message X E ?t item S3 = Some (r, S')"
    from dispatch_message_view [OF this] show ?thesis
      using S3 by (auto simp: same_views_def evolves_def intro: mq_step.keep)
  next
    assume enq: "enqueue_message X E ?t item S3 = (r, S')"
    have "numbered ?n (mq_ids (queue_view S ?t))" using assms(2) by (simp add: service_ok_def mq_ok_def)
    from numbered_accept(1) [OF this] have "\<forall>e \<in> set (mq_items (queue_view S3 ?t)). qe_id e \<noteq> qe_id item"
      unfolding S3(2) item by (simp add: mq_ids_def) (metis imageI)
    from enqueue_message_evolves [OF enq this] S3 item show ?thesis
      by (intro evolves_one [of ?t]) (auto intro: mq_step.keep mq_step.accept)
  qed
qed

section \<open>Actions\<close>

lemma not_scheduled_item:
  assumes "take_first (\<lambda>e. qe_id e = i) (rt_items rt) = Some (e, rest)" "\<not> is_scheduled_prompt_item rt i"
  shows "\<not> is_scheduled_prompt_entry e"
  using assms by (auto simp: is_scheduled_prompt_item_def dest!: take_first_Some)

text \<open>The abstract steps, as changes of the fields of a runtime.\<close>

lemma view_of_eq:
  "view_of rt = q \<longleftrightarrow> rt_items rt = mq_items q \<and> rt_pending_steers rt = mq_steers q
     \<and> map_option sd_entry (rt_steer_dispatch_in_flight rt) = mq_in_flight q \<and> rt_editing_item_id rt = mq_editing q"
  by (auto simp: view_of_def)

lemma evolves_step:
  assumes "same_views S S1" "runtime_of S1 t = Some rt"
    and "\<And>n. mq_step n n (view_of rt) (view_of rt')"
  shows "evolves S (set_runtime t rt' S1)"
proof -
  have "evolves S1 (set_runtime t rt' S1)"
    by (rule evolves_set) (use assms(3) in \<open>simp add: queue_view_Some [OF assms(2)]\<close>)
  then show ?thesis by (rule same_views_evolves [OF assms(1)])
qed

lemma view_step_keep: "view_of rt' = view_of rt \<Longrightarrow> mq_step n m (view_of rt) (view_of rt')"
  by (simp add: mq_step.keep)

lemma view_step_steer:
  assumes "take_first P (rt_items rt) = Some (e, rest)" "\<not> is_scheduled_prompt_entry e" "rt_editing_item_id rt = None"
    and "view_of rt' = (view_of rt)\<lparr>mq_items := rest, mq_steers := rt_pending_steers rt @ [steering_message e]\<rparr>"
  shows "mq_step n m (view_of rt) (view_of rt')"
  using mq_step.steer [of P "view_of rt" e rest n m] assms by simp

lemma view_step_withdraw_item:
  assumes "take_first P (rt_items rt) = Some (e, rest)"
    and "view_of rt' = (view_of rt)\<lparr>mq_items := rest, mq_editing := withdrawn_edit e (rt_editing_item_id rt)\<rparr>"
  shows "mq_step n m (view_of rt) (view_of rt')"
  using mq_step.withdraw_item [of P "view_of rt" e rest n m] assms by simp

lemma view_step_withdraw_steer:
  assumes "take_first P (rt_pending_steers rt) = Some (e, rest)"
    and "view_of rt' = (view_of rt)\<lparr>mq_steers := rest, mq_editing := ed\<rparr>"
    and "ed = rt_editing_item_id rt \<or> ed = withdrawn_edit e (rt_editing_item_id rt)"
  shows "mq_step n m (view_of rt) (view_of rt')"
  using mq_step.withdraw_steer [of P "view_of rt" e rest ed n m] assms by auto

lemma view_step_dispatch:
  assumes "rt_items rt = e # es" "\<not> runtime_has_blockers rt" "view_of rt' = (view_of rt)\<lparr>mq_items := es\<rparr>"
  shows "mq_step n m (view_of rt) (view_of rt')"
  using mq_step.dispatch [of "view_of rt" e es n m] assms by (simp add: runtime_has_blockers_def)

lemma steer_message_evolves:
  assumes "steer_message_inner snap supports request automatic S = (r, S')"
    and "automatic \<Longrightarrow> \<forall>e \<in> set (mq_items (queue_view S (trim (stq_thread_id request)))).
      qe_id e = trim (stq_item_id request) \<longrightarrow> \<not> is_scheduled_prompt_entry e"
  shows "evolves S S'"
proof -
  let ?t = "trim (stq_thread_id request)" let ?i = "trim (stq_item_id request)"
  obtain q1 S1 where ens: "ensure_thread_runtime snap ?t S = (q1, S1)" by fastforce
  note V = ensure_thread_runtime_view [OF ens]
  have plain: "\<not> is_scheduled_prompt_entry e"
    if "runtime_of S1 ?t = Some rt" "take_first (\<lambda>e. qe_id e = ?i) (rt_items rt) = Some (e, rest)"
      "automatic \<or> \<not> is_scheduled_prompt_item rt ?i" for rt e rest
  proof (cases automatic)
    case True
    have "queue_view S ?t = view_of rt" using V that(1) by (metis queue_view_Some same_views_def)
    then show ?thesis using assms(2) [OF True] take_first_Some [OF that(2)] by auto
  next
    case False
    then show ?thesis using not_scheduled_item that by blast
  qed
  have "S' = S \<or> S' = S1 \<or> evolves S S'"
    using assms(1) ens
    by (auto simp: steer_message_inner_def Let_def intro!: evolves_step [OF V] view_step_steer dest: plain simp: view_of_eq
        split: sum.splits option.splits bool.splits if_splits prod.splits)
  then show ?thesis using V evolves_if_same by auto
qed

lemma remove_queued_item_step:
  assumes "remove_queued_item rt i = Ok (rt', sid, m)"
  shows "mq_step n k (view_of rt) (view_of rt')"
proof (cases "take_first (\<lambda>e. qe_id e = i) (rt_items rt)")
  case (Some p)
  obtain e rest where p: "p = (e, rest)" by fastforce
  then have "qe_id e = i" using Some take_first_Some by fastforce
  then show ?thesis using assms Some p
    by (intro view_step_withdraw_item [of "\<lambda>e. qe_id e = i" rt e rest])
      (auto simp: remove_queued_item_def view_of_eq withdrawn_edit_def split: if_splits)
next
  case None
  then obtain e rest where "take_first (\<lambda>e. qe_id e = i) (rt_pending_steers rt) = Some (e, rest)"
      "rt' = rt\<lparr>rt_pending_steers := rest, rt_last_error := None\<rparr>"
    using assms by (auto simp: remove_queued_item_def split: if_splits option.splits)
  then show ?thesis
    by (intro view_step_withdraw_steer [of "\<lambda>e. qe_id e = i" rt e rest _ "rt_editing_item_id rt"]) (auto simp: view_of_eq)
qed

lemma note_persist_error_view: "evolves S (snd (note_persist_error t i now r p)) = evolves S (snd p)"
proof -
  have "same_views (snd p) (snd (note_persist_error t i now r p))"
    by (auto simp: note_persist_error_def Let_def queue_view_def view_of_def intro!: same_views_set
        split: sum.splits option.splits)
  moreover have "runtime_of (snd p) t' = None \<Longrightarrow> runtime_of (snd (note_persist_error t i now r p)) t' = None" for t'
    by (auto simp: note_persist_error_def Let_def split: sum.splits option.splits)
  ultimately show ?thesis by (auto simp: evolves_def same_views_def)
qed

lemma cancel_message_evolves:
  assumes "cancel_message X E request S = (r, S')"
  shows "evolves S S'"
proof -
  let ?t = "trim (cq_thread_id request)" let ?i = "trim (cq_item_id request)"
  have "S' = S \<or> (\<exists>rt rt' sid m. runtime_of S ?t = Some rt \<and> remove_queued_item rt ?i = Ok (rt', sid, m))"
    using assms by (auto simp: cancel_message_def Let_def split: sum.splits option.splits)
  then show ?thesis
  proof (elim disjE exE conjE)
    fix rt rt' sid m
    assume rt: "runtime_of S ?t = Some rt" and rem: "remove_queued_item rt ?i = Ok (rt', sid, m)"
    have "evolves S (set_runtime ?t rt' S)"
      by (rule evolves_step [OF same_views_refl rt remove_queued_item_step [OF rem]])
    then show ?thesis
      using assms rt rem
      by (simp add: cancel_message_def Let_def split: sum.splits)
        (auto simp: on_store_def note_persist_error_view evolves_persist_agent
          split: prod.splits option.splits if_splits)
  qed simp
qed

lemma start_message_edit_evolves:
  assumes "start_message_edit request S = (r, S')"
  shows "evolves S S'"
proof -
  let ?t = "trim (eq_thread_id request)" let ?i = "trim (eq_item_id request)"
  have step: "evolves S (set_runtime ?t (rt\<lparr>rt_editing_item_id := Some ?i, rt_last_error := None\<rparr>) S)"
    if "runtime_of S ?t = Some rt" "\<not> is_scheduled_prompt_item rt ?i" "rt_items rt \<noteq> []" "qe_id (hd (rt_items rt)) = ?i"
      "\<forall>e \<in> set_option (List.find (\<lambda>e. qe_id e = ?i) (rt_items rt)). qe_agent_message e = None"
      "rt_pending_steers rt = []" "rt_steer_dispatch_in_flight rt = None" for rt
  proof -
    have e: "rt_items rt = hd (rt_items rt) # tl (rt_items rt)" (is "_ = ?e # ?es") using that(3) by simp
    then have "\<not> is_scheduled_prompt_entry ?e \<and> qe_agent_message ?e = None \<and> qe_id ?e = ?i"
      using that by (cases "rt_items rt") (auto simp: is_scheduled_prompt_item_def)
    then have "mq_step n n (view_of rt) (view_of (rt\<lparr>rt_editing_item_id := Some ?i, rt_last_error := None\<rparr>))" for n
      using mq_step.edit_begin [of "view_of rt" ?e ?es n n] that e by (simp add: view_of_def)
    then show ?thesis by (rule evolves_step [OF same_views_refl that(1)])
  qed
  have same: "same_views S (set_runtime ?t rt S)" if "runtime_of S ?t = Some rt" for rt
    using that by (intro same_views_set) (simp_all add: queue_view_Some)
  show ?thesis
    using assms
    by (auto simp: start_message_edit_def Let_def intro: step evolves_if_same [OF same]
        split: sum.splits option.splits if_splits)
qed

lemma commit_message_edit_evolves:
  assumes "commit_message_edit schema X request S = (r, S')"
  shows "evolves S S'"
proof -
  let ?t = "trim (ecq_thread_id request)" let ?i = "trim (ecq_item_id request)"
  have step: "evolves S (set_runtime ?t (rt\<lparr>rt_items := replace_first (\<lambda>e. qe_id e = ?i)
        (e\<lparr>qe_content := c, qe_turn_start := ts\<rparr>) (rt_items rt), rt_editing_item_id := None, rt_last_error := None\<rparr>) S)"
    if "runtime_of S ?t = Some rt" "rt_editing_item_id rt = Some ?i"
      "take_first (\<lambda>e. qe_id e = ?i) (rt_items rt) = Some (e, rest)" for rt e rest c ts
    using mq_step.edit_commit [of "view_of rt" ?i e rest] that
    by (intro evolves_step [OF same_views_refl that(1)]) (simp add: view_of_def)
  show ?thesis
    using assms
    by (auto simp: commit_message_edit_def Let_def intro!: step
        split: sum.splits option.splits if_splits prod.splits)
qed

lemma cancel_message_edit_evolves:
  assumes "cancel_message_edit request S = (r, S')"
  shows "evolves S S'"
proof -
  let ?t = "trim (eq_thread_id request)"
  have step: "evolves S (set_runtime ?t (rt\<lparr>rt_editing_item_id := None, rt_last_error := None\<rparr>) S)"
    if "runtime_of S ?t = Some rt" for rt
    using mq_step.edit_cancel [of _ _ "view_of rt"] that
    by (intro evolves_step [OF same_views_refl that]) (simp add: view_of_def)
  show ?thesis
    using assms
    by (auto simp: cancel_message_edit_def Let_def intro!: step split: sum.splits option.splits if_splits)
qed

lemma remove_submission_entry_step:
  assumes "remove_submission_entry rt sid = Some (e, rt')"
  shows "mq_step n k (view_of rt) (view_of rt')"
proof (cases "take_first (\<lambda>e. qe_submission_id e = sid) (rt_items rt)")
  case (Some p)
  then show ?thesis using assms
    by (cases p) (auto simp: remove_submission_entry_def Let_def view_of_eq withdrawn_edit_def
        intro!: view_step_withdraw_item)
next
  case None
  then show ?thesis using assms
    by (auto simp: remove_submission_entry_def Let_def view_of_eq withdrawn_edit_def
        intro!: view_step_withdraw_steer split: option.splits)
qed

lemma cancel_submission_evolves:
  assumes "cancel_submission X env thread_id submission_id S = (r, S')"
  shows "evolves S S'"
proof -
  let ?t = "trim thread_id"
  have step: "evolves S (set_runtime ?t rt' S)"
    if "runtime_of S ?t = Some rt" "remove_submission_entry rt (trim submission_id) = Some (e, rt')" for rt rt' e
    by (rule evolves_step [OF same_views_refl that(1) remove_submission_entry_step [OF that(2)]])
  show ?thesis
    using assms
    by (auto simp: cancel_submission_def Let_def on_store_def Option.bind_eq_Some_conv intro!: step
        split: sum.splits option.splits if_splits prod.splits)
qed

lemma reconcile_submission_evolves:
  assumes "reconcile_indeterminate_submission X env env' answer thread_id submission_id S = (r, S')"
  shows "evolves S S'"
  using assms
  by (auto simp: reconcile_indeterminate_submission_def Let_def on_store_def
      split: sum.splits option.splits if_splits prod.splits)

section \<open>Dispatch\<close>

text \<open>Only the runtime of one thread changed, and its view is \<open>q\<close>.\<close>

definition sets_view :: "queue_service \<Rightarrow> str \<Rightarrow> message_queue \<Rightarrow> queue_service \<Rightarrow> bool" where
  "sets_view S t q S' =
     (qs_next_queue_item_id S' = qs_next_queue_item_id S
      \<and> (\<exists>rt'. (\<forall>t'. runtime_of S' t' = (if t' = t then Some rt' else runtime_of S t')) \<and> view_of rt' = q))"

lemma sets_view_outside [simp]:
  "sets_view S t q (S'\<lparr>qs_store := st\<rparr>) = sets_view S t q S'"
  "sets_view S t q (emit out S') = sets_view S t q S'"
  "sets_view S t q (record_completions ids d S') = sets_view S t q S'"
  "sets_view S t q (record_completion_disposition i d S') = sets_view S t q S'"
  "sets_view S t q (snd (persist_agent_message_disposition a m ad S')) = sets_view S t q S'"
  by (simp_all add: sets_view_def)

lemma sets_view_set:
  assumes "\<And>t'. t' \<noteq> t \<Longrightarrow> runtime_of S' t' = runtime_of S t'" "qs_next_queue_item_id S' = qs_next_queue_item_id S"
    and "view_of rt' = q"
  shows "sets_view S t q (set_runtime t rt' S')"
  using assms by (auto simp: sets_view_def)

lemma sets_view_evolves:
  assumes "sets_view S t q S'" "\<And>n. mq_step n n (queue_view S t) q"
  shows "evolves S S'"
proof -
  obtain rt' where "\<forall>t'. runtime_of S' t' = (if t' = t then Some rt' else runtime_of S t')" "view_of rt' = q"
      "qs_next_queue_item_id S' = qs_next_queue_item_id S"
    using assms(1) by (auto simp: sets_view_def)
  then show ?thesis using assms(2) by (intro evolves_thread [of S' t rt' S]) auto
qed

lemma sets_view_trans:
  assumes "sets_view S t q S1" "sets_view S1 t q' S2" shows "sets_view S t q' S2"
  using assms by (auto simp: sets_view_def)

lemma view_of_note_retry [simp]: "view_of (note_retry rt) = view_of rt"
  by (simp add: view_of_def note_retry_def)

lemma drain_mark_failed_view:
  assumes "runtime_of S t = Some rt"
  shows "sets_view S t ((view_of rt)\<lparr>mq_items := item # rt_items rt\<rparr>) (drain_mark_failed now error t item S)"
  using assms
  by (auto simp: drain_mark_failed_def Let_def schedule_auto_dispatch_retry_def view_of_eq note_retry_def
      intro!: sets_view_set)

lemma drain_dispatched_view:
  assumes "drain_dispatched X E t item turn_id S = Some S'" "runtime_of S t = Some rt"
  shows "sets_view S t (view_of rt) S'"
  using assms
  by (auto simp: drain_dispatched_def Let_def view_of_def intro!: sets_view_set split: option.splits)

lemma drain_failed_view:
  assumes "drain_failed X E t item error S = Some S'" "runtime_of S t = Some rt"
  shows "sets_view S t ((view_of rt)\<lparr>mq_items :=
    (if dispatch_failure_is_indeterminate error then rt_items rt else item # rt_items rt)\<rparr>) S'"
  using assms
  by (auto simp: drain_failed_def Let_def schedule_auto_dispatch_retry_def view_of_eq note_retry_def
      intro!: sets_view_set split: option.splits)

lemma drain_thread_queue_evolves:
  assumes "drain_thread_queue X E t S = Some S'"
  shows "evolves S S'"
proof (cases "runtime_of S t")
  case None
  then show ?thesis using assms by (auto simp: drain_thread_queue_def split: sum.splits)
next
  case (Some rt)
  consider "S' = S" | (empty) "rt_items rt = []"
      "sets_view S t (view_of rt) S'"
    | (front) item rest where "rt_items rt = item # rest" "\<not> runtime_has_blockers rt"
      "sets_view S t (view_of rt) S' \<or> sets_view S t ((view_of rt)\<lparr>mq_items := rest\<rparr>) S'"
  proof (cases "is_ok (admit (qs_fence S) t) \<and> \<not> runtime_has_blockers rt")
    case False
    then show ?thesis using assms Some that(1) by (auto simp: drain_thread_queue_def split: sum.splits if_splits)
  next
    case go: True
    then obtain u where adm: "admit (qs_fence S) t = Ok u" by (auto simp: is_ok_iff)
    show ?thesis
    proof (cases "rt_items rt")
      case Nil
      then show ?thesis using assms Some go adm
        by (intro that(2)) (auto simp: drain_thread_queue_def view_of_def intro!: sets_view_set)
    next
      case (Cons item rest)
      let ?rt1 = "rt\<lparr>rt_items := rest, rt_turn_start_in_flight := True, rt_last_error := None\<rparr>"
      let ?S1 = "emit (Broadcast_queue (snapshot_for_thread t (Some ?rt1))) (set_runtime t ?rt1 S)"
      obtain q st where mk: "mark_submission_dispatch_pending X (de_mark_io E) (de_rollback_io E)
          (qe_submission_id item) t (qs_store S) = (q, st)" by fastforce
      have on: "on_store (mark_submission_dispatch_pending X (de_mark_io E) (de_rollback_io E)
          (qe_submission_id item) t) ?S1 = (q, ?S1\<lparr>qs_store := st\<rparr>)" by (simp add: on_store_def mk)
      let ?S4 = "emit (Turn_start t (qe_turn_start item) (submission_source_turn_id X (qe_submission_id item)))
          (update_runtime t (\<lambda>r. r\<lparr>rt_dispatch_retry_attempt := 0\<rparr>) (?S1\<lparr>qs_store := st\<rparr>))"
      let ?rt4 = "?rt1\<lparr>rt_dispatch_retry_attempt := 0\<rparr>"
      have v1: "(view_of ?rt1)\<lparr>mq_items := item # rest\<rparr> = view_of rt" "view_of ?rt1 = (view_of rt)\<lparr>mq_items := rest\<rparr>"
        "view_of ?rt4 = (view_of rt)\<lparr>mq_items := rest\<rparr>" "(view_of ?rt4)\<lparr>mq_items := item # rest\<rparr> = view_of rt"
        "(view_of ?rt4)\<lparr>mq_items := rest\<rparr> = view_of ?rt4"
        using Cons by (simp_all add: view_of_def)
      have S1: "sets_view S t ((view_of rt)\<lparr>mq_items := rest\<rparr>) (?S1\<lparr>qs_store := st\<rparr>)"
        by (auto simp: view_of_def intro!: sets_view_set)
      have S4: "sets_view S t ((view_of rt)\<lparr>mq_items := rest\<rparr>) ?S4" "runtime_of ?S4 t = Some ?rt4"
        by (auto simp: view_of_def update_runtime_def intro!: sets_view_set)
      have "sets_view S t (view_of rt) S' \<or> sets_view S t ((view_of rt)\<lparr>mq_items := rest\<rparr>) S'"
      proof (cases q)
        case (Inl error)
        then have "S' = drain_mark_failed (de_now E) error t item (?S1\<lparr>qs_store := st\<rparr>)"
          using assms Some go adm Cons on by (simp add: drain_thread_queue_def Let_def)
        then show ?thesis
          using sets_view_trans [OF S1 drain_mark_failed_view [of "?S1\<lparr>qs_store := st\<rparr>" t ?rt1 item]] v1 by simp
      next
        case mark: (Inr v)
        show ?thesis
        proof (cases "de_turn_start E")
          case (Inr turn_id)
          then have "drain_dispatched X E t item turn_id ?S4 = Some S'"
            using assms Some go adm Cons on mark by (simp add: drain_thread_queue_def Let_def)
          from sets_view_trans [OF S4(1) drain_dispatched_view [OF this S4(2)]] show ?thesis using v1 by simp
        next
          case (Inl error)
          then have "drain_failed X E t item error ?S4 = Some S'"
            using assms Some go adm Cons on mark by (simp add: drain_thread_queue_def Let_def)
          from sets_view_trans [OF S4(1) drain_failed_view [OF this S4(2)]] show ?thesis
            using v1 by (simp split: if_splits)
        qed
      qed
      then show ?thesis using Cons go that(3) by blast
    qed
  qed
  then show ?thesis
  proof cases
    case front
    then show ?thesis
      using sets_view_evolves [of S t _ S'] mq_step.keep mq_step.dispatch [of "view_of rt" item rest]
      by (auto simp: queue_view_Some [OF Some] runtime_has_blockers_def)
  qed (use sets_view_evolves [of S t "view_of rt" S'] mq_step.keep in \<open>simp_all add: queue_view_Some [OF Some]\<close>)
qed

lemma auto_dispatch_retry_evolves:
  assumes "auto_dispatch_retry X E t S = Some S'"
  shows "evolves S S'"
proof -
  have "same_views S (update_runtime t (\<lambda>r. r\<lparr>rt_dispatch_retry_scheduled := False\<rparr>) S)"
    by (rule same_views_update) (simp_all add: view_of_def)
  then show ?thesis
    using assms drain_thread_queue_evolves same_views_evolves by (simp add: auto_dispatch_retry_def)
qed

section \<open>Steering\<close>

lemma prepare_steer_claim_evolves:
  assumes "prepare_steer_claim live t S = Some (b, S')" shows "evolves S S'"
  using assms
  by (auto simp: prepare_steer_claim_def Let_def queue_view_Some view_of_def
      intro!: evolves_if_same same_views_set split: option.splits if_splits)

lemma prepare_steer_answered_evolves:
  assumes "prepare_steer_answered now answer t S = (b, S')" shows "evolves S S'"
proof (cases "runtime_of S t")
  case (Some rt)
  have "view_of (rt\<lparr>rt_steer_prepare_in_flight := False\<rparr>) = queue_view S t"
    "view_of (rt\<lparr>rt_steer_prepare_in_flight := False, rt_last_error_submission_id := x, rt_last_error := y\<rparr>) = queue_view S t"
    for x y by (simp_all add: queue_view_Some [OF Some] view_of_def)
  then show ?thesis using assms Some
    by (auto simp: prepare_steer_answered_def Let_def intro!: evolves_if_same same_views_set split: sum.splits if_splits)
qed (use assms in \<open>simp add: prepare_steer_answered_def\<close>)

lemma return_in_flight:
  assumes "runtime_of S t = Some rt" "rt_steer_dispatch_in_flight rt = Some d"
    and "view_of rt' = (view_of rt)\<lparr>mq_in_flight := None, mq_steers := sd_entry d # rt_pending_steers rt\<rparr>
      \<or> view_of rt' = (view_of rt)\<lparr>mq_in_flight := None, mq_items := requeued_message (sd_entry d) # rt_items rt\<rparr>
      \<or> view_of rt' = (view_of rt)\<lparr>mq_in_flight := None\<rparr>"
  shows "evolves S (set_runtime t rt' S)"
  using assms mq_step.deliver_return [of "view_of rt" "sd_entry d"] mq_step.deliver_requeue [of "view_of rt" "sd_entry d"]
    mq_step.deliver_end [of _ _ "view_of rt"]
  by (intro evolves_step [OF same_views_refl assms(1)]) auto

lemma fail_steer_dispatch_evolves: "evolves S (fail_steer_dispatch now t item_id error S)"
proof (cases "runtime_of S t")
  case (Some rt)
  show ?thesis
  proof (cases "rt_steer_dispatch_in_flight rt")
    case None
    then show ?thesis using Some
      by (auto simp: fail_steer_dispatch_def Let_def queue_view_Some view_of_def intro!: evolves_if_same same_views_set)
  next
    case d: (Some d)
    then show ?thesis using Some
      by (simp add: fail_steer_dispatch_def Let_def) (rule return_in_flight [OF Some d], simp add: view_of_def)
  qed
qed (simp add: fail_steer_dispatch_def)

lemma begin_steer_dispatch_evolves:
  assumes "begin_steer_dispatch live prepared t S = (dec, S')" shows "evolves S S'"
proof -
  have step: "evolves S (set_runtime t (rt\<lparr>rt_pending_steers := es, rt_steer_dispatch_in_flight := Some d\<rparr>) S)"
    if "runtime_of S t = Some rt" "rt_pending_steers rt = e # es" "rt_steer_dispatch_in_flight rt = None" "sd_entry d = e"
    for rt e es d
    using that mq_step.deliver_begin [of "view_of rt" e es]
    by (intro evolves_step [OF same_views_refl that(1)]) (simp add: view_of_def)
  show ?thesis
    using assms
    by (auto simp: begin_steer_dispatch_def Let_def intro!: step split: option.splits if_splits list.splits)
qed

lemma finish_steer_dispatch_evolves:
  assumes "finish_steer_dispatch X ios journal now answer dispatch t S = Some (b, S')" shows "evolves S S'"
proof (cases "runtime_of S t")
  case (Some rt)
  show ?thesis
  proof (cases "\<exists>d. rt_steer_dispatch_in_flight rt = Some d \<and> qe_id (sd_entry d) = qe_id (sd_entry dispatch)")
    case True
    then obtain d where d: "rt_steer_dispatch_in_flight rt = Some d" "qe_id (sd_entry d) = qe_id (sd_entry dispatch)" by blast
    have "evolves S (set_runtime t (answered_steer_runtime now answer d rt) S)"
      by (rule return_in_flight [OF Some d(1)])
        (auto simp: answered_steer_runtime_def Let_def return_steer_def view_of_def
          split: sum.splits harness_agent_message_outcome.splits)
    then show ?thesis
      using assms Some d
      by (auto simp: finish_steer_dispatch_def Let_def
          split: sum.splits option.splits harness_agent_message_outcome.splits bool.splits)
  next
    case False
    then show ?thesis using assms Some by (auto simp: finish_steer_dispatch_def Let_def split: option.splits if_splits)
  qed
qed (use assms in \<open>simp add: finish_steer_dispatch_def\<close>)

section \<open>Canonical events\<close>

text \<open>The loop over \<open>pending_steers.pop_back()\<close> puts the steers, in order, before the waiting messages.\<close>

lemma requeue_steers_spec:
  "requeue_steers steers items ids =
     (map requeued_message steers @ items,
      ids @ map origin_message_id (rev (List.map_filter qe_agent_message steers)))"
proof (induction steers items ids rule: requeue_steers.induct)
  case (1 steers items ids)
  show ?case
  proof (cases "steers = []")
    case True
    then show ?thesis by (simp add: requeue_steers.simps map_filter_simps)
  next
    case False
    then have s: "steers = butlast steers @ [last steers]" by simp
    have "List.map_filter qe_agent_message steers = List.map_filter qe_agent_message (butlast steers)
        @ (case qe_agent_message (last steers) of None \<Rightarrow> [] | Some m \<Rightarrow> [m])"
      by (subst s) (simp add: map_filter_def split: option.split)
    moreover have "map requeued_message steers = map requeued_message (butlast steers) @ [requeued_message (last steers)]"
      by (subst s) simp
    ultimately show ?thesis
      using 1 False by (subst requeue_steers.simps) (simp add: Let_def split: option.split)
  qed
qed

lemma evolves_default:
  assumes "\<And>n. mq_step n n (queue_view S t) (view_of rt')"
  shows "evolves S (set_runtime t rt' S)"
  using assms by (rule evolves_set)

lemma run_started_evolves: "evolves S (run_started t run_id source_turn_id gen S)"
  by (auto simp: run_started_def Let_def queue_view_default view_of_def intro!: evolves_if_same same_views_set)

lemma fold_persist_evolves:
  "evolves S (fold (\<lambda>m z. snd (persist_agent_message_disposition (journal m) m d z)) ms S') = evolves S S'"
  by (induction ms arbitrary: S') simp_all

lemma run_ended_evolves: "evolves S (run_ended journal event_id t source_turn_id gen S)"
proof -
  let ?rt = "runtime_or_default S t"
  have keep: "evolves S (set_runtime t ?rt S)"
    by (rule evolves_default) (simp add: queue_view_default mq_step.keep)
  have step: "evolves S (set_runtime t rt' S)"
    if "rt_items rt' = map requeued_message (rt_pending_steers ?rt) @ rt_items ?rt" "rt_pending_steers rt' = []"
      "rt_editing_item_id rt' = rt_editing_item_id ?rt"
      "map_option sd_entry (rt_steer_dispatch_in_flight rt') = map_option sd_entry (rt_steer_dispatch_in_flight ?rt)" for rt'
  proof (rule evolves_default)
    have "view_of rt' = (view_of ?rt)\<lparr>mq_steers := [], mq_items := map requeued_message (mq_steers (view_of ?rt)) @ mq_items (view_of ?rt)\<rparr>"
      using that by (simp add: view_of_eq)
    then show "mq_step n n (queue_view S t) (view_of rt')" for n
      using mq_step.run_end [of n n "view_of ?rt"] by (simp add: queue_view_default)
  qed
  show ?thesis
    by (auto simp: run_ended_def Let_def requeue_steers_spec fold_persist_evolves keep option.map_comp comp_def
        intro!: step split: prod.splits)
qed

lemma tool_event_evolves: "evolves S (tool_event t run_id source_turn_id gen tool_call_id tool_status S)"
proof -
  have "evolves S (set_runtime t rt' S)" if "view_of rt' = queue_view S t" for rt'
    by (rule evolves_default) (simp add: that mq_step.keep)
  then show ?thesis by (simp add: tool_event_def Let_def queue_view_default view_of_eq)
qed

lemma interaction_resolved_evolves:
  assumes "\<And>rt. view_of (f rt) = view_of rt"
  shows "evolves S (interaction_resolved live t f S)"
  using assms
  by (auto simp: interaction_resolved_def Let_def queue_view_Some intro!: evolves_if_same same_views_set split: option.split)

lemma handle_canonical_event_evolves: "evolves S (handle_canonical_event live journal event_id ev S)"
proof -
  have req: "evolves S (set_runtime t ((runtime_or_default S t)\<lparr>rt_pending_approval_ids := a\<rparr>) S)"
    "evolves S (set_runtime t ((runtime_or_default S t)\<lparr>rt_pending_user_input_ids := a\<rparr>) S)" for t a
    by (auto simp: queue_view_default view_of_def intro!: evolves_if_same same_views_set)
  show ?thesis
    by (simp add: handle_canonical_event_def Let_def run_started_evolves run_ended_evolves tool_event_evolves req
        interaction_resolved_evolves view_of_def split: option.split sum.split canonical_event.split)
qed

section \<open>All operations, interleaved\<close>

lemma reconcile_thread_evolves: "evolves S (reconcile_thread answer now t S)"
proof -
  have "same_views S (update_runtime t (reconciled_runtime h) S)" "same_views S (update_runtime t (unreconciled_runtime now e) S)" for h e
    by (rule same_views_update; simp add: view_of_def reconciled_runtime_def unreconciled_runtime_def)+
  then have "same_views S (reconcile_thread answer now t S)"
    by (simp add: reconcile_thread_def Let_def split: sum.split option.split)
  then show ?thesis by (rule evolves_if_same)
qed

lemma take_completion_evolves: "take_completion_disposition i S = (d, S') \<Longrightarrow> evolves S S'"
  by (rule evolves_same) (auto simp: take_completion_disposition_def runtime_of_def)

text \<open>
  \<open>queue_step X gone S S'\<close>: one operation of the service, with any answers of the agent, the file
  system and the agent-message journal; \<open>gone\<close> are the threads it removes. The number of the next
  message must not have reached the end of its 64 bits, and messages that are steered
  automatically are not scheduled prompts (their submission identifiers are made by the bridge).
  The submission store and the fence have operations of their own, which leave the threads alone.
\<close>

inductive queue_step :: "queue_ext \<Rightarrow> str set \<Rightarrow> queue_service \<Rightarrow> queue_service \<Rightarrow> bool" for X where
  send: "send_message_with_origin X E request origin admitted S = Some (r, S') \<Longrightarrow>
    qs_next_queue_item_id S + 1 < 2 ^ 64 \<Longrightarrow> queue_step X {} S S'"
| steer: "steer_message snap supports request S = (r, S') \<Longrightarrow> queue_step X {} S S'"
| steer_automatic: "steer_message_inner snap supports request True S = (r, S') \<Longrightarrow>
    \<forall>e \<in> set (mq_items (queue_view S (trim (stq_thread_id request)))).
      qe_id e = trim (stq_item_id request) \<longrightarrow> \<not> is_scheduled_prompt_entry e \<Longrightarrow> queue_step X {} S S'"
| cancel: "cancel_message X E request S = (r, S') \<Longrightarrow> queue_step X {} S S'"
| start_edit: "start_message_edit request S = (r, S') \<Longrightarrow> queue_step X {} S S'"
| commit_edit: "commit_message_edit schema X request S = (r, S') \<Longrightarrow> queue_step X {} S S'"
| cancel_edit: "cancel_message_edit request S = (r, S') \<Longrightarrow> queue_step X {} S S'"
| cancel_submission: "cancel_submission X env t sid S = (r, S') \<Longrightarrow> queue_step X {} S S'"
| reconcile: "reconcile_indeterminate_submission X env env' answer t sid S = (r, S') \<Longrightarrow> queue_step X {} S S'"
| drain: "drain_thread_queue X E t S = Some S' \<Longrightarrow> queue_step X {} S S'"
| retry: "auto_dispatch_retry X E t S = Some S' \<Longrightarrow> queue_step X {} S S'"
| steer_claim: "prepare_steer_claim live t S = Some (b, S') \<Longrightarrow> queue_step X {} S S'"
| steer_prepared: "prepare_steer_answered now answer t S = (b, S') \<Longrightarrow> queue_step X {} S S'"
| steer_failed: "queue_step X {} S (fail_steer_dispatch now t item_id error S)"
| steer_begin: "begin_steer_dispatch live b t S = (dec, S') \<Longrightarrow> queue_step X {} S S'"
| steer_finish: "finish_steer_dispatch X ios journal now answer d t S = Some (b, S') \<Longrightarrow> queue_step X {} S S'"
| reconcile_thread: "queue_step X {} S (reconcile_thread answer now t S)"
| take_completion: "take_completion_disposition i S = (d, S') \<Longrightarrow> queue_step X {} S S'"
| event: "queue_step X {} S (handle_canonical_event live journal event_id ev S)"
| other_state: "queue_step X {} S (S\<lparr>qs_store := st, qs_fence := fence\<rparr>)"
| retire: "commit_thread_retirement X env ts S = (r, S') \<Longrightarrow> queue_step X (set ts) S S'"

text \<open>Every operation but a retirement is a step of the abstract queue of every thread.\<close>

lemma queue_step_evolves:
  assumes "queue_step X gone S S'" "service_ok S"
  shows "gone = {} \<and> evolves S S' \<or>
    qs_next_queue_item_id S' = qs_next_queue_item_id S
    \<and> (\<forall>t. runtime_of S' t = runtime_of S t \<or> t \<in> gone \<and> runtime_of S' t = None)"
  using assms
proof (induction rule: queue_step.induct)
  case (retire env ts S r S')
  then show ?case
    by (auto simp: commit_thread_retirement_def on_store_def runtime_of_def map_of_fold_bt_remove
        split: prod.splits sum.splits if_splits)
next
  case (other_state S fence st)
  have "evolves S (S\<lparr>qs_store := st, qs_fence := fence\<rparr>)" by (rule evolves_same) (simp_all add: runtime_of_def)
  then show ?case by simp
next
  case (steer snap supports request S r S')
  then show ?case using steer_message_evolves [of snap supports request False] by (simp add: steer_message_def)
qed (auto intro: reconcile_thread_evolves take_completion_evolves send_message_evolves steer_message_evolves cancel_message_evolves start_message_edit_evolves
    commit_message_edit_evolves cancel_message_edit_evolves cancel_submission_evolves reconcile_submission_evolves
    drain_thread_queue_evolves auto_dispatch_retry_evolves prepare_steer_claim_evolves prepare_steer_answered_evolves
    fail_steer_dispatch_evolves begin_steer_dispatch_evolves finish_steer_dispatch_evolves handle_canonical_event_evolves)

inductive queue_reachable :: "queue_ext \<Rightarrow> queue_service \<Rightarrow> bool" for X where
  start: "qs_threads S = [] \<Longrightarrow> queue_reachable X S"
| step: "queue_reachable X S \<Longrightarrow> queue_step X gone S S' \<Longrightarrow> queue_reachable X S'"

lemma queue_reachable_ok: "queue_reachable X S \<Longrightarrow> service_ok S"
proof (induction rule: queue_reachable.induct)
  case (start S)
  then show ?case by (simp add: service_ok_def queue_view_def runtime_of_def)
next
  case (step S gone S')
  from queue_step_evolves [OF step(2,3)] show ?case
  proof
    assume "gone = {} \<and> evolves S S'"
    then show ?thesis using evolves_ok step(3) by blast
  next
    assume "qs_next_queue_item_id S' = qs_next_queue_item_id S
      \<and> (\<forall>t. runtime_of S' t = runtime_of S t \<or> t \<in> gone \<and> runtime_of S' t = None)"
    then show ?thesis using step(3) unfolding service_ok_def queue_view_def by (metis mq_ok_empty option.simps(4))
  qed
qed

end
