(* ===== verification/Queue_Properties.thy ===== *)
theory Queue_Properties
  imports Queue_Guarantees
begin

text \<open>
  The guarantees of the thread queue, stated over its operations.
\<close>

section \<open>A concrete service\<close>

definition demo_service :: queue_service where
  "demo_service = \<lparr>qs_threads = [(''t'', runtime_default)], qs_store = demo_store,
     qs_completion_dispositions = [], qs_fence = fence_default, qs_next_queue_item_id = 1, qs_outputs = []\<rparr>"

definition demo_request :: bridge_thread_queue_send_request where
  "demo_request = \<lparr>sq_thread_id = ''t'', sq_submission_id = ''s'', sq_content = ''hi'',
     sq_turn_start = JNull\<rparr>"

definition demo_send_env :: send_env where
  "demo_send_env = \<lparr>se_snapshot = Err ''none'', se_lookup_io = all_good, se_reserve_io = all_good,
     se_rollback_io = all_good, se_remember_io = all_good, se_turn_start = Err INDETERMINATE_OPERATION_PREFIX,
     se_settlement = [], se_created_at = ''now'', se_failed_at = ''now''\<rparr>"

lemma fence_default_admits [simp]: "admit fence_default t = Ok ()"
  by (simp add: admit_def admit_threads_def fence_default_def)

section \<open>Properties\<close>

text \<open>
  C23: a submission is dispatched at most once, and only after it is on disk. Whatever the agent, the
  file system and earlier operations did, a send starts no turn or exactly one; it starts one only
  for a submission that was unknown, on a thread that was neither blocked nor had messages waiting,
  after the submission became durably pending. When the agent's answer is indeterminate the
  submission stays pending, so that no later send or restart dispatches it again; when the agent
  definitely refused, the submission is free again or the interrupted settlement is reported.
\<close>

theorem queue_send_at_most_one_turn:
  assumes "store_at X path f" "store_run X path f (qs_store S)"
    "task_joins (se_reserve_io E)" "task_joins (se_rollback_io E)"
    and "send_message_with_origin X E request origin admitted S = Some (r, S')"
  shows "let t = trim (sq_thread_id request); sid = trim (sq_submission_id request) in
    turn_starts (qs_outputs S') = turn_starts (qs_outputs S)
    \<or> (turn_starts (qs_outputs S') = turn_starts (qs_outputs S)
          @ [Turn_start t (sq_turn_start request) (submission_source_turn_id X sid)]
       \<and> map_of (submission_pending (qs_store S)) sid = None
       \<and> map_of (submission_results (qs_store S)) sid = None
       \<and> map_of (submission_volatile_pending (qs_store S)) sid = None
       \<and> (\<forall>rt. runtime_of S t = Some rt \<longrightarrow> \<not> runtime_is_blocked_or_occupied rt)
       \<and> (\<exists>st. reserve_receipt X (se_reserve_io E) (se_rollback_io E) sid t True (qs_store S) = (Ok None, st)
            \<and> store_run X path f st \<and> map_of (submission_pending st) sid = Some t)
       \<and> dispatch_outcome (se_turn_start E) sid t r (qs_store S'))"
proof (cases "turn_starts (qs_outputs S') = turn_starts (qs_outputs S)")
  case False
  let ?t = "trim (sq_thread_id request)"
  let ?sid = "trim (sq_submission_id request)"
  obtain item S3 where item: "qe_submission_id item = ?sid" "qe_turn_start item = sq_turn_start request"
    and S3: "qs_store S3 = qs_store S" "qs_outputs S3 = qs_outputs S"
    and new: "map_of (submission_pending (qs_store S)) ?sid = None"
      "map_of (submission_results (qs_store S)) ?sid = None"
      "map_of (submission_volatile_pending (qs_store S)) ?sid = None"
      "\<forall>rt. runtime_of S ?t = Some rt \<longrightarrow> \<not> runtime_is_blocked_or_occupied rt"
    and d: "dispatch_message X E ?t item S3 = Some (r, S')"
    using send_message_cases [OF assms(5)] False by metis
  obtain st where R: "reserve_receipt X (se_reserve_io E) (se_rollback_io E) ?sid ?t True (qs_store S) = (Ok None, st)"
    and T: "turn_starts (qs_outputs S') = turn_starts (qs_outputs S)
          @ [Turn_start ?t (sq_turn_start request) (submission_source_turn_id X ?sid)]"
    and D: "map_of (submission_pending st) ?sid = Some ?t \<longrightarrow>
          dispatch_outcome (se_turn_start E) ?sid ?t r (qs_store S')"
    using dispatch_message_cases [OF d] False item S3 by auto
  have run: "store_run X path f st" by (rule store_run.reserve [OF assms(2-4) R])
  have "map_of (submission_pending st) ?sid = Some ?t"
    using reserve_receipt_ok [OF assms(1) store_run_ok [OF assms(1,2)] assms(3,4) R] by simp
  then show ?thesis using new R T D run by (simp add: Let_def)
qed (simp add: Let_def)

theorem queue_send_at_most_one_turn_witness:
  "\<exists>r S'. send_message_with_origin demo_queue demo_send_env demo_request None False demo_service = Some (r, S')
     \<and> turn_starts (qs_outputs S') \<in> {[], [Turn_start ''t'' JNull ''queue-s'']}"
proof -
  have trims: "trim ''t'' = ''t''" "trim ''s'' = ''s''" "trim ''hi'' = ''hi''" by code_simp+
  obtain r S' where s: "send_message_with_origin demo_queue demo_send_env demo_request None False demo_service = Some (r, S')"
    using send_message_returns [of demo_send_env demo_queue demo_request None False demo_service]
    by (auto simp: demo_send_env_def dispatch_failure_is_indeterminate_def starts_with_def)
  have run: "store_run demo_queue queue_path ''queue'' (qs_store demo_service)"
    by (simp add: demo_service_def demo_store_run)
  show ?thesis
    using queue_send_at_most_one_turn [OF demo_store_at run _ _ s] s
    by (auto simp: demo_send_env_def all_good_def demo_request_def trims demo_service_def Let_def
        submission_source_turn_id_def demo_queue_def)
qed

text \<open>
  C24: the queue is dispatched in order and loses nothing. Draining a thread leaves its queue as it
  is, or starts exactly one turn, that of the first message, on a thread nothing blocks, after the
  submission became durably pending; the message leaves the queue when the turn started or may
  have started, and is back at the front when the agent definitely refused.
\<close>

theorem queue_drain_fifo:
  assumes "store_at X path f" "store_run X path f (qs_store S)"
    "task_joins (de_mark_io E)" "task_joins (de_rollback_io E)"
    and "drain_thread_queue X E t S = Some S'" "runtime_of S t = Some rt"
  shows "\<exists>rt'. runtime_of S' t = Some rt' \<and>
    (turn_starts (qs_outputs S') = turn_starts (qs_outputs S) \<and> rt_items rt' = rt_items rt
     \<or> (\<exists>item rest st. rt_items rt = item # rest \<and> \<not> runtime_has_blockers rt
          \<and> turn_starts (qs_outputs S') = turn_starts (qs_outputs S)
              @ [Turn_start t (qe_turn_start item) (submission_source_turn_id X (qe_submission_id item))]
          \<and> mark_submission_dispatch_pending X (de_mark_io E) (de_rollback_io E) (qe_submission_id item) t
              (qs_store S) = (Ok (), st)
          \<and> store_run X path f st \<and> map_of (submission_pending st) (qe_submission_id item) = Some t
          \<and> rt_items rt' = (case de_turn_start E of
                Inr _ \<Rightarrow> rest
              | Inl e \<Rightarrow> if dispatch_failure_is_indeterminate e then rest else item # rest)
          \<and> (rt_thread_running rt' \<or> \<not> is_ok (de_turn_start E))))"
proof -
  obtain rt' where rt': "runtime_of S' t = Some rt'"
    and d: "turn_starts (qs_outputs S') = turn_starts (qs_outputs S) \<and> rt_items rt' = rt_items rt
      \<or> drain_turn X E t S S' rt rt'"
    using drain_thread_queue_cases [OF assms(5,6)] by blast
  have "store_run X path f st \<and> map_of (submission_pending st) sid = Some t"
    if mk: "mark_submission_dispatch_pending X (de_mark_io E) (de_rollback_io E) sid t (qs_store S) = (Ok (), st)"
    for sid st
    using store_run.mark [OF assms(2-4) mk]
      mark_submission_dispatch_pending_ok [OF assms(1) store_run_ok [OF assms(1,2)] assms(3,4) mk] by simp
  then show ?thesis using rt' d unfolding drain_turn_def by blast
qed

lemma drain_thread_queue_returns:
  assumes "de_turn_start E = Err error" and "dispatch_failure_is_indeterminate error"
  shows "\<exists>S'. drain_thread_queue X E t S = Some S'"
proof -
  have "\<exists>S'. drain_failed X E t item error S0 = Some S'" for item S0
    by (auto simp: drain_failed_def assms(2) Let_def split: option.split)
  then show ?thesis
    by (auto simp: drain_thread_queue_def assms(1) Let_def split: prod.split sum.split option.split list.split)
qed

definition demo_drain_env :: drain_env where
  "demo_drain_env = \<lparr>de_mark_io = all_good, de_rollback_io = all_good,
     de_turn_start = Err INDETERMINATE_OPERATION_PREFIX, de_remember_ios = [], de_settlement = [],
     de_journal = (\<lambda>_. Ok ()), de_now = ''now''\<rparr>"

definition demo_item :: bridge_queued_message_entry where
  "demo_item = \<lparr>qe_id = ''queue-1'', qe_submission_id = ''s'', qe_created_at = ''now'', qe_content = ''hi'',
     qe_turn_start = JNull, qe_agent_message = None\<rparr>"

theorem queue_drain_fifo_witness:
  "\<exists>S' rt'. drain_thread_queue demo_queue demo_drain_env ''t''
       (set_runtime ''t'' (runtime_default\<lparr>rt_items := [demo_item]\<rparr>) demo_service) = Some S'
     \<and> runtime_of S' ''t'' = Some rt' \<and> rt_items rt' \<in> {[], [demo_item]}"
proof -
  let ?rt = "runtime_default\<lparr>rt_items := [demo_item]\<rparr>"
  let ?S = "set_runtime ''t'' ?rt demo_service"
  have ind: "dispatch_failure_is_indeterminate INDETERMINATE_OPERATION_PREFIX" by code_simp
  obtain S' where d: "drain_thread_queue demo_queue demo_drain_env ''t'' ?S = Some S'"
    using drain_thread_queue_returns [of demo_drain_env INDETERMINATE_OPERATION_PREFIX demo_queue "''t''" ?S] ind
    by (auto simp: demo_drain_env_def)
  have run: "store_run demo_queue queue_path ''queue'' (qs_store ?S)"
    by (simp add: demo_service_def demo_store_run)
  show ?thesis
    using queue_drain_fifo [OF demo_store_at run _ _ d, of ?rt] d
    by (auto simp: demo_drain_env_def all_good_def ind)
qed

end
