(* ===== verification/Queue_Safety.thy ===== *)
theory Queue_Safety
  imports Queue_Refinement Queue_Properties
begin

text \<open>
  Guarantees of the queue under any interleaving of its operations: refinement of the abstract
  message queue, the invariant of the messages, scheduled prompts out of the users' reach, and the
  end of the steering loop.
\<close>

lemma refused_preparation_stops:
  assumes "runtime_of S t = Some rt" "\<forall>e \<in> set (rt_pending_steers rt). \<not> is_scheduled_prompt_entry e"
  shows "\<not> fst (prepare_steer_answered now (Err error) t S)"
proof (cases "rt_pending_steers rt")
  case (Cons e es)
  then have "\<not> starts_with (qe_submission_id e) SCHEDULED_PROMPT_SUBMISSION_PREFIX"
    using assms(2) by (simp add: is_scheduled_prompt_entry_def)
  then show ?thesis using Cons assms(1) by (simp add: prepare_steer_answered_def snapshot_for_thread_def Let_def)
qed (simp add: assms(1) prepare_steer_answered_def snapshot_for_thread_def Let_def)

section \<open>Refinement and invariant\<close>


definition demo_idle :: queue_service where
  "demo_idle = demo_service\<lparr>qs_threads := []\<rparr>"

definition demo_run :: canonical_event where
  "demo_run = RunStarted [] ''t'' ''run'' ''turn'' 1"

definition demo_running :: queue_service where
  "demo_running = handle_canonical_event False (\<lambda>_ _. Ok ()) 1 demo_run demo_idle"

lemma demo_running_reachable: "queue_reachable demo_queue demo_running"
  unfolding demo_running_def
  by (rule queue_reachable.step [OF queue_reachable.start queue_step.event]) (simp add: demo_idle_def)

lemma demo_running_runtime: "\<exists>rt. runtime_of demo_running ''t'' = Some rt \<and> rt_items rt = [] \<and> rt_thread_running rt"
proof -
  have idle: "runtime_or_default demo_idle ''t'' = runtime_default" "qs_fence demo_idle = fence_default"
    by (simp_all add: demo_idle_def demo_service_def runtime_or_default_def runtime_of_def)
  show ?thesis
    by (simp add: demo_running_def handle_canonical_event_def demo_run_def run_started_def Let_def idle)
      (simp add: runtime_default_def)
qed


text \<open>
  C26: the invariant of the messages. In every state the service can reach, under any interleaving:
  the messages of a thread have different numbers, all below the next one; no prompt of the
  scheduler is ever steered; a message being edited is an ordinary message, the next to be
  dispatched, and no steering overtakes it; and a refused preparation of a steer always stops the
  steering loop, so that \<open>expect\<close> in the loop cannot panic.
\<close>

theorem queue_messages_consistent:
  assumes "queue_reachable X S" "runtime_of S t = Some rt"
  shows "distinct (mq_ids (view_of rt))
    \<and> (\<forall>i \<in> set (mq_ids (view_of rt)). \<exists>k < qs_next_queue_item_id S. i = queue_item_id k)
    \<and> (\<forall>e \<in> set (rt_pending_steers rt). \<not> is_scheduled_prompt_entry e)
    \<and> (\<forall>d. rt_steer_dispatch_in_flight rt = Some d \<longrightarrow> \<not> is_scheduled_prompt_entry (sd_entry d))
    \<and> (\<forall>i. rt_editing_item_id rt = Some i \<longrightarrow> rt_pending_steers rt = [] \<and> rt_steer_dispatch_in_flight rt = None
         \<and> (\<exists>e es. rt_items rt = e # es \<and> qe_id e = i \<and> \<not> is_scheduled_prompt_entry e \<and> qe_agent_message e = None))
    \<and> (\<forall>now error. \<not> fst (prepare_steer_answered now (Err error) t S))"
proof -
  have "mq_ok (qs_next_queue_item_id S) (view_of rt)"
    using queue_reachable_ok [OF assms(1)] queue_view_Some [OF assms(2)] by (metis service_ok_def)
  then have num: "numbered (qs_next_queue_item_id S) (mq_ids (view_of rt))" and ed: "edit_ok (view_of rt)"
    and sched: "\<forall>e \<in> set (rt_pending_steers rt) \<union> set_option (map_option sd_entry (rt_steer_dispatch_in_flight rt)).
      \<not> is_scheduled_prompt_entry e" by (simp_all add: mq_ok_def)
  have "\<not> fst (prepare_steer_answered now (Err error) t S)" for now error
    by (rule refused_preparation_stops [OF assms(2)]) (use sched in simp)
  moreover have "rt_pending_steers rt = [] \<and> rt_steer_dispatch_in_flight rt = None
         \<and> (\<exists>e es. rt_items rt = e # es \<and> qe_id e = i \<and> \<not> is_scheduled_prompt_entry e \<and> qe_agent_message e = None)"
    if "rt_editing_item_id rt = Some i" for i
    using ed that by (auto simp: edit_ok_def split: list.splits)
  ultimately show ?thesis using num sched by (simp add: numbered_def)
qed

theorem queue_messages_consistent_witness:
  "\<exists>rt. runtime_of demo_running ''t'' = Some rt \<and> rt_thread_running rt \<and> distinct (mq_ids (view_of rt))"
  using demo_running_runtime queue_messages_consistent [OF demo_running_reachable] by blast

section \<open>Scheduled prompts\<close>

lemma snapshot_hides_scheduled:
  assumes "is_scheduled_prompt_item rt i" "distinct (mq_ids (view_of rt))"
  shows "i \<notin> qm_id ` (set (ts_items (snapshot_for_thread t (Some rt))) \<union> set (ts_pending_steers (snapshot_for_thread t (Some rt))))"
proof -
  let ?all = "rt_items rt @ rt_pending_steers rt @ (case rt_steer_dispatch_in_flight rt of None \<Rightarrow> [] | Some d \<Rightarrow> [sd_entry d])"
  have ids: "mq_ids (view_of rt) = map qe_id ?all" by (simp add: mq_ids_def split: option.split)
  have inj: "inj_on qe_id (set ?all)" using assms(2) unfolding ids distinct_map by (rule conjunct2)
  obtain e where e: "e \<in> set ?all" "qe_id e = i" "is_scheduled_prompt_entry e"
    using assms(1) by (auto simp: is_scheduled_prompt_item_def list_ex_iff)
  have ne: "qe_id e' \<noteq> i" if "e' \<in> set ?all" "\<not> is_scheduled_prompt_entry e'" for e'
  proof
    assume "qe_id e' = i"
    with e(2) have "qe_id e = qe_id e'" by simp
    from inj_onD [OF inj this e(1) that(1)] show False using e(3) that(2) by simp
  qed
  let ?fl = "case rt_steer_dispatch_in_flight rt of None \<Rightarrow> [] | Some d \<Rightarrow> [sd_entry d]"
  have pub: "qm_id (to_public e') = qe_id e'" for e' by (simp add: to_public_def)
  have shown: "ts_items (snapshot_for_thread t (Some rt)) = map to_public (filter (\<lambda>e. \<not> is_scheduled_prompt_entry e) (rt_items rt))"
    "ts_pending_steers (snapshot_for_thread t (Some rt)) =
       map to_public (filter (\<lambda>e. \<not> is_scheduled_prompt_entry e) (?fl @ rt_pending_steers rt))"
    by (simp_all add: snapshot_for_thread_def Let_def)
  have "qm_id m \<noteq> i" if m: "m \<in> set (ts_items (snapshot_for_thread t (Some rt))) \<union> set (ts_pending_steers (snapshot_for_thread t (Some rt)))" for m
  proof -
    obtain e' where "m = to_public e'" "e' \<in> set ?all" "\<not> is_scheduled_prompt_entry e'"
      using m unfolding shown set_map set_filter set_append by blast
    then show ?thesis using ne pub by metis
  qed
  then show ?thesis by blast
qed

text \<open>
  C27: users cannot touch what the scheduler queued. On a message whose submission belongs to the
  scheduler, steering, cancelling, starting, committing and cancelling an edit all fail and change
  nothing, and no snapshot shows the message (its number is unique by \<open>queue_messages_consistent\<close>).
\<close>

theorem queue_scheduled_untouchable:
  assumes "runtime_of S t = Some rt" "is_scheduled_prompt_item rt i" "distinct (mq_ids (view_of rt))"
    and "trim t = t" "trim i = i"
  shows "(\<exists>e. steer_message snap supports \<lparr>stq_thread_id = t, stq_item_id = i\<rparr> S = (Err e, S))
    \<and> (\<exists>e. cancel_message X E \<lparr>cq_thread_id = t, cq_item_id = i\<rparr> S = (Err e, S))
    \<and> (\<exists>e. start_message_edit \<lparr>eq_thread_id = t, eq_item_id = i\<rparr> S = (Err e, S))
    \<and> (\<exists>e. commit_message_edit schema X \<lparr>ecq_thread_id = t, ecq_item_id = i, ecq_content = content\<rparr> S = (Err e, S))
    \<and> (\<exists>e. cancel_message_edit \<lparr>eq_thread_id = t, eq_item_id = i\<rparr> S = (Err e, S))
    \<and> i \<notin> qm_id ` (set (ts_items (read_queue S t)) \<union> set (ts_pending_steers (read_queue S t)))"
proof -
  have "snd (ensure_thread_runtime snap t S) = S"
    using assms(1,4) by (simp add: ensure_thread_runtime_def Let_def split: sum.split)
  then obtain r where ens: "ensure_thread_runtime snap t S = (r, S)" by (metis prod.collapse)
  have "\<exists>e. steer_message snap supports \<lparr>stq_thread_id = t, stq_item_id = i\<rparr> S = (Err e, S)"
    unfolding steer_message_def steer_message_inner_def Let_def
    by (simp add: assms(1,2,4,5) ens split: sum.split option.split bool.split)
  moreover have "i \<notin> qm_id ` (set (ts_items (read_queue S t)) \<union> set (ts_pending_steers (read_queue S t)))"
    using snapshot_hides_scheduled [OF assms(2,3)] assms(1,4)
    by (simp add: read_queue_def Let_def) (simp add: snapshot_for_thread_def)
  ultimately show ?thesis using assms
    by (auto simp: cancel_message_def remove_queued_item_def start_message_edit_def commit_message_edit_def
        cancel_message_edit_def Let_def split: sum.split)
qed

definition demo_scheduled_item :: bridge_queued_message_entry where
  "demo_scheduled_item = demo_item\<lparr>qe_submission_id := SCHEDULED_PROMPT_SUBMISSION_PREFIX @ ''1''\<rparr>"

theorem queue_scheduled_untouchable_witness:
  "\<exists>e. cancel_message demo_queue \<lparr>ce_journal = \<lambda>_. Ok (), ce_forget_io = all_good, ce_now = [], ce_now_forget = []\<rparr>
     \<lparr>cq_thread_id = ''t'', cq_item_id = ''queue-1''\<rparr>
     (set_runtime ''t'' (runtime_default\<lparr>rt_items := [demo_scheduled_item]\<rparr>) demo_service)
     = (Err e, set_runtime ''t'' (runtime_default\<lparr>rt_items := [demo_scheduled_item]\<rparr>) demo_service)"
proof -
  let ?rt = "runtime_default\<lparr>rt_items := [demo_scheduled_item]\<rparr>"
  have trims: "trim ''t'' = ''t''" "trim ''queue-1'' = ''queue-1''" by code_simp+
  have "is_scheduled_prompt_item ?rt ''queue-1''" "distinct (mq_ids (view_of ?rt))"
    by (simp_all add: is_scheduled_prompt_item_def is_scheduled_prompt_entry_def demo_scheduled_item_def demo_item_def
        starts_with_def mq_ids_def runtime_default_def)
  then show ?thesis
    using queue_scheduled_untouchable [of "set_runtime ''t'' ?rt demo_service" "''t''" ?rt "''queue-1''"] trims by simp
qed

section \<open>Steering\<close>










section \<open>A stale error stops steering\<close>

text \<open>
  After a successful preparation the loop looks at \<open>last_error\<close>, whoever set it: an error left by an
  earlier operation (and not hidden from the snapshot) ends the loop although nothing failed, and
  the waiting steers are not delivered in this round.
\<close>

theorem steering_stopped_by_stale_error:
  assumes "runtime_of S t = Some rt" "rt_last_error rt = Some e" "rt_last_error_submission_id rt = None"
    and "rt_pending_steers rt \<noteq> []"
  shows "fst (prepare_steer_answered now (Ok epoch) t S) = False"
    and "runtime_of (snd (prepare_steer_answered now (Ok epoch) t S)) t = Some (rt\<lparr>rt_steer_prepare_in_flight := False\<rparr>)"
  using assms by (simp_all add: prepare_steer_answered_def snapshot_for_thread_def Let_def)

end
