(* ===== verification/Queue_Agent_Properties.thy ===== *)
theory Queue_Agent_Properties
  imports Queue_Refinement Queue_Properties
begin

text \<open>
  What \<open>send_agent_message\<close> promises: the journal of agent messages learns how the message ended, and
  the message starts at most one turn.
\<close>

section \<open>What the journal is asked\<close>

definition journal_op :: "queue_output \<Rightarrow> bool" where
  "journal_op x = (case x of Update_agent_message _ _ \<Rightarrow> True | Record_agent_messages _ \<Rightarrow> True
     | Remove_agent_message _ \<Rightarrow> True | Publish_agent_message _ \<Rightarrow> True | _ \<Rightarrow> False)"

definition journal_ops :: "queue_output list \<Rightarrow> queue_output list" where
  "journal_ops outs = filter journal_op outs"

lemma journal_ops_simps [simp]:
  "journal_ops [] = []" "journal_ops (xs @ ys) = journal_ops xs @ journal_ops ys"
  "journal_ops (x # xs) = (if journal_op x then x # journal_ops xs else journal_ops xs)"
  by (simp_all add: journal_ops_def)

lemma journal_op_simps [simp]:
  "\<not> journal_op (Broadcast_queue b)" "\<not> journal_op (Turn_start t v u)"
  "\<not> journal_op (Spawn_auto_dispatch t)" "\<not> journal_op (Spawn_steer_dispatch t)"
  "\<not> journal_op (Schedule_auto_dispatch_retry t n)" "journal_op (Update_agent_message m d)"
  "journal_op (Record_agent_messages ms)" "journal_op (Remove_agent_message m)"
  "journal_op (Publish_agent_message m)"
  by (simp_all add: journal_op_def)

lemma emit_outputs [simp]: "qs_outputs (emit x S) = qs_outputs S @ [x]"
  by (simp add: emit_def)

section \<open>The parts of a send\<close>






text \<open>The journal is asked up to three times to note a disposition.\<close>

lemma persist_disposition_outputs:
  assumes "persist_agent_message_disposition answers m d S = (r, S')"
  shows "\<exists>k \<in> {1..3}. qs_outputs S' = qs_outputs S @ replicate k (Update_agent_message m d)
    \<and> (is_ok r \<longleftrightarrow> k < 3 \<or> is_ok (answers 2))"
proof (cases "is_ok (answers 0)")
  case True
  then show ?thesis using assms
    by (intro bexI [of _ 1]) (auto simp: persist_agent_message_disposition_def is_ok_iff Let_def)
next
  case first: False
  show ?thesis
  proof (cases "is_ok (answers 1)")
    case True
    with first show ?thesis using assms
      by (intro bexI [of _ 2])
        (auto simp: persist_agent_message_disposition_def numeral_2_eq_2 is_ok_iff Let_def split: sum.splits)
  next
    case False
    with first show ?thesis using assms
      by (intro bexI [of _ 3])
        (auto simp: persist_agent_message_disposition_def numeral_3_eq_3 Let_def split: sum.splits)
  qed
qed



section \<open>The whole operation\<close>

lemma agent_failed_outputs:
  "\<exists>k \<in> {1..3}. qs_outputs (agent_message_failed A m err S) = qs_outputs S @
     (if dispatch_failure_is_indeterminate err then replicate k (Update_agent_message m Message_Cancelled)
      else [Remove_agent_message m])"
  using persist_disposition_outputs [of "ae_settle A" m Message_Cancelled S, OF surjective_pairing]
  by (auto simp: agent_message_failed_def)

lemma agent_accepted_outputs:
  assumes "d \<noteq> Message_Queued"
  shows "\<exists>k \<in> {1..3}. qs_outputs (agent_message_accepted A e d S) = qs_outputs S
     @ replicate k (Update_agent_message (env_message_id e) d)
     @ (if k = 3 \<and> \<not> is_ok (ae_accept A 2) then [Publish_agent_message (env_message_id e)] else [])
     @ (if d = Message_Steering then [Spawn_steer_dispatch (recipient_thread_id e)] else [])"
proof -
  obtain r S' where p: "persist_agent_message_disposition (ae_accept A) (env_message_id e) d S = (r, S')" by fastforce
  obtain k where k: "k \<in> {1..3}" "qs_outputs S' = qs_outputs S @ replicate k (Update_agent_message (env_message_id e) d)"
      "is_ok r \<longleftrightarrow> k < 3 \<or> is_ok (ae_accept A 2)"
    using persist_disposition_outputs [OF p] by blast
  show ?thesis using k assms p
    by (intro bexI [of _ k]) (auto simp: agent_message_accepted_def Let_def split: sum.splits)
qed

lemma accepted_runtime [simp]: "runtime_of (agent_message_accepted A e d S) t = runtime_of S t"
proof -
  obtain r S' where p: "persist_agent_message_disposition (ae_accept A) (env_message_id e) d S = (r, S')" by fastforce
  have "runtime_of S' t = runtime_of S t" using persist_agent_message_frame(3) [of "ae_accept A" "env_message_id e" d S t] p by simp
  then show ?thesis using p by (auto simp: agent_message_accepted_def Let_def split: sum.splits)
qed



lemma journal_ops_replicate [simp]:
  "journal_ops (replicate k (Update_agent_message m d)) = replicate k (Update_agent_message m d)"
  by (induction k) simp_all

lemma turn_starts_replicate [simp]: "turn_starts (replicate k (Update_agent_message m d)) = []"
  by (induction k) simp_all


lemma accepted_turns [simp]:
  "turn_starts (qs_outputs (agent_message_accepted A e d S)) = turn_starts (qs_outputs S)"
proof (cases "d = Message_Queued")
  case False
  from agent_accepted_outputs [OF this, of A e S] show ?thesis by auto
qed (simp add: agent_message_accepted_def)

lemma failed_turns [simp]:
  "turn_starts (qs_outputs (agent_message_failed A m err S)) = turn_starts (qs_outputs S)"
  using agent_failed_outputs [of A m err S] by auto












end
