(* ===== verification/Scheduled_Prompts.thy ===== *)
theory Scheduled_Prompts
  imports Identity Queue_Dispatch "HOL-Library.Product_Lexorder"
begin

text \<open>
  \<open>services/rust-bridge/src/scheduled_prompts.rs\<close>: prompts that are sent to a thread at a given time.
  The pending prompts are kept in a private file; the worker hands a prompt that is due to the
  thread queue under a submission identifier of its own, so that the queue's idempotency makes the
  delivery happen once, and removes it when the queue has sent it.

  Time is a number of nanoseconds; every reading of the clock is an input. RFC 3339 text, the
  canonical form of a UUID, base64 and JSON text are parameters. The scheduler holds the queue
  weakly: \<open>sc_queue\<close> is \<open>None\<close> once the queue is gone, and the fence is the queue's.
\<close>

section \<open>Data\<close>

definition SCHEDULER_STATE_VERSION :: nat where "SCHEDULER_STATE_VERSION = 1"
definition SCHEDULER_STATE_MAX_BYTES :: nat where "SCHEDULER_STATE_MAX_BYTES = 8 * 1024 * 1024"
definition SCHEDULES_PER_THREAD_MAX :: nat where "SCHEDULES_PER_THREAD_MAX = 100"
definition SCHEDULE_IDENTIFIER_MAX_BYTES :: nat where "SCHEDULE_IDENTIFIER_MAX_BYTES = 128"
definition SCHEDULER_ERROR_MAX_BYTES :: nat where "SCHEDULER_ERROR_MAX_BYTES = 1024"
definition SCHEDULE_PROMPT_PREVIEW_MAX_BYTES :: nat where "SCHEDULE_PROMPT_PREVIEW_MAX_BYTES = 256"
definition RETRY_MIN :: nat where "RETRY_MIN = 250 * 10 ^ 6"
definition RETRY_MAX :: nat where "RETRY_MAX = 30 * 10 ^ 9"
definition MAX_WORKER_SLEEP :: nat where "MAX_WORKER_SLEEP = 24 * 60 * 60 * 10 ^ 9"

datatype scheduled_prompt_error = Invalid_request str | Internal str

datatype stored_scheduled_prompt_status = Stored_Scheduled | Stored_Queued | Stored_Retrying | Stored_Cancelling

record stored_scheduled_prompt =
  sp_schedule_id :: str
  sp_thread_id :: str
  sp_prompt :: str
  sp_scheduled_for :: int
  sp_created_at :: int
  sp_status :: stored_scheduled_prompt_status
  sp_retry_attempt :: nat
  sp_next_attempt_at :: int
  sp_last_error :: "str option"

record scheduled_prompt_state =
  ss_version :: nat
  ss_prompts :: "(str, stored_scheduled_prompt) btree"

definition scheduler_default :: scheduled_prompt_state where
  "scheduler_default = \<lparr>ss_version = SCHEDULER_STATE_VERSION, ss_prompts = []\<rparr>"

datatype scheduled_prompt_status = Status_Scheduled | Status_Queued | Status_Retrying

record scheduled_prompt_metadata =
  md_schedule_id :: str
  md_thread_id :: str
  md_prompt :: str
  md_prompt_bytes :: nat
  md_scheduled_for :: str
  md_created_at :: str
  md_status :: scheduled_prompt_status
  md_retry_attempt :: nat
  md_last_error :: "str option"

record scheduled_prompt_summary =
  sm_schedule_id :: str
  sm_thread_id :: str
  sm_prompt_preview :: str
  sm_prompt_bytes :: nat
  sm_scheduled_for :: str
  sm_created_at :: str
  sm_status :: scheduled_prompt_status
  sm_retry_attempt :: nat

record bridge_thread_schedules_state =
  bss_thread_id :: str
  bss_schedules :: "scheduled_prompt_summary list"

datatype cancel_scheduled_prompt_status = Schedule_Cancelled | Schedule_NotFound

record cancel_scheduled_prompt_result =
  cr_schedule_id :: str
  cr_status :: cancel_scheduled_prompt_status

record sched_ext =
  sx_queue :: queue_ext
  sx_schema :: "json \<Rightarrow> content_block option"
  sx_b64 :: b64
  sx_uuid_canon :: "str \<Rightarrow> str option"
  sx_parse_rfc3339 :: "str \<Rightarrow> int option"
  sx_format_timestamp :: "int \<Rightarrow> str"
  sx_ser_time :: "int \<Rightarrow> str"
  sx_de_time :: "str \<Rightarrow> int option"

record scheduler =
  sc_path :: "storage_path option"
  sc_state :: scheduled_prompt_state
  sc_directory :: directory
  sc_queue :: "queue_service option"
  sc_fence :: fence_state
  sc_wake :: bool
  sc_cancellation :: bool
  sc_task :: bool
  sc_retry_min :: nat
  sc_retry_max :: nat
  sc_broadcasts :: "bridge_thread_schedules_state list"

abbreviation sx_json :: "sched_ext \<Rightarrow> json_text" where
  "sx_json X \<equiv> qx_json (sx_queue X)"

section \<open>Small functions\<close>

definition scheduled_submission_id :: "str \<Rightarrow> str" where
  "scheduled_submission_id schedule_id = SCHEDULED_PROMPT_SUBMISSION_PREFIX @ schedule_id"

definition prompt_turn_start :: "str \<Rightarrow> json" where
  "prompt_turn_start prompt =
     JObject [(''input'', JArray [JObject [(''type'', JString ''text''), (''text'', JString prompt),
       (''text_elements'', JArray [])]])]"

definition scheduler_validate_thread_id :: "sched_ext \<Rightarrow> str \<Rightarrow> str + unit" where
  "scheduler_validate_thread_id X thread_id =
     (case identity_decode (sx_b64 X) thread_id of
        Inr _ \<Rightarrow> Ok () | Inl _ \<Rightarrow> Err ''invalid opaque ACP thread ID'')"

definition validate_schedule_id :: "sched_ext \<Rightarrow> str \<Rightarrow> str + unit" where
  "validate_schedule_id X i =
     (if i = [] \<or> SCHEDULE_IDENTIFIER_MAX_BYTES < length i
      then Err (''scheduleId must be between 1 and '' @ show_nat SCHEDULE_IDENTIFIER_MAX_BYTES @ '' bytes'')
      else case sx_uuid_canon X i of
             None \<Rightarrow> Err ''scheduleId must be a UUID''
           | Some c \<Rightarrow>
               if c \<noteq> i then Err ''scheduleId must use canonical lowercase UUID form'' else Ok ())"

definition validate_prompt_queue_encoding :: "sched_ext \<Rightarrow> str \<Rightarrow> str + unit" where
  "validate_prompt_queue_encoding X prompt =
     (if text_contains_reserved_agent_message_marker prompt
      then Err ''prompt contains an agent-message marker reserved by the bridge''
      else if QUEUE_MAX_ITEM_BYTES < sat_add (length (to_string (sx_json X) (prompt_turn_start prompt))) (length prompt)
      then Err (''encoded prompt exceeds the '' @ show_nat QUEUE_MAX_ITEM_BYTES @ ''-byte queue item limit'')
      else Ok ())"

text \<open>\<open>String::pop\<close> drops the last character; the loop stops when the text fits.\<close>

definition string_pop :: "str \<Rightarrow> str" where
  "string_pop s = take (back_to_boundary s (length s - 1)) s"

lemma length_string_pop: "s \<noteq> [] \<Longrightarrow> length (string_pop s) < length s"
  using back_to_boundary_le [of s "length s - 1"] by (simp add: string_pop_def) (cases s; simp)

function truncate_error :: "str \<Rightarrow> str" where
  "truncate_error error =
     (if SCHEDULER_ERROR_MAX_BYTES < length error then truncate_error (string_pop error) else error)"
  by pat_completeness auto
termination
  by (relation "measure length") (auto simp: SCHEDULER_ERROR_MAX_BYTES_def intro!: length_string_pop)

declare truncate_error.simps [simp del]

text \<open>\<open>Duration::saturating_mul\<close>: a duration has at most \<open>u64::MAX\<close> seconds and 999,999,999 nanoseconds.\<close>

definition DURATION_MAX :: nat where "DURATION_MAX = 2 ^ 64 * 10 ^ 9 - 1"

definition retry_delay :: "scheduler \<Rightarrow> nat \<Rightarrow> nat" where
  "retry_delay W attempt =
     min (min (sc_retry_min W * 2 ^ min (attempt - 1) 16) DURATION_MAX) (sc_retry_max W)"

definition schedule_metadata :: "sched_ext \<Rightarrow> stored_scheduled_prompt \<Rightarrow> scheduled_prompt_metadata option" where
  "schedule_metadata X e =
     (let public = (\<lambda>st. Some
            \<lparr>md_schedule_id = sp_schedule_id e, md_thread_id = sp_thread_id e, md_prompt = sp_prompt e,
             md_prompt_bytes = length (sp_prompt e),
             md_scheduled_for = sx_format_timestamp X (sp_scheduled_for e),
             md_created_at = sx_format_timestamp X (sp_created_at e), md_status = st,
             md_retry_attempt = sp_retry_attempt e, md_last_error = sp_last_error e\<rparr>)
      in case sp_status e of
           Stored_Scheduled \<Rightarrow> public Status_Scheduled
         | Stored_Queued \<Rightarrow> public Status_Queued
         | Stored_Retrying \<Rightarrow> public Status_Retrying
         | Stored_Cancelling \<Rightarrow> None)"

definition schedule_summary :: "sched_ext \<Rightarrow> stored_scheduled_prompt \<Rightarrow> scheduled_prompt_summary option" where
  "schedule_summary X e =
     map_option (\<lambda>m.
       \<lparr>sm_schedule_id = md_schedule_id m, sm_thread_id = md_thread_id m,
        sm_prompt_preview = fst (truncate_utf8_bytes (trim (md_prompt m)) SCHEDULE_PROMPT_PREVIEW_MAX_BYTES),
        sm_prompt_bytes = md_prompt_bytes m, sm_scheduled_for = md_scheduled_for m,
        sm_created_at = md_created_at m, sm_status = md_status m, sm_retry_attempt = md_retry_attempt m\<rparr>)
       (schedule_metadata X e)"

definition cancel_result :: "str \<Rightarrow> cancel_scheduled_prompt_status \<Rightarrow> cancel_scheduled_prompt_result" where
  "cancel_result schedule_id st = \<lparr>cr_schedule_id = schedule_id, cr_status = st\<rparr>"

section \<open>The file\<close>

fun ser_prompt_status :: "stored_scheduled_prompt_status \<Rightarrow> json" where
  "ser_prompt_status Stored_Scheduled = JString ''scheduled''"
| "ser_prompt_status Stored_Queued = JString ''queued''"
| "ser_prompt_status Stored_Retrying = JString ''retrying''"
| "ser_prompt_status Stored_Cancelling = JString ''cancelling''"

definition de_prompt_status :: "json \<Rightarrow> stored_scheduled_prompt_status option" where
  "de_prompt_status = de_unit_variant [(''scheduled'', Stored_Scheduled), (''queued'', Stored_Queued),
     (''retrying'', Stored_Retrying), (''cancelling'', Stored_Cancelling)]"

definition de_time :: "sched_ext \<Rightarrow> json \<Rightarrow> int option" where
  "de_time X v = Option.bind (de_string v) (sx_de_time X)"

definition ser_prompt :: "sched_ext \<Rightarrow> stored_scheduled_prompt \<Rightarrow> json" where
  "ser_prompt X e =
     JObject
       ([(''scheduleId'', JString (sp_schedule_id e)), (''threadId'', JString (sp_thread_id e)),
         (''prompt'', JString (sp_prompt e)), (''scheduledFor'', JString (sx_ser_time X (sp_scheduled_for e))),
         (''createdAt'', JString (sx_ser_time X (sp_created_at e))),
         (''status'', ser_prompt_status (sp_status e)),
         (''retryAttempt'', JInt (int (sp_retry_attempt e))),
         (''nextAttemptAt'', JString (sx_ser_time X (sp_next_attempt_at e)))]
        @ (case sp_last_error e of None \<Rightarrow> [] | Some err \<Rightarrow> [(''lastError'', JString err)]))"

definition de_prompt :: "sched_ext \<Rightarrow> json \<Rightarrow> stored_scheduled_prompt option" where
  "de_prompt X v =
     Option.bind (struct_members [''scheduleId'', ''threadId'', ''prompt'', ''scheduledFor'', ''createdAt'',
         ''status'', ''retryAttempt'', ''nextAttemptAt'', ''lastError''] v) (\<lambda>ms.
     Option.bind (field_req ms ''scheduleId'' de_string) (\<lambda>i.
     Option.bind (field_req ms ''threadId'' de_string) (\<lambda>t.
     Option.bind (field_req ms ''prompt'' de_string) (\<lambda>p.
     Option.bind (field_req ms ''scheduledFor'' (de_time X)) (\<lambda>sf.
     Option.bind (field_req ms ''createdAt'' (de_time X)) (\<lambda>ca.
     Option.bind (field_req ms ''status'' de_prompt_status) (\<lambda>st.
     Option.bind (field_req ms ''retryAttempt'' de_u32) (\<lambda>ra.
     Option.bind (field_req ms ''nextAttemptAt'' (de_time X)) (\<lambda>na.
     Option.bind (field_opt ms ''lastError'' de_string) (\<lambda>le.
     Some \<lparr>sp_schedule_id = i, sp_thread_id = t, sp_prompt = p, sp_scheduled_for = sf, sp_created_at = ca,
           sp_status = st, sp_retry_attempt = ra, sp_next_attempt_at = na, sp_last_error = le\<rparr>))))))))))"

definition ser_scheduler_state :: "sched_ext \<Rightarrow> scheduled_prompt_state \<Rightarrow> json" where
  "ser_scheduler_state X s =
     JObject [(''version'', JInt (int (ss_version s))), (''prompts'', ser_btree (ser_prompt X) (ss_prompts s))]"

definition de_scheduler_state :: "sched_ext \<Rightarrow> json \<Rightarrow> scheduled_prompt_state option" where
  "de_scheduler_state X v =
     Option.bind (struct_members [''version'', ''prompts''] v) (\<lambda>ms.
     Option.bind (field_req ms ''version'' de_u32) (\<lambda>ver.
     Option.bind (field_req ms ''prompts'' (de_btree False (de_prompt X))) (\<lambda>m.
     Some \<lparr>ss_version = ver, ss_prompts = m\<rparr>)))"

text \<open>The checks of one entry of \<open>validate_state\<close>, then the loop with its count per thread.\<close>

definition validate_prompt :: "sched_ext \<Rightarrow> str \<Rightarrow> stored_scheduled_prompt \<Rightarrow> str + unit" where
  "validate_prompt X key e =
     res_bind (validate_schedule_id X key) (\<lambda>_.
     if key \<noteq> sp_schedule_id e then Err ''scheduled prompt map key does not match scheduleId''
     else res_bind (scheduler_validate_thread_id X (sp_thread_id e)) (\<lambda>_.
     if trim (sp_prompt e) = [] \<or> QUEUE_MAX_CONTENT_BYTES < length (sp_prompt e)
     then Err ''scheduled prompt content is empty or oversized''
     else res_bind (validate_prompt_queue_encoding X (sp_prompt e)) (\<lambda>_.
     if (\<exists>err \<in> set_option (sp_last_error e). SCHEDULER_ERROR_MAX_BYTES < length err)
     then Err ''scheduled prompt retry error is oversized''
     else if sp_scheduled_for e < sp_created_at e
     then Err ''scheduled prompt creation time follows its delivery time''
     else case sp_status e of
            Stored_Scheduled \<Rightarrow>
              if sp_retry_attempt e \<noteq> 0 \<or> sp_last_error e \<noteq> None \<or> sp_next_attempt_at e \<noteq> sp_scheduled_for e
              then Err ''scheduled prompt has inconsistent scheduled state'' else Ok ()
          | Stored_Queued \<Rightarrow>
              if sp_retry_attempt e = 0 \<or> sp_last_error e \<noteq> None
              then Err ''scheduled prompt has inconsistent queued state'' else Ok ()
          | Stored_Retrying \<Rightarrow>
              if sp_retry_attempt e = 0 then Err ''scheduled prompt has inconsistent retry state'' else Ok ()
          | Stored_Cancelling \<Rightarrow> Ok ())))"

fun validate_prompts ::
  "sched_ext \<Rightarrow> (str, stored_scheduled_prompt) btree \<Rightarrow> (str \<Rightarrow> nat) \<Rightarrow> str + unit" where
  "validate_prompts X [] per_thread = Ok ()"
| "validate_prompts X ((key, e) # rest) per_thread =
     res_bind (validate_prompt X key e) (\<lambda>_.
       let count = per_thread (sp_thread_id e) + 1 in
       if SCHEDULES_PER_THREAD_MAX < count
       then Err (''scheduled prompt state exceeds '' @ show_nat SCHEDULES_PER_THREAD_MAX
              @ '' pending prompts for a thread'')
       else validate_prompts X rest (per_thread(sp_thread_id e := count)))"

definition scheduler_validate_state :: "sched_ext \<Rightarrow> scheduled_prompt_state \<Rightarrow> str + unit" where
  "scheduler_validate_state X s =
     (if ss_version s \<noteq> SCHEDULER_STATE_VERSION
      then Err (''unsupported scheduled prompt state version '' @ show_nat (ss_version s))
      else validate_prompts X (ss_prompts s) (\<lambda>_. 0))"

definition scheduler_encode_state :: "sched_ext \<Rightarrow> scheduled_prompt_state \<Rightarrow> str + str" where
  "scheduler_encode_state X s =
     res_bind (scheduler_validate_state X s) (\<lambda>_.
       let bytes = to_string (sx_json X) (ser_scheduler_state X s) in
       if SCHEDULER_STATE_MAX_BYTES < length bytes
       then Err (''scheduled prompt state exceeds its '' @ show_nat SCHEDULER_STATE_MAX_BYTES @ ''-byte budget'')
       else Ok bytes)"

definition scheduler_load_state ::
  "sched_ext \<Rightarrow> bool \<Rightarrow> str \<Rightarrow> directory \<Rightarrow> str + scheduled_prompt_state" where
  "scheduler_load_state X readable_file file_name dir =
     (case dir file_name of
        None \<Rightarrow> Ok scheduler_default
      | Some bytes \<Rightarrow>
          if \<not> readable_file then Err (''failed to read scheduled prompt state: '' @ qx_show_read (sx_queue X))
          else if SCHEDULER_STATE_MAX_BYTES < length bytes
          then Err (''scheduled prompt state exceeds '' @ show_nat SCHEDULER_STATE_MAX_BYTES @ '' bytes'')
          else case Option.bind (from_str (sx_json X) bytes) (de_scheduler_state X) of
                 None \<Rightarrow> Err (''invalid scheduled prompt state: '' @ qx_show_serde (sx_queue X) bytes)
               | Some s \<Rightarrow>
                   res_bind (scheduler_validate_state X s) (\<lambda>_.
                   res_bind (scheduler_encode_state X s) (\<lambda>_. Ok s)))"

end
