(* ===== verification/Scheduler.thy ===== *)
theory Scheduler
  imports Scheduled_Prompts
begin

text \<open>
  The operations of \<open>ScheduledPromptService\<close> (\<open>services/rust-bridge/src/scheduled_prompts.rs\<close>):
  scheduling, listing and cancelling prompts, the retirement of threads, the worker that delivers
  what is due, and the shutdown. The operation mutex makes each of them one step. The worker reads
  its candidates before it takes that mutex, so its two operations have a second half that takes
  the candidates as an argument and runs on a possibly different state.

  A clock reading, the fault pattern of a write and the answers of the agent runtime are fields of
  an environment record. The value \<open>None\<close> means that a retry loop of the queue is still running.
\<close>

section \<open>Committing and publishing\<close>

text \<open>Both errors of \<open>commit\<close> are internal errors; the wrapper is applied by \<open>scheduler_commit\<close>.\<close>

definition commit_prompts ::
  "sched_ext \<Rightarrow> storage_path option \<Rightarrow> io_env \<Rightarrow> scheduled_prompt_state \<Rightarrow> scheduled_prompt_state \<Rightarrow> directory
     \<Rightarrow> (str + unit) \<times> scheduled_prompt_state \<times> directory" where
  "commit_prompts X path env next mem dir =
     (case scheduler_encode_state X next of
        Inl e \<Rightarrow> (Err e, mem, dir)
      | Inr bytes \<Rightarrow>
          (case path of
             None \<Rightarrow> (Ok (), next, dir)
           | Some p \<Rightarrow>
               (case atomic_write_private env p bytes dir of
                  (Inl e, dir') \<Rightarrow>
                    (Err (''failed to persist scheduled prompt state: '' @ qx_show_io (sx_queue X) e), mem, dir')
                | (Inr _, dir') \<Rightarrow> (Ok (), next, dir'))))"

definition scheduler_commit ::
  "sched_ext \<Rightarrow> io_env \<Rightarrow> scheduled_prompt_state \<Rightarrow> scheduler \<Rightarrow> (scheduled_prompt_error + unit) \<times> scheduler" where
  "scheduler_commit X env next W =
     (case commit_prompts X (sc_path W) env next (sc_state W) (sc_directory W) of
        (r, st, dir) \<Rightarrow> (res_map_err Internal r, W\<lparr>sc_state := st, sc_directory := dir\<rparr>))"

definition thread_prompts :: "scheduled_prompt_state \<Rightarrow> str \<Rightarrow> stored_scheduled_prompt list" where
  "thread_prompts s thread_id = filter (\<lambda>e. sp_thread_id e = thread_id) (map snd (ss_prompts s))"

definition scheduler_list :: "sched_ext \<Rightarrow> scheduled_prompt_state \<Rightarrow> str \<Rightarrow> scheduled_prompt_metadata list" where
  "scheduler_list X s thread_id =
     sort_key (\<lambda>m. (md_scheduled_for m, md_schedule_id m))
       (List.map_filter (schedule_metadata X) (thread_prompts s thread_id))"

definition scheduler_read :: "sched_ext \<Rightarrow> scheduled_prompt_state \<Rightarrow> str \<Rightarrow> bridge_thread_schedules_state" where
  "scheduler_read X s thread_id =
     \<lparr>bss_thread_id = thread_id,
      bss_schedules = sort_key (\<lambda>m. (sm_scheduled_for m, sm_schedule_id m))
        (List.map_filter (schedule_summary X) (thread_prompts s thread_id))\<rparr>"

definition pending_count :: "scheduled_prompt_state \<Rightarrow> nat" where
  "pending_count s = length (ss_prompts s)"

definition broadcast_thread :: "sched_ext \<Rightarrow> str \<Rightarrow> scheduler \<Rightarrow> scheduler" where
  "broadcast_thread X thread_id W =
     W\<lparr>sc_broadcasts := sc_broadcasts W @ [scheduler_read X (sc_state W) thread_id]\<rparr>"

definition notify_wake :: "scheduler \<Rightarrow> scheduler" where
  "notify_wake W = W\<lparr>sc_wake := True\<rparr>"

text \<open>The background operations commit and, when the commit succeeded, publish the thread.\<close>

definition commit_and_broadcast ::
  "sched_ext \<Rightarrow> io_env \<Rightarrow> str \<Rightarrow> scheduled_prompt_state \<Rightarrow> scheduler \<Rightarrow> scheduler" where
  "commit_and_broadcast X env thread_id next W =
     (case scheduler_commit X env next W of
        (Inl _, W') \<Rightarrow> W'
      | (Inr _, W') \<Rightarrow> broadcast_thread X thread_id W')"

definition update_prompt ::
  "str \<Rightarrow> (stored_scheduled_prompt \<Rightarrow> stored_scheduled_prompt) \<Rightarrow> scheduled_prompt_state \<Rightarrow> scheduled_prompt_state" where
  "update_prompt i f s = s\<lparr>ss_prompts := bt_adjust i f (ss_prompts s)\<rparr>"

definition insert_prompt :: "stored_scheduled_prompt \<Rightarrow> scheduled_prompt_state \<Rightarrow> scheduled_prompt_state" where
  "insert_prompt e s = s\<lparr>ss_prompts := bt_insert (sp_schedule_id e) e (ss_prompts s)\<rparr>"

definition remove_prompt :: "str \<Rightarrow> scheduled_prompt_state \<Rightarrow> scheduled_prompt_state" where
  "remove_prompt i s = s\<lparr>ss_prompts := bt_remove i (ss_prompts s)\<rparr>"

text \<open>The fields every failed or queued attempt changes.\<close>

definition note_attempt ::
  "scheduler \<Rightarrow> int \<Rightarrow> stored_scheduled_prompt_status \<Rightarrow> str option \<Rightarrow> stored_scheduled_prompt \<Rightarrow> stored_scheduled_prompt" where
  "note_attempt W now st err e =
     (let attempt = sat_add_u32 (sp_retry_attempt e) 1 in
      e\<lparr>sp_status := st, sp_retry_attempt := attempt,
        sp_next_attempt_at := now + int (retry_delay W attempt), sp_last_error := err\<rparr>)"

definition scheduler_fence :: "scheduler \<Rightarrow> fence_state" where
  "scheduler_fence W = (case sc_queue W of Some Q \<Rightarrow> qs_fence Q | None \<Rightarrow> sc_fence W)"

section \<open>Starting\<close>

definition build_with_state ::
  "storage_path option \<Rightarrow> directory \<Rightarrow> queue_service option \<Rightarrow> scheduled_prompt_state \<Rightarrow> nat \<Rightarrow> nat \<Rightarrow> scheduler" where
  "build_with_state path dir queue state retry_min retry_max =
     \<lparr>sc_path = path, sc_state = state, sc_directory = dir, sc_queue = queue,
      sc_fence = (case queue of Some Q \<Rightarrow> qs_fence Q | None \<Rightarrow> fence_default),
      sc_wake = False, sc_cancellation = False, sc_task = False,
      sc_retry_min = retry_min, sc_retry_max = retry_max, sc_broadcasts = []\<rparr>"

definition start_paused ::
  "sched_ext \<Rightarrow> bool \<Rightarrow> storage_path \<Rightarrow> str \<Rightarrow> directory \<Rightarrow> queue_service option \<Rightarrow> str + scheduler" where
  "start_paused X readable_file path file_name dir queue =
     res_bind (scheduler_load_state X readable_file file_name dir) (\<lambda>state.
       Ok (build_with_state (Some path) dir queue state RETRY_MIN RETRY_MAX))"

definition start_worker :: "scheduler \<Rightarrow> (str + unit) \<times> scheduler" where
  "start_worker W =
     (if sc_task W then (Err ''scheduled prompt worker is already running'', W)
      else (Ok (), notify_wake (W\<lparr>sc_task := True\<rparr>)))"

section \<open>Scheduling and cancelling\<close>

record schedule_env =
  sv_now :: int
  sv_candidates :: "str list"
  sv_io :: io_env

definition check_schedule :: "sched_ext \<Rightarrow> int \<Rightarrow> str \<Rightarrow> str \<Rightarrow> str \<Rightarrow> scheduled_prompt_error + int" where
  "check_schedule X now thread_id prompt scheduled_for =
     res_bind (res_map_err Invalid_request (scheduler_validate_thread_id X thread_id)) (\<lambda>_.
     if trim prompt = [] then Err (Invalid_request ''prompt must not be empty'')
     else if QUEUE_MAX_CONTENT_BYTES < length prompt
     then Err (Invalid_request (''prompt must be at most '' @ show_nat QUEUE_MAX_CONTENT_BYTES @ '' bytes''))
     else res_bind (res_map_err Invalid_request (validate_prompt_queue_encoding X prompt)) (\<lambda>_.
     case sx_parse_rfc3339 X scheduled_for of
       None \<Rightarrow> Err (Invalid_request ''scheduledFor must be an absolute RFC 3339 timestamp'')
     | Some t \<Rightarrow>
         if t \<le> now then Err (Invalid_request ''scheduledFor must be strictly in the future'') else Ok t))"

definition new_prompt :: "int \<Rightarrow> str \<Rightarrow> str \<Rightarrow> int \<Rightarrow> str \<Rightarrow> stored_scheduled_prompt" where
  "new_prompt now thread_id prompt t i =
     \<lparr>sp_schedule_id = i, sp_thread_id = thread_id, sp_prompt = prompt, sp_scheduled_for = t,
      sp_created_at = now, sp_status = Stored_Scheduled, sp_retry_attempt = 0, sp_next_attempt_at = t,
      sp_last_error = None\<rparr>"

definition schedule ::
  "sched_ext \<Rightarrow> schedule_env \<Rightarrow> str \<Rightarrow> str \<Rightarrow> str \<Rightarrow> scheduler
     \<Rightarrow> ((scheduled_prompt_error + scheduled_prompt_metadata) \<times> scheduler) option" where
  "schedule X E thread_id prompt scheduled_for W =
     (case check_schedule X (sv_now E) thread_id prompt scheduled_for of
        Inl e \<Rightarrow> Some (Err e, W)
      | Inr t \<Rightarrow>
     (case res_map_err Internal (admit (scheduler_fence W) thread_id) of
        Inl e \<Rightarrow> Some (Err e, W)
      | Inr _ \<Rightarrow>
        if SCHEDULES_PER_THREAD_MAX \<le> length (thread_prompts (sc_state W) thread_id)
        then Some (Err (Invalid_request (''pending schedule limit reached for thread (max ''
               @ show_nat SCHEDULES_PER_THREAD_MAX @ '')'')), W)
        else (case List.find (\<lambda>c. \<not> bt_contains (ss_prompts (sc_state W)) c) (sv_candidates E) of
          None \<Rightarrow> None
        | Some i \<Rightarrow>
            let e = new_prompt (sv_now E) thread_id prompt t i;
                next = insert_prompt e (sc_state W)
            in (case res_map_err Invalid_request (scheduler_encode_state X next) of
                  Inl err \<Rightarrow> Some (Err err, W)
                | Inr _ \<Rightarrow>
                    (case scheduler_commit X (sv_io E) next W of
                       (Inl err, W') \<Rightarrow> Some (Err err, W')
                     | (Inr _, W') \<Rightarrow>
                         Some (Ok (the (schedule_metadata X e)), notify_wake (broadcast_thread X thread_id W')))))))"

definition record_cancellation_retry ::
  "sched_ext \<Rightarrow> io_env \<Rightarrow> int \<Rightarrow> str \<Rightarrow> str \<Rightarrow> scheduler \<Rightarrow> (scheduled_prompt_error + unit) \<times> scheduler" where
  "record_cancellation_retry X env now i error W =
     (case map_of (ss_prompts (sc_state W)) i of
        None \<Rightarrow> (Ok (), W)
      | Some _ \<Rightarrow>
          scheduler_commit X env
            (update_prompt i (\<lambda>e. note_attempt W now (sp_status e) (Some (truncate_error error)) e) (sc_state W)) W)"

record cancel_schedule_env =
  cv_now :: int
  cv_io :: io_env
  cv_queue_io :: io_env
  cv_retry_now :: int
  cv_final_io :: io_env

definition cancelling :: "int \<Rightarrow> stored_scheduled_prompt \<Rightarrow> stored_scheduled_prompt" where
  "cancelling now e = e\<lparr>sp_status := Stored_Cancelling, sp_next_attempt_at := now, sp_last_error := None\<rparr>"

definition scheduler_cancel ::
  "sched_ext \<Rightarrow> cancel_schedule_env \<Rightarrow> str \<Rightarrow> str \<Rightarrow> scheduler
     \<Rightarrow> (scheduled_prompt_error + cancel_scheduled_prompt_result) \<times> scheduler" where
  "scheduler_cancel X E thread_id i W =
     (case res_map_err Invalid_request (validate_schedule_id X i) of
        Inl e \<Rightarrow> (Err e, W)
      | Inr _ \<Rightarrow>
     (case res_map_err Internal (admit (scheduler_fence W) thread_id) of
        Inl e \<Rightarrow> (Err e, W)
      | Inr _ \<Rightarrow>
     (case map_of (ss_prompts (sc_state W)) i of
        None \<Rightarrow> (Ok (cancel_result i Schedule_NotFound), W)
      | Some e \<Rightarrow>
          if sp_thread_id e \<noteq> thread_id then (Ok (cancel_result i Schedule_NotFound), W)
          else
     (case scheduler_commit X (cv_io E)
             (update_prompt i (cancelling (cv_now E)) (sc_state W)) W of
        (Inl err, W1) \<Rightarrow> (Err err, W1)
      | (Inr _, W1) \<Rightarrow>
     (case sc_queue W1 of
        None \<Rightarrow> (Err (Internal ''scheduled prompt queue is shutting down''), W1)
      | Some Q \<Rightarrow>
     (case cancel_submission (sx_queue X) (cv_queue_io E) thread_id (scheduled_submission_id i) Q of
        (Inl error, Q1) \<Rightarrow>
          (case record_cancellation_retry X (cv_final_io E) (cv_retry_now E) i error (W1\<lparr>sc_queue := Some Q1\<rparr>) of
             (Inl err, W2) \<Rightarrow> (Err err, W2)
           | (Inr _, W2) \<Rightarrow> (Err (Internal error), notify_wake W2))
      | (Inr outcome, Q1) \<Rightarrow>
          (case scheduler_commit X (cv_final_io E) (remove_prompt i (sc_state W1)) (W1\<lparr>sc_queue := Some Q1\<rparr>) of
             (Inl err, W2) \<Rightarrow> (Err err, W2)
           | (Inr _, W2) \<Rightarrow>
               (Ok (cancel_result i (if outcome = Cancel_Sent then Schedule_NotFound else Schedule_Cancelled)),
                notify_wake (broadcast_thread X thread_id W2)))))))))"

section \<open>Retirement of threads\<close>

text \<open>The guard of the operation mutex is held from \<open>begin\<close> to \<open>commit\<close> or \<open>rollback\<close>.\<close>

record scheduled_prompt_retirement =
  sr_thread_ids :: "str list"
  sr_previous :: scheduled_prompt_state

definition scheduler_begin_retirement ::
  "sched_ext \<Rightarrow> str list \<Rightarrow> scheduler \<Rightarrow> scheduled_prompt_error + scheduled_prompt_retirement" where
  "scheduler_begin_retirement X thread_ids W =
     (let ids = map trim thread_ids in
      res_bind (res_map_err Invalid_request (try_for_each (scheduler_validate_thread_id X) ids)) (\<lambda>_.
        Ok \<lparr>sr_thread_ids = sort_dedup ids, sr_previous = sc_state W\<rparr>))"

definition scheduler_commit_retirement ::
  "sched_ext \<Rightarrow> io_env \<Rightarrow> scheduled_prompt_retirement \<Rightarrow> scheduler \<Rightarrow> (scheduled_prompt_error + unit) \<times> scheduler" where
  "scheduler_commit_retirement X env R W =
     scheduler_commit X env
       ((sr_previous R)\<lparr>ss_prompts :=
          bt_retain (\<lambda>_ e. sp_thread_id e \<notin> set (sr_thread_ids R)) (ss_prompts (sr_previous R))\<rparr>) W"

definition scheduler_rollback_retirement :: "scheduled_prompt_retirement \<Rightarrow> scheduler \<Rightarrow> scheduler" where
  "scheduler_rollback_retirement R W = W"

definition scheduler_publish_retirement :: "sched_ext \<Rightarrow> str list \<Rightarrow> scheduler \<Rightarrow> scheduler" where
  "scheduler_publish_retirement X thread_ids W = notify_wake (fold (broadcast_thread X) thread_ids W)"

section \<open>The worker\<close>

definition next_wake :: "scheduled_prompt_state \<Rightarrow> int option" where
  "next_wake s =
     (case ss_prompts s of [] \<Rightarrow> None | ps \<Rightarrow> Some (Min (set (map (\<lambda>(_, e). sp_next_attempt_at e) ps))))"

definition worker_delay :: "int \<Rightarrow> scheduled_prompt_state \<Rightarrow> nat" where
  "worker_delay now s =
     (case next_wake s of
        None \<Rightarrow> MAX_WORKER_SLEEP
      | Some next \<Rightarrow> min (nat (next - now)) MAX_WORKER_SLEEP)"

definition settle_delivered :: "sched_ext \<Rightarrow> io_env \<Rightarrow> stored_scheduled_prompt \<Rightarrow> scheduler \<Rightarrow> scheduler" where
  "settle_delivered X env e W =
     commit_and_broadcast X env (sp_thread_id e) (remove_prompt (sp_schedule_id e) (sc_state W)) W"

text \<open>After a wake-up: the queued prompts the queue has sent meanwhile are removed in one commit.\<close>

definition queued_prompts :: "scheduled_prompt_state \<Rightarrow> stored_scheduled_prompt list" where
  "queued_prompts s = filter (\<lambda>e. sp_status e = Stored_Queued) (map snd (ss_prompts s))"

definition still_queued :: "scheduled_prompt_state \<Rightarrow> stored_scheduled_prompt \<Rightarrow> bool" where
  "still_queued s e =
     (case map_of (ss_prompts s) (sp_schedule_id e) of
        None \<Rightarrow> False
      | Some stored \<Rightarrow> sp_thread_id stored = sp_thread_id e \<and> sp_status stored = Stored_Queued)"

record settle_env =
  tv_sent_io :: "str \<Rightarrow> io_env"
  tv_io :: io_env

fun completed_prompts ::
  "sched_ext \<Rightarrow> settle_env \<Rightarrow> stored_scheduled_prompt list \<Rightarrow> queue_service
     \<Rightarrow> stored_scheduled_prompt list \<times> queue_service" where
  "completed_prompts X E [] Q = ([], Q)"
| "completed_prompts X E (e # es) Q =
     (case on_store (submission_was_sent (sx_queue X) (tv_sent_io E (sp_schedule_id e)) (sp_thread_id e)
              (scheduled_submission_id (sp_schedule_id e))) Q of
        (r, Q1) \<Rightarrow>
          (case completed_prompts X E es Q1 of
             (done, Q2) \<Rightarrow> (if r = Ok True then e # done else done, Q2)))"

definition remove_completed ::
  "sched_ext \<Rightarrow> io_env \<Rightarrow> stored_scheduled_prompt list \<Rightarrow> scheduler \<Rightarrow> scheduler" where
  "remove_completed X env completed W =
     (if completed = [] then W
      else case scheduler_commit X env (fold (\<lambda>e. remove_prompt (sp_schedule_id e)) completed (sc_state W)) W of
             (Inl _, W1) \<Rightarrow> W1
           | (Inr _, W1) \<Rightarrow> fold (broadcast_thread X) (sort_dedup (map sp_thread_id completed)) W1)"

definition settle_queued ::
  "sched_ext \<Rightarrow> settle_env \<Rightarrow> stored_scheduled_prompt list \<Rightarrow> scheduler \<Rightarrow> scheduler" where
  "settle_queued X E queued W =
     (if queued = [] then W
      else case admit_threads (scheduler_fence W) (sort_dedup (map sp_thread_id queued)) of
        Inl _ \<Rightarrow> W
      | Inr _ \<Rightarrow>
     (case sc_queue W of
        None \<Rightarrow> W
      | Some Q \<Rightarrow>
     (case completed_prompts X E (filter (still_queued (sc_state W)) queued) Q of
        (completed, Q1) \<Rightarrow> remove_completed X (tv_io E) completed (W\<lparr>sc_queue := Some Q1\<rparr>))))"

definition settle_completed_submissions :: "sched_ext \<Rightarrow> settle_env \<Rightarrow> scheduler \<Rightarrow> scheduler" where
  "settle_completed_submissions X E W = settle_queued X E (queued_prompts (sc_state W)) W"

text \<open>After a sleep: the prompt that has been due for the longest time is processed.\<close>

record ready_env =
  pv_ready_now :: "str \<Rightarrow> int"
  pv_now :: int
  pv_retry_now :: int
  pv_io :: io_env
  pv_settlement :: "(io_env \<times> bool) list"
  pv_cancel_io :: io_env
  pv_send :: send_env
  pv_reconcile_io :: io_env
  pv_remember_io :: io_env
  pv_reconciled :: "str + str option"
  pv_drain :: drain_env

definition ready_candidate :: "(str \<Rightarrow> int) \<Rightarrow> scheduled_prompt_state \<Rightarrow> stored_scheduled_prompt option" where
  "ready_candidate now s =
     (case sort_key (\<lambda>e. (sp_next_attempt_at e, sp_schedule_id e))
             (filter (\<lambda>e. sp_next_attempt_at e \<le> now (sp_schedule_id e)) (map snd (ss_prompts s))) of
        [] \<Rightarrow> None
      | e # _ \<Rightarrow> Some e)"

definition interrupted_settlement :: "stored_scheduled_prompt \<Rightarrow> str option" where
  "interrupted_settlement e =
     (case sp_last_error e of
        None \<Rightarrow> None
      | Some err \<Rightarrow> if definitive_settlement_was_interrupted err then Some err else None)"

definition retry_interrupted_settlement ::
  "sched_ext \<Rightarrow> ready_env \<Rightarrow> stored_scheduled_prompt \<Rightarrow> queue_service
     \<Rightarrow> ((str + unit) \<times> queue_service) option" where
  "retry_interrupted_settlement X E e Q =
     (case interrupted_settlement e of
        None \<Rightarrow> Some (Ok (), Q)
      | Some err \<Rightarrow>
          map_option (\<lambda>(r, st). (r, Q\<lparr>qs_store := st\<rparr>))
            (settle_interrupted_definitive_failure (sx_queue X) (pv_settlement E) (sp_thread_id e)
               (scheduled_submission_id (sp_schedule_id e)) err (qs_store Q)))"

definition record_attempt ::
  "sched_ext \<Rightarrow> ready_env \<Rightarrow> stored_scheduled_prompt \<Rightarrow> stored_scheduled_prompt_status \<Rightarrow> str option
     \<Rightarrow> scheduler \<Rightarrow> scheduler" where
  "record_attempt X E e st err W =
     commit_and_broadcast X (pv_io E) (sp_thread_id e)
       (update_prompt (sp_schedule_id e) (note_attempt W (pv_retry_now E) st err) (sc_state W)) W"

definition finish_cancellation ::
  "sched_ext \<Rightarrow> ready_env \<Rightarrow> stored_scheduled_prompt \<Rightarrow> queue_service \<Rightarrow> scheduler \<Rightarrow> scheduler" where
  "finish_cancellation X E e Q W =
     (case cancel_submission (sx_queue X) (pv_cancel_io E) (sp_thread_id e)
             (scheduled_submission_id (sp_schedule_id e)) Q of
        (Inr _, Q1) \<Rightarrow> settle_delivered X (pv_io E) e (W\<lparr>sc_queue := Some Q1\<rparr>)
      | (Inl error, Q1) \<Rightarrow>
          snd (record_cancellation_retry X (pv_io E) (pv_retry_now E) (sp_schedule_id e) error
                 (W\<lparr>sc_queue := Some Q1\<rparr>)))"

definition scheduled_request :: "stored_scheduled_prompt \<Rightarrow> bridge_thread_queue_send_request" where
  "scheduled_request e =
     \<lparr>sq_thread_id = sp_thread_id e, sq_submission_id = scheduled_submission_id (sp_schedule_id e),
      sq_content = sp_prompt e, sq_turn_start = prompt_turn_start (sp_prompt e)\<rparr>"

text \<open>Whether the queue finds that a failed dispatch was sent after all.\<close>

definition reconciled_as_sent ::
  "sched_ext \<Rightarrow> ready_env \<Rightarrow> stored_scheduled_prompt \<Rightarrow> str \<Rightarrow> queue_service \<Rightarrow> bool \<times> queue_service" where
  "reconciled_as_sent X E e error Q =
     (if definitive_settlement_was_interrupted error then (False, Q)
      else case reconcile_indeterminate_submission (sx_queue X) (pv_reconcile_io E) (pv_remember_io E)
                  (pv_reconciled E) (sp_thread_id e) (scheduled_submission_id (sp_schedule_id e)) Q of
             (Inr (Some result), Q1) \<Rightarrow> (resp_disposition result = Sent, Q1)
           | (_, Q1) \<Rightarrow> (False, Q1))"

definition deliver ::
  "sched_ext \<Rightarrow> ready_env \<Rightarrow> stored_scheduled_prompt \<Rightarrow> queue_service \<Rightarrow> scheduler \<Rightarrow> scheduler option" where
  "deliver X E e Q W =
     (case send_scheduled_prompt_admitted (sx_schema X) (sx_queue X) (pv_send E) (scheduled_request e) Q of
        None \<Rightarrow> None
      | Some (Inr result, Q1) \<Rightarrow>
          let W1 = W\<lparr>sc_queue := Some Q1\<rparr> in
          if resp_disposition result = Sent then Some (settle_delivered X (pv_io E) e W1)
          else map_option (\<lambda>Q2. (record_attempt X E e Stored_Queued None W1)\<lparr>sc_queue := Some Q2\<rparr>)
                 (drain_thread_queue (sx_queue X) (pv_drain E) (sp_thread_id e) Q1)
      | Some (Inl error, Q1) \<Rightarrow>
          (case reconciled_as_sent X E e error Q1 of
             (sent, Q2) \<Rightarrow>
               let W1 = W\<lparr>sc_queue := Some Q2\<rparr> in
               Some (if sent then settle_delivered X (pv_io E) e W1
                     else record_attempt X E e Stored_Retrying (Some (truncate_error error)) W1)))"

definition process_candidate ::
  "sched_ext \<Rightarrow> ready_env \<Rightarrow> stored_scheduled_prompt \<Rightarrow> scheduler \<Rightarrow> scheduler option" where
  "process_candidate X E candidate W =
     (case admit (scheduler_fence W) (sp_thread_id candidate) of
        Inl _ \<Rightarrow> Some W
      | Inr _ \<Rightarrow>
     (case map_of (ss_prompts (sc_state W)) (sp_schedule_id candidate) of
        None \<Rightarrow> Some W
      | Some e \<Rightarrow>
          if pv_now E < sp_next_attempt_at e then Some W
          else
     (case sc_queue W of
        None \<Rightarrow> Some W
      | Some Q \<Rightarrow>
     (case retry_interrupted_settlement X E e Q of
        None \<Rightarrow> None
      | Some (Inl error, Q1) \<Rightarrow>
          Some (record_attempt X E e Stored_Retrying (Some (truncate_error error)) (W\<lparr>sc_queue := Some Q1\<rparr>))
      | Some (Inr _, Q1) \<Rightarrow>
          if sp_status e = Stored_Cancelling then Some (finish_cancellation X E e Q1 W)
          else deliver X E e Q1 W))))"

definition process_ready :: "sched_ext \<Rightarrow> ready_env \<Rightarrow> scheduler \<Rightarrow> scheduler option" where
  "process_ready X E W =
     (case ready_candidate (pv_ready_now E) (sc_state W) of
        None \<Rightarrow> Some W
      | Some candidate \<Rightarrow> process_candidate X E candidate W)"

text \<open>
  One round of \<open>worker_loop\<close>: what \<open>select!\<close> saw first decides. A wake-up consumes the permit, which
  the scheduler or, when it recorded a sent submission, the queue left. The flag says whether the
  loop goes on.
\<close>

datatype worker_event = Worker_cancelled | Worker_notified | Worker_slept

definition take_wake :: "scheduler \<Rightarrow> scheduler" where
  "take_wake W =
     W\<lparr>sc_wake := False,
       sc_queue := map_option (\<lambda>Q. Q\<lparr>qs_store := (qs_store Q)\<lparr>submission_completion_wake := False\<rparr>\<rparr>) (sc_queue W)\<rparr>"

definition worker_cycle ::
  "sched_ext \<Rightarrow> settle_env \<Rightarrow> ready_env \<Rightarrow> worker_event \<Rightarrow> scheduler \<Rightarrow> (bool \<times> scheduler) option" where
  "worker_cycle X SE RE ev W =
     (case ev of
        Worker_cancelled \<Rightarrow> Some (False, W)
      | Worker_notified \<Rightarrow> Some (True, settle_completed_submissions X SE (take_wake W))
      | Worker_slept \<Rightarrow> map_option (Pair True) (process_ready X RE W))"

section \<open>Shutting down\<close>

text \<open>
  The interrupted settlements in key order. A settlement of another thread, or of no pending
  prompt, is skipped. A clock reading belongs to each of them.
\<close>

fun apply_interrupted ::
  "scheduler \<Rightarrow> (str \<Rightarrow> int) \<Rightarrow> (str, str \<times> str) btree \<Rightarrow> scheduled_prompt_state \<times> str list
     \<Rightarrow> scheduled_prompt_state \<times> str list" where
  "apply_interrupted W now [] acc = acc"
| "apply_interrupted W now ((submission_id, (thread_id, error)) # rest) (s, affected) =
     apply_interrupted W now rest
       (case strip_prefix submission_id SCHEDULED_PROMPT_SUBMISSION_PREFIX of
          None \<Rightarrow> (s, affected)
        | Some i \<Rightarrow>
            (case map_of (ss_prompts s) i of
               None \<Rightarrow> (s, affected)
             | Some stored \<Rightarrow>
                 if sp_thread_id stored \<noteq> thread_id then (s, affected)
                 else
                   let attempt = (if sp_last_error stored \<noteq> Some error
                                  then sat_add_u32 (sp_retry_attempt stored) 1 else sp_retry_attempt stored)
                   in (update_prompt i (\<lambda>e. e\<lparr>sp_status := Stored_Retrying, sp_retry_attempt := attempt,
                          sp_next_attempt_at := now i + int (retry_delay W (max attempt 1)),
                          sp_last_error := Some (truncate_error error)\<rparr>) s,
                       affected @ [thread_id])))"

record shutdown_env =
  hv_now :: "str \<Rightarrow> int"
  hv_io :: io_env

definition persist_interrupted_definitive_settlements ::
  "sched_ext \<Rightarrow> shutdown_env \<Rightarrow> queue_service \<Rightarrow> scheduler \<Rightarrow> scheduler" where
  "persist_interrupted_definitive_settlements X E Q W =
     (let interrupted = interrupted_definitive_settlements (qs_store Q) in
      if interrupted = [] then W
      else case apply_interrupted W (hv_now E) interrupted (sc_state W, []) of
        (next, affected) \<Rightarrow>
          (case scheduler_commit X (hv_io E) next W of
             (Inl _, W1) \<Rightarrow> W1
           | (Inr _, W1) \<Rightarrow>
               fold (broadcast_thread X) (sort_dedup affected)
                 (W1\<lparr>sc_queue := map_option (\<lambda>q. q\<lparr>qs_store :=
                      clear_interrupted_definitive_settlements (map fst interrupted) (qs_store q)\<rparr>) (sc_queue W1)\<rparr>)))"

definition scheduler_shutdown :: "sched_ext \<Rightarrow> shutdown_env \<Rightarrow> scheduler \<Rightarrow> scheduler" where
  "scheduler_shutdown X E W =
     (let W1 = W\<lparr>sc_cancellation := True, sc_task := False\<rparr> in
      case sc_queue W of
        None \<Rightarrow> W1
      | Some Q \<Rightarrow>
          let Q1 = Q\<lparr>qs_store := begin_definitive_settlement_shutdown (qs_store Q)\<rparr>
          in persist_interrupted_definitive_settlements X E Q1 (W1\<lparr>sc_queue := Some Q1\<rparr>))"

end
