(* ===== verification/Scheduler_Guarantees.thy ===== *)
theory Scheduler_Guarantees
  imports Scheduler Journal_Guarantees
begin

text \<open>
  What the scheduler guarantees, part one: the checks of \<open>validate_state\<close> as a predicate, the file
  read back as written, the scheduler as an instance of \<open>durable_state\<close>, a run of the scheduler as
  a step relation, and the invariant of its reachable states.
\<close>

section \<open>What the checks say\<close>

lemma validate_prompts_Ok:
  assumes "\<And>t. count t \<le> SCHEDULES_PER_THREAD_MAX"
  shows "validate_prompts X ps count = Ok u \<longleftrightarrow>
    (\<forall>(k, e) \<in> set ps. validate_prompt X k e = Ok ())
    \<and> (\<forall>t. count t + length (filter (\<lambda>e. sp_thread_id e = t) (map snd ps)) \<le> SCHEDULES_PER_THREAD_MAX)"
  using assms
proof (induction X ps count rule: validate_prompts.induct)
  case (2 X key e rest count)
  let ?c = "count (sp_thread_id e) + 1"
  show ?case
  proof (cases "validate_prompt X key e = Ok () \<and> ?c \<le> SCHEDULES_PER_THREAD_MAX")
    case True
    let ?on = "\<lambda>t. length (filter (\<lambda>e. sp_thread_id e = t) (map snd rest))"
    have le: "(count(sp_thread_id e := ?c)) t \<le> SCHEDULES_PER_THREAD_MAX" for t
      using True "2.prems" by simp
    have IH: "validate_prompts X rest (count(sp_thread_id e := ?c)) = Ok u \<longleftrightarrow>
        (\<forall>(k, e) \<in> set rest. validate_prompt X k e = Ok ())
        \<and> (\<forall>t. (count(sp_thread_id e := ?c)) t + ?on t \<le> SCHEDULES_PER_THREAD_MAX)"
      by (rule "2.IH" [OF refl _ le]) (use True in auto)
    have "(count(sp_thread_id e := ?c)) t + ?on t
        = count t + length (filter (\<lambda>e. sp_thread_id e = t) (map snd ((key, e) # rest)))" for t
      by simp
    moreover have "validate_prompts X ((key, e) # rest) count = validate_prompts X rest (count(sp_thread_id e := ?c))"
      using True by (simp add: Let_def)
    ultimately show ?thesis using IH True by simp
  next
    case False
    then show ?thesis
      by (cases "validate_prompt X key e") (auto simp: Let_def dest!: spec [of _ "sp_thread_id e"])
  qed
qed simp

lemma scheduler_validate_state_Ok:
  "scheduler_validate_state X s = Ok u \<longleftrightarrow>
     ss_version s = SCHEDULER_STATE_VERSION
     \<and> (\<forall>(k, e) \<in> set (ss_prompts s). validate_prompt X k e = Ok ())
     \<and> (\<forall>t. length (thread_prompts s t) \<le> SCHEDULES_PER_THREAD_MAX)"
  by (simp add: scheduler_validate_state_def validate_prompts_Ok thread_prompts_def)

lemma scheduler_encode_Ok:
  "scheduler_encode_state X s = Ok bytes \<longleftrightarrow>
     scheduler_validate_state X s = Ok () \<and> bytes = to_string (sx_json X) (ser_scheduler_state X s)
     \<and> length bytes \<le> SCHEDULER_STATE_MAX_BYTES"
  by (auto simp: scheduler_encode_state_def res_bind_Ok Let_def split: if_splits)

section \<open>Cutting an error message\<close>

lemma back_to_boundary_take: "n < m \<Longrightarrow> m \<le> length s \<Longrightarrow> back_to_boundary (take m s) n = back_to_boundary s n"
  by (induction n) (simp_all add: is_char_boundary_def)

lemma back_to_boundary_unique:
  assumes "n \<le> m" "back_to_boundary s m \<le> n"
  shows "back_to_boundary s m = back_to_boundary s n"
proof (rule antisym)
  show "back_to_boundary s m \<le> back_to_boundary s n"
    using assms(2) back_to_boundary_boundary back_to_boundary_max by blast
  show "back_to_boundary s n \<le> back_to_boundary s m"
    using back_to_boundary_le [of s n] assms(1) back_to_boundary_boundary back_to_boundary_max le_trans by blast
qed

lemma truncate_error_cut:
  "SCHEDULER_ERROR_MAX_BYTES < length s \<Longrightarrow>
     truncate_error s = take (back_to_boundary s SCHEDULER_ERROR_MAX_BYTES) s"
proof (induction s rule: truncate_error.induct)
  case (1 s)
  let ?M = SCHEDULER_ERROR_MAX_BYTES
  let ?b = "back_to_boundary s (length s - 1)"
  have le: "?b \<le> length s - 1" by (rule back_to_boundary_le)
  have step: "truncate_error s = truncate_error (take ?b s)"
    using "1.prems" by (subst truncate_error.simps) (simp add: string_pop_def)
  show ?case
  proof (cases "?M < ?b")
    case True
    then have "truncate_error (take ?b s) = take (back_to_boundary (take ?b s) ?M) (take ?b s)"
      using "1.IH" "1.prems" le by (simp add: string_pop_def)
    also have "\<dots> = take (back_to_boundary s ?M) s"
      using True le back_to_boundary_take [of ?M ?b s] back_to_boundary_le [of s ?M] by (simp add: min_def)
    finally show ?thesis using step by simp
  next
    case False
    then have "?b = back_to_boundary s ?M"
      using "1.prems" by (intro back_to_boundary_unique) auto
    then show ?thesis using step False truncate_error.simps [of "take ?b s"] by simp
  qed
qed

lemma truncate_error_prefix: "\<exists>n. truncate_error s = take n s"
proof (cases "SCHEDULER_ERROR_MAX_BYTES < length s")
  case False
  then have "truncate_error s = take (length s) s" by (simp add: truncate_error.simps)
  then show ?thesis ..
qed (use truncate_error_cut in blast)

section \<open>Reading back what was written\<close>

text \<open>What the file adds to the checks: sorted keys and 32-bit counters.\<close>

definition prompts_typed :: "scheduled_prompt_state \<Rightarrow> bool" where
  "prompts_typed s = (bt_wf (ss_prompts s) \<and> (\<forall>(k, e) \<in> set (ss_prompts s). sp_retry_attempt e < 2 ^ 32))"

definition time_codec :: "sched_ext \<Rightarrow> bool" where
  "time_codec X = (\<forall>t. sx_de_time X (sx_ser_time X t) = Some t)"

lemma de_prompt_status_ser [simp]: "de_prompt_status (ser_prompt_status st) = Some st"
  by (cases st) (simp_all add: de_prompt_status_def de_unit_variant_def)

lemma de_time_ser: "time_codec X \<Longrightarrow> de_time X (JString (sx_ser_time X t)) = Some t"
  by (simp add: de_time_def time_codec_def)

lemma de_prompt_ser:
  "time_codec X \<Longrightarrow> sp_retry_attempt e < 2 ^ 32 \<Longrightarrow> de_prompt X (ser_prompt X e) = Some e"
  by (cases "sp_last_error e")
     (simp_all add: de_prompt_def ser_prompt_def struct_members_def field_req_def field_opt_def
      de_u32_simp de_time_ser)

lemma de_scheduler_state_ser:
  assumes "time_codec X" "prompts_typed s" "ss_version s < 2 ^ 32"
  shows "de_scheduler_state X (ser_scheduler_state X s) = Some s"
proof -
  have "de_btree False (de_prompt X) (ser_btree (ser_prompt X) (ss_prompts s)) = Some (ss_prompts s)"
    by (rule de_btree_ser) (use assms de_prompt_ser in \<open>auto simp: prompts_typed_def\<close>)
  then show ?thesis using assms(3)
    by (simp add: de_scheduler_state_def ser_scheduler_state_def struct_members_def field_req_def de_u32_simp)
qed

lemma de_entries_all:
  "de_entries u f kvs m = Some m' \<Longrightarrow> \<forall>v x. f v = Some x \<longrightarrow> P x \<Longrightarrow> \<forall>x \<in> snd ` set m. P x
     \<Longrightarrow> bt_wf m \<Longrightarrow> \<forall>x \<in> snd ` set m'. P x"
proof (induction u f kvs m rule: de_entries.induct)
  case (2 u f k v kvs m)
  then obtain x where x: "f v = Some x" "de_entries u f kvs (bt_insert k x m) = Some m'"
    by (auto split: option.splits if_splits)
  have "\<forall>y \<in> snd ` set (bt_insert k x m). P y"
    using 2(3,4,5) x(1) by (auto simp: bt_insert_set)
  then show ?case using "2.IH" x "2.prems" by (auto split: if_splits)
qed simp

lemma scheduler_load_typed:
  assumes "scheduler_load_state X b f dir = Ok s"
  shows "prompts_typed s \<and> scheduler_validate_state X s = Ok ()"
proof (cases "dir f")
  case None
  then have "s = scheduler_default" using assms by (simp add: scheduler_load_state_def)
  then show ?thesis
    by (simp add: scheduler_default_def prompts_typed_def scheduler_validate_state_Ok thread_prompts_def)
next
  case (Some bytes)
  have v: "scheduler_validate_state X s = Ok ()"
    and d: "Option.bind (from_str (sx_json X) bytes) (de_scheduler_state X) = Some s"
    using assms by (auto simp: scheduler_load_state_def Some res_bind_Ok split: if_splits option.splits)
  then obtain v where b: "de_btree False (de_prompt X) v = Some (ss_prompts s)"
    by (auto simp: de_scheduler_state_def field_req_def split: bind_splits option.splits)
  have u: "de_prompt X v = Some e \<Longrightarrow> sp_retry_attempt e < 2 ^ 32" for v e
    by (auto simp: de_prompt_def field_req_def de_u32_def split: bind_splits option.splits json.splits if_splits)
  have "\<forall>e \<in> snd ` set (ss_prompts s). sp_retry_attempt e < 2 ^ 32"
    using b u by (auto simp: de_btree_def split: json.splits
        dest!: de_entries_all [where P = "\<lambda>e. sp_retry_attempt e < 2 ^ 32"] dest: bspec)
  then show ?thesis using v de_btree_wf [OF b] by (auto simp: prompts_typed_def)
qed

lemma scheduler_load_written:
  assumes "json_codec (sx_json X)" "time_codec X" "prompts_typed s"
    and "scheduler_encode_state X s = Ok bytes" "dir f = Some bytes"
  shows "scheduler_load_state X True f dir = Ok s"
proof -
  have "ss_version s < 2 ^ 32"
    using assms(4) by (simp add: scheduler_encode_Ok scheduler_validate_state_Ok SCHEDULER_STATE_VERSION_def)
  then have "Option.bind (from_str (sx_json X) bytes) (de_scheduler_state X) = Some s"
    using assms(4) de_scheduler_state_ser [OF assms(2,3)]
    by (simp add: scheduler_encode_Ok json_codec.parse_print [OF assms(1)])
  moreover have "scheduler_validate_state X s = Ok ()" "length bytes \<le> SCHEDULER_STATE_MAX_BYTES"
    using assms(4) unfolding scheduler_encode_Ok by blast+
  ultimately show ?thesis using assms(4,5) by (simp add: scheduler_load_state_def)
qed

section \<open>Memory and file\<close>

lemma scheduler_durable:
  assumes "json_codec (sx_json X)" "time_codec X" "path_parent path \<noteq> None" "path_file_name path = Some f"
  shows "durable_state (commit_prompts X (Some path)) (scheduler_load_state X True f) f prompts_typed"
proof
  fix env s mem dir u mem' dir'
  assume c: "commit_prompts X (Some path) env s mem dir = (Ok u, mem', dir')" and t: "prompts_typed s"
  obtain bytes r where b: "scheduler_encode_state X s = Ok bytes" "mem' = s"
      "atomic_write_private env path bytes dir = (Ok r, dir')"
    using c by (auto simp: commit_prompts_def split: prod.splits sum.splits)
  have "dir' f = Some bytes" using atomic_write_private_file [OF assms(3,4) b(3)] by simp
  then show "mem' = s \<and> scheduler_load_state X True f dir' = Ok s"
    using scheduler_load_written [of X s bytes dir' f, OF assms(1,2) t b(1)] b(2) by simp
next
  fix env s mem dir e mem' dir'
  assume c: "commit_prompts X (Some path) env s mem dir = (Err e, mem', dir')" and j: "task_joins env"
  show "mem' = mem \<and> dir' f = dir f"
  proof (cases "scheduler_encode_state X s")
    case (Inl e')
    then show ?thesis using c by (simp add: commit_prompts_def)
  next
    case (Inr bytes)
    obtain r where w: "atomic_write_private env path bytes dir = (r, dir')" "mem' = mem" "\<not> is_ok r"
      using c Inr by (auto simp: commit_prompts_def split: prod.splits sum.splits)
    then show ?thesis using atomic_write_private_file [OF assms(3,4) w(1)] j by simp
  qed
next
  fix dir dir' :: directory
  assume "dir f = dir' f"
  then show "scheduler_load_state X True f dir = scheduler_load_state X True f dir'"
    by (simp add: scheduler_load_state_def)
qed

section \<open>Runs of the scheduler\<close>

text \<open>
  One step of the service. Every write may hit any fault of the file system (the task that performs
  it is joined). The worker's steps take any candidates, because other operations may run between
  reading them and processing them; the queue changes by operations of its own, or goes away.
\<close>

inductive sched_step :: "sched_ext \<Rightarrow> scheduler \<Rightarrow> scheduler \<Rightarrow> bool" for X where
  step_schedule: "task_joins (sv_io E) \<Longrightarrow> schedule X E t p sf W = Some (r, W') \<Longrightarrow> sched_step X W W'"
| step_cancel: "task_joins (cv_io E) \<Longrightarrow> task_joins (cv_final_io E) \<Longrightarrow>
    scheduler_cancel X E t i W = (r', W') \<Longrightarrow> sched_step X W W'"
| step_retire: "task_joins env \<Longrightarrow> scheduler_begin_retirement X ts W = Ok R \<Longrightarrow>
    scheduler_commit_retirement X env R W = (r'', W') \<Longrightarrow> sched_step X W W'"
| step_publish: "sched_step X W (scheduler_publish_retirement X ts W)"
| step_settle: "task_joins (tv_io E') \<Longrightarrow> sched_step X W (settle_queued X E' queued W)"
| step_ready: "task_joins (pv_io E'') \<Longrightarrow> process_candidate X E'' c W = Some W' \<Longrightarrow> sched_step X W W'"
| step_worker: "sched_step X W (snd (start_worker W))"
| step_notified: "sched_step X W (W\<lparr>sc_wake := False\<rparr>)"
| step_queue: "sc_queue W \<noteq> None \<Longrightarrow> sched_step X W (W\<lparr>sc_queue := Some Q\<rparr>)"
| step_queue_gone: "sc_queue W = Some Q \<Longrightarrow> sched_step X W (W\<lparr>sc_queue := None, sc_fence := qs_fence Q\<rparr>)"

inductive sched_run :: "sched_ext \<Rightarrow> storage_path \<Rightarrow> str \<Rightarrow> scheduler \<Rightarrow> bool" for X path f where
  run_start: "start_paused X True path f dir queue = Ok W \<Longrightarrow> sched_run X path f W"
| run_step: "sched_run X path f W \<Longrightarrow> sched_step X W W' \<Longrightarrow> sched_run X path f W'"
| run_shutdown: "sched_run X path f W \<Longrightarrow> task_joins (hv_io E) \<Longrightarrow>
    sched_run X path f (scheduler_shutdown X E W)"

text \<open>A round of the worker is a sequence of such steps.\<close>

lemma worker_cycle_steps:
  assumes "task_joins (tv_io SE)" "task_joins (pv_io RE)" "worker_cycle X SE RE ev W = Some (go, W')"
  shows "(sched_step X)\<^sup>*\<^sup>* W W'"
proof (cases ev)
  case Worker_cancelled
  then show ?thesis using assms by (simp add: worker_cycle_def)
next
  case Worker_notified
  let ?W1 = "W\<lparr>sc_wake := False\<rparr>"
  have "(sched_step X)\<^sup>*\<^sup>* ?W1 (take_wake W)"
  proof (cases "sc_queue W")
    case None
    then have "take_wake W = ?W1" by (cases W) (simp add: take_wake_def)
    then show ?thesis by simp
  next
    case (Some Q)
    then show ?thesis by (auto simp: take_wake_def intro!: r_into_rtranclp step_queue)
  qed
  moreover have "sched_step X W ?W1" by (rule step_notified)
  moreover have "sched_step X (take_wake W) W'"
    using assms Worker_notified step_settle [OF assms(1)]
    by (auto simp: worker_cycle_def settle_completed_submissions_def)
  ultimately show ?thesis by (meson converse_rtranclp_into_rtranclp rtranclp.rtrancl_into_rtrancl)
next
  case Worker_slept
  then show ?thesis
    using assms step_ready [OF assms(2)] by (auto simp: worker_cycle_def process_ready_def split: option.splits)
qed

definition sched_inv :: "sched_ext \<Rightarrow> storage_path \<Rightarrow> str \<Rightarrow> scheduler \<Rightarrow> bool" where
  "sched_inv X path f W =
     (sc_path W = Some path \<and> sc_retry_min W = RETRY_MIN \<and> sc_retry_max W = RETRY_MAX
      \<and> scheduler_load_state X True f (sc_directory W) = Ok (sc_state W))"

text \<open>The invariant looks at these fields only; the rest of the record may change freely.\<close>

definition same_disk :: "scheduler \<Rightarrow> scheduler \<Rightarrow> bool" where
  "same_disk W W' =
     (sc_path W' = sc_path W \<and> sc_retry_min W' = sc_retry_min W \<and> sc_retry_max W' = sc_retry_max W
      \<and> sc_directory W' = sc_directory W \<and> sc_state W' = sc_state W)"

lemma sched_inv_same: "sched_inv X path f W \<Longrightarrow> same_disk W W' \<Longrightarrow> sched_inv X path f W'"
  by (simp add: sched_inv_def same_disk_def)

lemma sched_inv_typed: "sched_inv X path f W \<Longrightarrow> prompts_typed (sc_state W)"
  using scheduler_load_typed [of X True f "sc_directory W" "sc_state W"] by (simp add: sched_inv_def)

lemma same_disk_simps [simp]:
  "same_disk W (notify_wake W') = same_disk W W'"
  "same_disk W (broadcast_thread X t W') = same_disk W W'"
  "same_disk W (W'\<lparr>sc_queue := q\<rparr>) = same_disk W W'"
  "same_disk W (W'\<lparr>sc_fence := fs\<rparr>) = same_disk W W'"
  "same_disk W (W'\<lparr>sc_wake := b\<rparr>) = same_disk W W'"
  "same_disk W (W'\<lparr>sc_task := b\<rparr>) = same_disk W W'"
  "same_disk W (W'\<lparr>sc_cancellation := b\<rparr>) = same_disk W W'"
  "same_disk W W"
  by (simp_all add: same_disk_def notify_wake_def broadcast_thread_def)

lemma same_disk_fold_broadcast [simp]: "same_disk W (fold (broadcast_thread X) ts W') = same_disk W W'"
  by (induction ts arbitrary: W') auto

lemma note_attempt_simps [simp]:
  "sp_retry_attempt (note_attempt W now st err e) = sat_add_u32 (sp_retry_attempt e) 1"
  "sp_status (note_attempt W now st err e) = st"
  "sp_last_error (note_attempt W now st err e) = err"
  "sp_schedule_id (note_attempt W now st err e) = sp_schedule_id e"
  "sp_thread_id (note_attempt W now st err e) = sp_thread_id e"
  "sp_prompt (note_attempt W now st err e) = sp_prompt e"
  "sp_scheduled_for (note_attempt W now st err e) = sp_scheduled_for e"
  "sp_created_at (note_attempt W now st err e) = sp_created_at e"
  by (simp_all add: note_attempt_def Let_def)

section \<open>How the prompts may change\<close>

text \<open>
  A prompt that is being cancelled, with no interrupted settlement to be retried first; how one
  prompt may change; how the whole map may change (prompts change or disappear, none appears).
\<close>

definition being_cancelled :: "stored_scheduled_prompt \<Rightarrow> bool" where
  "being_cancelled e = (sp_status e = Stored_Cancelling \<and> interrupted_settlement e = None)"

definition prompt_step :: "stored_scheduled_prompt \<Rightarrow> stored_scheduled_prompt \<Rightarrow> bool" where
  "prompt_step e e' =
     (sp_schedule_id e' = sp_schedule_id e \<and> sp_thread_id e' = sp_thread_id e \<and> sp_prompt e' = sp_prompt e
      \<and> sp_scheduled_for e' = sp_scheduled_for e \<and> sp_created_at e' = sp_created_at e
      \<and> (sp_retry_attempt e < 2 ^ 32 \<longrightarrow> sp_retry_attempt e \<le> sp_retry_attempt e' \<and> sp_retry_attempt e' < 2 ^ 32)
      \<and> (sp_status e' = Stored_Scheduled \<longrightarrow> e' = e)
      \<and> (being_cancelled e \<longrightarrow> being_cancelled e'))"

definition prompts_step :: "scheduled_prompt_state \<Rightarrow> scheduled_prompt_state \<Rightarrow> bool" where
  "prompts_step s s' =
     ((bt_wf (ss_prompts s) \<longrightarrow> bt_wf (ss_prompts s'))
      \<and> (\<forall>i e'. map_of (ss_prompts s') i = Some e' \<longrightarrow>
           (\<exists>e. map_of (ss_prompts s) i = Some e \<and> prompt_step e e')))"

lemma prompt_step_refl [simp]: "prompt_step e e"
  by (simp add: prompt_step_def)

lemma prompts_step_refl [simp]: "prompts_step s s"
  by (auto simp: prompts_step_def)

lemma prompts_stepD:
  "prompts_step s s' \<Longrightarrow> map_of (ss_prompts s') i = Some e' \<Longrightarrow>
     \<exists>e. map_of (ss_prompts s) i = Some e \<and> prompt_step e e'"
  by (simp add: prompts_step_def)

lemma prompt_step_trans: "prompt_step e e' \<Longrightarrow> prompt_step e' e'' \<Longrightarrow> prompt_step e e''"
  by (auto simp: prompt_step_def)

lemma prompts_step_trans:
  assumes "prompts_step s s'" "prompts_step s' s''"
  shows "prompts_step s s''"
  unfolding prompts_step_def
proof (intro conjI allI impI)
  show "bt_wf (ss_prompts s) \<Longrightarrow> bt_wf (ss_prompts s'')" using assms by (simp add: prompts_step_def)
next
  fix i e''
  assume "map_of (ss_prompts s'') i = Some e''"
  then obtain e' where e': "map_of (ss_prompts s') i = Some e'" "prompt_step e' e''"
    using prompts_stepD [OF assms(2)] by blast
  then obtain e where "map_of (ss_prompts s) i = Some e" "prompt_step e e'"
    using prompts_stepD [OF assms(1)] by blast
  then show "\<exists>e. map_of (ss_prompts s) i = Some e \<and> prompt_step e e''"
    using e'(2) prompt_step_trans by blast
qed

lemma prompts_typedD: "prompts_typed s \<Longrightarrow> map_of (ss_prompts s) i = Some e \<Longrightarrow> sp_retry_attempt e < 2 ^ 32"
  using map_of_SomeD [of "ss_prompts s" i e] by (fastforce simp: prompts_typed_def)

lemma prompts_typed_step:
  assumes "prompts_typed s" "prompts_step s s'"
  shows "prompts_typed s'"
proof -
  have wf: "bt_wf (ss_prompts s')" using assms by (auto simp: prompts_typed_def prompts_step_def)
  have "sp_retry_attempt e' < 2 ^ 32" if e': "map_of (ss_prompts s') i = Some e'" for i e'
    using prompts_stepD [OF assms(2) e'] prompts_typedD [OF assms(1)] by (auto simp: prompt_step_def)
  then show ?thesis using wf by (auto simp: prompts_typed_def bt_entries)
qed

lemma prompts_typed_insert:
  "prompts_typed s \<Longrightarrow> sp_retry_attempt e = 0 \<Longrightarrow> prompts_typed (insert_prompt e s)"
  by (auto simp: prompts_typed_def insert_prompt_def bt_insert_set)

lemma prompts_step_remove [intro]: "prompts_step s (remove_prompt i s)"
  by (auto simp: prompts_step_def remove_prompt_def split: if_splits)

lemma map_of_bt_retain_Some:
  "bt_wf m \<Longrightarrow> map_of (bt_retain P m) k = Some v \<Longrightarrow> map_of m k = Some v"
  by (simp add: bt_wf_retain bt_retain_set flip: bt_entries)

lemma prompts_step_retain:
  "bt_wf (ss_prompts s) \<Longrightarrow> prompts_step s (s\<lparr>ss_prompts := bt_retain P (ss_prompts s)\<rparr>)"
  by (auto simp: prompts_step_def dest: map_of_bt_retain_Some)

lemma prompts_step_remove_all: "prompts_step s (fold (\<lambda>e. remove_prompt (sp_schedule_id e)) es s)"
proof -
  have "fold (\<lambda>e. remove_prompt (sp_schedule_id e)) es s
      = s\<lparr>ss_prompts := fold bt_remove (map sp_schedule_id es) (ss_prompts s)\<rparr>"
    by (induction es arbitrary: s) (simp_all add: remove_prompt_def)
  then show ?thesis
    by (auto simp: prompts_step_def map_of_fold_bt_remove bt_wf_fold_bt_remove split: option.splits)
qed

lemma prompts_step_update:
  assumes "\<And>e. map_of (ss_prompts s) i = Some e \<Longrightarrow> prompt_step e (g e)"
  shows "prompts_step s (update_prompt i g s)"
  using assms by (auto simp: prompts_step_def update_prompt_def map_of_bt_adjust split: if_splits)

lemma note_attempt_step:
  assumes "st \<noteq> Stored_Scheduled" "being_cancelled e \<Longrightarrow> st = Stored_Cancelling"
    and "\<And>x. err = Some x \<Longrightarrow> being_cancelled e \<Longrightarrow> \<not> definitive_settlement_was_interrupted x"
  shows "prompt_step e (note_attempt W now st err e)"
  using assms
  by (auto simp: prompt_step_def sat_add_u32_def u32_max_def being_cancelled_def interrupted_settlement_def
      split: option.splits)

section \<open>Commits\<close>

text \<open>An operation changes memory and file only by commits whose new state is a \<open>prompts_step\<close> away.\<close>

inductive commits_to :: "sched_ext \<Rightarrow> scheduler \<Rightarrow> scheduler \<Rightarrow> bool" for X where
  nothing: "same_disk W W' \<Longrightarrow> commits_to X W W'"
| one_more: "commits_to X W W1 \<Longrightarrow> task_joins env \<Longrightarrow> prompts_step (sc_state W1) next \<Longrightarrow>
    scheduler_commit X env next W1 = (r, W2) \<Longrightarrow> same_disk W2 W' \<Longrightarrow> commits_to X W W'"

lemma commits_to_refl [simp]: "commits_to X W W"
  by (rule commits_to.nothing) simp

lemma commits_to_one:
  assumes "task_joins env" "prompts_step (sc_state W) next" "scheduler_commit X env next W = (r, W')"
  shows "commits_to X W W'"
  by (rule commits_to.one_more [OF _ assms]) simp_all

lemma same_disk_trans: "same_disk W W1 \<Longrightarrow> same_disk W1 W2 \<Longrightarrow> same_disk W W2"
  by (simp add: same_disk_def)

lemma commits_to_same: "commits_to X W W1 \<Longrightarrow> same_disk W1 W2 \<Longrightarrow> commits_to X W W2"
  by (induction rule: commits_to.induct) (auto intro: commits_to.intros dest: same_disk_trans)

lemma commits_to_trans: "commits_to X W1 W2 \<Longrightarrow> commits_to X W W1 \<Longrightarrow> commits_to X W W2"
  by (induction rule: commits_to.induct) (auto intro: commits_to_same commits_to.one_more)

section \<open>The operations commit\<close>

lemma commit_and_broadcast_commits:
  assumes "task_joins env" "prompts_step (sc_state W) next"
  shows "commits_to X W (commit_and_broadcast X env t next W)"
proof -
  obtain r W1 where c: "scheduler_commit X env next W = (r, W1)" by fastforce
  have "commits_to X W W1" by (rule commits_to_one [OF assms c])
  then show ?thesis
    by (cases r) (auto simp: commit_and_broadcast_def c intro: commits_to_same)
qed

lemma find_fresh: "List.find (\<lambda>c. \<not> bt_contains m c) cs = Some i \<Longrightarrow> map_of m i = None"
  by (auto simp: find_Some_iff bt_contains_def)

lemma new_prompt_simps [simp]:
  "sp_schedule_id (new_prompt now t p sf i) = i" "sp_thread_id (new_prompt now t p sf i) = t"
  "sp_prompt (new_prompt now t p sf i) = p" "sp_scheduled_for (new_prompt now t p sf i) = sf"
  "sp_created_at (new_prompt now t p sf i) = now" "sp_status (new_prompt now t p sf i) = Stored_Scheduled"
  "sp_retry_attempt (new_prompt now t p sf i) = 0" "sp_next_attempt_at (new_prompt now t p sf i) = sf"
  "sp_last_error (new_prompt now t p sf i) = None"
  by (simp_all add: new_prompt_def)

text \<open>A request is refused with nothing changed, or it commits the new prompt under a fresh identifier.\<close>

lemma schedule_cases:
  assumes "schedule X E t p sf W = Some (r, W')"
  obtains (refused) err where "r = Err err" "W' = W"
  | (committed) at i r' W1 where "check_schedule X (sv_now E) t p sf = Ok at"
      "admit (scheduler_fence W) t = Ok ()" "length (thread_prompts (sc_state W) t) < SCHEDULES_PER_THREAD_MAX"
      "i \<in> set (sv_candidates E)" "map_of (ss_prompts (sc_state W)) i = None"
      "scheduler_commit X (sv_io E) (insert_prompt (new_prompt (sv_now E) t p at i) (sc_state W)) W = (r', W1)"
      "r = res_bind r' (\<lambda>_. Ok (the (schedule_metadata X (new_prompt (sv_now E) t p at i))))"
      "W' = (if is_ok r' then notify_wake (broadcast_thread X t W1) else W1)"
proof (cases "check_schedule X (sv_now E) t p sf")
  case (Inl e)
  then show ?thesis using assms refused by (auto simp: schedule_def)
next
  case at: (Inr at)
  show ?thesis
  proof (cases "admit (scheduler_fence W) t = Ok () \<and> length (thread_prompts (sc_state W) t) < SCHEDULES_PER_THREAD_MAX")
    case False
    then show ?thesis using assms at refused
      by (auto simp: schedule_def not_less split: sum.splits)
  next
    case True
    then obtain i where i: "List.find (\<lambda>c. \<not> bt_contains (ss_prompts (sc_state W)) c) (sv_candidates E) = Some i"
      using assms at by (auto simp: schedule_def split: option.splits)
    let ?next = "insert_prompt (new_prompt (sv_now E) t p at i) (sc_state W)"
    obtain r' W1 where c: "scheduler_commit X (sv_io E) ?next W = (r', W1)" by fastforce
    have fresh: "i \<in> set (sv_candidates E)" "map_of (ss_prompts (sc_state W)) i = None"
      using i find_fresh [OF i] by (auto simp: find_Some_iff)
    show ?thesis
    proof (cases "scheduler_encode_state X ?next")
      case (Inl e)
      then show ?thesis using assms at True i refused by (auto simp: schedule_def Let_def)
    next
      case (Inr bytes)
      then show ?thesis
        using assms at True i c committed [OF at _ _ fresh c]
        by (cases r') (auto simp: schedule_def Let_def)
    qed
  qed
qed

text \<open>Scheduling is the only operation that adds a prompt, under an identifier that was free.\<close>

definition adds_prompt :: "sched_ext \<Rightarrow> scheduler \<Rightarrow> scheduler \<Rightarrow> bool" where
  "adds_prompt X W W' =
     (\<exists>env e r W1. task_joins env \<and> map_of (ss_prompts (sc_state W)) (sp_schedule_id e) = None
        \<and> sp_status e = Stored_Scheduled \<and> sp_retry_attempt e = 0
        \<and> scheduler_commit X env (insert_prompt e (sc_state W)) W = (r, W1) \<and> same_disk W1 W')"

lemma schedule_commits:
  assumes "task_joins (sv_io E)" "schedule X E t p sf W = Some (r, W')"
  shows "commits_to X W W' \<or> adds_prompt X W W'"
  using assms(2)
proof (cases rule: schedule_cases)
  case refused
  then show ?thesis by simp
next
  case (committed at i r' W1)
  have "same_disk W1 W'" by (simp add: committed(8))
  then have "adds_prompt X W W'"
    unfolding adds_prompt_def using assms(1) committed(5,6)
    by (intro exI [of _ "sv_io E"] exI [of _ "new_prompt (sv_now E) t p at i"]) auto
  then show ?thesis ..
qed

text \<open>No error of a cancellation looks like an interrupted settlement.\<close>

lemma interrupted_prefix:
  assumes "definitive_settlement_was_interrupted e"
  shows "take 8 e = ''queue de''"
proof -
  let ?p = "DEFINITIVE_SETTLEMENT_INTERRUPTED_PREFIX"
  have "take 8 e = take 8 (take (length ?p) e)"
    by (simp add: DEFINITIVE_SETTLEMENT_INTERRUPTED_PREFIX_def eval_nat_numeral)
  also have "take (length ?p) e = ?p"
    using assms by (simp add: definitive_settlement_was_interrupted_def starts_with_def)
  finally show ?thesis by (simp add: DEFINITIVE_SETTLEMENT_INTERRUPTED_PREFIX_def)
qed

lemma persist_error_plain:
  assumes "persist_submission_store_locked Y env st = (Inl e, st')"
  shows "\<not> definitive_settlement_was_interrupted e"
  using assms
  by (auto simp: persist_submission_store_locked_def persist_submission_snapshot_locked_def
      normalize_queue_pending_def Let_def
      split: option.splits sum.splits prod.splits if_splits dest!: interrupted_prefix)

lemma identifier_error_plain:
  assumes "res_bind (validate_queue_identifier ''threadId'' t) (\<lambda>_. validate_queue_identifier ''submissionId'' s) = Inl e"
  shows "\<not> definitive_settlement_was_interrupted e"
  using assms
  by (auto simp: validate_queue_identifier_def split: if_splits dest!: interrupted_prefix)

lemma cancel_submission_error:
  assumes "cancel_submission Y env t sid Q = (Inl error, Q')"
  shows "\<not> definitive_settlement_was_interrupted error"
proof -
  have "\<not> definitive_settlement_was_interrupted bound_elsewhere"
    using interrupted_prefix [of bound_elsewhere] by (auto simp: bound_elsewhere_def)
  moreover have "\<not> definitive_settlement_was_interrupted e"
    if "on_store (forget_submission_result_locked Y env s) S = (Inl e, S')" for e s S S'
    using that persist_error_plain by (auto simp: on_store_def forget_submission_result_locked_def split: prod.splits)
  ultimately show ?thesis
    using assms identifier_error_plain
    by (auto simp: cancel_submission_def Let_def split: option.splits sum.splits prod.splits if_splits)
qed

lemma record_cancellation_retry_commits:
  assumes "task_joins env" "\<not> definitive_settlement_was_interrupted (truncate_error error)"
    and "\<And>e. map_of (ss_prompts (sc_state W)) i = Some e \<Longrightarrow> sp_status e = Stored_Cancelling"
    and "record_cancellation_retry X env now i error W = (r, W')"
  shows "commits_to X W W'"
proof (cases "map_of (ss_prompts (sc_state W)) i")
  case None
  then show ?thesis using assms(4) by (simp add: record_cancellation_retry_def)
next
  case (Some e)
  then have "scheduler_commit X env (update_prompt i (\<lambda>e. note_attempt W now (sp_status e)
      (Some (truncate_error error)) e) (sc_state W)) W = (r, W')"
    using assms(4) by (simp add: record_cancellation_retry_def)
  then show ?thesis
    by (rule commits_to_one [OF assms(1), rotated])
      (rule prompts_step_update, rule note_attempt_step; use assms(2,3) in auto)
qed

lemma truncate_error_plain:
  assumes "\<not> definitive_settlement_was_interrupted error"
  shows "\<not> definitive_settlement_was_interrupted (truncate_error error)"
proof -
  obtain n where "truncate_error error = take n error" using truncate_error_prefix by blast
  moreover have "starts_with (take n s) p \<Longrightarrow> starts_with s p" for s p
    by (metis append_take_drop_id append_assoc starts_with_iff)
  ultimately show ?thesis using assms by (metis definitive_settlement_was_interrupted_def)
qed

lemma scheduler_commit_state: "scheduler_commit X env next W = (Inr u, W') \<Longrightarrow> sc_state W' = next"
  by (auto simp: scheduler_commit_def commit_prompts_def split: prod.splits sum.splits option.splits)

lemma cancelling_step: "prompt_step e (cancelling now e)"
  by (simp add: prompt_step_def cancelling_def being_cancelled_def interrupted_settlement_def)

lemma scheduler_cancel_commits:
  assumes j: "task_joins (cv_io E)" "task_joins (cv_final_io E)"
    and c: "scheduler_cancel X E t i W = (r, W')"
  shows "commits_to X W W'"
proof (cases "W' = W")
  case False
  let ?next = "update_prompt i (cancelling (cv_now E)) (sc_state W)"
  obtain r1 W1 where c1: "scheduler_commit X (cv_io E) ?next W = (r1, W1)" by fastforce
  have s1: "commits_to X W W1"
    by (rule commits_to_one [OF j(1) _ c1]) (rule prompts_step_update, rule cancelling_step)
  show ?thesis
  proof (cases "W' = W1")
    case same: False
    obtain Q u where Q: "sc_queue W1 = Some Q" "r1 = Inr u"
      using c False same c1
      by (auto simp: scheduler_cancel_def split: sum.splits option.splits if_splits)
    have st: "sc_state W1 = ?next" using scheduler_commit_state c1 Q(2) by blast
    obtain out Q1 where q: "cancel_submission (sx_queue X) (cv_queue_io E) t (scheduled_submission_id i) Q = (out, Q1)"
      by fastforce
    let ?W1 = "W1\<lparr>sc_queue := Some Q1\<rparr>"
    have s2: "commits_to X W ?W1" using s1 by (rule commits_to_same) simp
    show ?thesis
    proof (cases out)
      case (Inl error)
      obtain r2 W2 where c2: "record_cancellation_retry X (cv_final_io E) (cv_retry_now E) i error ?W1 = (r2, W2)"
        by fastforce
      have "same_disk W2 W'"
        using c False same c1 Q q Inl c2
        by (auto simp: scheduler_cancel_def split: sum.splits option.splits if_splits)
      moreover have "commits_to X ?W1 W2"
        by (rule record_cancellation_retry_commits [OF j(2) truncate_error_plain _ c2])
          (use cancel_submission_error q Inl in \<open>auto simp: st update_prompt_def map_of_bt_adjust cancelling_def\<close>)
      ultimately show ?thesis using s2 commits_to_trans commits_to_same by blast
    next
      case (Inr outcome)
      obtain r2 W2 where c2: "scheduler_commit X (cv_final_io E) (remove_prompt i (sc_state W1)) ?W1 = (r2, W2)"
        by fastforce
      have "same_disk W2 W'"
        using c False same c1 Q q Inr c2
        by (auto simp: scheduler_cancel_def split: sum.splits option.splits if_splits)
      moreover have "commits_to X ?W1 W2"
        by (rule commits_to_one [OF j(2) _ c2]) auto
      ultimately show ?thesis using s2 commits_to_trans commits_to_same by blast
    qed
  qed (use s1 in simp)
qed simp

lemma scheduler_retirement_commits:
  assumes "task_joins env" "bt_wf (ss_prompts (sc_state W))" "scheduler_begin_retirement X ts W = Ok R"
    and "scheduler_commit_retirement X env R W = (r, W')"
  shows "commits_to X W W'"
proof -
  have "sr_previous R = sc_state W"
    using assms(3) by (auto simp: scheduler_begin_retirement_def Let_def res_bind_Ok)
  then show ?thesis
    using assms(4) commits_to_one [OF assms(1) prompts_step_retain [OF assms(2)], of X _ r W']
    by (simp add: scheduler_commit_retirement_def)
qed

lemma on_queue: "commits_to X (W\<lparr>sc_queue := q\<rparr>) W' \<Longrightarrow> commits_to X W W'"
  by (erule commits_to_trans) (rule commits_to.nothing, simp)

lemma remove_completed_commits:
  assumes "task_joins env"
  shows "commits_to X W (remove_completed X env completed W)"
proof -
  let ?next = "fold (\<lambda>e. remove_prompt (sp_schedule_id e)) completed (sc_state W)"
  obtain r W1 where c: "scheduler_commit X env ?next W = (r, W1)" by fastforce
  have "commits_to X W W1" by (rule commits_to_one [OF assms prompts_step_remove_all c])
  then show ?thesis
    by (cases r) (auto simp: remove_completed_def c intro: commits_to_same)
qed

lemma settle_queued_commits:
  assumes "task_joins (tv_io E)"
  shows "commits_to X W (settle_queued X E queued W)"
  using on_queue [OF remove_completed_commits [OF assms]]
  by (auto simp: settle_queued_def split: sum.splits option.splits prod.splits)

lemma settle_delivered_commits:
  "task_joins env \<Longrightarrow> commits_to X W (settle_delivered X env e W)"
  unfolding settle_delivered_def by (rule commit_and_broadcast_commits) auto

lemma record_attempt_commits:
  assumes "task_joins (pv_io E)" "st \<noteq> Stored_Scheduled"
    and "map_of (ss_prompts (sc_state W)) (sp_schedule_id e) = Some e" "\<not> being_cancelled e"
  shows "commits_to X W (record_attempt X E e st err W)"
  unfolding record_attempt_def
  by (rule commit_and_broadcast_commits [OF assms(1)], rule prompts_step_update, rule note_attempt_step)
    (use assms in auto)

lemma finish_cancellation_commits:
  assumes "task_joins (pv_io E)" "map_of (ss_prompts (sc_state W)) (sp_schedule_id e) = Some e"
    and "sp_status e = Stored_Cancelling"
  shows "commits_to X W (finish_cancellation X E e Q W)"
proof -
  obtain out Q1 where q: "cancel_submission (sx_queue X) (pv_cancel_io E) (sp_thread_id e)
      (scheduled_submission_id (sp_schedule_id e)) Q = (out, Q1)" by fastforce
  show ?thesis
  proof (cases out)
    case (Inl error)
    obtain r W2 where c: "record_cancellation_retry X (pv_io E) (pv_retry_now E) (sp_schedule_id e) error
        (W\<lparr>sc_queue := Some Q1\<rparr>) = (r, W2)" by fastforce
    have "commits_to X (W\<lparr>sc_queue := Some Q1\<rparr>) W2"
      by (rule record_cancellation_retry_commits [OF assms(1) truncate_error_plain _ c])
        (use cancel_submission_error q Inl assms in auto)
    then show ?thesis using on_queue by (simp add: finish_cancellation_def q Inl c)
  next
    case (Inr outcome)
    then show ?thesis
      using on_queue [OF settle_delivered_commits [OF assms(1)]] by (simp add: finish_cancellation_def q)
  qed
qed

lemma deliver_commits:
  assumes "task_joins (pv_io E)" "map_of (ss_prompts (sc_state W)) (sp_schedule_id e) = Some e"
    and "\<not> being_cancelled e" "deliver X E e Q W = Some W'"
  shows "commits_to X W W'"
proof -
  have set: "commits_to X W (settle_delivered X (pv_io E) e (W\<lparr>sc_queue := q\<rparr>))" for q
    by (rule on_queue [OF settle_delivered_commits [OF assms(1)]])
  have rec: "commits_to X W (record_attempt X E e st err (W\<lparr>sc_queue := q\<rparr>))" if "st \<noteq> Stored_Scheduled" for st err q
    by (rule on_queue [OF record_attempt_commits [OF assms(1) that]]) (use assms in auto)
  have last: "commits_to X W ((record_attempt X E e Stored_Queued None (W\<lparr>sc_queue := q\<rparr>))\<lparr>sc_queue := q'\<rparr>)" for q q'
    by (rule commits_to_same [OF rec [of Stored_Queued None q]]) simp_all
  show ?thesis
    using assms(4) set rec last
    by (auto simp: deliver_def Let_def split: option.splits sum.splits prod.splits if_splits)
qed

lemma process_candidate_commits:
  assumes "task_joins (pv_io E)" "\<And>i e. map_of (ss_prompts (sc_state W)) i = Some e \<Longrightarrow> sp_schedule_id e = i"
    and "process_candidate X E c W = Some W'"
  shows "commits_to X W W'"
proof (cases "W' = W")
  case False
  obtain e Q where e: "map_of (ss_prompts (sc_state W)) (sp_schedule_id c) = Some e" "sc_queue W = Some Q"
    using assms(3) False by (auto simp: process_candidate_def split: sum.splits option.splits if_splits)
  obtain r Q1 where s: "retry_interrupted_settlement X E e Q = Some (r, Q1)"
    using assms(3) False e by (auto simp: process_candidate_def split: sum.splits option.splits if_splits)
  have key: "map_of (ss_prompts (sc_state W)) (sp_schedule_id e) = Some e" using assms(2) e(1) by fastforce
  show ?thesis
  proof (cases r)
    case (Inl error)
    have W': "W' = record_attempt X E e Stored_Retrying (Some (truncate_error error)) (W\<lparr>sc_queue := Some Q1\<rparr>)"
      using assms(3) False e s Inl by (auto simp: process_candidate_def split: sum.splits option.splits if_splits)
    have "\<not> being_cancelled e"
      using s Inl by (auto simp: being_cancelled_def retry_interrupted_settlement_def split: option.splits)
    then show ?thesis
      unfolding W' by (intro on_queue [OF record_attempt_commits [OF assms(1)]]) (use key in auto)
  next
    case (Inr u)
    have W': "Some W' = (if sp_status e = Stored_Cancelling then Some (finish_cancellation X E e Q1 W)
        else deliver X E e Q1 W)"
      using assms(3) False e s Inr by (auto simp: process_candidate_def split: sum.splits if_splits)
    then show ?thesis
      using finish_cancellation_commits [OF assms(1) key] deliver_commits [OF assms(1) key]
      by (auto simp: being_cancelled_def split: if_splits)
  qed
qed simp

section \<open>The invariant of every run\<close>

lemma sched_inv_keys:
  assumes "sched_inv X path f W" "map_of (ss_prompts (sc_state W)) i = Some e"
  shows "sp_schedule_id e = i" "validate_prompt X i e = Ok ()"
proof -
  have "(i, e) \<in> set (ss_prompts (sc_state W))" using assms(2) by (rule map_of_SomeD)
  moreover have "scheduler_validate_state X (sc_state W) = Ok ()"
    using assms(1) scheduler_load_typed by (auto simp: sched_inv_def)
  ultimately show v: "validate_prompt X i e = Ok ()" by (auto simp: scheduler_validate_state_Ok)
  then show "sp_schedule_id e = i" by (auto simp: validate_prompt_def res_bind_Ok split: if_splits)
qed

lemma sched_step_commits:
  assumes inv: "sched_inv X path f W" and "sched_step X W W'"
  shows "commits_to X W W' \<or> adds_prompt X W W'"
  using assms(2)
proof cases
  case (step_schedule E t p sf r)
  then show ?thesis using schedule_commits by blast
next
  case (step_cancel E t i r)
  then show ?thesis using scheduler_cancel_commits by blast
next
  case (step_retire env ts R r)
  then show ?thesis
    using scheduler_retirement_commits sched_inv_typed [OF inv] by (auto simp: prompts_typed_def)
next
  case (step_settle E queued)
  then show ?thesis using settle_queued_commits by blast
next
  case (step_ready E c)
  then show ?thesis using process_candidate_commits sched_inv_keys(1) [OF inv] by blast
qed (auto simp: scheduler_publish_retirement_def start_worker_def intro!: commits_to.nothing)

text \<open>What the runs rely on: JSON text and time stamps read back as written, a path that names a file.\<close>

definition sched_params :: "sched_ext \<Rightarrow> storage_path \<Rightarrow> str \<Rightarrow> bool" where
  "sched_params X path f =
     (json_codec (sx_json X) \<and> time_codec X \<and> path_parent path \<noteq> None \<and> path_file_name path = Some f)"

lemma sched_inv_commit:
  assumes P: "sched_params X path f" and inv: "sched_inv X path f W"
    and "prompts_typed next" "task_joins env" "scheduler_commit X env next W = (r, W')"
  shows "sched_inv X path f W'"
proof -
  have D: "durable_state (commit_prompts X (Some path)) (scheduler_load_state X True f) f prompts_typed"
    by (rule scheduler_durable) (use P in \<open>simp_all add: sched_params_def\<close>)
  obtain r' st dir where c: "commit_prompts X (Some path) env next (sc_state W) (sc_directory W) = (r', st, dir)"
    by (metis prod_cases3)
  have W': "W' = W\<lparr>sc_state := st, sc_directory := dir\<rparr>"
    using inv assms(5) c by (simp add: scheduler_commit_def sched_inv_def)
  have "scheduler_load_state X True f dir = Ok st"
    using durable_state.commit_synced [OF D _ assms(4,3) c] inv by (simp add: sched_inv_def)
  then show ?thesis using inv by (simp add: sched_inv_def W')
qed

lemma sched_inv_commits_to:
  assumes "sched_params X path f"
  shows "commits_to X W W' \<Longrightarrow> sched_inv X path f W \<Longrightarrow> sched_inv X path f W'"
proof (induction rule: commits_to.induct)
  case (one_more W W1 env "next" r W2 W')
  then show ?case
    using sched_inv_commit [OF assms] prompts_typed_step sched_inv_typed sched_inv_same by blast
qed (rule sched_inv_same)

lemma sched_inv_adds:
  assumes "sched_params X path f" "adds_prompt X W W'" "sched_inv X path f W"
  shows "sched_inv X path f W'"
  using assms sched_inv_commit sched_inv_same prompts_typed_insert sched_inv_typed
  unfolding adds_prompt_def by metis

lemma prompts_typed_update:
  assumes "prompts_typed s" "sp_retry_attempt (g (the (map_of (ss_prompts s) i))) < 2 ^ 32"
  shows "prompts_typed (update_prompt i g s)"
proof -
  have wf: "bt_wf (ss_prompts s)" using assms(1) by (simp add: prompts_typed_def)
  have "sp_retry_attempt e < 2 ^ 32" if k: "(k, e) \<in> set (bt_adjust i g (ss_prompts s))" for k e
  proof -
    obtain v where v: "map_of (ss_prompts s) k = Some v" "e = (if k = i then g v else v)"
      using k wf by (auto simp: bt_adjust_set bt_entries)
    then show ?thesis using assms(2) prompts_typedD [OF assms(1) v(1)] by auto
  qed
  then show ?thesis using wf by (auto simp: prompts_typed_def update_prompt_def)
qed

lemma apply_interrupted_typed:
  "prompts_typed (fst acc) \<Longrightarrow> prompts_typed (fst (apply_interrupted W now ints acc))"
proof (induction W now ints acc rule: apply_interrupted.induct)
  case (2 W now submission_id thread_id error rest s affected)
  have "prompts_typed s" using "2.prems" by simp
  have u: "sat_add_u32 n 1 < 2 ^ 32" for n by (simp add: sat_add_u32_def u32_max_def)
  show ?case
    unfolding apply_interrupted.simps
    by (rule "2.IH", unfold option.case_eq_if Let_def)
      (use \<open>prompts_typed s\<close> u prompts_typedD [OF \<open>prompts_typed s\<close>] in
        \<open>auto intro!: prompts_typed_update simp del: power_numeral\<close>)
qed simp

lemma scheduler_shutdown_inv:
  assumes P: "sched_params X path f" and inv: "sched_inv X path f W" and j: "task_joins (hv_io E)"
  shows "sched_inv X path f (scheduler_shutdown X E W)"
proof -
  have persist: "sched_inv X path f (persist_interrupted_definitive_settlements X E Q V)"
    if V: "sched_inv X path f V" for Q V
  proof (cases "interrupted_definitive_settlements (qs_store Q) = []")
    case False
    obtain next' affected where a: "apply_interrupted V (hv_now E)
        (interrupted_definitive_settlements (qs_store Q)) (sc_state V, []) = (next', affected)" by fastforce
    obtain r V1 where c: "scheduler_commit X (hv_io E) next' V = (r, V1)" by fastforce
    have "prompts_typed next'"
      using apply_interrupted_typed [of "(sc_state V, [])" V "hv_now E"] sched_inv_typed [OF V] a by (metis fst_conv)
    then have "sched_inv X path f V1" using sched_inv_commit [OF P V _ j c] by simp
    moreover have "same_disk V1 (persist_interrupted_definitive_settlements X E Q V)"
      using False by (cases r) (simp_all add: persist_interrupted_definitive_settlements_def a c Let_def)
    ultimately show ?thesis using sched_inv_same by blast
  qed (use V in \<open>simp add: persist_interrupted_definitive_settlements_def Let_def\<close>)
  have "sched_inv X path f (W\<lparr>sc_cancellation := True, sc_task := False\<rparr>\<lparr>sc_queue := q\<rparr>)" for q
    using inv by (rule sched_inv_same) simp
  then show ?thesis using persist inv
    by (auto simp: scheduler_shutdown_def Let_def sched_inv_def split: option.splits)
qed

lemma sched_run_inv:
  assumes "sched_params X path f" "sched_run X path f W"
  shows "sched_inv X path f W"
  using assms(2)
proof (induction rule: sched_run.induct)
  case (run_start dir queue W)
  then show ?case by (auto simp: start_paused_def res_bind_Ok sched_inv_def build_with_state_def)
next
  case (run_step W W')
  then show ?case
    using sched_inv_commits_to [OF assms(1)] sched_inv_adds [OF assms(1)] sched_step_commits by blast
next
  case (run_shutdown W E)
  then show ?case using scheduler_shutdown_inv [OF assms(1)] by blast
qed

section \<open>The life of a prompt\<close>

lemma scheduler_commit_either:
  "scheduler_commit X env next W = (r, W') \<Longrightarrow> sc_state W' = next \<or> sc_state W' = sc_state W"
  by (auto simp: scheduler_commit_def commit_prompts_def split: prod.splits sum.splits option.splits)

lemma commits_to_prompts_step: "commits_to X W W' \<Longrightarrow> prompts_step (sc_state W) (sc_state W')"
proof (induction rule: commits_to.induct)
  case (one_more W W1 env "next" r W2 W')
  have "prompts_step (sc_state W1) (sc_state W2)"
    using scheduler_commit_either [OF one_more.hyps(4)] one_more.hyps(3) by auto
  then show ?case
    using one_more.IH one_more.hyps(5) prompts_step_trans by (simp add: same_disk_def)
qed (simp add: same_disk_def)

lemma sched_step_prompt:
  assumes inv: "sched_inv X path f W" and step: "sched_step X W W'"
    and e: "map_of (ss_prompts (sc_state W)) i = Some e" "map_of (ss_prompts (sc_state W')) i = Some e'"
  shows "prompt_step e e'"
proof (cases "commits_to X W W'")
  case True
  then show ?thesis using commits_to_prompts_step prompts_stepD e by fastforce
next
  case False
  then obtain env n r W1 where n: "map_of (ss_prompts (sc_state W)) (sp_schedule_id n) = None"
      "scheduler_commit X env (insert_prompt n (sc_state W)) W = (r, W1)" "same_disk W1 W'"
    using sched_step_commits [OF inv step] by (auto simp: adds_prompt_def)
  then have "sc_state W' = insert_prompt n (sc_state W) \<or> sc_state W' = sc_state W"
    using scheduler_commit_either [OF n(2)] by (simp add: same_disk_def)
  then have "e' = e" using e n(1) by (auto simp: insert_prompt_def split: if_splits)
  then show ?thesis by simp
qed

text \<open>Steps during which a prompt stays in the map.\<close>

inductive pending_steps :: "sched_ext \<Rightarrow> str \<Rightarrow> scheduler \<Rightarrow> scheduler \<Rightarrow> bool" for X i where
  pending_refl: "map_of (ss_prompts (sc_state W)) i \<noteq> None \<Longrightarrow> pending_steps X i W W"
| pending_step: "pending_steps X i W W1 \<Longrightarrow> sched_step X W1 W2 \<Longrightarrow>
    map_of (ss_prompts (sc_state W2)) i \<noteq> None \<Longrightarrow> pending_steps X i W W2"

lemma pending_steps_run: "pending_steps X i W W' \<Longrightarrow> sched_run X path f W \<Longrightarrow> sched_run X path f W'"
  by (induction rule: pending_steps.induct) (auto intro: run_step)

lemma pending_steps_prompt:
  assumes "sched_params X path f" "pending_steps X i W W'" "sched_run X path f W"
    and "map_of (ss_prompts (sc_state W)) i = Some e"
  shows "\<exists>e'. map_of (ss_prompts (sc_state W')) i = Some e' \<and> prompt_step e e'"
  using assms(2-)
proof (induction rule: pending_steps.induct)
  case (pending_step W W1 W2)
  then obtain e1 e2 where e: "map_of (ss_prompts (sc_state W1)) i = Some e1" "prompt_step e e1"
      "map_of (ss_prompts (sc_state W2)) i = Some e2" by auto
  have "sched_inv X path f W1"
    using sched_run_inv [OF assms(1)] pending_steps_run pending_step.hyps(1) pending_step.prems(1) by blast
  then show ?case
    using sched_step_prompt [OF _ pending_step.hyps(2) e(1,3)] e prompt_step_trans by blast
qed simp

end
