(* ===== verification/Scheduler_Properties.thy ===== *)
theory Scheduler_Properties
  imports Scheduler_Guarantees Queue_Properties
begin

text \<open>
  What the scheduler guarantees, part two: the properties, over its operations and together with
  the queue it delivers to, and a concrete scheduler on which they are evaluated.
\<close>

section \<open>What a delivery does to the queue\<close>

lemma cancel_submission_no_turn:
  assumes "cancel_submission Y env t sid Q = (r, Q')"
  shows "turn_starts (qs_outputs Q') = turn_starts (qs_outputs Q)"
  using assms
  by (auto simp: cancel_submission_def Let_def on_store_def split: sum.splits option.splits prod.splits if_splits)

lemma reconcile_no_output:
  assumes "reconcile_indeterminate_submission Y env env' a t sid Q = (r, Q')"
  shows "qs_outputs Q' = qs_outputs Q"
  using assms
  by (auto simp: reconcile_indeterminate_submission_def Let_def on_store_def
      split: sum.splits option.splits prod.splits if_splits)

lemma dispatch_message_sent:
  assumes "dispatch_message Y E t item S = Some (Inr resp, S')"
    and "turn_starts (qs_outputs S') \<noteq> turn_starts (qs_outputs S)"
  shows "resp_disposition resp = Sent"
proof -
  obtain q S1 where res: "reserve_submission Y (se_reserve_io E) (se_rollback_io E) (qe_submission_id item) t True S = (q, S1)"
    by fastforce
  have "qs_outputs S1 = qs_outputs S" using reserve_submission_cases [OF res] by auto
  then show ?thesis using assms res
    by (auto simp: dispatch_message_def Let_def on_store_def split: sum.splits option.splits prod.splits if_splits)
qed

text \<open>The turn of a prompt's own submission, which the queue did not know before.\<close>

definition own_turn :: "sched_ext \<Rightarrow> stored_scheduled_prompt \<Rightarrow> queue_service \<Rightarrow> queue_service \<Rightarrow> bool" where
  "own_turn X e Q Q' =
     (let t = trim (sp_thread_id e); sid = trim (scheduled_submission_id (sp_schedule_id e)) in
      turn_starts (qs_outputs Q') = turn_starts (qs_outputs Q)
        @ [Turn_start t (prompt_turn_start (sp_prompt e)) (submission_source_turn_id (sx_queue X) sid)]
      \<and> map_of (submission_pending (qs_store Q)) sid = None \<and> map_of (submission_results (qs_store Q)) sid = None
      \<and> (\<forall>rt. runtime_of Q t = Some rt \<longrightarrow> \<not> runtime_is_blocked_or_occupied rt))"

lemma scheduled_send_turn:
  assumes "send_scheduled_prompt_admitted schema (sx_queue X) E (scheduled_request e) Q = Some (r, Q')"
    and "turn_starts (qs_outputs Q') \<noteq> turn_starts (qs_outputs Q)"
  shows "own_turn X e Q Q'" and "\<And>resp. r = Inr resp \<Longrightarrow> resp_disposition resp = Sent"
proof -
  have "send_message_with_origin (sx_queue X) E (scheduled_request e) None True Q = Some (r, Q')"
    using assms by (auto simp: send_scheduled_prompt_admitted_def split: if_splits)
  from send_message_cases [OF this] assms(2)
  obtain item S3 where item: "qe_submission_id item = trim (scheduled_submission_id (sp_schedule_id e))"
      "qe_turn_start item = prompt_turn_start (sp_prompt e)" "qs_outputs S3 = qs_outputs Q" "qs_store S3 = qs_store Q"
      "map_of (submission_pending (qs_store Q)) (qe_submission_id item) = None"
      "map_of (submission_results (qs_store Q)) (qe_submission_id item) = None"
      "\<forall>rt. runtime_of Q (trim (sp_thread_id e)) = Some rt \<longrightarrow> \<not> runtime_is_blocked_or_occupied rt"
    and d: "dispatch_message (sx_queue X) E (trim (sp_thread_id e)) item S3 = Some (r, Q')"
    by (auto simp: scheduled_request_def)
  show "own_turn X e Q Q'"
    using dispatch_message_cases [OF d] item assms(2) by (auto simp: own_turn_def Let_def)
  show "resp_disposition resp = Sent" if "r = Inr resp" for resp
    using dispatch_message_sent [of "sx_queue X" E _ item S3 resp Q'] d that assms(2) item(3) by simp
qed

text \<open>
  The turn of the message that heads the thread's queue, when the queue accepted the prompt as a
  waiting message and was drained at once.
\<close>

definition queued_turn ::
  "sched_ext \<Rightarrow> ready_env \<Rightarrow> stored_scheduled_prompt \<Rightarrow> queue_service \<Rightarrow> queue_service \<Rightarrow> bool" where
  "queued_turn X E e Q Q' =
     (\<exists>resp Q1 rt item rest.
        send_scheduled_prompt_admitted (sx_schema X) (sx_queue X) (pv_send E) (scheduled_request e) Q = Some (Ok resp, Q1)
        \<and> resp_disposition resp = Queued \<and> runtime_of Q1 (sp_thread_id e) = Some rt
        \<and> rt_items rt = item # rest \<and> \<not> runtime_has_blockers rt
        \<and> turn_starts (qs_outputs Q') = turn_starts (qs_outputs Q)
            @ [Turn_start (sp_thread_id e) (qe_turn_start item)
                 (submission_source_turn_id (sx_queue X) (qe_submission_id item))])"

lemma sc_queue_simps [simp]:
  "sc_queue (commit_and_broadcast X env t next W) = sc_queue W"
  "sc_queue (snd (scheduler_commit X env next W)) = sc_queue W"
  "sc_queue (settle_delivered X env e W) = sc_queue W"
  "sc_queue (record_attempt X E e st err W) = sc_queue W"
  "sc_queue (snd (record_cancellation_retry X env now i msg W)) = sc_queue W"
  by (auto simp: commit_and_broadcast_def scheduler_commit_def broadcast_thread_def settle_delivered_def
      record_attempt_def record_cancellation_retry_def split: prod.splits sum.splits option.splits)

lemma reconciled_as_sent_outputs:
  "reconciled_as_sent X E e err Q = (b, Q') \<Longrightarrow> qs_outputs Q' = qs_outputs Q"
  by (auto simp: reconciled_as_sent_def split: if_splits prod.splits sum.splits option.splits
      dest: reconcile_no_output)

lemma drain_turn_cases:
  assumes "drain_thread_queue Y E t S = Some S'"
  shows "turn_starts (qs_outputs S') = turn_starts (qs_outputs S)
    \<or> (\<exists>rt rt'. runtime_of S t = Some rt \<and> drain_turn Y E t S S' rt rt')"
proof (cases "runtime_of S t")
  case None
  then have "S' = S" using assms by (auto simp: drain_thread_queue_def split: sum.splits)
  then show ?thesis by simp
next
  case (Some rt)
  then show ?thesis using drain_thread_queue_cases [OF assms Some] by blast
qed

lemma deliver_turn:
  assumes "deliver X E e Q W = Some W'"
  shows "\<exists>Q'. sc_queue W' = Some Q' \<and>
    (turn_starts (qs_outputs Q') = turn_starts (qs_outputs Q) \<or> own_turn X e Q Q' \<or> queued_turn X E e Q Q')"
proof -
  obtain r Q1 where s: "send_scheduled_prompt_admitted (sx_schema X) (sx_queue X) (pv_send E) (scheduled_request e) Q
      = Some (r, Q1)" using assms by (auto simp: deliver_def split: option.splits)
  have own: "own_turn X e Q Q'" if "turn_starts (qs_outputs Q') \<noteq> turn_starts (qs_outputs Q)"
      "qs_outputs Q' = qs_outputs Q1" for Q'
    using scheduled_send_turn(1) [OF s] that by (simp add: own_turn_def)
  show ?thesis
  proof (cases r)
    case (Inl err)
    obtain b Q2 where "reconciled_as_sent X E e err Q1 = (b, Q2)" by fastforce
    then show ?thesis
      using assms s Inl own [of Q2] reconciled_as_sent_outputs by (auto simp: deliver_def Let_def split: if_splits)
  next
    case (Inr resp)
    show ?thesis
    proof (cases "resp_disposition resp = Sent")
      case True
      then show ?thesis using assms s Inr own [of Q1] by (auto simp: deliver_def Let_def)
    next
      case False
      then have q: "resp_disposition resp = Queued" by (cases "resp_disposition resp") auto
      have same: "turn_starts (qs_outputs Q1) = turn_starts (qs_outputs Q)"
        using scheduled_send_turn(2) [OF s _ Inr] False by blast
      obtain Q2 where d: "drain_thread_queue (sx_queue X) (pv_drain E) (sp_thread_id e) Q1 = Some Q2"
          "sc_queue W' = Some Q2"
        using assms s Inr False by (auto simp: deliver_def Let_def)
      then show ?thesis
        using drain_turn_cases [OF d(1)] same s Inr q
        unfolding queued_turn_def drain_turn_def by auto
    qed
  qed
qed

lemma retry_interrupted_settlement_outputs:
  "retry_interrupted_settlement X E e Q = Some (r, Q') \<Longrightarrow> qs_outputs Q' = qs_outputs Q"
  by (auto simp: retry_interrupted_settlement_def split: option.splits)

lemma finish_cancellation_no_turn:
  "\<exists>Q'. sc_queue (finish_cancellation X E e Q W) = Some Q' \<and>
     turn_starts (qs_outputs Q') = turn_starts (qs_outputs Q)"
proof -
  obtain r Q1 where q: "cancel_submission (sx_queue X) (pv_cancel_io E) (sp_thread_id e)
      (scheduled_submission_id (sp_schedule_id e)) Q = (r, Q1)" by fastforce
  then show ?thesis
    using cancel_submission_no_turn [OF q] by (cases r) (simp_all add: finish_cancellation_def)
qed

section \<open>What is listed\<close>

lemma schedule_metadata_Some:
  "schedule_metadata X e = Some m \<Longrightarrow> md_schedule_id m = sp_schedule_id e \<and> sp_status e \<noteq> Stored_Cancelling"
  by (auto simp: schedule_metadata_def Let_def split: stored_scheduled_prompt_status.splits)

lemma schedule_summary_Some:
  "schedule_summary X e = Some m \<Longrightarrow> sm_schedule_id m = sp_schedule_id e \<and> sp_status e \<noteq> Stored_Cancelling"
  by (auto simp: schedule_summary_def dest: schedule_metadata_Some)

lemma set_map_filter_Some: "y \<in> set (List.map_filter g xs) \<longleftrightarrow> (\<exists>x \<in> set xs. g x = Some y)"
  by (force simp: List.map_filter_def)

lemma listed_prompt:
  assumes "i \<in> md_schedule_id ` set (scheduler_list X s t)
    \<or> i \<in> sm_schedule_id ` set (bss_schedules (scheduler_read X s t))"
  shows "\<exists>x \<in> set (thread_prompts s t). sp_schedule_id x = i \<and> sp_status x \<noteq> Stored_Cancelling"
  using assms
  unfolding scheduler_list_def scheduler_read_def
  by (auto simp: set_map_filter_Some)
     (metis schedule_metadata_Some, metis schedule_summary_Some)

lemma schedule_returns:
  assumes "\<exists>c \<in> set (sv_candidates E). map_of (ss_prompts (sc_state W)) c = None"
  shows "schedule X E t p sf W \<noteq> None"
proof -
  have "List.find (\<lambda>c. \<not> bt_contains (ss_prompts (sc_state W)) c) (sv_candidates E) \<noteq> None"
    using assms by (auto simp: find_None_iff bt_contains_def)
  then show ?thesis by (auto simp: schedule_def Let_def split: sum.split option.split prod.split)
qed

section \<open>A concrete scheduler\<close>

text \<open>Times are written as decimal numbers.\<close>

definition decimal_time :: "str \<Rightarrow> int option" where
  "decimal_time s = (case from_str plain_json s of Some (JInt t) \<Rightarrow> Some t | _ \<Rightarrow> None)"

definition demo_sched :: sched_ext where
  "demo_sched = \<lparr>sx_queue = demo_queue, sx_schema = (\<lambda>_. None), sx_b64 = rfc4648,
     sx_uuid_canon = uuid_hyphenated, sx_parse_rfc3339 = decimal_time,
     sx_format_timestamp = (\<lambda>t. to_string plain_json (JInt t)),
     sx_ser_time = (\<lambda>t. to_string plain_json (JInt t)), sx_de_time = decimal_time\<rparr>"

definition schedule_path :: storage_path where
  "schedule_path = \<lparr>path_parent = Some ''state'', path_file_name = Some ''schedules''\<rparr>"

lemma demo_sched_params: "sched_params demo_sched schedule_path ''schedules''"
  by (simp add: sched_params_def demo_sched_def demo_queue_def schedule_path_def time_codec_def
      decimal_time_def plain.json_codec_axioms plain.parse_print)

interpretation scheduler: durable_state "commit_prompts demo_sched (Some schedule_path)"
  "scheduler_load_state demo_sched True ''schedules''" "''schedules''" prompts_typed
  by (rule scheduler_durable) (use demo_sched_params in \<open>simp_all add: sched_params_def\<close>)

definition demo_entry :: stored_scheduled_prompt where
  "demo_entry = \<lparr>sp_schedule_id = demo_uuid, sp_thread_id = ''v1.YQ.Yg'', sp_prompt = ''hi'',
     sp_scheduled_for = 5, sp_created_at = 1, sp_status = Stored_Cancelling, sp_retry_attempt = 0,
     sp_next_attempt_at = 5, sp_last_error = None\<rparr>"

definition demo_state :: scheduled_prompt_state where
  "demo_state = \<lparr>ss_version = SCHEDULER_STATE_VERSION, ss_prompts = [(demo_uuid, demo_entry)]\<rparr>"

definition demo_directory :: directory where
  "demo_directory = [''schedules'' \<mapsto> to_string plain_json (ser_scheduler_state demo_sched demo_state)]"

definition demo_scheduler :: scheduler where
  "demo_scheduler = build_with_state (Some schedule_path) demo_directory (Some demo_service) demo_state
     RETRY_MIN RETRY_MAX"

definition demo_ready_env :: ready_env where
  "demo_ready_env = \<lparr>pv_ready_now = (\<lambda>_. 9), pv_now = 9, pv_retry_now = 9, pv_io = all_good, pv_settlement = [],
     pv_cancel_io = all_good, pv_send = demo_send_env, pv_reconcile_io = all_good, pv_remember_io = all_good,
     pv_reconciled = Ok None, pv_drain = demo_drain_env\<rparr>"

lemma demo_entry_valid: "validate_prompt demo_sched demo_uuid demo_entry = Ok ()"
proof -
  have "validate_schedule_id demo_sched demo_uuid = Ok ()" by code_simp
  moreover have "scheduler_validate_thread_id demo_sched ''v1.YQ.Yg'' = Ok ()" by code_simp
  moreover have "\<not> text_contains_reserved_agent_message_marker ''hi''" by code_simp
  moreover have "length (to_string plain_json (prompt_turn_start ''hi'')) < 1000" by code_simp
  moreover have "trim ''hi'' \<noteq> []" by code_simp
  ultimately show ?thesis
    by (simp add: validate_prompt_def demo_entry_def validate_prompt_queue_encoding_def
        QUEUE_MAX_CONTENT_BYTES_def QUEUE_MAX_ITEM_BYTES_def sat_add_def demo_sched_def demo_queue_def)
qed

lemma demo_sched_run: "sched_run demo_sched schedule_path ''schedules'' demo_scheduler"
proof -
  let ?bytes = "to_string plain_json (ser_scheduler_state demo_sched demo_state)"
  have "length ?bytes < 2000" by code_simp
  moreover have "scheduler_validate_state demo_sched demo_state = Ok ()"
    by (simp add: scheduler_validate_state_Ok demo_state_def demo_entry_valid thread_prompts_def
        SCHEDULES_PER_THREAD_MAX_def)
  ultimately have "scheduler_encode_state demo_sched demo_state = Ok ?bytes"
    by (simp add: scheduler_encode_Ok SCHEDULER_STATE_MAX_BYTES_def demo_sched_def demo_queue_def)
  moreover have "prompts_typed demo_state"
    by (simp add: prompts_typed_def demo_state_def demo_entry_def bt_wf_def)
  ultimately have "scheduler_load_state demo_sched True ''schedules'' demo_directory = Ok demo_state"
    by (intro scheduler_load_written) (use demo_sched_params in \<open>simp_all add: sched_params_def demo_directory_def\<close>)
  then show ?thesis
    by (intro run_start [where dir = demo_directory and queue = "Some demo_service"])
      (simp add: start_paused_def demo_scheduler_def)
qed

section \<open>Properties\<close>





text \<open>
  C33: a cancellation that is stored is final while the service runs. From the moment the file says
  that a prompt is being cancelled, and until it is removed, no operation changes its identity or
  its status, whatever is scheduled, cancelled, delivered or retired meanwhile; it is in no list a
  client or agent sees; and when the worker processes it, no turn is started.
\<close>

theorem scheduler_cancellation_final:
  assumes "sched_params X path f" "sched_run X path f W"
    and "map_of (ss_prompts (sc_state W)) i = Some e" "sp_status e = Stored_Cancelling"
      "interrupted_settlement e = None"
    and "pending_steps X i W W'"
  shows "(\<exists>e'. map_of (ss_prompts (sc_state W')) i = Some e' \<and> sp_status e' = Stored_Cancelling
        \<and> sp_thread_id e' = sp_thread_id e \<and> sp_prompt e' = sp_prompt e)
    \<and> (\<forall>t. i \<notin> md_schedule_id ` set (scheduler_list X (sc_state W') t)
          \<and> i \<notin> sm_schedule_id ` set (bss_schedules (scheduler_read X (sc_state W') t)))
    \<and> (\<forall>E c Q W''. sp_schedule_id c = i \<longrightarrow> sc_queue W' = Some Q \<longrightarrow> process_candidate X E c W' = Some W'' \<longrightarrow>
          (\<exists>Q'. sc_queue W'' = Some Q' \<and> turn_starts (qs_outputs Q') = turn_starts (qs_outputs Q)))"
proof -
  have inv: "sched_inv X path f W'"
    using sched_run_inv [OF assms(1)] pending_steps_run [OF assms(6,2)] by blast
  obtain e' where e': "map_of (ss_prompts (sc_state W')) i = Some e'" "prompt_step e e'"
    using pending_steps_prompt [OF assms(1,6,2,3)] by blast
  then have c': "sp_status e' = Stored_Cancelling" "interrupted_settlement e' = None"
    using assms(4,5) by (auto simp: prompt_step_def being_cancelled_def)
  have hidden: "sp_status x = Stored_Cancelling"
    if x: "x \<in> set (thread_prompts (sc_state W') t)" "sp_schedule_id x = i" for x t
  proof -
    obtain k where "(k, x) \<in> set (ss_prompts (sc_state W'))" using x(1) by (auto simp: thread_prompts_def)
    then have "map_of (ss_prompts (sc_state W')) k = Some x"
      using sched_inv_typed [OF inv] by (simp add: prompts_typed_def bt_entries)
    then show ?thesis using sched_inv_keys(1) [OF inv] x(2) e'(1) c'(1) by fastforce
  qed
  have "i \<notin> md_schedule_id ` set (scheduler_list X (sc_state W') t)
      \<and> i \<notin> sm_schedule_id ` set (bss_schedules (scheduler_read X (sc_state W') t))" for t
    using hidden [of _ t] listed_prompt [of _ X "sc_state W'" t] by blast
  moreover have "\<exists>Q'. sc_queue W'' = Some Q' \<and> turn_starts (qs_outputs Q') = turn_starts (qs_outputs Q)"
    if "sp_schedule_id c = i" "sc_queue W' = Some Q" "process_candidate X E c W' = Some W''" for E c Q W''
    using that e'(1) c' finish_cancellation_no_turn [of X E e' Q W']
    by (auto simp: process_candidate_def retry_interrupted_settlement_def split: sum.splits if_splits)
  ultimately show ?thesis using e' c'(1) by (auto simp: prompt_step_def)
qed

theorem scheduler_cancellation_final_witness:
  "let W = scheduler_publish_retirement demo_sched [] demo_scheduler in
   (\<exists>e'. map_of (ss_prompts (sc_state W)) demo_uuid = Some e' \<and> sp_status e' = Stored_Cancelling)
   \<and> demo_uuid \<notin> md_schedule_id ` set (scheduler_list demo_sched (sc_state W) ''v1.YQ.Yg'')"
proof -
  let ?W = "scheduler_publish_retirement demo_sched [] demo_scheduler"
  have e: "map_of (ss_prompts (sc_state demo_scheduler)) demo_uuid = Some demo_entry"
    by (simp add: demo_scheduler_def build_with_state_def demo_state_def)
  have "pending_steps demo_sched demo_uuid demo_scheduler ?W"
    by (rule pending_step [OF pending_refl step_publish])
      (use e in \<open>simp_all add: scheduler_publish_retirement_def notify_wake_def\<close>)
  from scheduler_cancellation_final [OF demo_sched_params demo_sched_run e _ _ this]
  show ?thesis by (auto simp: demo_entry_def interrupted_settlement_def Let_def)
qed

text \<open>
  C34: processing a prompt starts at most one turn. Whatever the agent and the file system do, when
  the worker processes a candidate, it starts no turn, or exactly one, and one only for a prompt
  that is due, is not being cancelled and whose thread is not being deleted: the prompt's own turn,
  when the queue had no trace of its submission (unless the settlement of an earlier refusal was
  retried first) and the thread was free, or that of the message at the head of the thread's queue,
  when the prompt had to wait in it.
\<close>

theorem scheduler_at_most_one_turn:
  assumes "process_candidate X E c W = Some W'" "sc_queue W = Some Q"
  shows "\<exists>Q'. sc_queue W' = Some Q' \<and>
    (turn_starts (qs_outputs Q') = turn_starts (qs_outputs Q)
     \<or> (\<exists>e Q1. map_of (ss_prompts (sc_state W)) (sp_schedule_id c) = Some e
          \<and> sp_status e \<noteq> Stored_Cancelling \<and> sp_next_attempt_at e \<le> pv_now E
          \<and> admit (qs_fence Q) (sp_thread_id c) = Ok ()
          \<and> qs_outputs Q1 = qs_outputs Q \<and> (interrupted_settlement e = None \<longrightarrow> Q1 = Q)
          \<and> (own_turn X e Q1 Q' \<or> queued_turn X E e Q1 Q')))"
proof (cases "W' = W")
  case False
  obtain e where e: "admit (qs_fence Q) (sp_thread_id c) = Ok ()"
      "map_of (ss_prompts (sc_state W)) (sp_schedule_id c) = Some e" "sp_next_attempt_at e \<le> pv_now E"
    using assms False by (auto simp: process_candidate_def scheduler_fence_def split: sum.splits option.splits if_splits)
  obtain r Q1 where s: "retry_interrupted_settlement X E e Q = Some (r, Q1)"
    using assms e by (auto simp: process_candidate_def scheduler_fence_def split: option.splits)
  note out = retry_interrupted_settlement_outputs [OF s]
  have same: "interrupted_settlement e = None \<longrightarrow> Q1 = Q"
    using s by (auto simp: retry_interrupted_settlement_def)
  have W': "Some W' = (case r of
        Inl error \<Rightarrow> Some (record_attempt X E e Stored_Retrying (Some (truncate_error error)) (W\<lparr>sc_queue := Some Q1\<rparr>))
      | Inr _ \<Rightarrow> if sp_status e = Stored_Cancelling then Some (finish_cancellation X E e Q1 W)
                 else deliver X E e Q1 W)"
    using assms e s by (auto simp: process_candidate_def scheduler_fence_def not_less split: sum.splits if_splits)
  show ?thesis
  proof (cases "is_ok r \<and> sp_status e \<noteq> Stored_Cancelling")
    case True
    then have "deliver X E e Q1 W = Some W'" using W' by (auto simp: is_ok_iff)
    from deliver_turn [OF this] show ?thesis using True e out same by auto
  next
    case False
    then show ?thesis using W' out finish_cancellation_no_turn [of X E e Q1 W]
      by (cases r) (auto simp: is_ok_def)
  qed
qed (use assms in simp)

theorem scheduler_at_most_one_turn_witness:
  "\<exists>W' Q'. process_candidate demo_sched demo_ready_env demo_entry demo_scheduler = Some W'
     \<and> sc_queue W' = Some Q' \<and> turn_starts (qs_outputs Q') = []"
proof -
  let ?W = "demo_scheduler"
  have q: "sc_queue ?W = Some demo_service" by (simp add: demo_scheduler_def build_with_state_def)
  have e: "map_of (ss_prompts (sc_state ?W)) (sp_schedule_id demo_entry) = Some demo_entry"
    by (simp add: demo_scheduler_def build_with_state_def demo_state_def demo_entry_def)
  have f: "interrupted_settlement demo_entry = None" "sp_status demo_entry = Stored_Cancelling"
      "sp_next_attempt_at demo_entry = 5" "pv_now demo_ready_env = 9" "scheduler_fence ?W = fence_default"
    by (simp_all add: demo_entry_def interrupted_settlement_def demo_ready_env_def scheduler_fence_def q
        demo_service_def)
  obtain W' where p: "process_candidate demo_sched demo_ready_env demo_entry ?W = Some W'"
    by (simp add: process_candidate_def q e f retry_interrupted_settlement_def)
  show ?thesis
    using scheduler_at_most_one_turn [OF p q] p e f(2) by (auto simp: demo_service_def)
qed

text \<open>
  Cutting an error message character by character gives exactly the longest prefix the shared
  routine \<open>truncate_utf8_bytes\<close> computes in one go, so a stored error is valid UTF-8 within the limit.
\<close>

theorem truncate_error_equivalent:
  "truncate_error s = fst (truncate_utf8_bytes s SCHEDULER_ERROR_MAX_BYTES)"
proof (cases "SCHEDULER_ERROR_MAX_BYTES < length s")
  case True
  then show ?thesis by (simp add: truncate_error_cut truncate_utf8_bytes_def)
next
  case False
  then show ?thesis by (simp add: truncate_error.simps [of s] truncate_utf8_bytes_def)
qed

text \<open>
  C35: a schedule request is refused without a trace or takes effect as a whole. An error leaves the
  prompts in memory and on disk as they were and is not announced. A success adds exactly one
  prompt, with the requested text and time, under an identifier that was free; it is on disk, it is
  listed and announced, the worker is woken, and its time is in the future. The request returns as
  soon as one drawn identifier is free.
\<close>

theorem scheduler_schedule_all_or_nothing:
  assumes "sched_params X path f" "sched_run X path f W" "task_joins (sv_io E)"
    and "schedule X E t p sf W = Some (r, W')"
  shows "scheduler_load_state X True f (sc_directory W') = Ok (sc_state W') \<and>
    (case r of
       Inl _ \<Rightarrow> sc_state W' = sc_state W \<and> sc_broadcasts W' = sc_broadcasts W
     | Inr m \<Rightarrow>
         (\<exists>e. map_of (ss_prompts (sc_state W)) (sp_schedule_id e) = None
            \<and> sp_thread_id e = t \<and> sp_prompt e = p \<and> sp_status e = Stored_Scheduled
            \<and> sx_parse_rfc3339 X sf = Some (sp_scheduled_for e) \<and> sv_now E < sp_scheduled_for e
            \<and> sc_state W' = insert_prompt e (sc_state W) \<and> schedule_metadata X e = Some m
            \<and> m \<in> set (scheduler_list X (sc_state W') t) \<and> sc_wake W'
            \<and> sc_broadcasts W' = sc_broadcasts W @ [scheduler_read X (sc_state W') t]))
    \<and> (\<forall>E' t' p' sf'. (\<exists>c \<in> set (sv_candidates E'). map_of (ss_prompts (sc_state W)) c = None) \<longrightarrow>
         schedule X E' t' p' sf' W \<noteq> None)"
proof -
  have returns: "schedule X E' t' p' sf' W \<noteq> None"
    if "\<exists>c \<in> set (sv_candidates E'). map_of (ss_prompts (sc_state W)) c = None" for E' t' p' sf'
    by (rule schedule_returns [OF that])
  have "sched_run X path f W'" by (rule run_step [OF assms(2) step_schedule [OF assms(3,4)]])
  then have l: "scheduler_load_state X True f (sc_directory W') = Ok (sc_state W')"
    using sched_run_inv [OF assms(1)] by (simp add: sched_inv_def)
  have wf: "bt_wf (ss_prompts (sc_state W))"
    using sched_inv_typed [OF sched_run_inv [OF assms(1,2)]] by (simp add: prompts_typed_def)
  show ?thesis
    using assms(4)
  proof (cases rule: schedule_cases)
    case (refused err)
    then show ?thesis using l returns by simp
  next
    case (committed at i r' W1)
    let ?e = "new_prompt (sv_now E) t p at i"
    have at: "sx_parse_rfc3339 X sf = Some at" "sv_now E < at"
      using committed(1) by (auto simp: check_schedule_def res_bind_Ok split: if_splits option.splits)
    obtain m where m: "schedule_metadata X ?e = Some m" by (simp add: schedule_metadata_def Let_def)
    have W1: "sc_broadcasts W1 = sc_broadcasts W"
        "sc_state W1 = (if is_ok r' then insert_prompt ?e (sc_state W) else sc_state W)"
      using committed(6) by (auto simp: scheduler_commit_def commit_prompts_def is_ok_def
          split: prod.splits sum.splits option.splits)
    have "m \<in> set (scheduler_list X (insert_prompt ?e (sc_state W)) t)"
      using wf m by (force simp: scheduler_list_def set_map_filter_Some thread_prompts_def insert_prompt_def
          bt_insert_set image_iff)
    then show ?thesis
      using l returns committed(5,7,8) W1 at m
      by (cases r') (auto simp: notify_wake_def broadcast_thread_def is_ok_def intro!: exI [of _ ?e])
  qed
qed

definition demo_schedule_env :: schedule_env where
  "demo_schedule_env = \<lparr>sv_now = 1, sv_candidates = [demo_uuid, ''00000000-0000-4000-8000-000000000001''],
     sv_io = all_good\<lparr>rename_succeeds := False\<rparr>\<rparr>"

theorem scheduler_schedule_all_or_nothing_witness:
  "\<exists>r W'. schedule demo_sched demo_schedule_env ''v1.YQ.Yg'' ''hi'' (sx_ser_time demo_sched 5) demo_scheduler = Some (r, W')
     \<and> scheduler_load_state demo_sched True ''schedules'' (sc_directory W') = Ok (sc_state W')"
proof -
  let ?c = "''00000000-0000-4000-8000-000000000001''"
  have "map_of (ss_prompts (sc_state demo_scheduler)) ?c = None"
    by (simp add: demo_scheduler_def build_with_state_def demo_state_def demo_uuid_def)
  then have "schedule demo_sched demo_schedule_env ''v1.YQ.Yg'' ''hi'' (sx_ser_time demo_sched 5) demo_scheduler \<noteq> None"
    by (intro schedule_returns) (simp add: demo_schedule_env_def)
  then obtain r W' where s: "schedule demo_sched demo_schedule_env ''v1.YQ.Yg'' ''hi'' (sx_ser_time demo_sched 5) demo_scheduler = Some (r, W')"
    by auto
  have "task_joins (sv_io demo_schedule_env)" by (simp add: demo_schedule_env_def all_good_def)
  from scheduler_schedule_all_or_nothing [OF demo_sched_params demo_sched_run this s] s show ?thesis by blast
qed

text \<open>
  C40: the worker never sleeps past a prompt that becomes due, and takes them in order. It sleeps at
  most a day and not beyond the next attempt of any pending prompt; and when the clock has reached
  the next attempt of some prompt, the worker finds a candidate, which is due and comes first in the
  order by next attempt and identifier.
\<close>

theorem scheduler_worker_keeps_time:
  assumes "(i, e) \<in> set (ss_prompts s)"
  shows "worker_delay now s \<le> MAX_WORKER_SLEEP
    \<and> now + int (worker_delay now s) \<le> max now (sp_next_attempt_at e)
    \<and> (sp_next_attempt_at e \<le> now \<longrightarrow>
         (\<exists>c. ready_candidate (\<lambda>_. now) s = Some c \<and> c \<in> snd ` set (ss_prompts s)
            \<and> sp_next_attempt_at c \<le> now
            \<and> (sp_next_attempt_at c, sp_schedule_id c) \<le> (sp_next_attempt_at e, sp_schedule_id e)))"
proof (intro conjI impI)
  obtain n where n: "next_wake s = Some n" "n \<le> sp_next_attempt_at e"
  proof -
    have "Min (set (map (\<lambda>(_, e). sp_next_attempt_at e) (ss_prompts s))) \<le> sp_next_attempt_at e"
      using assms by (intro Min_le) force+
    then show ?thesis using assms that by (cases "ss_prompts s") (simp_all add: next_wake_def)
  qed
  show "worker_delay now s \<le> MAX_WORKER_SLEEP" using n by (simp add: worker_delay_def)
  show "now + int (worker_delay now s) \<le> max now (sp_next_attempt_at e)"
    using n by (auto simp: worker_delay_def min_def)
next
  assume due: "sp_next_attempt_at e \<le> now"
  let ?key = "\<lambda>e. (sp_next_attempt_at e, sp_schedule_id e)"
  let ?due = "filter (\<lambda>e. sp_next_attempt_at e \<le> now) (map snd (ss_prompts s))"
  have e: "e \<in> set (sort_key ?key ?due)" using assms due by force
  then obtain c rest where c: "sort_key ?key ?due = c # rest" by (cases "sort_key ?key ?due") auto
  have "sorted (map ?key (c # rest))" using sorted_sort_key [of ?key ?due] c by simp
  then have "?key c \<le> ?key e" using e c by (auto simp: less_eq_prod_def)
  moreover have "c \<in> set ?due" using c by (metis list.set_intros(1) set_sort)
  ultimately show "\<exists>c. ready_candidate (\<lambda>_. now) s = Some c \<and> c \<in> snd ` set (ss_prompts s)
      \<and> sp_next_attempt_at c \<le> now \<and> ?key c \<le> ?key e"
    using c by (auto simp: ready_candidate_def)
qed

theorem scheduler_worker_keeps_time_witness:
  "worker_delay 1 demo_state \<le> MAX_WORKER_SLEEP \<and> (\<exists>c. ready_candidate (\<lambda>_. 9) demo_state = Some c)"
proof -
  have e: "(demo_uuid, demo_entry) \<in> set (ss_prompts demo_state)" by (simp add: demo_state_def)
  have "sp_next_attempt_at demo_entry \<le> 9" by (simp add: demo_entry_def)
  then show ?thesis
    using scheduler_worker_keeps_time [OF e, of 1] scheduler_worker_keeps_time [OF e, of 9] by blast
qed

section \<open>Where a stored cancellation is not final\<close>

text \<open>
  The shutdown writes the interrupted settlements of the queue back as prompts to be retried. It
  does so for a prompt that is being cancelled too: once the commit succeeds the prompt is pending
  again, and the next start of the bridge sends it.
\<close>

theorem shutdown_revives_cancelled_prompt:
  assumes "map_of (ss_prompts (sc_state W)) i = Some e" "sp_status e = Stored_Cancelling"
    and "interrupted_definitive_settlements (qs_store Q) = [(scheduled_submission_id i, (sp_thread_id e, error))]"
    and "scheduler_commit X (hv_io E) (fst (apply_interrupted W (hv_now E)
           (interrupted_definitive_settlements (qs_store Q)) (sc_state W, []))) W = (Ok (), W1)"
  shows "\<exists>e'. map_of (ss_prompts (sc_state (persist_interrupted_definitive_settlements X E Q W))) i = Some e'
    \<and> sp_status e' = Stored_Retrying"
proof -
  have sid: "strip_prefix (scheduled_submission_id i) SCHEDULED_PROMPT_SUBMISSION_PREFIX = Some i"
    by (simp add: strip_prefix_Some scheduled_submission_id_def)
  have st: "sc_state (fold (broadcast_thread X) ts V) = sc_state V" for ts V
    using same_disk_fold_broadcast [of V X ts V] by (simp add: same_disk_def)
  have "sc_state W1 = fst (apply_interrupted W (hv_now E)
      (interrupted_definitive_settlements (qs_store Q)) (sc_state W, []))"
    by (rule scheduler_commit_state [OF assms(4)])
  then show ?thesis
    using assms sid by (simp add: persist_interrupted_definitive_settlements_def st update_prompt_def
        map_of_bt_adjust Let_def)
qed

end
