(* ===== verification/Path_Policy.thy ===== *)
theory Path_Policy
  imports Resource_Limits
begin

text \<open>
  \<open>crates/path-policy/src/lib.rs\<close> with the Unix strategy of \<open>crates/platform\<close>
  (\<open>platform/unix/filesystem.rs\<close>): which files a client may name, and how they are opened.

  A path is the list of its components as \<open>std::path\<close> gives them. The file system is a graph of
  inodes; a descriptor is the inode it was opened on. Other programs may change the file system
  between any two system calls: each call of a traversal has its own state of the file system (and
  may fail for any other reason), and the operations that write see the changes others made before.
  What \<open>canonicalize\<close>, \<open>metadata\<close> and the calls of the start-up answer are inputs; permission bits
  are not part of the graph.
\<close>

section \<open>Paths\<close>

datatype path_component = Root_dir | Cur_dir | Parent_dir | Normal str

type_synonym path = "path_component list"

definition path_piece :: "str \<Rightarrow> path_component" where
  "path_piece s = (if s = ''..'' then Parent_dir else Normal s)"

text \<open>
  \<open>Path::new(s).components()\<close> on Unix: repeated separators and \<open>.\<close> are skipped, except that a leading
  \<open>.\<close> of a relative path is kept.
\<close>

definition path_of :: "str \<Rightarrow> path" where
  "path_of s =
     (let pieces = split_on (CHR ''/'') s;
          body = map path_piece (filter (\<lambda>p. p \<noteq> [] \<and> p \<noteq> ''.'') pieces)
      in if s \<noteq> [] \<and> hd s = CHR ''/'' then Root_dir # body
         else if hd pieces = ''.'' then Cur_dir # body
         else body)"

definition path_is_absolute :: "path \<Rightarrow> bool" where
  "path_is_absolute p = (p \<noteq> [] \<and> hd p = Root_dir)"

definition path_join :: "path \<Rightarrow> path \<Rightarrow> path" where
  "path_join base p =
     (if path_is_absolute p then p else if base = [] then p else base @ filter (\<lambda>c. c \<noteq> Cur_dir) p)"

definition path_starts_with :: "path \<Rightarrow> path \<Rightarrow> bool" where
  "path_starts_with p base = (take (length base) p = base)"

definition path_strip_prefix :: "path \<Rightarrow> path \<Rightarrow> path option" where
  "path_strip_prefix p base = (if path_starts_with p base then Some (drop (length base) p) else None)"

definition path_parent_of :: "path \<Rightarrow> path option" where
  "path_parent_of p = (if p = [] \<or> last p = Root_dir then None else Some (butlast p))"

section \<open>The file system\<close>

datatype inode = Directory "str \<rightharpoonup> nat" | Regular nat | Symlink | Special

type_synonym file_system = "nat \<rightharpoonup> inode"

text \<open>One call: the file system it sees, another reason to fail, the text of its own errors.\<close>

record sys_call =
  call_fs :: file_system
  call_error :: "str option"
  call_errno :: str

definition entry_of :: "file_system \<Rightarrow> nat \<Rightarrow> str \<Rightarrow> nat option" where
  "entry_of fs d name =
     (case fs d of Some (Directory entries) \<Rightarrow> entries name | _ \<Rightarrow> None)"

text \<open>\<open>openat\<close> with \<open>O_NOFOLLOW\<close>, of any file and of a directory (\<open>O_DIRECTORY\<close>).\<close>

definition openat_nofollow :: "sys_call \<Rightarrow> nat \<Rightarrow> str \<Rightarrow> str + nat" where
  "openat_nofollow c d name =
     (case call_error c of
        Some e \<Rightarrow> Err e
      | None \<Rightarrow>
          (case entry_of (call_fs c) d name of
             None \<Rightarrow> Err (call_errno c)
           | Some i \<Rightarrow>
               (case call_fs c i of
                  None \<Rightarrow> Err (call_errno c)
                | Some Symlink \<Rightarrow> Err (call_errno c)
                | Some _ \<Rightarrow> Ok i)))"

definition openat_directory :: "sys_call \<Rightarrow> nat \<Rightarrow> str \<Rightarrow> str + nat" where
  "openat_directory c d name =
     res_bind (openat_nofollow c d name) (\<lambda>i.
       case call_fs c i of Some (Directory _) \<Rightarrow> Ok i | _ \<Rightarrow> Err (call_errno c))"

section \<open>Opening a file beneath a root\<close>

record open_env =
  oe_dup :: "str + unit"
  oe_directory :: "nat \<Rightarrow> sys_call"
  oe_final :: sys_call
  oe_stat :: sys_call

text \<open>The traversal up to the last component; the directory it arrived at and the last name.\<close>

fun open_directories :: "(nat \<Rightarrow> sys_call) \<Rightarrow> nat \<Rightarrow> nat \<Rightarrow> path \<Rightarrow> bridge_error + (nat \<times> str)" where
  "open_directories calls k d [] = Err (invalid_params ''path must point to a file'')"
| "open_directories calls k d (Normal name # rest) =
     (if rest = [] then Ok (d, name)
      else case openat_directory (calls k) d name of
             Inl e \<Rightarrow> Err (invalid_params (''path component is unsafe or inaccessible: '' @ e))
           | Inr d' \<Rightarrow> open_directories calls (Suc k) d' rest)"
| "open_directories calls k d (_ # rest) = Err (invalid_params ''path must stay beneath BRIDGE_WORKDIR'')"

definition inspect_opened_file :: "sys_call \<Rightarrow> nat \<Rightarrow> bridge_error + unit" where
  "inspect_opened_file c i =
     (case call_error c of
        Some e \<Rightarrow> Err (invalid_params (''failed to inspect opened file: '' @ e))
      | None \<Rightarrow>
          (case call_fs c i of
             Some (Regular nlink) \<Rightarrow>
               if nlink \<noteq> 1 then Err (invalid_params ''hard-linked files are not permitted'') else Ok ()
           | _ \<Rightarrow> Err (invalid_params ''path must point to a regular file'')))"

definition open_unix_regular_file_beneath ::
  "open_env \<Rightarrow> path \<Rightarrow> nat \<Rightarrow> path \<Rightarrow> bridge_error + (nat \<times> path)" where
  "open_unix_regular_file_beneath E base_root base_handle relative =
     res_bind (res_map_err (\<lambda>e. server_error (''failed to duplicate root descriptor: '' @ e)) (oe_dup E)) (\<lambda>_.
     res_bind (open_directories (oe_directory E) 0 base_handle relative) (\<lambda>(d, name).
     res_bind (res_map_err (\<lambda>e. invalid_params (''file is unsafe or inaccessible: '' @ e))
                (openat_nofollow (oe_final E) d name)) (\<lambda>i.
     res_bind (inspect_opened_file (oe_stat E) i) (\<lambda>_. Ok (i, path_join base_root relative)))))"

section \<open>Writing beneath a root\<close>

record mkdir_env =
  mk_interference :: "file_system \<Rightarrow> file_system"
  mk_inode :: nat
  mk_error :: "str option"
  mk_errno :: str
  mk_sync :: "str + unit"
  mk_open_interference :: "file_system \<Rightarrow> file_system"
  mk_open_error :: "str option"
  mk_chmod :: "str + unit"

text \<open>
  A new inode \<open>i\<close> under a free name: \<open>None\<close> when the name is taken. A name with a trailing separator,
  which \<open>validate_child_name\<close> lets through, names no regular file: the calls fail on it.
\<close>

definition add_entry :: "nat \<Rightarrow> inode \<Rightarrow> nat \<Rightarrow> str \<Rightarrow> file_system \<Rightarrow> file_system option" where
  "add_entry i node d name fs =
     (case fs d of
        Some (Directory entries) \<Rightarrow>
          if entries name \<noteq> None \<or> CHR ''/'' \<in> set name then None else Some (fs(i \<mapsto> node, d \<mapsto> Directory (entries(name \<mapsto> i))))
      | _ \<Rightarrow> None)"

text \<open>
  One component: \<open>mkdirat\<close>, where an existing entry is accepted, a sync of the parent if the directory
  is new, then the entry is opened, which fails unless it is a directory and no symbolic link.
\<close>

definition create_component ::
  "mkdir_env \<Rightarrow> nat \<Rightarrow> str \<Rightarrow> file_system \<Rightarrow> (bridge_error + nat) \<times> file_system" where
  "create_component E d name fs =
     (let fs0 = mk_interference E fs;
          made = add_entry (mk_inode E) (Directory Map.empty) d name fs0;
          fs1 = (case made of None \<Rightarrow> fs0 | Some fs' \<Rightarrow> fs');
          fs2 = mk_open_interference E fs1
      in case mk_error E of
           Some e \<Rightarrow> (Err (server_error (''failed to create secure directory: '' @ e)), fs0)
         | None \<Rightarrow>
             if made = None \<and> entry_of fs0 d name = None
             then (Err (server_error (''failed to create secure directory: '' @ mk_errno E)), fs0)
             else
               (case (if made = None then Ok () else mk_sync E) of
                  Inl e \<Rightarrow> (Err (server_error (''failed to sync secure parent directory: '' @ e)), fs1)
                | Inr _ \<Rightarrow>
                    (case openat_directory
                            \<lparr>call_fs = fs2, call_error = mk_open_error E, call_errno = mk_errno E\<rparr> d name of
                       Inl e \<Rightarrow> (Err (invalid_params (''directory component is unsafe: '' @ e)), fs2)
                     | Inr d' \<Rightarrow>
                         (case mk_chmod E of
                            Inl e \<Rightarrow> (Err (server_error (''failed to secure directory permissions: '' @ e)), fs2)
                          | Inr _ \<Rightarrow> (Ok d', fs2)))))"

text \<open>The loop over the components; \<open>None\<close> is the panic of \<open>unreachable!\<close>.\<close>

fun create_components ::
  "(nat \<Rightarrow> mkdir_env) \<Rightarrow> nat \<Rightarrow> nat \<Rightarrow> path \<Rightarrow> file_system \<Rightarrow> ((bridge_error + nat) \<times> file_system) option" where
  "create_components E k d [] fs = Some (Ok d, fs)"
| "create_components E k d (Normal name # rest) fs =
     (case create_component (E k) d name fs of
        (Inl e, fs') \<Rightarrow> Some (Err e, fs')
      | (Inr d', fs') \<Rightarrow> create_components E (Suc k) d' rest fs')"
| "create_components E k d (_ # rest) fs = None"

definition create_unix_directory_beneath ::
  "str + unit \<Rightarrow> (nat \<Rightarrow> mkdir_env) \<Rightarrow> nat \<Rightarrow> path \<Rightarrow> file_system
     \<Rightarrow> ((bridge_error + nat) \<times> file_system) option" where
  "create_unix_directory_beneath dup E base_handle relative fs =
     (case dup of
        Inl e \<Rightarrow> Some (Err (server_error (''failed to duplicate root descriptor: '' @ e)), fs)
      | Inr _ \<Rightarrow> create_components E 0 base_handle relative fs)"

record create_env =
  cf_inode :: nat
  cf_error :: "str option"
  cf_errno :: str

definition create_unix_secure_file ::
  "create_env \<Rightarrow> nat \<Rightarrow> str \<Rightarrow> file_system \<Rightarrow> (bridge_error + nat) \<times> file_system" where
  "create_unix_secure_file E d name fs =
     (case cf_error E of
        Some e \<Rightarrow> (Err (server_error (''failed to create secure file: '' @ e)), fs)
      | None \<Rightarrow>
          (case add_entry (cf_inode E) (Regular 1) d name fs of
             None \<Rightarrow> (Err (server_error (''failed to create secure file: '' @ cf_errno E)), fs)
           | Some fs' \<Rightarrow> (Ok (cf_inode E), fs')))"

record rename_env =
  rn_error :: "str option"
  rn_errno :: str
  rn_sync_source :: "str + unit"
  rn_sync_target :: "str + unit"

text \<open>
  An entry that goes away takes one link of its inode. \<open>unlinkat\<close> without flags and \<open>renameat\<close> of a
  file refuse to remove a directory: \<open>None\<close> is a call that fails. The callers rename files they have
  created, never directories; two names of one inode are left as they are, as POSIX asks.
\<close>

definition drop_link :: "nat \<Rightarrow> file_system \<Rightarrow> file_system" where
  "drop_link i fs = (case fs i of Some (Regular n) \<Rightarrow> fs(i \<mapsto> Regular (n - 1)) | _ \<Rightarrow> fs)"

definition is_directory :: "file_system \<Rightarrow> nat \<Rightarrow> bool" where
  "is_directory fs i = (case fs i of Some (Directory _) \<Rightarrow> True | _ \<Rightarrow> False)"

definition set_entry :: "nat \<Rightarrow> str \<Rightarrow> nat option \<Rightarrow> file_system \<Rightarrow> file_system" where
  "set_entry d name i fs =
     (case fs d of Some (Directory entries) \<Rightarrow> fs(d \<mapsto> Directory (entries(name := i))) | _ \<Rightarrow> fs)"

definition unlinkat :: "nat \<Rightarrow> str \<Rightarrow> file_system \<Rightarrow> file_system option" where
  "unlinkat d name fs =
     (case entry_of fs d name of
        None \<Rightarrow> None
      | Some i \<Rightarrow>
          if is_directory fs i \<or> CHR ''/'' \<in> set name then None
          else Some (drop_link i (set_entry d name None fs)))"

definition renameat :: "nat \<Rightarrow> str \<Rightarrow> nat \<Rightarrow> str \<Rightarrow> file_system \<Rightarrow> file_system option" where
  "renameat source source_name target target_name fs =
     (case entry_of fs source source_name of
        None \<Rightarrow> None
      | Some i \<Rightarrow>
          if is_directory fs i \<or> \<not> is_directory fs target
             \<or> CHR ''/'' \<in> set source_name \<union> set target_name then None
          else (let moved = set_entry target target_name (Some i) (set_entry source source_name None fs) in
            case entry_of fs target target_name of
              None \<Rightarrow> Some moved
            | Some j \<Rightarrow>
                if j = i then Some fs
                else if is_directory fs j then None
                else Some (drop_link j moved)))"

definition rename_unix_secure_file ::
  "rename_env \<Rightarrow> nat \<Rightarrow> str \<Rightarrow> nat \<Rightarrow> str \<Rightarrow> file_system \<Rightarrow> (bridge_error + unit) \<times> file_system" where
  "rename_unix_secure_file E source source_name target target_name fs =
     (case rn_error E of
        Some e \<Rightarrow> (Err (server_error (''failed to finalize secure file: '' @ e)), fs)
      | None \<Rightarrow>
          (case renameat source source_name target target_name fs of
             None \<Rightarrow> (Err (server_error (''failed to finalize secure file: '' @ rn_errno E)), fs)
           | Some fs' \<Rightarrow>
               (case rn_sync_source E of
                  Inl e \<Rightarrow> (Err (server_error (''failed to sync staging directory: '' @ e)), fs')
                | Inr _ \<Rightarrow>
                    (case rn_sync_target E of
                       Inl e \<Rightarrow> (Err (server_error (''failed to sync secure directory: '' @ e)), fs')
                     | Inr _ \<Rightarrow> (Ok (), fs')))))"

definition remove_unix_secure_file :: "bool \<Rightarrow> nat \<Rightarrow> str \<Rightarrow> file_system \<Rightarrow> file_system" where
  "remove_unix_secure_file fails d name fs =
     (if fails then fs else case unlinkat d name fs of None \<Rightarrow> fs | Some fs' \<Rightarrow> fs')"

section \<open>Starting\<close>

record path_policy =
  pp_root :: path
  pp_attachments_root :: path
  pp_allow_outside_root :: bool
  pp_root_handle :: nat
  pp_attachments_handle :: nat

text \<open>The answers of the file system to the calls of the start-up; how a path is displayed.\<close>

record root_env =
  ro_canonicalize :: "path \<Rightarrow> str + path"
  ro_is_dir :: "path \<Rightarrow> bool"
  ro_is_symlink :: "path \<Rightarrow> bool"
  ro_create_dir_all :: "path \<Rightarrow> str + unit"
  ro_mode :: "path \<Rightarrow> str + nat"
  ro_set_mode :: "path \<Rightarrow> nat \<Rightarrow> str + unit"
  ro_open_directory :: "path \<Rightarrow> str + nat"
  ro_display :: "path \<Rightarrow> str"

definition DEFAULT_ATTACHMENTS_DIR_NAME :: str where
  "DEFAULT_ATTACHMENTS_DIR_NAME = ''.dappercode-attachments''"

definition canonicalize_unix_workdir :: "root_env \<Rightarrow> path \<Rightarrow> str + path" where
  "canonicalize_unix_workdir E root =
     (case ro_canonicalize E root of
        Inl e \<Rightarrow> Err (''BRIDGE_WORKDIR is invalid or inaccessible ('' @ ro_display E root @ ''): '' @ e)
      | Inr canonical \<Rightarrow>
          if \<not> ro_is_dir E canonical
          then Err (''BRIDGE_WORKDIR must point to a directory (got: '' @ ro_display E canonical @ '')'')
          else Ok canonical)"

text \<open>The mode has no bits in \<open>0o077\<close> when it is a multiple of 64; \<open>0o700\<close> is 448.\<close>

definition create_private_unix_directory :: "root_env \<Rightarrow> path \<Rightarrow> str + unit" where
  "create_private_unix_directory E p =
     (if ro_is_symlink E p
      then Err (''BRIDGE_ATTACHMENTS_DIR must not be a symlink ('' @ ro_display E p @ '')'')
      else case ro_create_dir_all E p of
             Inl e \<Rightarrow> Err (''BRIDGE_ATTACHMENTS_DIR could not be created ('' @ ro_display E p @ ''): '' @ e)
           | Inr _ \<Rightarrow>
               (case ro_mode E p of
                  Inl e \<Rightarrow> Err (''BRIDGE_ATTACHMENTS_DIR is inaccessible: '' @ e)
                | Inr mode \<Rightarrow>
                    if mode mod 64 = 0 then Ok ()
                    else (case ro_set_mode E p 448 of
                            Inl e \<Rightarrow> Err (''BRIDGE_ATTACHMENTS_DIR could not be secured: '' @ e)
                          | Inr _ \<Rightarrow> Ok ())))"

definition initialize_unix_secure_roots :: "root_env \<Rightarrow> path \<Rightarrow> path option \<Rightarrow> str + (path \<times> path \<times> nat \<times> nat)" where
  "initialize_unix_secure_roots E root attachments_root =
     res_bind (canonicalize_unix_workdir E root) (\<lambda>root.
     let wanted = (case attachments_root of
           Some p \<Rightarrow> p | None \<Rightarrow> path_join root [Normal DEFAULT_ATTACHMENTS_DIR_NAME]) in
     res_bind (create_private_unix_directory E wanted) (\<lambda>_.
     case ro_canonicalize E wanted of
       Inl e \<Rightarrow> Err (''BRIDGE_ATTACHMENTS_DIR is invalid or inaccessible ('' @ ro_display E wanted @ ''): '' @ e)
     | Inr attachments \<Rightarrow>
         (case ro_open_directory E root of
            Inl e \<Rightarrow> Err (''failed to retain BRIDGE_WORKDIR descriptor: '' @ e)
          | Inr root_fd \<Rightarrow>
              (case ro_open_directory E attachments of
                 Inl e \<Rightarrow> Err (''failed to retain BRIDGE_ATTACHMENTS_DIR descriptor: '' @ e)
               | Inr attachments_fd \<Rightarrow> Ok (root, attachments, root_fd, attachments_fd)))))"

definition not_absolute :: "root_env \<Rightarrow> str \<Rightarrow> path \<Rightarrow> str" where
  "not_absolute E name p = name @ '' must be an absolute path (got: '' @ ro_display E p @ '')''"

definition validate_workdir :: "root_env \<Rightarrow> path \<Rightarrow> str + path" where
  "validate_workdir E root =
     (if \<not> path_is_absolute root then Err (not_absolute E ''BRIDGE_WORKDIR'' root)
      else canonicalize_unix_workdir E root)"

definition with_attachments_root :: "root_env \<Rightarrow> path \<Rightarrow> bool \<Rightarrow> path option \<Rightarrow> str + path_policy" where
  "with_attachments_root E root allow_outside_root attachments_root =
     (if \<not> path_is_absolute root then Err (not_absolute E ''BRIDGE_WORKDIR'' root)
      else if (\<exists>p \<in> set_option attachments_root. \<not> path_is_absolute p)
      then Err (not_absolute E ''BRIDGE_ATTACHMENTS_DIR'' (the attachments_root))
      else res_bind (initialize_unix_secure_roots E root attachments_root) (\<lambda>(r, a, rh, ah).
             Ok \<lparr>pp_root = r, pp_attachments_root = a, pp_allow_outside_root = allow_outside_root,
                 pp_root_handle = rh, pp_attachments_handle = ah\<rparr>))"

section \<open>Checks on names\<close>

definition path_component_is_valid :: "str \<Rightarrow> bool" where
  "path_component_is_valid name = True"

fun normal_name :: "path_component \<Rightarrow> str option" where
  "normal_name (Normal name) = Some name"
| "normal_name _ = None"

definition validate_relative_components :: "path \<Rightarrow> bridge_error + unit" where
  "validate_relative_components p =
     (if p = [] \<or> list_ex (\<lambda>c. normal_name c = None) p
      then Err (invalid_params ''path must be a relative child beneath BRIDGE_WORKDIR'')
      else if list_ex (\<lambda>c. case normal_name c of None \<Rightarrow> True | Some n \<Rightarrow> \<not> path_component_is_valid n) p
      then Err (invalid_params ''path contains a platform-unsafe component'')
      else Ok ())"

definition validate_child_name :: "str \<Rightarrow> bridge_error + unit" where
  "validate_child_name name =
     res_bind (validate_relative_components (path_of name)) (\<lambda>_.
       if length (path_of name) \<noteq> 1 then Err (invalid_params ''file name must be one path component'')
       else Ok ())"

definition relative_beneath :: "path \<Rightarrow> path \<Rightarrow> path option" where
  "relative_beneath p root = path_strip_prefix p root"

section \<open>Resolving paths\<close>

datatype path_kind = Any_kind | Directory_kind | File_kind

record resolve_env =
  rs_canonicalize :: "path \<Rightarrow> str + path"
  rs_metadata :: "path \<Rightarrow> str + inode"
  rs_display :: "path \<Rightarrow> str"

definition enforce_scope :: "path_policy \<Rightarrow> path \<Rightarrow> bool \<Rightarrow> bridge_error + unit" where
  "enforce_scope P canonical root_owned =
     (if \<not> (root_owned \<or> \<not> pp_allow_outside_root P) then Ok ()
      else if path_starts_with canonical (pp_root P) \<or> path_starts_with canonical (pp_attachments_root P)
      then Ok ()
      else Err (invalid_params ''path must stay within BRIDGE_WORKDIR''))"

fun kind_matches :: "path_kind \<Rightarrow> inode \<Rightarrow> bool" where
  "kind_matches Any_kind _ = True"
| "kind_matches Directory_kind n = (case n of Directory _ \<Rightarrow> True | _ \<Rightarrow> False)"
| "kind_matches File_kind n = (case n of Regular _ \<Rightarrow> True | _ \<Rightarrow> False)"

definition resolve_existing_from ::
  "path_policy \<Rightarrow> resolve_env \<Rightarrow> path \<Rightarrow> str \<Rightarrow> path_kind \<Rightarrow> bridge_error + path" where
  "resolve_existing_from P E base raw kind =
     (let trimmed = trim raw; candidate = path_join base (path_of trimmed) in
      if trimmed = [] then Err (invalid_params ''path must not be empty'')
      else case rs_canonicalize E candidate of
        Inl e \<Rightarrow> Err (invalid_params (''path is invalid or inaccessible ('' @ rs_display E candidate @ ''): '' @ e))
      | Inr canonical \<Rightarrow>
          res_bind (enforce_scope P canonical False) (\<lambda>_.
          case rs_metadata E canonical of
            Inl e \<Rightarrow> Err (invalid_params (''failed to inspect path ('' @ rs_display E canonical @ ''): '' @ e))
          | Inr node \<Rightarrow>
              if \<not> kind_matches kind node
              then Err (invalid_params (''path must point to '' @
                     (case kind of Directory_kind \<Rightarrow> ''a directory'' | _ \<Rightarrow> ''a file'')))
              else Ok canonical))"

definition resolve_existing :: "path_policy \<Rightarrow> resolve_env \<Rightarrow> str \<Rightarrow> path_kind \<Rightarrow> bridge_error + path" where
  "resolve_existing P E raw kind = resolve_existing_from P E (pp_root P) raw kind"

definition resolve_cwd :: "path_policy \<Rightarrow> resolve_env \<Rightarrow> str option \<Rightarrow> bridge_error + path" where
  "resolve_cwd P E raw =
     resolve_existing_from P E (pp_root P)
       (case raw of None \<Rightarrow> ''.'' | Some s \<Rightarrow> if trim s = [] then ''.'' else trim s) Directory_kind"

definition secure_relative_path :: "path_policy \<Rightarrow> str \<Rightarrow> bridge_error + (path \<times> nat \<times> path)" where
  "secure_relative_path P raw =
     (let requested = path_of (trim raw) in
      if trim raw = [] then Err (invalid_params ''path must not be empty'')
      else res_bind
        (if path_is_absolute requested then
           (case relative_beneath requested (pp_attachments_root P) of
              Some relative \<Rightarrow> Ok (pp_attachments_root P, pp_attachments_handle P, relative)
            | None \<Rightarrow>
                (case relative_beneath requested (pp_root P) of
                   None \<Rightarrow> Err (invalid_params ''path must stay beneath BRIDGE_WORKDIR'')
                 | Some relative \<Rightarrow> Ok (pp_root P, pp_root_handle P, relative)))
         else Ok (pp_root P, pp_root_handle P, requested))
        (\<lambda>(base_root, base_handle, relative).
           res_bind (validate_relative_components relative) (\<lambda>_. Ok (base_root, base_handle, relative))))"

definition open_regular_file_beneath :: "path_policy \<Rightarrow> open_env \<Rightarrow> str \<Rightarrow> bridge_error + (nat \<times> path)" where
  "open_regular_file_beneath P E raw =
     res_bind (secure_relative_path P raw) (\<lambda>(base_root, base_handle, relative).
       open_unix_regular_file_beneath E base_root base_handle relative)"

definition parent_for_browsing :: "path_policy \<Rightarrow> path \<Rightarrow> path option" where
  "parent_for_browsing P p =
     (if \<not> pp_allow_outside_root P \<and> p = pp_root P then None else path_parent_of p)"

section \<open>Attachments\<close>

definition secure_attachments_directory ::
  "path_policy \<Rightarrow> str + unit \<Rightarrow> (nat \<Rightarrow> mkdir_env) \<Rightarrow> path \<Rightarrow> file_system
     \<Rightarrow> ((bridge_error + nat) \<times> file_system) option" where
  "secure_attachments_directory P dup E relative fs =
     (case validate_relative_components relative of
        Inl e \<Rightarrow> Some (Err e, fs)
      | Inr _ \<Rightarrow> create_unix_directory_beneath dup E (pp_attachments_handle P) relative fs)"

definition secure_create_file :: "create_env \<Rightarrow> nat \<Rightarrow> str \<Rightarrow> file_system \<Rightarrow> (bridge_error + nat) \<times> file_system" where
  "secure_create_file E d name fs =
     (case validate_child_name name of
        Inl e \<Rightarrow> (Err e, fs)
      | Inr _ \<Rightarrow> create_unix_secure_file E d name fs)"

definition rename_to ::
  "rename_env \<Rightarrow> nat \<Rightarrow> str \<Rightarrow> nat \<Rightarrow> str \<Rightarrow> file_system \<Rightarrow> (bridge_error + unit) \<times> file_system" where
  "rename_to E source source_name target target_name fs =
     (case res_bind (validate_child_name source_name) (\<lambda>_. validate_child_name target_name) of
        Inl e \<Rightarrow> (Err e, fs)
      | Inr _ \<Rightarrow> rename_unix_secure_file E source source_name target target_name fs)"

definition secure_remove_file :: "bool \<Rightarrow> nat \<Rightarrow> str \<Rightarrow> file_system \<Rightarrow> file_system" where
  "secure_remove_file fails d name fs =
     (if is_ok (validate_child_name name) then remove_unix_secure_file fails d name fs else fs)"

definition rename_attachment_file ::
  "path_policy \<Rightarrow> str + unit \<Rightarrow> (nat \<Rightarrow> mkdir_env) \<Rightarrow> rename_env \<Rightarrow> nat \<Rightarrow> str \<Rightarrow> path \<Rightarrow> str \<Rightarrow> file_system
     \<Rightarrow> ((bridge_error + path) \<times> file_system) option" where
  "rename_attachment_file P dup E R source source_name target_relative target_name fs =
     (case secure_attachments_directory P dup E target_relative fs of
        None \<Rightarrow> None
      | Some (Inl e, fs1) \<Rightarrow> Some (Err e, fs1)
      | Some (Inr target, fs1) \<Rightarrow>
          (case rename_to R source source_name target target_name fs1 of
             (Inl e, fs2) \<Rightarrow> Some (Err e, fs2)
           | (Inr _, fs2) \<Rightarrow>
               Some (Ok (path_join (path_join (pp_attachments_root P) target_relative) (path_of target_name)), fs2)))"

section \<open>Lemmas\<close>

lemma path_of_normal:
  assumes "Normal n \<in> set (path_of s)"
  shows "n \<noteq> [] \<and> n \<noteq> ''.'' \<and> n \<noteq> ''..'' \<and> CHR ''/'' \<notin> set n"
proof -
  have "Normal n \<in> path_piece ` {p \<in> set (split_on (CHR ''/'') s). p \<noteq> [] \<and> p \<noteq> ''.''}"
    using assms by (auto simp: path_of_def Let_def split: if_splits)
  then show ?thesis by (auto simp: path_piece_def split_on_pieces split: if_splits)
qed

lemma validate_relative_components_Ok:
  "validate_relative_components p = Ok u \<longleftrightarrow> p \<noteq> [] \<and> (\<exists>names. p = map Normal names)"
proof -
  have "(\<forall>c \<in> set p. normal_name c \<noteq> None) \<longleftrightarrow> (\<exists>names. p = map Normal names)"
  proof
    assume "\<forall>c \<in> set p. normal_name c \<noteq> None"
    then have "map (Normal \<circ> the \<circ> normal_name) p = p"
      by (intro map_idI) (metis comp_apply normal_name.elims option.sel)
    then show "\<exists>names. p = map Normal names" by (metis map_map)
  qed auto
  then show ?thesis
    by (auto simp: validate_relative_components_def list_ex_iff path_component_is_valid_def split: option.splits)
qed

lemma path_strip_prefix_Some: "path_strip_prefix p base = Some rest \<longleftrightarrow> p = base @ rest"
  by (auto simp: path_strip_prefix_def path_starts_with_def) (metis append_take_drop_id)

lemma secure_relative_path_Ok:
  assumes "secure_relative_path P raw = Ok (base, h, relative)"
  shows "(base, h) \<in> {(pp_root P, pp_root_handle P), (pp_attachments_root P, pp_attachments_handle P)}"
    and "set relative \<subseteq> set (path_of (trim raw))" "relative \<noteq> []" "\<exists>names. relative = map Normal names"
proof -
  show "(base, h) \<in> {(pp_root P, pp_root_handle P), (pp_attachments_root P, pp_attachments_handle P)}"
    using assms by (auto simp: secure_relative_path_def Let_def res_bind_Ok split: if_splits option.splits)
  have "relative = path_of (trim raw) \<or> (\<exists>b. path_of (trim raw) = b @ relative)"
    using assms by (auto simp: secure_relative_path_def Let_def res_bind_Ok relative_beneath_def
        path_strip_prefix_Some split: if_splits option.splits)
  then show "set relative \<subseteq> set (path_of (trim raw))" by auto
  have "validate_relative_components relative = Ok ()"
    using assms by (auto simp: secure_relative_path_def Let_def res_bind_Ok split: if_splits option.splits)
  then show "relative \<noteq> []" "\<exists>names. relative = map Normal names"
    by (auto simp: validate_relative_components_Ok)
qed

text \<open>
  A walk from directory to directory, each step seen by its own call: the next inode is the entry
  of the current one under the given name, and it is a directory.
\<close>

fun walks :: "(nat \<Rightarrow> sys_call) \<Rightarrow> nat \<Rightarrow> nat \<Rightarrow> str list \<Rightarrow> nat \<Rightarrow> bool" where
  "walks calls k d [] d' = (d' = d)"
| "walks calls k d (n # ns) d' =
     (\<exists>i entries. entry_of (call_fs (calls k)) d n = Some i \<and> call_fs (calls k) i = Some (Directory entries)
        \<and> walks calls (Suc k) i ns d')"

lemma openat_nofollow_Ok:
  "openat_nofollow c d name = Ok i \<Longrightarrow>
     entry_of (call_fs c) d name = Some i \<and> call_fs c i \<noteq> None \<and> call_fs c i \<noteq> Some Symlink"
  by (auto simp: openat_nofollow_def split: option.splits inode.splits)

lemma openat_directory_Ok:
  "openat_directory c d name = Ok i \<Longrightarrow>
     entry_of (call_fs c) d name = Some i \<and> (\<exists>entries. call_fs c i = Some (Directory entries))"
proof -
  assume "openat_directory c d name = Ok i"
  then obtain j where j: "openat_nofollow c d name = Ok j"
      "(case call_fs c j of Some (Directory _) \<Rightarrow> Ok j | _ \<Rightarrow> Err (call_errno c)) = Ok i"
    by (auto simp: openat_directory_def res_bind_Ok)
  from j(2) obtain entries where "call_fs c j = Some (Directory entries)" "j = i"
    by (cases "call_fs c j"; cases "the (call_fs c j)") simp_all
  then show ?thesis using openat_nofollow_Ok [OF j(1)] by simp
qed

lemma inspect_opened_file_Ok: "inspect_opened_file c i = Ok u \<Longrightarrow> call_fs c i = Some (Regular 1)"
  by (auto simp: inspect_opened_file_def split: option.splits inode.splits if_splits)

lemma open_directories_Ok:
  "open_directories calls k d p = Ok (d', name) \<Longrightarrow>
     \<exists>names. p = map Normal (names @ [name]) \<and> walks calls k d names d'"
proof (induction calls k d p rule: open_directories.induct)
  case (2 calls k d n rest)
  show ?case
  proof (cases "rest = []")
    case True
    then show ?thesis using 2(2) by (intro exI [of _ "[]"]) simp
  next
    case False
    then obtain i where i: "openat_directory (calls k) d n = Ok i"
        "open_directories calls (Suc k) i rest = Ok (d', name)"
      using 2(2) by (auto split: sum.splits)
    then obtain names where "rest = map Normal (names @ [name])" "walks calls (Suc k) i names d'"
      using 2(1) [OF False i(1)] by blast
    then show ?thesis
      using openat_directory_Ok [OF i(1)] by (intro exI [of _ "n # names"]) auto
  qed
qed auto

lemma path_join_normal: "path_join base (map Normal names) = base @ map Normal names"
proof -
  have "filter (\<lambda>c. c \<noteq> Cur_dir) (map Normal names) = map Normal names" by (induction names) auto
  moreover have "\<not> path_is_absolute (map Normal names)"
    by (cases names) (simp_all add: path_is_absolute_def)
  ultimately show ?thesis by (simp add: path_join_def)
qed

section \<open>Properties\<close>

text \<open>
  C10: a file that is served lies beneath an allowed root, also while others rename files and plant
  links. A path that is accepted has only ordinary names after the root it belongs to; the file is
  reached from the directory the root was opened on at start-up by following these names one by
  one, each an entry of the directory reached so far and itself a directory, never a symbolic link;
  it is a regular file with a single link; and the path that is reported is the root followed by
  these names.
\<close>

theorem path_policy_read_contained:
  assumes "open_regular_file_beneath P E raw = Ok (i, p)"
  shows "\<exists>base h names name d.
    (base, h) \<in> {(pp_root P, pp_root_handle P), (pp_attachments_root P, pp_attachments_handle P)}
    \<and> p = base @ map Normal (names @ [name])
    \<and> (\<forall>n \<in> set (names @ [name]). n \<noteq> [] \<and> n \<noteq> ''.'' \<and> n \<noteq> ''..'' \<and> CHR ''/'' \<notin> set n)
    \<and> walks (oe_directory E) 0 h names d
    \<and> entry_of (call_fs (oe_final E)) d name = Some i \<and> call_fs (oe_final E) i \<noteq> Some Symlink
    \<and> call_fs (oe_stat E) i = Some (Regular 1)"
proof -
  obtain base h relative where s: "secure_relative_path P raw = Ok (base, h, relative)"
    and op: "open_unix_regular_file_beneath E base h relative = Ok (i, p)"
    using assms by (auto simp: open_regular_file_beneath_def res_bind_Ok)
  note S = secure_relative_path_Ok [OF s]
  obtain d name where d: "open_directories (oe_directory E) 0 h relative = Ok (d, name)"
      "openat_nofollow (oe_final E) d name = Ok i" "call_fs (oe_stat E) i = Some (Regular 1)"
      "p = path_join base relative"
    using op inspect_opened_file_Ok
    by (auto simp: open_unix_regular_file_beneath_def res_bind_Ok res_map_err_Ok)
  obtain names where n: "relative = map Normal (names @ [name])" "walks (oe_directory E) 0 h names d"
    using open_directories_Ok [OF d(1)] by blast
  have "\<forall>n \<in> set (names @ [name]). Normal n \<in> set (path_of (trim raw))"
    using S(2) n(1) by auto
  then show ?thesis
    using S(1) n d openat_nofollow_Ok [OF d(2)] path_of_normal
    by (intro exI [of _ base] exI [of _ h] exI [of _ names] exI [of _ name] exI [of _ d])
      (auto simp: path_join_normal simp del: map_append)
qed

theorem path_policy_read_contained_witness:
  "\<exists>P E i p. open_regular_file_beneath P E ''docs/a.txt'' = Ok (i, p) \<and> p = path_of ''/w/docs/a.txt''
    \<and> (\<exists>base h names name d.
        (base, h) \<in> {(pp_root P, pp_root_handle P), (pp_attachments_root P, pp_attachments_handle P)}
        \<and> p = base @ map Normal (names @ [name])
        \<and> walks (oe_directory E) 0 h names d
        \<and> entry_of (call_fs (oe_final E)) d name = Some i
        \<and> call_fs (oe_stat E) i = Some (Regular 1))"
proof -
  define fs :: file_system where
    "fs = [0 \<mapsto> Directory [''docs'' \<mapsto> 1], 1 \<mapsto> Directory [''a.txt'' \<mapsto> 2], 2 \<mapsto> Regular 1, 9 \<mapsto> Directory Map.empty]"
  define c where "c = \<lparr>call_fs = fs, call_error = None, call_errno = ''ENOENT''\<rparr>"
  define E where "E = \<lparr>oe_dup = Ok (), oe_directory = (\<lambda>_. c), oe_final = c, oe_stat = c\<rparr>"
  define P where "P = \<lparr>pp_root = path_of ''/w'', pp_attachments_root = path_of ''/w/.att'',
    pp_allow_outside_root = False, pp_root_handle = 0, pp_attachments_handle = 9\<rparr>"
  have paths: "trim ''docs/a.txt'' = ''docs/a.txt''" "path_of ''docs/a.txt'' = [Normal ''docs'', Normal ''a.txt'']"
      "path_of ''/w'' = [Root_dir, Normal ''w'']" "path_of ''/w/docs/a.txt'' = [Root_dir, Normal ''w'', Normal ''docs'', Normal ''a.txt'']"
    by code_simp+
  have run: "open_regular_file_beneath P E ''docs/a.txt'' = Ok (2, path_of ''/w/docs/a.txt'')"
    by (simp add: open_regular_file_beneath_def secure_relative_path_def paths path_is_absolute_def
        validate_relative_components_def path_component_is_valid_def open_unix_regular_file_beneath_def
        openat_directory_def openat_nofollow_def entry_of_def inspect_opened_file_def path_join_def
        E_def P_def c_def fs_def)
  have "\<exists>base h names name d.
        (base, h) \<in> {(pp_root P, pp_root_handle P), (pp_attachments_root P, pp_attachments_handle P)}
        \<and> path_of ''/w/docs/a.txt'' = base @ map Normal (names @ [name])
        \<and> walks (oe_directory E) 0 h names d
        \<and> entry_of (call_fs (oe_final E)) d name = Some 2
        \<and> call_fs (oe_stat E) 2 = Some (Regular 1)"
    using path_policy_read_contained [OF run] by (elim exE conjE) (intro exI conjI; assumption)
  with run show ?thesis
    by (intro exI [of _ P] exI [of _ E] exI [of _ 2] exI [of _ "path_of ''/w/docs/a.txt''"]) simp
qed

text \<open>
  A path a client names is resolved within the allowed roots, unless the operator allows more.
  The result is what the file system resolved the request to, of the requested kind, and starts
  with the components of the working directory or of the attachments directory; a path that would
  leave them is refused whatever symbolic links it goes through.
\<close>

theorem path_policy_resolve_scoped:
  assumes "resolve_existing_from P E base raw kind = Ok p"
  shows "rs_canonicalize E (path_join base (path_of (trim raw))) = Ok p \<and> trim raw \<noteq> []
    \<and> (\<exists>node. rs_metadata E p = Ok node \<and> kind_matches kind node)
    \<and> (\<not> pp_allow_outside_root P \<longrightarrow>
         (\<exists>rest. p = pp_root P @ rest \<or> p = pp_attachments_root P @ rest))"
proof -
  have scope: "\<exists>rest. p = pp_root P @ rest \<or> p = pp_attachments_root P @ rest"
    if "enforce_scope P p False = Ok ()" "\<not> pp_allow_outside_root P"
    using that by (auto simp: enforce_scope_def path_starts_with_def split: if_splits)
      (metis append_take_drop_id)+
  show ?thesis
    using assms scope
    by (auto simp: resolve_existing_from_def Let_def res_bind_Ok split: if_splits sum.splits)
qed

theorem path_policy_resolve_scoped_witness:
  "\<exists>P E p. resolve_existing_from P E (pp_root P) ''link'' Any_kind = Ok p \<and> p = path_of ''/w/docs''
    \<and> (\<exists>rest. p = pp_root P @ rest \<or> p = pp_attachments_root P @ rest)"
proof -
  define P where "P = \<lparr>pp_root = path_of ''/w'', pp_attachments_root = path_of ''/att'',
    pp_allow_outside_root = False, pp_root_handle = 0, pp_attachments_handle = 9\<rparr>"
  define E where "E = \<lparr>rs_canonicalize = (\<lambda>p. if p = path_of ''/w/link'' then Ok (path_of ''/w/docs'') else Err ''ENOENT''),
    rs_metadata = (\<lambda>_. Ok (Directory Map.empty)), rs_display = (\<lambda>_. ''?'')\<rparr>"
  have paths: "trim ''link'' = ''link''" "path_of ''link'' = [Normal ''link'']"
      "path_of ''/w'' = [Root_dir, Normal ''w'']" "path_of ''/w/link'' = [Root_dir, Normal ''w'', Normal ''link'']"
      "path_of ''/w/docs'' = [Root_dir, Normal ''w'', Normal ''docs'']"
    by code_simp+
  have run: "resolve_existing_from P E (pp_root P) ''link'' Any_kind = Ok (path_of ''/w/docs'')"
    by (simp add: resolve_existing_from_def paths path_join_def path_is_absolute_def enforce_scope_def
        path_starts_with_def P_def E_def)
  have "\<not> pp_allow_outside_root P" by (simp add: P_def)
  then have "\<exists>rest. path_of ''/w/docs'' = pp_root P @ rest \<or> path_of ''/w/docs'' = pp_attachments_root P @ rest"
    using path_policy_resolve_scoped [OF run] by (elim conjE) (drule mp; assumption)
  with run show ?thesis
    by (intro exI [of _ P] exI [of _ E] exI [of _ "path_of ''/w/docs''"]) simp
qed

end
