(* ===== verification/Git_Terminal.thy ===== *)
theory Git_Terminal
  imports Path_Policy Rust_Text
begin

text \<open>
  \<open>services/rust-bridge/src/services/terminal.rs\<close>: how the bridge runs \<open>git\<close>. Arguments that pin
  the configuration come first, the environment of the bridge is replaced, the output is read up to a
  limit. The git program and whatever else happens on the machine are the parameter \<open>gv_spawn\<close>, which
  takes the world from one command to the next; the state keeps the log of all commands with what
  they gave.
\<close>

section \<open>Paths as text\<close>

fun component_text :: "path_component \<Rightarrow> str" where
  "component_text Root_dir = ''/''"
| "component_text Cur_dir = ''.''"
| "component_text Parent_dir = ''..''"
| "component_text (Normal n) = n"

definition path_text :: "path \<Rightarrow> str" where
  "path_text p =
     (if path_is_absolute p then CHR ''/'' # join_on (CHR ''/'') (map component_text (tl p))
      else join_on (CHR ''/'') (map component_text p))"

definition to_string_lossy :: "path \<Rightarrow> str" where
  "to_string_lossy p = from_utf8_lossy (path_text p)"

section \<open>The command line\<close>

definition GIT_COMMAND_MAX_OUTPUT_BYTES :: nat where
  "GIT_COMMAND_MAX_OUTPUT_BYTES = 2 * 1024 * 1024"

definition git_global_config_path :: str where
  "git_global_config_path = ''/dev/null''"

definition hardened_git_args :: "str list \<Rightarrow> str list" where
  "hardened_git_args args =
     [''--no-pager'',
      ''-c'', ''core.hooksPath='' @ git_global_config_path,
      ''-c'', ''core.fsmonitor=false'',
      ''-c'', ''commit.gpgSign=false'',
      ''-c'', ''diff.external='',
      ''-c'', ''http.sslVerify=true'',
      ''-c'', ''http.proxy='',
      ''-c'', ''https.proxy='',
      ''-c'', ''core.gitProxy='',
      ''-c'', ''protocol.allow=never'',
      ''-c'', ''protocol.https.allow=always'',
      ''-c'', ''protocol.ext.allow=never'',
      ''-c'', ''protocol.file.allow=never'',
      ''-c'', ''credential.helper='',
      ''-c'', ''credential.useHttpPath=true''] @ args"

fun pinned_keys :: "str list \<Rightarrow> str list" where
  "pinned_keys [] = []"
| "pinned_keys (argument # rest) =
     (if argument \<noteq> ''-c'' then pinned_keys rest
      else (case rest of
              [] \<Rightarrow> []
            | setting # rest' \<Rightarrow>
                (case split_once (CHR ''='') setting of
                   None \<Rightarrow> pinned_keys rest'
                 | Some (key, _) \<Rightarrow>
                     (if to_ascii_lowercase key \<noteq> ''credential.helper''
                      then to_ascii_lowercase key # pinned_keys rest' else pinned_keys rest'))))"

definition pinned_git_config_keys :: "str list" where
  "pinned_git_config_keys = pinned_keys (hardened_git_args [])"

section \<open>Reading the output\<close>

text \<open>
  One turn of the loop per chunk that a read delivers. An empty chunk is the end of the stream; an
  error of the stream ends the loop in the same way.
\<close>

fun read_stream_loop :: "nat \<Rightarrow> str \<Rightarrow> bool \<Rightarrow> str list \<Rightarrow> str \<times> bool" where
  "read_stream_loop max_bytes bytes truncated [] = (bytes, truncated)"
| "read_stream_loop max_bytes bytes truncated (chunk # chunks) =
     (if chunk = [] then (bytes, truncated)
      else if length bytes < max_bytes
      then let remaining = max_bytes - length bytes; to_take = min remaining (length chunk)
           in read_stream_loop max_bytes (bytes @ take to_take chunk)
                (truncated \<or> to_take < length chunk) chunks
      else read_stream_loop max_bytes bytes True chunks)"

definition read_stream_limited :: "str list \<Rightarrow> nat \<Rightarrow> str \<times> bool" where
  "read_stream_limited chunks max_bytes = read_stream_loop max_bytes [] False chunks"

definition truncation_mark :: str where
  "truncation_mark = ''[output truncated]''"

definition finalize_output :: "str \<Rightarrow> bool \<Rightarrow> str" where
  "finalize_output bytes truncated =
     (let output = trim_end (from_utf8_lossy bytes) in
      if truncated then (if output \<noteq> [] then output @ [LF] else output) @ truncation_mark else output)"

section \<open>Running a command\<close>

record git_command =
  gc_args :: "str list"
  gc_cwd :: path
  gc_env :: "(str \<times> str) list"
  gc_timeout_ms :: nat

record git_command_output =
  out_code :: "int option"
  out_stdout :: str
  out_stderr :: str

text \<open>
  A child: the chunks of its two streams, and how waiting for it ends (\<open>None\<close>: the time is over).
\<close>

record git_child =
  ch_stdout :: "str list"
  ch_stderr :: "str list"
  ch_wait :: "(str + int option) option"

record url =
  url_scheme :: str
  url_host :: "str option"
  url_username :: str
  url_password :: "str option"
  url_fragment :: "str option"

text \<open>
  What is outside: the policy, the file system in each world, the processes, the environment of the
  bridge, the URL parser and the JSON printer.
\<close>

record 'w git_env =
  gv_policy :: path_policy
  gv_files :: "'w \<Rightarrow> resolve_env"
  gv_exists :: "'w \<Rightarrow> path \<Rightarrow> bool"
  gv_limiter_closed :: "'w \<Rightarrow> bool"
  gv_spawn :: "git_command \<Rightarrow> 'w \<Rightarrow> (str + git_child) \<times> 'w"
  gv_variable :: "str \<Rightarrow> str option"
  gv_parse_url :: "str \<Rightarrow> url option"
  gv_json :: "json \<Rightarrow> str"

record 'w git_state =
  gs_world :: 'w
  gs_log :: "(git_command \<times> (bridge_error + git_command_output)) list"

type_synonym ('w, 'a) git_action = "'w git_state \<Rightarrow> (bridge_error + 'a) \<times> 'w git_state"

definition git_return :: "bridge_error + 'a \<Rightarrow> ('w, 'a) git_action" where
  "git_return r s = (r, s)"

definition git_bind :: "('w, 'a) git_action \<Rightarrow> ('a \<Rightarrow> ('w, 'b) git_action) \<Rightarrow> ('w, 'b) git_action" where
  "git_bind m f s = (case m s of (Inl e, s') \<Rightarrow> (Inl e, s') | (Inr x, s') \<Rightarrow> f x s')"

definition git_catch ::
  "('w, 'a) git_action \<Rightarrow> ('a \<Rightarrow> ('w, 'b) git_action) \<Rightarrow> (bridge_error \<Rightarrow> ('w, 'b) git_action) \<Rightarrow> ('w, 'b) git_action" where
  "git_catch m f g s = (case m s of (Inl e, s') \<Rightarrow> g e s' | (Inr x, s') \<Rightarrow> f x s')"

definition git_environment :: "(str \<Rightarrow> str option) \<Rightarrow> (str \<times> str) list" where
  "git_environment variable =
     [(''GIT_TERMINAL_PROMPT'', ''0''), (''GIT_CONFIG_NOSYSTEM'', ''1''),
      (''GIT_CONFIG_GLOBAL'', git_global_config_path)] @
     List.map_filter (\<lambda>name. map_option (Pair name) (variable name))
       [''PATH'', ''HOME'', ''LANG'', ''LC_ALL'', ''TMPDIR'', ''SystemRoot'']"

definition output_of_child :: "git_child \<Rightarrow> bridge_error + git_command_output" where
  "output_of_child ch =
     (let finish = (\<lambda>exit_code.
        let (out, out_truncated) = read_stream_limited (ch_stdout ch) GIT_COMMAND_MAX_OUTPUT_BYTES;
            (err, err_truncated) = read_stream_limited (ch_stderr ch) GIT_COMMAND_MAX_OUTPUT_BYTES
        in Ok \<lparr>out_code = exit_code, out_stdout = finalize_output out out_truncated,
               out_stderr = finalize_output err err_truncated\<rparr>)
      in case ch_wait ch of
           Some (Inl e) \<Rightarrow> Err (server_error (''failed to wait for git: '' @ e))
         | Some (Inr exit_code) \<Rightarrow> finish exit_code
         | None \<Rightarrow> finish None)"

definition git_command_of :: "'w git_env \<Rightarrow> str list \<Rightarrow> path \<Rightarrow> nat option \<Rightarrow> git_command" where
  "git_command_of E args cwd timeout_ms =
     \<lparr>gc_args = hardened_git_args args, gc_cwd = cwd, gc_env = git_environment (gv_variable E),
      gc_timeout_ms = min 120000 (max 100 (case timeout_ms of None \<Rightarrow> 30000 | Some t \<Rightarrow> t))\<rparr>"

definition execute_git :: "'w git_env \<Rightarrow> str list \<Rightarrow> path \<Rightarrow> nat option \<Rightarrow> ('w, git_command_output) git_action" where
  "execute_git E args cwd timeout_ms s =
     (case resolve_existing (gv_policy E) (gv_files E (gs_world s)) (to_string_lossy cwd) Directory_kind of
        Inl e \<Rightarrow> (Err e, s)
      | Inr cwd \<Rightarrow>
          if gv_limiter_closed E (gs_world s) then (Err (server_error ''git concurrency limiter is closed''), s)
          else
            let command = git_command_of E args cwd timeout_ms;
                (spawned, w) = gv_spawn E command (gs_world s);
                result = (case spawned of
                    Inl e \<Rightarrow> Err (server_error (''failed to spawn git: '' @ e))
                  | Inr ch \<Rightarrow> output_of_child ch)
            in (result, \<lparr>gs_world = w, gs_log = gs_log s @ [(command, result)]\<rparr>))"

section \<open>Lemmas\<close>

lemma pinned_git_config_keys_eq:
  "pinned_git_config_keys =
     [''core.hookspath'', ''core.fsmonitor'', ''commit.gpgsign'', ''diff.external'', ''http.sslverify'',
      ''http.proxy'', ''https.proxy'', ''core.gitproxy'', ''protocol.allow'', ''protocol.https.allow'',
      ''protocol.ext.allow'', ''protocol.file.allow'', ''credential.usehttppath'']"
  by code_simp

lemma read_stream_loop_spec:
  "length bytes \<le> max_bytes \<Longrightarrow>
   read_stream_loop max_bytes bytes truncated chunks =
     (let stream = concat (takeWhile (\<lambda>c. c \<noteq> []) chunks)
      in (bytes @ take (max_bytes - length bytes) stream,
          truncated \<or> max_bytes < length bytes + length stream))"
proof (induction chunks arbitrary: bytes truncated)
  case (Cons chunk chunks)
  consider "chunk = []" | "chunk \<noteq> []" "length bytes = max_bytes" | "chunk \<noteq> []" "length bytes < max_bytes"
    using Cons.prems by linarith
  then show ?case
  proof cases
    case 3
    let ?n = "min (max_bytes - length bytes) (length chunk)"
    have "length (bytes @ take ?n chunk) \<le> max_bytes" using 3 by auto
    note Cons.IH [OF this]
    then show ?thesis using 3 by (auto simp: Let_def min_def)
  qed (use Cons.prems in \<open>auto simp: Cons.IH Let_def\<close>)
qed (simp add: Let_def)

lemma git_bind_Ok:
  "git_bind m f s = (Ok y, s') \<longleftrightarrow> (\<exists>x s1. m s = (Ok x, s1) \<and> f x s1 = (Ok y, s'))"
  by (auto simp: git_bind_def split: prod.splits sum.splits)

lemma execute_git_cases:
  "execute_git E args cwd t s = (r, s') \<Longrightarrow>
     s' = s \<and> \<not> is_ok r
     \<or> (\<exists>c. resolve_existing (gv_policy E) (gv_files E (gs_world s)) (to_string_lossy cwd) Directory_kind = Ok c
          \<and> gs_log s' = gs_log s @ [(git_command_of E args c t, r)])"
  by (auto simp: execute_git_def Let_def split: sum.splits if_splits prod.splits)

lemma git_command_of_eq [simp]:
  "git_command_of E args c t = git_command_of E args' c' t \<longleftrightarrow> args = args' \<and> c = c'"
  by (auto simp: git_command_of_def hardened_git_args_def)

end
