(* ===== verification/Git_Config.thy ===== *)
theory Git_Config
  imports Git_Terminal
begin

text \<open>
  The checks of \<open>services/rust-bridge/src/services/git.rs\<close> on what a repository or a client may bring
  along: the effective configuration, the transport configuration, the environment of the bridge,
  the URLs and names of remotes, branch targets, paths and directory names.
\<close>

section \<open>Environment\<close>

definition UNSAFE_GIT_ENVIRONMENT :: "str list" where
  "UNSAFE_GIT_ENVIRONMENT =
     [''GIT_CONFIG_COUNT'', ''GIT_CONFIG_GLOBAL'', ''GIT_CONFIG_KEY_0'', ''GIT_CONFIG_NOSYSTEM'',
      ''GIT_CONFIG_SYSTEM'', ''GIT_CONFIG_VALUE_0'', ''GIT_HTTP_PROXY_AUTHMETHOD'', ''GIT_PROXY_COMMAND'',
      ''GIT_SSL_CAINFO'', ''GIT_SSL_CAPATH'', ''GIT_SSL_CERT'', ''GIT_SSL_CIPHER_LIST'', ''GIT_SSL_KEY'',
      ''GIT_SSL_NO_VERIFY'', ''CURL_CA_BUNDLE'', ''SSL_CERT_DIR'', ''SSL_CERT_FILE'', ''ALL_PROXY'',
      ''HTTPS_PROXY'', ''HTTP_PROXY'', ''NO_PROXY'', ''all_proxy'', ''https_proxy'', ''http_proxy'', ''no_proxy'']"

definition validate_credential_environment_with :: "(str \<Rightarrow> bool) \<Rightarrow> bridge_error + unit" where
  "validate_credential_environment_with is_set =
     guard_err (list_ex is_set UNSAFE_GIT_ENVIRONMENT)
       (forbidden ''unsafe_git_environment''
          ''Credentialed Git operations do not permit process-level proxy or TLS overrides.'')"

section \<open>Transport configuration\<close>

definition transport_malformed :: bridge_error where
  "transport_malformed = server_error ''git transport configuration output was malformed''"

definition split_setting :: "str \<Rightarrow> str \<times> str" where
  "split_setting setting =
     (case split_once LF setting of
        Some kv \<Rightarrow> kv
      | None \<Rightarrow> (case split_once (CHR '' '') setting of Some kv \<Rightarrow> kv | None \<Rightarrow> (setting, [])))"

definition transport_allowed :: "str \<Rightarrow> bool" where
  "transport_allowed setting =
     (let (k, v) = split_setting setting; key = to_ascii_lowercase (trim k); val = trim v
      in key \<in> set pinned_git_config_keys
         \<or> key = ''http.sslverify'' \<and> eq_ignore_ascii_case val ''true'')"

fun transport_fields :: "str list \<Rightarrow> bridge_error + unit" where
  "transport_fields [] = Ok ()"
| "transport_fields [origin] = Err transport_malformed"
| "transport_fields (origin # setting # rest) =
     (if trim origin = ''command line:'' then transport_fields rest
      else if \<not> transport_allowed setting
      then Err (forbidden ''unsafe_git_configuration''
             ''Credentialed Git operations reject proxy, TLS, credential-helper, and URL-rewrite overrides.'')
      else transport_fields rest)"

definition validate_transport_config_output :: "str \<Rightarrow> bridge_error + unit" where
  "validate_transport_config_output raw = transport_fields (filter (\<lambda>f. f \<noteq> []) (split_on NUL raw))"

section \<open>Effective configuration\<close>

definition executable_key :: "str \<Rightarrow> str \<Rightarrow> bool" where
  "executable_key key val =
     (key = ''core.hookspath'' \<or> key = ''core.fsmonitor'' \<or> key = ''core.sshcommand'' \<or> key = ''core.editor''
      \<or> key = ''sequence.editor''
      \<or> starts_with key ''credential.'' \<and> ends_with key ''helper''
      \<or> starts_with key ''filter.'' \<and> list_ex (ends_with key) [''.clean'', ''.smudge'', ''.process'']
      \<or> starts_with key ''diff.'' \<and> list_ex (ends_with key) [''.command'', ''.textconv'']
      \<or> starts_with key ''merge.'' \<and> ends_with key ''.driver''
      \<or> starts_with key ''alias.'' \<and> starts_with val ''!'')"

definition unsafe_transport :: "str \<Rightarrow> str \<Rightarrow> bool" where
  "unsafe_transport key val =
     (starts_with key ''http.'' \<and> \<not> (key = ''http.sslverify'' \<and> eq_ignore_ascii_case val ''true'')
      \<or> starts_with key ''https.'' \<or> key = ''core.gitproxy'' \<or> starts_with key ''protocol.''
      \<or> starts_with key ''remote.'' \<and> (ends_with key ''.proxy'' \<or> ends_with key ''.vcs'')
      \<or> starts_with key ''url.'' \<and> ends_with key ''.insteadof'')"

text \<open>\<open>chunks_exact(3)\<close>: a scope, an origin, a setting.\<close>

fun records_of :: "str list \<Rightarrow> (str \<times> str \<times> str) list" where
  "records_of (scope # origin # setting # rest) = (scope, origin, setting) # records_of rest"
| "records_of _ = []"

definition included_config_was_inspected ::
  "(path \<Rightarrow> str + path) \<Rightarrow> str \<Rightarrow> str \<Rightarrow> (str \<times> str \<times> str) list \<Rightarrow> bool" where
  "included_config_was_inspected canonicalize origin val records =
     (case strip_prefix origin ''file:'' of
        None \<Rightarrow> False
      | Some origin_path \<Rightarrow>
          let include_path = path_of val;
              resolved = (if path_is_absolute include_path then include_path
                else path_join (case path_parent_of (path_of origin_path) of None \<Rightarrow> [] | Some p \<Rightarrow> p) include_path)
          in case canonicalize resolved of
               Inl _ \<Rightarrow> False
             | Inr canonical \<Rightarrow>
                 list_ex (\<lambda>(_, o', _).
                   case strip_prefix o' ''file:'' of
                     None \<Rightarrow> False
                   | Some p \<Rightarrow> canonicalize (path_of p) = Ok canonical) records)"

definition unsafe_setting ::
  "(path \<Rightarrow> str + path) \<Rightarrow> (str \<times> str \<times> str) list \<Rightarrow> str \<Rightarrow> str \<Rightarrow> str \<Rightarrow> bool" where
  "unsafe_setting canonicalize records origin key val =
     (executable_key key val \<or> unsafe_transport key val
      \<or> (key = ''include.path'' \<or> starts_with key ''includeif.'')
        \<and> \<not> included_config_was_inspected canonicalize origin val records)"

definition config_malformed :: bridge_error where
  "config_malformed = server_error ''git repository configuration output was malformed''"

definition unsafe_configuration :: bridge_error where
  "unsafe_configuration =
     forbidden ''unsafe_git_configuration''
       ''Git configuration contains executable helpers, unsafe includes, or transport overrides.''"

definition validate_record ::
  "(path \<Rightarrow> str + path) \<Rightarrow> (str \<times> str \<times> str) list \<Rightarrow> str \<times> str \<times> str \<Rightarrow> bridge_error + unit" where
  "validate_record canonicalize records record =
     (case record of (scope, o', setting) \<Rightarrow>
        let origin = trim o' in
        case split_once LF setting of
          None \<Rightarrow> Err config_malformed
        | Some (k, v) \<Rightarrow>
            if origin = ''command line:'' then Ok ()
            else let key = to_ascii_lowercase (trim k); val = trim v in
              if key \<in> set pinned_git_config_keys then Ok ()
              else guard_err (unsafe_setting canonicalize records origin key val) unsafe_configuration)"

definition validate_effective_git_config :: "(path \<Rightarrow> str + path) \<Rightarrow> str \<Rightarrow> bridge_error + unit" where
  "validate_effective_git_config canonicalize raw =
     (let pieces = split_on NUL raw;
          kept = (if last pieces = [] then butlast pieces else pieces);
          records = records_of kept
      in if length kept mod 3 \<noteq> 0 then Err config_malformed
         else try_for_each (validate_record canonicalize records) records)"

section \<open>Remotes, branches, paths\<close>

definition validate_remote_url :: "(str \<Rightarrow> url option) \<Rightarrow> str \<Rightarrow> bridge_error + str" where
  "validate_remote_url parse_url raw =
     (case parse_url (trim raw) of
        None \<Rightarrow> Err (invalid_params ''Git remotes must use an explicit HTTPS URL'')
      | Some parsed \<Rightarrow>
          if url_scheme parsed \<noteq> ''https'' \<or> url_host parsed = None \<or> url_host parsed = Some []
             \<or> url_username parsed \<noteq> [] \<or> url_password parsed \<noteq> None \<or> url_fragment parsed \<noteq> None
          then Err (forbidden ''unsafe_git_remote''
                 ''Git remotes must use HTTPS without embedded credentials or fragments.'')
          else Ok (trim raw))"

definition git_failure_message :: "str \<Rightarrow> str \<Rightarrow> str \<Rightarrow> str" where
  "git_failure_message err out fallback =
     (if err \<noteq> [] then err else if out \<noteq> [] then out else fallback)"

definition validate_remote_name :: "str \<Rightarrow> bridge_error + unit" where
  "validate_remote_name raw =
     guard_err (raw = [] \<or> starts_with raw ''-''
                \<or> \<not> list_all (\<lambda>c. is_ascii_alphanumeric c \<or> c \<in> set ''._-/'') raw)
       (forbidden ''unsafe_git_remote'' ''Git remote names must not contain option or control syntax.'')"

definition normalize_git_branch_target :: "str \<Rightarrow> bridge_error + str" where
  "normalize_git_branch_target raw_branch =
     (let target = trim raw_branch in
      if target = [] then Err (invalid_params ''branch must not be empty'')
      else if starts_with target ''-'' then Err (invalid_params ''branch must not start with a dash'')
      else if NUL \<in> set target \<or> LF \<in> set target \<or> CR \<in> set target
      then Err (invalid_params ''branch contains invalid characters'')
      else Ok target)"

text \<open>
  \<open>normalize_path\<close> of \<open>interaction_validation.rs\<close>: \<open>pop\<close> leaves a root and an empty path alone, \<open>push\<close>
  of a root replaces what was there.
\<close>

fun normalize_component :: "path \<Rightarrow> path_component \<Rightarrow> path" where
  "normalize_component acc Cur_dir = acc"
| "normalize_component acc Parent_dir = (case path_parent_of acc of None \<Rightarrow> acc | Some p \<Rightarrow> p)"
| "normalize_component acc Root_dir = [Root_dir]"
| "normalize_component acc (Normal n) = acc @ [Normal n]"

definition normalize_path :: "path \<Rightarrow> path" where
  "normalize_path p = foldl normalize_component [] p"

definition outside_repository :: bridge_error where
  "outside_repository = invalid_params ''path must stay within repository root''"

definition resolve_repo_relative_path :: "str \<Rightarrow> path \<Rightarrow> bridge_error + str" where
  "resolve_repo_relative_path raw_path repo_path =
     (let trimmed = trim raw_path; requested = path_of trimmed;
          normalized_repo = normalize_path repo_path;
          normalized_target = normalize_path (path_join repo_path requested)
      in if trimmed = [] then Err (invalid_params ''path must not be empty'')
         else if path_is_absolute requested then Err (invalid_params ''path must be relative to repository'')
         else if \<not> path_starts_with normalized_target normalized_repo then Err outside_repository
         else case path_strip_prefix normalized_target normalized_repo of
                None \<Rightarrow> Err outside_repository
              | Some relative \<Rightarrow>
                  if relative = [] then Err (invalid_params ''path must point to a file'')
                  else Ok (to_string_lossy relative))"

text \<open>The path of a non-empty text has a first component, so the \<open>expect\<close> of the source holds.\<close>

definition resolve_clone_directory_name :: "str \<Rightarrow> bridge_error + str" where
  "resolve_clone_directory_name raw_name =
     (let trimmed = trim raw_name; requested = path_of trimmed in
      if trimmed = [] then Err (invalid_params ''directoryName must not be empty'')
      else if path_is_absolute requested
      then Err (invalid_params ''directoryName must be a folder name, not a path'')
      else if tl requested \<noteq> [] then Err (invalid_params ''directoryName must be a single folder name'')
      else if normal_name (hd requested) = None
      then Err (invalid_params ''directoryName must be a valid folder name'')
      else Ok trimmed)"

definition select_default_remote_name :: "str \<Rightarrow> str option" where
  "select_default_remote_name raw =
     (let remotes = filter (\<lambda>l. l \<noteq> []) (map trim (lines_of raw)) in
      if remotes = [] then None
      else (case find (\<lambda>r. eq_ignore_ascii_case r ''origin'') remotes of
              Some r \<Rightarrow> Some r | None \<Rightarrow> Some (hd remotes)))"

section \<open>Lemmas\<close>

lemma path_of_nonempty:
  assumes "s \<noteq> []"
  shows "path_of s \<noteq> []"
proof (cases "hd s = CHR ''/''")
  case True
  then show ?thesis using assms by (simp add: path_of_def Let_def)
next
  case False
  obtain c t where s: "s = c # t" using assms by (cases s) auto
  obtain p ps where "split_on (CHR ''/'') t = p # ps" by (meson neq_Nil_conv split_on_nonempty)
  then have "split_on (CHR ''/'') s = (c # p) # ps" using False s by simp
  then show ?thesis using False s by (auto simp: path_of_def Let_def)
qed

end
