(* ===== verification/Git_Parse.thy ===== *)
theory Git_Parse
  imports Git_Config Json_Text "HOL-Library.Product_Lexorder"
begin

text \<open>
  The parsers of \<open>services/rust-bridge/src/services/git.rs\<close> for the output of \<open>git status\<close>, \<open>git log\<close>
  and \<open>git branch\<close>, and the choice of the branch to switch to. The types of the responses are those of
  \<open>bridge_protocol.rs\<close>.
\<close>

section \<open>Status\<close>

record git_status_entry =
  se_path :: str
  se_original_path :: "str option"
  se_index_status :: str
  se_worktree_status :: str
  se_staged :: bool
  se_unstaged :: bool
  se_untracked :: bool

definition ser_status_entry :: "git_status_entry \<Rightarrow> json" where
  "ser_status_entry e =
     JObject [(''path'', JString (se_path e)),
       (''originalPath'', case se_original_path e of None \<Rightarrow> JNull | Some p \<Rightarrow> JString p),
       (''indexStatus'', JString (se_index_status e)),
       (''worktreeStatus'', JString (se_worktree_status e)),
       (''staged'', JBool (se_staged e)), (''unstaged'', JBool (se_unstaged e)),
       (''untracked'', JBool (se_untracked e))]"

text \<open>The entry of a token, with the original path taken from the next token of a rename or copy.\<close>

definition char_at :: "str list \<Rightarrow> nat \<Rightarrow> str" where
  "char_at cs i = (if i < length cs then cs ! i else '' '')"

definition status_entry :: "str \<Rightarrow> str \<Rightarrow> str \<Rightarrow> str option \<Rightarrow> git_status_entry" where
  "status_entry index_status worktree_status p original =
     (let untracked = (index_status = ''?'' \<and> worktree_status = ''?'') in
      \<lparr>se_path = p, se_original_path = original,
       se_index_status = index_status, se_worktree_status = worktree_status,
       se_staged = (index_status \<noteq> '' '' \<and> index_status \<noteq> ''?''),
       se_unstaged = (untracked \<or> worktree_status \<noteq> '' ''), se_untracked = untracked\<rparr>)"

function porcelain_loop :: "str list \<Rightarrow> git_status_entry list" where
  "porcelain_loop [] = []"
| "porcelain_loop (token # rest) =
     (if starts_with token ''## '' then porcelain_loop rest
      else
        let cs = chars_of token; index_status = char_at cs 0; worktree_status = char_at cs 1;
            p = concat (drop 3 cs)
        in if p = [] then porcelain_loop rest
           else if (index_status = ''R'' \<or> index_status = ''C'') \<and> rest \<noteq> []
           then status_entry index_status worktree_status p (Some (hd rest)) # porcelain_loop (tl rest)
           else status_entry index_status worktree_status p None # porcelain_loop rest)"
  by pat_completeness auto
termination
  by (relation "measure length") auto

definition parse_porcelain_status_entries :: "str \<Rightarrow> bridge_error + git_status_entry list" where
  "parse_porcelain_status_entries raw = Ok (porcelain_loop (filter (\<lambda>t. t \<noteq> []) (split_on NUL raw)))"

definition parse_status_has_upstream :: "str \<Rightarrow> bool" where
  "parse_status_has_upstream raw =
     (case find (\<lambda>l. starts_with l ''## '') (map trim (lines_of raw)) of
        None \<Rightarrow> False | Some l \<Rightarrow> contains_str l ''...'')"

definition parse_status_branch :: "str \<Rightarrow> str option" where
  "parse_status_branch line =
     (case strip_prefix line ''## '' of
        None \<Rightarrow> None
      | Some status \<Rightarrow>
          let named = (case strip_prefix status ''No commits yet on '' of
                Some b \<Rightarrow> b
              | None \<Rightarrow> (case strip_prefix status ''Initial commit on '' of Some b \<Rightarrow> b | None \<Rightarrow> status));
              branch = trim (before_str ''...'' named)
          in if branch = [] then None else Some branch)"

section \<open>History\<close>

abbreviation RS :: char where "RS \<equiv> CHR 0x1E"
abbreviation US :: char where "US \<equiv> CHR 0x1F"

record git_history_commit =
  hc_hash :: str
  hc_short_hash :: str
  hc_subject :: str
  hc_author_name :: str
  hc_authored_at :: str
  hc_ref_names :: "str list"
  hc_is_head :: bool

definition part_at :: "str list \<Rightarrow> nat \<Rightarrow> str" where
  "part_at parts i = (if i < length parts then trim (parts ! i) else [])"

definition parse_history_record :: "str \<Rightarrow> git_history_commit option" where
  "parse_history_record record =
     (let trimmed = trim record; parts = split_on US trimmed;
          ref_names = filter (\<lambda>r. r \<noteq> []) (map trim (split_on (CHR '','') (part_at parts 4)))
      in if trimmed = [] then None
         else if part_at parts 0 = [] \<or> part_at parts 1 = [] \<or> part_at parts 5 = [] then None
         else Some \<lparr>hc_hash = part_at parts 0, hc_short_hash = part_at parts 1,
                hc_subject = part_at parts 5, hc_author_name = part_at parts 2,
                hc_authored_at = part_at parts 3, hc_ref_names = ref_names,
                hc_is_head = list_ex (\<lambda>r. r = ''HEAD'' \<or> starts_with r ''HEAD ->'') ref_names\<rparr>)"

definition parse_git_history :: "str \<Rightarrow> git_history_commit list" where
  "parse_git_history raw = List.map_filter parse_history_record (split_on RS raw)"

section \<open>Branches\<close>

record git_branch_summary =
  gb_name :: str
  gb_remote :: bool
  gb_current :: bool

text \<open>One line: \<open>None\<close> where the loop goes on to the next line.\<close>

definition parse_branch_line :: "str \<Rightarrow> git_branch_summary option" where
  "parse_branch_line line =
     (case splitn 3 US line of
        [head_marker, full_ref, raw_name] \<Rightarrow>
          let name = trim raw_name;
              name' = (case strip_prefix name ''remotes/'' of Some n \<Rightarrow> n | None \<Rightarrow> name)
          in if name = [] \<or> name = ''HEAD'' \<or> contains_str name ''HEAD ->'' then None
             else if ends_with name' ''/HEAD'' then None
             else Some \<lparr>gb_name = name', gb_remote = starts_with (trim full_ref) ''refs/remotes/'',
                       gb_current = (trim head_marker = ''*'')\<rparr>
      | _ \<Rightarrow> None)"

fun branch_loop :: "str list \<Rightarrow> str list \<Rightarrow> git_branch_summary list" where
  "branch_loop seen [] = []"
| "branch_loop seen (line # rest) =
     (case parse_branch_line line of
        None \<Rightarrow> branch_loop seen rest
      | Some b \<Rightarrow>
          if gb_name b \<in> set seen then branch_loop seen rest
          else b # branch_loop (gb_name b # seen) rest)"

definition branch_key :: "git_branch_summary \<Rightarrow> bool \<times> bool \<times> str" where
  "branch_key b = (\<not> gb_current b, gb_remote b, gb_name b)"

definition parse_git_branches :: "str \<Rightarrow> git_branch_summary list" where
  "parse_git_branches raw = sort_key branch_key (branch_loop [] (lines_of raw))"

record git_switch_target =
  st_name :: str
  st_track_remote :: bool

definition branch_remote_name :: "str \<Rightarrow> str option" where
  "branch_remote_name name =
     (case split_once (CHR ''/'') name of
        None \<Rightarrow> None
      | Some (remote, local_name) \<Rightarrow> if remote = [] \<or> local_name = [] then None else Some local_name)"

definition resolve_switch_target :: "str \<Rightarrow> git_branch_summary list \<Rightarrow> git_switch_target" where
  "resolve_switch_target target branches =
     (case find (\<lambda>b. \<not> gb_remote b \<and> gb_name b = target) branches of
        Some b \<Rightarrow> \<lparr>st_name = gb_name b, st_track_remote = False\<rparr>
      | None \<Rightarrow>
          (case find (\<lambda>b. gb_remote b \<and> (gb_name b = target \<or> branch_remote_name (gb_name b) = Some target))
                  branches of
             None \<Rightarrow> \<lparr>st_name = target, st_track_remote = False\<rparr>
           | Some remote_branch \<Rightarrow>
               (case branch_remote_name (gb_name remote_branch) of
                  Some local_name \<Rightarrow>
                    if list_ex (\<lambda>b. \<not> gb_remote b \<and> gb_name b = local_name) branches
                    then \<lparr>st_name = local_name, st_track_remote = False\<rparr>
                    else \<lparr>st_name = gb_name remote_branch, st_track_remote = True\<rparr>
                | None \<Rightarrow> \<lparr>st_name = gb_name remote_branch, st_track_remote = True\<rparr>)))"

end
