(* ===== verification/Git_Service.thy ===== *)
theory Git_Service
  imports Git_Parse
begin

text \<open>
  \<open>GitService\<close> of \<open>services/rust-bridge/src/services/git.rs\<close>: every operation as the sequence of its
  checks and git commands.
\<close>

definition GIT_DIFF_MAX_BYTES :: nat where "GIT_DIFF_MAX_BYTES = 2 * 1024 * 1024"
definition GIT_STATUS_MAX_BYTES :: nat where "GIT_STATUS_MAX_BYTES = 512 * 1024"
definition GIT_STATUS_MAX_FILES :: nat where "GIT_STATUS_MAX_FILES = 2000"

section \<open>Commands with a text result\<close>

definition run_git_diff_command ::
  "'w git_env \<Rightarrow> path \<Rightarrow> str list \<Rightarrow> bool \<Rightarrow> str \<Rightarrow> ('w, str) git_action" where
  "run_git_diff_command E repo_path command allow_exit_code_one fallback_message =
     git_bind (execute_git E ([''-C'', to_string_lossy repo_path] @ command) repo_path None) (\<lambda>result.
       let exit_code = (case out_code result of None \<Rightarrow> -1 | Some c \<Rightarrow> c) in
       git_return
         (if exit_code = 0 \<or> allow_exit_code_one \<and> exit_code = 1 then Ok (out_stdout result)
          else Err (server_error
                 (git_failure_message (out_stderr result) (out_stdout result) fallback_message))))"

definition run_git_stdout :: "'w git_env \<Rightarrow> path \<Rightarrow> str list \<Rightarrow> str \<Rightarrow> ('w, str) git_action" where
  "run_git_stdout E repo_path command fallback_message =
     run_git_diff_command E repo_path command False fallback_message"

section \<open>Checks on the repository\<close>

definition config_args :: "path \<Rightarrow> str list" where
  "config_args repo_path =
     [''-C'', to_string_lossy repo_path, ''config'', ''--includes'', ''--show-origin'', ''--show-scope'',
      ''--null'', ''--list'']"

definition validate_repository_config_source :: "'w git_env \<Rightarrow> path \<Rightarrow> ('w, unit) git_action" where
  "validate_repository_config_source E repo_path =
     git_bind (execute_git E (config_args repo_path) repo_path None) (\<lambda>result s.
       (if out_code result = Some 0
        then validate_effective_git_config (rs_canonicalize (gv_files E (gs_world s))) (out_stdout result)
        else Err (server_error ''git repository configuration inspection failed''), s))"

definition validate_repository_helpers :: "'w git_env \<Rightarrow> path \<Rightarrow> ('w, unit) git_action" where
  "validate_repository_helpers E repo_path = validate_repository_config_source E repo_path"

definition transport_args :: "path \<Rightarrow> str list" where
  "transport_args repo_path =
     [''-C'', to_string_lossy repo_path, ''config'', ''--includes'', ''--show-origin'', ''--null'', ''--get-regexp'',
      join_on (CHR 0x5C) [''^(http'', ''..*|https'', ''..*|remote'', ''..*'', ''.proxy|core'',
        ''.gitproxy|credential'', ''..*helper|url'', ''..*'', ''.insteadof)$'']]"

definition validate_transport_config_source :: "'w git_env \<Rightarrow> path \<Rightarrow> ('w, unit) git_action" where
  "validate_transport_config_source E repo_path =
     git_bind (execute_git E (transport_args repo_path) repo_path None) (\<lambda>result.
       git_return
         (if out_code result = Some 0 then validate_transport_config_output (out_stdout result)
          else if out_code result = Some 1 then Ok ()
          else Err (server_error ''git transport configuration inspection failed'')))"

definition validate_credentialed_transport :: "'w git_env \<Rightarrow> path \<Rightarrow> ('w, unit) git_action" where
  "validate_credentialed_transport E repo_path =
     git_bind (git_return (validate_credential_environment_with (\<lambda>name. gv_variable E name \<noteq> None))) (\<lambda>_.
       validate_transport_config_source E repo_path)"

definition non_empty_lines :: "str \<Rightarrow> str list" where
  "non_empty_lines s = filter (\<lambda>l. l \<noteq> []) (map trim (lines_of s))"

definition validate_remote :: "'w git_env \<Rightarrow> path \<Rightarrow> str \<Rightarrow> ('w, unit) git_action" where
  "validate_remote E repo_path name =
     git_bind (git_return (validate_remote_name name)) (\<lambda>_.
     git_bind (run_git_stdout E repo_path [''remote'', ''get-url'', ''--all'', ''--push'', name]
                ''git remote inspection failed'') (\<lambda>remotes.
       git_return (try_for_each (\<lambda>r. res_bind (validate_remote_url (gv_parse_url E) r) (\<lambda>_. Ok ()))
         (non_empty_lines remotes))))"

fun validate_remotes :: "'w git_env \<Rightarrow> path \<Rightarrow> str list \<Rightarrow> ('w, unit) git_action" where
  "validate_remotes E repo_path [] = git_return (Ok ())"
| "validate_remotes E repo_path (name # names) =
     git_bind (validate_remote E repo_path name) (\<lambda>_. validate_remotes E repo_path names)"

definition validate_repository_remotes :: "'w git_env \<Rightarrow> path \<Rightarrow> ('w, unit) git_action" where
  "validate_repository_remotes E repo_path =
     git_bind (run_git_stdout E repo_path [''remote''] ''git remote inspection failed'') (\<lambda>remote_names.
       validate_remotes E repo_path (non_empty_lines remote_names))"

definition resolve_repo_path :: "'w git_env \<Rightarrow> str option \<Rightarrow> ('w, path) git_action" where
  "resolve_repo_path E raw_cwd s = (resolve_cwd (gv_policy E) (gv_files E (gs_world s)) raw_cwd, s)"

definition resolve_and_validate_git_path :: "'w git_env \<Rightarrow> str option \<Rightarrow> bool \<Rightarrow> ('w, path) git_action" where
  "resolve_and_validate_git_path E raw_cwd require_repository =
     git_bind (resolve_repo_path E raw_cwd) (\<lambda>repo_path.
     git_bind (validate_repository_helpers E repo_path) (\<lambda>_.
       if require_repository
       then git_bind (run_git_stdout E repo_path [''rev-parse'', ''--git-dir'']
                       ''git repository configuration inspection failed'') (\<lambda>_. git_return (Ok repo_path))
       else git_return (Ok repo_path)))"

section \<open>Reading\<close>

record git_status_response =
  gr_branch :: str
  gr_clean :: bool
  gr_raw :: str
  gr_files :: "git_status_entry list"
  gr_cwd :: str
  gr_truncated :: bool
  gr_total_files :: nat
  gr_omitted_files :: nat
  gr_max_files :: nat
  gr_max_bytes :: nat

definition get_porcelain_status_entries :: "'w git_env \<Rightarrow> path \<Rightarrow> ('w, git_status_entry list) git_action" where
  "get_porcelain_status_entries E repo_path =
     git_bind (run_git_stdout E repo_path [''status'', ''--porcelain=v1'', ''--branch'', ''-uall'', ''-z'']
                ''git status --porcelain failed'') (\<lambda>output.
       git_return (parse_porcelain_status_entries output))"

text \<open>The entries that are returned: as long as their JSON fits the budget.\<close>

fun returned_status_files :: "(git_status_entry \<Rightarrow> nat) \<Rightarrow> nat \<Rightarrow> git_status_entry list \<Rightarrow> git_status_entry list" where
  "returned_status_files entry_bytes used_bytes [] = []"
| "returned_status_files entry_bytes used_bytes (e # es) =
     (if sat_add used_bytes (entry_bytes e) > GIT_STATUS_MAX_BYTES then []
      else e # returned_status_files entry_bytes (used_bytes + entry_bytes e) es)"

definition status_response ::
  "'w git_env \<Rightarrow> path \<Rightarrow> str \<Rightarrow> git_status_entry list \<Rightarrow> git_status_response" where
  "status_response E repo_path output entries =
     (let lines = filter (\<lambda>l. trim l \<noteq> []) (lines_of output);
          branch = (case List.map_filter parse_status_branch lines of [] \<Rightarrow> ''unknown'' | b # _ \<Rightarrow> b);
          total_files = length entries;
          returned = returned_status_files (\<lambda>e. length (gv_json E (ser_status_entry e))) 0
            (take GIT_STATUS_MAX_FILES entries);
          (raw, raw_truncated) = truncate_utf8_bytes output GIT_STATUS_MAX_BYTES
      in \<lparr>gr_branch = branch, gr_clean = (entries = []), gr_raw = raw, gr_files = returned,
          gr_cwd = to_string_lossy repo_path,
          gr_truncated = (raw_truncated \<or> length returned < total_files),
          gr_total_files = total_files, gr_omitted_files = total_files - length returned,
          gr_max_files = GIT_STATUS_MAX_FILES, gr_max_bytes = GIT_STATUS_MAX_BYTES\<rparr>)"

definition get_status :: "'w git_env \<Rightarrow> str option \<Rightarrow> ('w, git_status_response) git_action" where
  "get_status E raw_cwd =
     git_bind (resolve_and_validate_git_path E raw_cwd True) (\<lambda>repo_path.
     git_bind (run_git_stdout E repo_path [''status'', ''--short'', ''--branch'', ''-uall'']
                ''git status failed'') (\<lambda>output.
     git_bind (get_porcelain_status_entries E repo_path) (\<lambda>entries.
       git_return (Ok (status_response E repo_path output entries)))))"

record git_diff_response =
  gd_diff :: str
  gd_cwd :: str
  gd_truncated :: bool
  gd_original_bytes :: nat
  gd_returned_bytes :: nat
  gd_max_bytes :: nat

definition non_blank :: "str \<Rightarrow> str list" where
  "non_blank s = (if trim s = [] then [] else [s])"

text \<open>The sections of one entry; a repository without \<open>HEAD\<close> needs the fallback.\<close>

definition diff_entry :: "'w git_env \<Rightarrow> path \<Rightarrow> git_status_entry \<Rightarrow> ('w, str list) git_action" where
  "diff_entry E repo_path entry =
     (if se_untracked entry
      then git_bind (run_git_diff_command E repo_path
             [''diff'', ''--no-color'', ''--no-ext-diff'', ''--no-index'', ''--'', git_global_config_path, se_path entry]
             True ''git diff for untracked file failed'') (\<lambda>patch. git_return (Ok (non_blank patch)))
      else git_catch (run_git_diff_command E repo_path
             [''diff'', ''--no-color'', ''--no-ext-diff'', ''--patch'', ''HEAD'', ''--'', se_path entry]
             False ''git diff HEAD for file failed'')
        (\<lambda>output. git_return (Ok (non_blank output)))
        (\<lambda>_. git_bind (run_git_diff_command E repo_path
             [''diff'', ''--no-color'', ''--no-ext-diff'', ''--patch'', ''--cached'', ''--'', se_path entry]
             False ''git diff --cached for file failed'') (\<lambda>staged.
           git_bind (run_git_diff_command E repo_path
             [''diff'', ''--no-color'', ''--no-ext-diff'', ''--patch'', ''--'', se_path entry]
             False ''git diff for file failed'') (\<lambda>unstaged.
             git_return (Ok (non_blank staged @ non_blank unstaged))))))"

fun diff_sections ::
  "'w git_env \<Rightarrow> path \<Rightarrow> git_status_entry list \<Rightarrow> str list \<Rightarrow> ('w, str list \<times> bool) git_action" where
  "diff_sections E repo_path [] sections = git_return (Ok (sections, False))"
| "diff_sections E repo_path (entry # rest) sections =
     git_bind (diff_entry E repo_path entry) (\<lambda>found.
       if sum_list (map length (sections @ found)) \<ge> GIT_DIFF_MAX_BYTES
       then git_return (Ok (sections @ found, rest \<noteq> []))
       else diff_sections E repo_path rest (sections @ found))"

fun join_sections :: "str list \<Rightarrow> str" where
  "join_sections [] = []"
| "join_sections [s] = s"
| "join_sections (s # t # ss) = s @ [LF, LF] @ join_sections (t # ss)"

definition diff_response :: "path \<Rightarrow> str list \<Rightarrow> bool \<Rightarrow> git_diff_response" where
  "diff_response repo_path sections stopped_early =
     (let diff_output = join_sections (filter (\<lambda>s. trim s \<noteq> []) sections);
          measured_bytes = length diff_output;
          (diff, text_truncated) = truncate_utf8_bytes diff_output GIT_DIFF_MAX_BYTES
      in \<lparr>gd_diff = diff, gd_cwd = to_string_lossy repo_path,
          gd_truncated = (text_truncated \<or> stopped_early),
          gd_original_bytes = (if stopped_early then max measured_bytes (GIT_DIFF_MAX_BYTES + 1) else measured_bytes),
          gd_returned_bytes = length diff, gd_max_bytes = GIT_DIFF_MAX_BYTES\<rparr>)"

definition get_diff :: "'w git_env \<Rightarrow> str option \<Rightarrow> ('w, git_diff_response) git_action" where
  "get_diff E raw_cwd =
     git_bind (resolve_and_validate_git_path E raw_cwd True) (\<lambda>repo_path.
     git_bind (get_porcelain_status_entries E repo_path) (\<lambda>entries.
     git_bind (diff_sections E repo_path entries []) (\<lambda>(sections, stopped_early).
       git_return (Ok (diff_response repo_path sections stopped_early)))))"

record git_history_response =
  gh_commits :: "git_history_commit list"
  gh_cwd :: str

definition history_args :: "nat option \<Rightarrow> str list" where
  "history_args limit =
     [''log'', ''--first-parent'', ''--decorate=short'', ''--date=iso-strict'',
      ''--max-count='' @ show_nat (min 30 (max 1 (case limit of None \<Rightarrow> 12 | Some n \<Rightarrow> n))),
      ''--pretty=format:%H'' @ [US] @ ''%h'' @ [US] @ ''%an'' @ [US] @ ''%aI'' @ [US] @ ''%D'' @ [US] @ ''%s'' @ [RS],
      ''HEAD'']"

definition get_history :: "'w git_env \<Rightarrow> str option \<Rightarrow> nat option \<Rightarrow> ('w, git_history_response) git_action" where
  "get_history E raw_cwd limit =
     git_bind (resolve_and_validate_git_path E raw_cwd True) (\<lambda>repo_path.
     git_bind (run_git_stdout E repo_path (history_args limit) ''git log failed'') (\<lambda>output.
       git_return (Ok \<lparr>gh_commits = parse_git_history output, gh_cwd = to_string_lossy repo_path\<rparr>)))"

record git_branches_response =
  br_branches :: "git_branch_summary list"
  br_current :: "str option"
  br_cwd :: str

definition get_branches_at_path :: "'w git_env \<Rightarrow> path \<Rightarrow> ('w, git_branches_response) git_action" where
  "get_branches_at_path E repo_path =
     git_bind (run_git_stdout E repo_path
       [''branch'', ''--all'', ''--format=%(HEAD)'' @ [US] @ ''%(refname)'' @ [US] @ ''%(refname:short)'']
       ''git branch failed'') (\<lambda>output.
     let branches = parse_git_branches output in
     git_return (Ok \<lparr>br_branches = branches, br_current = map_option gb_name (find gb_current branches),
       br_cwd = to_string_lossy repo_path\<rparr>))"

definition get_branches :: "'w git_env \<Rightarrow> str option \<Rightarrow> ('w, git_branches_response) git_action" where
  "get_branches E raw_cwd =
     git_bind (resolve_and_validate_git_path E raw_cwd True) (get_branches_at_path E)"

section \<open>Writing\<close>

record git_action_response =
  ar_code :: "int option"
  ar_stdout :: str
  ar_stderr :: str
  ar_done :: bool
  ar_cwd :: str

record git_path_response = git_action_response +
  ar_path :: str

record git_switch_response = git_action_response +
  ar_branch :: str

record git_clone_response = git_action_response +
  ar_url :: str

definition git_response_of :: "git_command_output \<Rightarrow> path \<Rightarrow> git_action_response" where
  "git_response_of result repo_path =
     \<lparr>ar_code = out_code result, ar_stdout = out_stdout result, ar_stderr = out_stderr result,
      ar_done = (out_code result = Some 0), ar_cwd = to_string_lossy repo_path\<rparr>"

definition switch_branch :: "'w git_env \<Rightarrow> str \<Rightarrow> str option \<Rightarrow> ('w, git_switch_response) git_action" where
  "switch_branch E branch raw_cwd =
     git_bind (resolve_and_validate_git_path E raw_cwd True) (\<lambda>repo_path.
     git_bind (git_return (normalize_git_branch_target branch)) (\<lambda>target.
     git_bind (get_branches_at_path E repo_path) (\<lambda>known.
     let switch_target = resolve_switch_target target (br_branches known) in
     git_bind (execute_git E
         ([''-C'', to_string_lossy repo_path, ''switch''] @
          (if st_track_remote switch_target then [''--track''] else []) @ [st_name switch_target])
         repo_path None) (\<lambda>result.
       git_return (Ok (git_action_response.extend (git_response_of result repo_path)
         (git_switch_response.fields target)))))))"

definition clone_repo :: "'w git_env \<Rightarrow> str \<Rightarrow> str option \<Rightarrow> str \<Rightarrow> ('w, git_clone_response) git_action" where
  "clone_repo E repository_url raw_parent_path directory_name =
     git_bind (resolve_and_validate_git_path E raw_parent_path False) (\<lambda>parent_path.
     git_bind (validate_credentialed_transport E parent_path) (\<lambda>_.
     git_bind (git_return (validate_remote_url (gv_parse_url E) repository_url)) (\<lambda>repository_url.
     git_bind (git_return (resolve_clone_directory_name directory_name)) (\<lambda>name.
     let destination_path = normalize_path (path_join parent_path (path_of name)) in
     git_bind (\<lambda>s. (guard_err (gv_exists E (gs_world s) destination_path)
                     (invalid_params ''destination path already exists''), s)) (\<lambda>_.
     git_bind (execute_git E [''clone'', ''--'', repository_url, name] parent_path None) (\<lambda>result.
       git_return (Ok (git_action_response.extend (git_response_of result destination_path)
         (git_clone_response.fields repository_url)))))))))"

definition stage_file :: "'w git_env \<Rightarrow> str \<Rightarrow> str option \<Rightarrow> ('w, git_path_response) git_action" where
  "stage_file E p raw_cwd =
     git_bind (resolve_and_validate_git_path E raw_cwd True) (\<lambda>repo_path.
     git_bind (git_return (resolve_repo_relative_path p repo_path)) (\<lambda>relative_path.
     git_bind (execute_git E [''-C'', to_string_lossy repo_path, ''add'', ''--'', relative_path] repo_path None) (\<lambda>result.
       git_return (Ok (git_action_response.extend (git_response_of result repo_path)
         (git_path_response.fields relative_path))))))"

definition stage_all :: "'w git_env \<Rightarrow> str option \<Rightarrow> ('w, git_action_response) git_action" where
  "stage_all E raw_cwd =
     git_bind (resolve_and_validate_git_path E raw_cwd True) (\<lambda>repo_path.
     git_bind (execute_git E [''-C'', to_string_lossy repo_path, ''add'', ''-A''] repo_path None) (\<lambda>result.
       git_return (Ok (git_response_of result repo_path))))"

definition unstage_file :: "'w git_env \<Rightarrow> str \<Rightarrow> str option \<Rightarrow> ('w, git_path_response) git_action" where
  "unstage_file E p raw_cwd =
     git_bind (resolve_and_validate_git_path E raw_cwd True) (\<lambda>repo_path.
     git_bind (git_return (resolve_repo_relative_path p repo_path)) (\<lambda>relative_path.
     git_bind (execute_git E [''-C'', to_string_lossy repo_path, ''reset'', ''HEAD'', ''--'', relative_path]
                repo_path None) (\<lambda>result.
       git_return (Ok (git_action_response.extend (git_response_of result repo_path)
         (git_path_response.fields relative_path))))))"

definition unstage_all :: "'w git_env \<Rightarrow> str option \<Rightarrow> ('w, git_action_response) git_action" where
  "unstage_all E raw_cwd =
     git_bind (resolve_and_validate_git_path E raw_cwd True) (\<lambda>repo_path.
     git_bind (execute_git E [''-C'', to_string_lossy repo_path, ''reset'', ''HEAD'', ''--'', ''.''] repo_path None) (\<lambda>result.
       git_return (Ok (git_response_of result repo_path))))"

definition git_commit :: "'w git_env \<Rightarrow> str \<Rightarrow> str option \<Rightarrow> ('w, git_action_response) git_action" where
  "git_commit E msg raw_cwd =
     git_bind (resolve_and_validate_git_path E raw_cwd True) (\<lambda>repo_path.
     git_bind (execute_git E [''-C'', to_string_lossy repo_path, ''commit'', ''-m'', msg] repo_path None) (\<lambda>result.
       git_return (Ok (git_response_of result repo_path))))"

definition resolve_default_remote_name :: "'w git_env \<Rightarrow> path \<Rightarrow> ('w, str option) git_action" where
  "resolve_default_remote_name E repo_path =
     git_bind (run_git_stdout E repo_path [''remote''] ''git remote failed'') (\<lambda>output.
       git_return (Ok (select_default_remote_name output)))"

text \<open>The last step of a push, with the arguments that publish the branch where it has no upstream.\<close>

definition run_push :: "'w git_env \<Rightarrow> path \<Rightarrow> str list \<Rightarrow> ('w, git_action_response) git_action" where
  "run_push E repo_path publish =
     git_bind (execute_git E ([''-C'', to_string_lossy repo_path, ''push''] @ publish) repo_path None) (\<lambda>result.
       git_return (Ok (git_response_of result repo_path)))"

definition push_to :: "'w git_env \<Rightarrow> path \<Rightarrow> str option \<Rightarrow> ('w, git_action_response) git_action" where
  "push_to E repo_path remote =
     (case remote of
        None \<Rightarrow>
          git_return (Ok \<lparr>ar_code = Some 1, ar_stdout = [],
            ar_stderr = ''No git remote configured for publishing this branch.'',
            ar_done = False, ar_cwd = to_string_lossy repo_path\<rparr>)
      | Some name \<Rightarrow>
          git_bind (git_return (validate_remote_name name)) (\<lambda>_.
            run_push E repo_path [''--set-upstream'', ''--'', name, ''HEAD'']))"

definition git_push :: "'w git_env \<Rightarrow> str option \<Rightarrow> ('w, git_action_response) git_action" where
  "git_push E raw_cwd =
     git_bind (resolve_and_validate_git_path E raw_cwd True) (\<lambda>repo_path.
     git_bind (validate_credentialed_transport E repo_path) (\<lambda>_.
     git_bind (validate_repository_remotes E repo_path) (\<lambda>_.
     git_bind (run_git_stdout E repo_path [''status'', ''--short'', ''--branch'', ''--untracked-files=no'']
                ''git status failed'') (\<lambda>status_output.
       if parse_status_has_upstream status_output then run_push E repo_path []
       else git_bind (resolve_default_remote_name E repo_path) (push_to E repo_path)))))"

end
