(* ===== verification/Git_Guarantees.thy ===== *)
theory Git_Guarantees
  imports Git_Service
begin

text \<open>
  What the git service guarantees about the commands it runs. \<open>logs m P\<close> says that the action \<open>m\<close> only
  extends the log, and that what it adds and the result it gives satisfy \<open>P\<close>; there is one rule for
  each construct. The locale \<open>log_predicate\<close> is the interface of a property of logs that holds of a
  sequence when it holds of its parts.
\<close>

type_synonym git_log = "(git_command \<times> (bridge_error + git_command_output)) list"

definition logs :: "('w, 'a) git_action \<Rightarrow> (git_log \<Rightarrow> bridge_error + 'a \<Rightarrow> bool) \<Rightarrow> bool" where
  "logs m P = (\<forall>s r s'. m s = (r, s') \<longrightarrow> (\<exists>new. gs_log s' = gs_log s @ new \<and> P new r))"

section \<open>Rules\<close>

named_theorems logs_intro \<open>rules for the log of an action\<close>

lemma logs_return [logs_intro]: "P [] r \<Longrightarrow> logs (git_return r) P"
  by (auto simp: logs_def git_return_def)

lemma logs_reads [logs_intro]: "(\<And>s. P [] (f s)) \<Longrightarrow> logs (\<lambda>s. (f s, s)) P"
  by (auto simp: logs_def)

lemma logs_mono: "logs m P \<Longrightarrow> (\<And>new r. P new r \<Longrightarrow> Q new r) \<Longrightarrow> logs m Q"
  unfolding logs_def by blast

lemma logs_bind:
  assumes "logs m P" "\<And>x. logs (f x) (Q x)"
    and "\<And>new e. P new (Inl e) \<Longrightarrow> R new (Inl e)"
    and "\<And>a b x r. P a (Inr x) \<Longrightarrow> Q x b r \<Longrightarrow> R (a @ b) r"
  shows "logs (git_bind m f) R"
  unfolding logs_def
proof (intro allI impI)
  fix s r s'
  assume run: "git_bind m f s = (r, s')"
  obtain q s1 where m: "m s = (q, s1)" by (cases "m s")
  then obtain a where a: "gs_log s1 = gs_log s @ a" "P a q" using assms(1) unfolding logs_def by blast
  show "\<exists>new. gs_log s' = gs_log s @ new \<and> R new r"
  proof (cases q)
    case (Inl e)
    then show ?thesis using run m a assms(3) by (auto simp: git_bind_def)
  next
    case (Inr x)
    with run m have "f x s1 = (r, s')" by (simp add: git_bind_def)
    then obtain b where b: "gs_log s' = gs_log s1 @ b" "Q x b r"
      using assms(2) [of x] unfolding logs_def by blast
    then have "gs_log s' = gs_log s @ a @ b" using a by simp
    moreover have "R (a @ b) r" using assms(4) a(2) b(2) Inr by blast
    ultimately show ?thesis by blast
  qed
qed

lemma logs_conj: "logs m P \<Longrightarrow> logs m Q \<Longrightarrow> logs m (\<lambda>new r. P new r \<and> Q new r)"
  unfolding logs_def by (metis same_append_eq)

text \<open>A command in scope: what \<open>execute_git\<close> runs for the given arguments.\<close>

definition in_scope :: "path_policy \<Rightarrow> path \<Rightarrow> bool" where
  "in_scope P cwd =
     (pp_allow_outside_root P \<or> path_starts_with cwd (pp_root P) \<or> path_starts_with cwd (pp_attachments_root P))"

lemma resolve_in_scope: "resolve_existing_from P F base raw kind = Ok p \<Longrightarrow> in_scope P p"
  by (auto simp: resolve_existing_from_def Let_def res_bind_Ok enforce_scope_def in_scope_def
      split: if_splits sum.splits)

lemma logs_execute_git:
  assumes "\<And>r. \<not> is_ok r \<Longrightarrow> P [] r"
    and "\<And>c r. in_scope (gv_policy E) c \<Longrightarrow> P [(git_command_of E args c t, r)] r"
  shows "logs (execute_git E args cwd t) P"
  unfolding logs_def
proof (intro allI impI)
  fix s r s'
  assume "execute_git E args cwd t s = (r, s')"
  from execute_git_cases [OF this] show "\<exists>new. gs_log s' = gs_log s @ new \<and> P new r"
    using assms resolve_in_scope unfolding resolve_existing_def by fastforce
qed

section \<open>Properties of logs\<close>

definition keeps :: "(git_log \<Rightarrow> bool) \<Rightarrow> ('w, 'a) git_action \<Rightarrow> bool" where
  "keeps good m = logs m (\<lambda>new _. good new)"

locale log_predicate =
  fixes good :: "git_log \<Rightarrow> bool"
  assumes good_Nil: "good []"
    and good_append: "good a \<Longrightarrow> good b \<Longrightarrow> good (a @ b)"
begin

lemma keeps_return: "keeps good (git_return r)"
  unfolding keeps_def by (intro logs_return good_Nil)

lemma keeps_reads: "keeps good (\<lambda>s. (f s, s))"
  unfolding keeps_def by (intro logs_reads good_Nil)

lemma keeps_bind: "keeps good m \<Longrightarrow> (\<And>x. keeps good (f x)) \<Longrightarrow> keeps good (git_bind m f)"
  unfolding keeps_def
  by (rule logs_bind [where P = "\<lambda>new _. good new" and Q = "\<lambda>_ new _. good new"]) (auto intro: good_append)

lemma keeps_execute_git:
  "(\<And>c r. in_scope (gv_policy E) c \<Longrightarrow> good [(git_command_of E args c t, r)]) \<Longrightarrow> keeps good (execute_git E args cwd t)"
  unfolding keeps_def by (intro logs_execute_git) (auto intro: good_Nil)

lemma keeps_if: "(b \<Longrightarrow> keeps good m) \<Longrightarrow> (\<not> b \<Longrightarrow> keeps good m') \<Longrightarrow> keeps good (if b then m else m')"
  by simp

lemma keeps_catch:
  assumes "keeps good m" "\<And>x. keeps good (f x)" "\<And>e. keeps good (g e)"
  shows "keeps good (git_catch m f g)"
  unfolding keeps_def logs_def
proof (intro allI impI)
  fix s r s'
  assume "git_catch m f g s = (r, s')"
  then have run: "(case m s of (Inl e, s1) \<Rightarrow> g e s1 | (Inr x, s1) \<Rightarrow> f x s1) = (r, s')"
    by (simp add: git_catch_def)
  obtain q s1 where m: "m s = (q, s1)" by (cases "m s")
  obtain a where a: "gs_log s1 = gs_log s @ a" "good a" using assms(1) m unfolding keeps_def logs_def by blast
  obtain b where "gs_log s' = gs_log s1 @ b" "good b"
  proof (cases q)
    case (Inl e)
    then show ?thesis using run m assms(3) [of e] that unfolding keeps_def logs_def by auto
  next
    case (Inr x)
    then show ?thesis using run m assms(2) [of x] that unfolding keeps_def logs_def by auto
  qed
  then show "\<exists>new. gs_log s' = gs_log s @ new \<and> good new"
    using a good_append by (intro exI [of _ "a @ b"]) simp
qed

lemmas keeps_rules = keeps_bind keeps_return keeps_reads keeps_if keeps_catch

end

section \<open>The operations of the service\<close>

datatype git_request =
    Git_status "str option"
  | Git_diff "str option"
  | Git_history "str option" "nat option"
  | Git_branches "str option"
  | Git_switch str "str option"
  | Git_clone str "str option" str
  | Git_stage str "str option"
  | Git_stage_all "str option"
  | Git_unstage str "str option"
  | Git_unstage_all "str option"
  | Git_commit str "str option"
  | Git_push "str option"

definition finished :: "('w, 'a) git_action \<Rightarrow> ('w, unit) git_action" where
  "finished m = git_bind m (\<lambda>_. git_return (Ok ()))"

text \<open>The call of the service that a request makes; the response is left out.\<close>

fun git_call :: "'w git_env \<Rightarrow> git_request \<Rightarrow> ('w, unit) git_action" where
  "git_call E (Git_status cwd) = finished (get_status E cwd)"
| "git_call E (Git_diff cwd) = finished (get_diff E cwd)"
| "git_call E (Git_history cwd limit) = finished (get_history E cwd limit)"
| "git_call E (Git_branches cwd) = finished (get_branches E cwd)"
| "git_call E (Git_switch branch cwd) = finished (switch_branch E branch cwd)"
| "git_call E (Git_clone url parent name) = finished (clone_repo E url parent name)"
| "git_call E (Git_stage p cwd) = finished (stage_file E p cwd)"
| "git_call E (Git_stage_all cwd) = finished (stage_all E cwd)"
| "git_call E (Git_unstage p cwd) = finished (unstage_file E p cwd)"
| "git_call E (Git_unstage_all cwd) = finished (unstage_all E cwd)"
| "git_call E (Git_commit msg cwd) = finished (git_commit E msg cwd)"
| "git_call E (Git_push cwd) = finished (git_push E cwd)"

text \<open>The commands that may send credentials: \<open>clone\<close>, and \<open>push\<close> after \<open>-C\<close> and a path.\<close>

definition credentialed :: "str list \<Rightarrow> bool" where
  "credentialed args = (args \<noteq> [] \<and> hd args = ''clone'' \<or> 2 < length args \<and> args ! 2 = ''push'')"

locale command_policy = log_predicate good for good :: "git_log \<Rightarrow> bool" +
  fixes E :: "'w git_env"
  assumes good_plain:
    "\<not> credentialed args \<Longrightarrow> in_scope (gv_policy E) c \<Longrightarrow> good [(git_command_of E args c None, r)]"
begin

lemma keeps_plain: "\<not> credentialed args \<Longrightarrow> keeps good (execute_git E args cwd None)"
  by (intro keeps_execute_git good_plain)

lemma keeps_run:
  "\<not> credentialed ([''-C'', to_string_lossy repo] @ command) \<Longrightarrow> keeps good (run_git_diff_command E repo command b msg)"
  unfolding run_git_diff_command_def Let_def by (intro keeps_bind keeps_plain keeps_return)

lemma keeps_stdout:
  "\<not> credentialed ([''-C'', to_string_lossy repo] @ command) \<Longrightarrow> keeps good (run_git_stdout E repo command msg)"
  unfolding run_git_stdout_def by (rule keeps_run)

lemma keeps_config: "keeps good (validate_repository_helpers E repo)"
  unfolding validate_repository_helpers_def validate_repository_config_source_def config_args_def
  by (intro keeps_bind keeps_plain keeps_reads) (simp add: credentialed_def)

lemma keeps_path: "keeps good (resolve_and_validate_git_path E cwd b)"
  unfolding resolve_and_validate_git_path_def resolve_repo_path_def
  by (intro keeps_bind keeps_config keeps_if keeps_stdout keeps_return keeps_reads)
    (simp_all add: credentialed_def resolve_repo_path_def [abs_def] keeps_reads)

lemma keeps_porcelain: "keeps good (get_porcelain_status_entries E repo)"
  unfolding get_porcelain_status_entries_def
  by (intro keeps_bind keeps_stdout keeps_return) (simp add: credentialed_def)

lemma keeps_diff_entry: "keeps good (diff_entry E repo entry)"
  unfolding diff_entry_def
  by (intro keeps_if keeps_catch keeps_bind keeps_run keeps_return) (simp_all add: credentialed_def)

lemma keeps_diff_sections: "keeps good (diff_sections E repo entries sections)"
proof (induction entries arbitrary: sections)
  case (Cons e es)
  show ?case
    by (subst diff_sections.simps) (intro keeps_bind keeps_diff_entry keeps_if keeps_return Cons.IH)
qed (simp add: keeps_return)

lemma keeps_branches: "keeps good (get_branches_at_path E repo)"
  unfolding get_branches_at_path_def Let_def
  by (intro keeps_bind keeps_stdout keeps_return) (simp add: credentialed_def)

lemma keeps_transport: "keeps good (validate_credentialed_transport E repo)"
  unfolding validate_credentialed_transport_def validate_transport_config_source_def transport_args_def
  by (intro keeps_bind keeps_plain keeps_return) (simp add: credentialed_def)

lemma keeps_remote: "keeps good (validate_remote E repo name)"
  unfolding validate_remote_def by (intro keeps_bind keeps_stdout keeps_return) (simp add: credentialed_def)

lemma keeps_remotes: "keeps good (validate_repository_remotes E repo)"
proof -
  have "keeps good (validate_remotes E repo names)" for names
    by (induction names) (auto intro: keeps_return keeps_bind keeps_remote)
  then show ?thesis
    unfolding validate_repository_remotes_def by (intro keeps_bind keeps_stdout) (simp add: credentialed_def)
qed

lemma keeps_default_remote: "keeps good (resolve_default_remote_name E repo)"
  unfolding resolve_default_remote_name_def
  by (intro keeps_bind keeps_stdout keeps_return) (simp add: credentialed_def)

lemmas keeps_parts = keeps_path keeps_porcelain keeps_diff_sections keeps_branches keeps_transport
  keeps_remotes keeps_default_remote

lemma keeps_plain_call:
  assumes "\<nexists>url parent name. r = Git_clone url parent name" "\<nexists>cwd. r = Git_push cwd"
  shows "keeps good (git_call E r)"
  using assms
  by (cases r)
    (auto simp: finished_def get_status_def get_diff_def get_history_def get_branches_def switch_branch_def
      stage_file_def stage_all_def unstage_file_def unstage_all_def git_commit_def Let_def credentialed_def
      history_args_def
      intro!: keeps_bind keeps_parts keeps_stdout keeps_plain keeps_return split: prod.split)

end

section \<open>The configuration is inspected first\<close>

text \<open>What an inspection of the configuration has to give: success, and a listing that is accepted.\<close>

definition config_accepted :: "'w git_env \<Rightarrow> bridge_error + git_command_output \<Rightarrow> bool" where
  "config_accepted E out =
     (\<exists>output w. out = Ok output \<and> out_code output = Some 0
        \<and> validate_effective_git_config (rs_canonicalize (gv_files E w)) (out_stdout output) = Ok ())"

definition inspected_first :: "'w git_env \<Rightarrow> git_log \<Rightarrow> bridge_error + 'a \<Rightarrow> bool" where
  "inspected_first E new r =
     (case new of
        [] \<Rightarrow> \<not> is_ok r
      | (c, out) # rest \<Rightarrow>
          (\<exists>repo cwd. c = git_command_of E (config_args repo) cwd None)
          \<and> (rest \<noteq> [] \<or> is_ok r \<longrightarrow> config_accepted E out))"

definition hardened_log :: "'w git_env \<Rightarrow> git_log \<Rightarrow> bool" where
  "hardened_log E new =
     (\<forall>(c, out) \<in> set new. \<exists>args cwd. c = git_command_of E args cwd None \<and> in_scope (gv_policy E) cwd)"

interpretation hardened: command_policy "hardened_log E" E for E :: "'w git_env"
  by unfold_locales (auto simp: hardened_log_def)

lemma logs_config:
  "logs (validate_repository_helpers E repo) (\<lambda>new r. hardened_log E new \<and> inspected_first E new r)"
  unfolding validate_repository_helpers_def validate_repository_config_source_def
proof (rule logs_bind)
  show "logs (execute_git E (config_args repo) repo None)
      (\<lambda>new r. new = [] \<and> \<not> is_ok r
         \<or> (\<exists>cwd. in_scope (gv_policy E) cwd \<and> new = [(git_command_of E (config_args repo) cwd None, r)]))"
    by (rule logs_execute_git) auto
  show "logs (\<lambda>s. (if out_code result = Some 0
        then validate_effective_git_config (rs_canonicalize (gv_files E (gs_world s))) (out_stdout result)
        else Err (server_error ''git repository configuration inspection failed''), s))
      (\<lambda>new r. new = [] \<and> (is_ok r \<longrightarrow> config_accepted E (Ok result)))" for result
    by (rule logs_reads) (auto simp: config_accepted_def is_ok_iff)
qed (auto simp: hardened_log_def inspected_first_def)

lemma inspected_bind:
  assumes "logs m (\<lambda>new r. hardened_log E new \<and> inspected_first E new r)" "\<And>x. keeps (hardened_log E) (f x)"
  shows "logs (git_bind m f) (\<lambda>new r. hardened_log E new \<and> inspected_first E new r)"
proof (rule logs_bind [OF assms(1)])
  show "logs (f x) (\<lambda>new _. hardened_log E new)" for x using assms(2) by (simp add: keeps_def)
  show "hardened_log E (a @ b) \<and> inspected_first E (a @ b) r"
    if "hardened_log E a \<and> inspected_first E a (Inr x)" "hardened_log E b" for a b x r
    using that by (cases a) (auto simp: inspected_first_def hardened_log_def)
qed (auto simp: inspected_first_def split: list.splits)

lemma logs_path:
  "logs (resolve_and_validate_git_path E cwd b) (\<lambda>new r. hardened_log E new \<and> inspected_first E new r)"
  unfolding resolve_and_validate_git_path_def
proof (rule logs_bind)
  show "logs (resolve_repo_path E cwd) (\<lambda>new _. new = [])"
    unfolding resolve_repo_path_def by (rule logs_reads) simp
  show "logs (git_bind (validate_repository_helpers E repo) (\<lambda>_.
         if b then git_bind (run_git_stdout E repo [''rev-parse'', ''--git-dir'']
             ''git repository configuration inspection failed'') (\<lambda>_. git_return (Ok repo))
         else git_return (Ok repo))) (\<lambda>new r. hardened_log E new \<and> inspected_first E new r)" for repo
    by (intro inspected_bind logs_config hardened.keeps_if hardened.keeps_bind hardened.keeps_stdout
        hardened.keeps_return) (simp add: credentialed_def)
qed (auto simp: inspected_first_def hardened_log_def)

lemma hardened_execute: "keeps (hardened_log E) (execute_git E args cwd None)"
  by (rule hardened.keeps_execute_git) (simp add: hardened_log_def)

lemma hardened_push: "keeps (hardened_log E) (run_push E repo publish)"
  unfolding run_push_def by (intro hardened.keeps_bind hardened_execute hardened.keeps_return)

lemma hardened_push_to: "keeps (hardened_log E) (push_to E repo remote)"
  unfolding push_to_def
  by (cases remote) (auto intro!: hardened.keeps_bind hardened_push hardened.keeps_return)

lemma logs_finished:
  "logs m (\<lambda>new res. hardened_log E new \<and> inspected_first E new res) \<Longrightarrow>
     logs (finished m) (\<lambda>new res. hardened_log E new \<and> inspected_first E new res)"
  unfolding finished_def by (intro inspected_bind hardened.keeps_return)

lemmas hardened_steps = inspected_bind logs_path hardened.keeps_bind hardened.keeps_parts hardened.keeps_stdout
  hardened.keeps_if hardened.keeps_return hardened.keeps_reads hardened_execute hardened_push hardened_push_to

lemma logs_git_call:
  "logs (git_call E r) (\<lambda>new res. hardened_log E new \<and> inspected_first E new res)"
  by (cases r)
    (auto simp: get_status_def get_diff_def get_history_def get_branches_def switch_branch_def clone_repo_def
      stage_file_def stage_all_def unstage_file_def unstage_all_def git_commit_def git_push_def Let_def
      credentialed_def history_args_def
      intro!: logs_finished hardened_steps split: prod.split)

section \<open>Commands that may send credentials\<close>

text \<open>What has been looked at in a log: the transport configuration, a remote, all remotes.\<close>

definition transport_inspected :: "'w git_env \<Rightarrow> git_log \<Rightarrow> bool" where
  "transport_inspected E new =
     (\<exists>repo cwd output. (git_command_of E (transport_args repo) cwd None, Ok output) \<in> set new
        \<and> (out_code output = Some 1
           \<or> out_code output = Some 0 \<and> validate_transport_config_output (out_stdout output) = Ok ()))"

definition remote_inspected :: "'w git_env \<Rightarrow> path \<Rightarrow> git_log \<Rightarrow> str \<Rightarrow> bool" where
  "remote_inspected E repo new name =
     (is_ok (validate_remote_name name) \<and>
      (\<exists>cwd urls. (git_command_of E
            [''-C'', to_string_lossy repo, ''remote'', ''get-url'', ''--all'', ''--push'', name] cwd None, Ok urls) \<in> set new
         \<and> out_code urls = Some 0
         \<and> (\<forall>u \<in> set (non_empty_lines (out_stdout urls)). is_ok (validate_remote_url (gv_parse_url E) u))))"

definition remotes_inspected :: "'w git_env \<Rightarrow> git_log \<Rightarrow> bool" where
  "remotes_inspected E new =
     (\<exists>repo cwd output. (git_command_of E [''-C'', to_string_lossy repo, ''remote''] cwd None, Ok output) \<in> set new
        \<and> out_code output = Some 0
        \<and> (\<forall>name \<in> set (non_empty_lines (out_stdout output)). remote_inspected E repo new name))"

definition clean_environment :: "'w git_env \<Rightarrow> bool" where
  "clean_environment E = (\<forall>name \<in> set UNSAFE_GIT_ENVIRONMENT. gv_variable E name = None)"

text \<open>What a command that may send credentials needs before it.\<close>

definition credentials_allowed :: "'w git_env \<Rightarrow> git_log \<Rightarrow> str list \<Rightarrow> bool" where
  "credentials_allowed E pre args =
     (clean_environment E \<and> transport_inspected E pre
      \<and> (hd args = ''clone'' \<longrightarrow> (\<exists>raw url name. args = [''clone'', ''--'', url, name]
            \<and> validate_remote_url (gv_parse_url E) raw = Ok url))
      \<and> (hd args \<noteq> ''clone'' \<longrightarrow> remotes_inspected E pre))"

definition guarded_log :: "'w git_env \<Rightarrow> git_log \<Rightarrow> bool" where
  "guarded_log E new =
     (\<forall>pre args cwd out post. new = pre @ (git_command_of E args cwd None, out) # post
        \<longrightarrow> credentialed args \<longrightarrow> credentials_allowed E pre args)"

definition plain_log :: "'w git_env \<Rightarrow> git_log \<Rightarrow> bool" where
  "plain_log E new =
     (\<forall>(c, out) \<in> set new. \<exists>args cwd. c = git_command_of E args cwd None \<and> \<not> credentialed args)"

interpretation plain: command_policy "plain_log E" E for E :: "'w git_env"
  by unfold_locales (auto simp: plain_log_def)

lemma plain_not_credentialed:
  "plain_log E new \<Longrightarrow> (git_command_of E args cwd None, out) \<in> set new \<Longrightarrow> \<not> credentialed args"
  by (fastforce simp: plain_log_def)

lemma guarded_plain: "plain_log E new \<Longrightarrow> guarded_log E new"
  unfolding guarded_log_def using plain_not_credentialed by fastforce

lemma guarded_last:
  assumes "plain_log E a" "credentialed args \<Longrightarrow> credentials_allowed E a args"
  shows "guarded_log E (a @ [(git_command_of E args cwd None, out)])"
  unfolding guarded_log_def
proof (intro allI impI)
  fix pre args' cwd' out' post
  assume eq: "a @ [(git_command_of E args cwd None, out)] = pre @ (git_command_of E args' cwd' None, out') # post"
    and cred: "credentialed args'"
  show "credentials_allowed E pre args'"
  proof (cases post rule: rev_cases)
    case Nil
    with eq cred assms(2) show ?thesis by auto
  next
    case (snoc ys y)
    with eq have "(git_command_of E args' cwd' None, out') \<in> set a" by (auto simp: append_eq_append_conv2)
    with assms(1) cred show ?thesis using plain_not_credentialed by blast
  qed
qed

lemma inspected_append:
  "transport_inspected E a \<or> transport_inspected E b \<Longrightarrow> transport_inspected E (a @ b)"
  "remote_inspected E repo a name \<or> remote_inspected E repo b name \<Longrightarrow> remote_inspected E repo (a @ b) name"
  "remotes_inspected E a \<or> remotes_inspected E b \<Longrightarrow> remotes_inspected E (a @ b)"
proof -
  show "transport_inspected E a \<or> transport_inspected E b \<Longrightarrow> transport_inspected E (a @ b)"
    by (fastforce simp: transport_inspected_def)
  show remote: "remote_inspected E repo a name \<or> remote_inspected E repo b name \<Longrightarrow> remote_inspected E repo (a @ b) name"
    for repo name
    by (fastforce simp: remote_inspected_def)
  show "remotes_inspected E a \<or> remotes_inspected E b \<Longrightarrow> remotes_inspected E (a @ b)"
    unfolding remotes_inspected_def using remote by (metis Un_iff set_append)
qed

lemma logs_keeps: "logs m P \<Longrightarrow> keeps good m \<Longrightarrow> logs m (\<lambda>new r. good new \<and> P new r)"
  unfolding keeps_def by (rule logs_conj)

lemma logs_run_stdout:
  "logs (run_git_stdout E repo command msg)
     (\<lambda>new r. \<forall>x. r = Ok x \<longrightarrow> (\<exists>cwd output.
        (git_command_of E ([''-C'', to_string_lossy repo] @ command) cwd None, Ok output) \<in> set new
        \<and> out_code output = Some 0 \<and> out_stdout output = x))"
  unfolding run_git_stdout_def run_git_diff_command_def Let_def
proof (rule logs_bind)
  show "logs (execute_git E ([''-C'', to_string_lossy repo] @ command) repo None)
      (\<lambda>new r. \<forall>x. r = Ok x \<longrightarrow> (\<exists>cwd.
         new = [(git_command_of E ([''-C'', to_string_lossy repo] @ command) cwd None, Ok x)]))"
    by (rule logs_execute_git) auto
  show "logs (git_return (if (case out_code result of None \<Rightarrow> - 1 | Some c \<Rightarrow> c) = 0
            \<or> False \<and> (case out_code result of None \<Rightarrow> - 1 | Some c \<Rightarrow> c) = 1
          then Ok (out_stdout result)
          else Err (server_error (git_failure_message (out_stderr result) (out_stdout result) msg))))
      (\<lambda>new r. new = [] \<and> (\<forall>x. r = Ok x \<longrightarrow> out_code result = Some 0 \<and> out_stdout result = x))" for result
    by (rule logs_return) (auto split: if_splits option.splits)
qed auto

lemma logs_transport:
  "logs (validate_credentialed_transport E repo)
     (\<lambda>new r. is_ok r \<longrightarrow> clean_environment E \<and> transport_inspected E new)"
  unfolding validate_credentialed_transport_def
proof (rule logs_bind)
  show "logs (git_return (validate_credential_environment_with (\<lambda>name. gv_variable E name \<noteq> None)))
      (\<lambda>new r. new = [] \<and> (is_ok r \<longrightarrow> clean_environment E))"
    by (rule logs_return) (auto simp: validate_credential_environment_with_def clean_environment_def
        list_ex_iff is_ok_iff)
  show "logs (validate_transport_config_source E repo) (\<lambda>new r. is_ok r \<longrightarrow> transport_inspected E new)"
    unfolding validate_transport_config_source_def
  proof (rule logs_bind)
    show "logs (execute_git E (transport_args repo) repo None)
        (\<lambda>new r. \<forall>x. r = Ok x \<longrightarrow> (\<exists>cwd. new = [(git_command_of E (transport_args repo) cwd None, Ok x)]))"
      by (rule logs_execute_git) auto
    show "logs (git_return (if out_code result = Some 0 then validate_transport_config_output (out_stdout result)
          else if out_code result = Some 1 then Ok ()
          else Err (server_error ''git transport configuration inspection failed'')))
        (\<lambda>new r. new = [] \<and> (is_ok r \<longrightarrow> out_code result = Some 1
           \<or> out_code result = Some 0 \<and> validate_transport_config_output (out_stdout result) = Ok ()))" for result
      by (rule logs_return) (auto simp: is_ok_iff)
  qed (auto simp: transport_inspected_def)
qed auto

lemma logs_remote:
  "logs (validate_remote E repo name) (\<lambda>new r. is_ok r \<longrightarrow> remote_inspected E repo new name)"
  unfolding validate_remote_def
proof (rule logs_bind)
  show "logs (git_return (validate_remote_name name)) (\<lambda>new r. new = [] \<and> (is_ok r \<longrightarrow> is_ok (validate_remote_name name)))"
    by (rule logs_return) simp
  show "logs (git_bind (run_git_stdout E repo [''remote'', ''get-url'', ''--all'', ''--push'', name]
              ''git remote inspection failed'') (\<lambda>remotes.
         git_return (try_for_each (\<lambda>r. res_bind (validate_remote_url (gv_parse_url E) r) (\<lambda>_. Ok ()))
           (non_empty_lines remotes))))
      (\<lambda>new r. is_ok r \<longrightarrow> (\<exists>cwd urls. (git_command_of E
            [''-C'', to_string_lossy repo, ''remote'', ''get-url'', ''--all'', ''--push'', name] cwd None, Ok urls) \<in> set new
         \<and> out_code urls = Some 0
         \<and> (\<forall>u \<in> set (non_empty_lines (out_stdout urls)). is_ok (validate_remote_url (gv_parse_url E) u))))"
  proof (rule logs_bind [OF logs_run_stdout])
    show "logs (git_return (try_for_each (\<lambda>r. res_bind (validate_remote_url (gv_parse_url E) r) (\<lambda>_. Ok ()))
           (non_empty_lines remotes)))
        (\<lambda>new r. new = [] \<and> (is_ok r \<longrightarrow> (\<forall>u \<in> set (non_empty_lines remotes). is_ok (validate_remote_url (gv_parse_url E) u))))"
      for remotes
      by (rule logs_return) (auto simp: is_ok_iff try_for_each_Ok res_bind_Ok)
  qed auto
qed (auto simp: remote_inspected_def)

lemma logs_remotes:
  "logs (validate_repository_remotes E repo) (\<lambda>new r. is_ok r \<longrightarrow> remotes_inspected E new)"
proof -
  have all: "logs (validate_remotes E repo names) (\<lambda>new r. is_ok r \<longrightarrow> (\<forall>name \<in> set names. remote_inspected E repo new name))"
    for names
  proof (induction names)
    case (Cons name names)
    show ?case
      unfolding validate_remotes.simps
      by (rule logs_bind [OF logs_remote Cons.IH])
        (auto intro: inspected_append(2))
  qed (simp add: logs_return)
  show ?thesis
    unfolding validate_repository_remotes_def
  proof (rule logs_bind [OF logs_run_stdout all])
    show "is_ok r \<longrightarrow> remotes_inspected E (a @ b)"
      if a: "\<forall>x'. Inr x = Ok x' \<longrightarrow> (\<exists>cwd output.
            (git_command_of E ([''-C'', to_string_lossy repo] @ [''remote'']) cwd None, Ok output) \<in> set a
            \<and> out_code output = Some 0 \<and> out_stdout output = x')"
        and b: "is_ok r \<longrightarrow> (\<forall>name \<in> set (non_empty_lines x). remote_inspected E repo b name)" for a b x r
    proof
      assume "is_ok r"
      with b have "\<forall>name \<in> set (non_empty_lines x). remote_inspected E repo (a @ b) name"
        by (auto intro: inspected_append(2))
      then show "remotes_inspected E (a @ b)" using a unfolding remotes_inspected_def by fastforce
    qed
  qed auto
qed


text \<open>
  What comes after the checks: run after a log of plain commands that satisfies the facts \<open>F\<close>, it keeps
  the whole log guarded. The facts are about earlier commands, so more commands do not hurt them.
\<close>

definition guarded_after :: "'w git_env \<Rightarrow> (git_log \<Rightarrow> bool) \<Rightarrow> ('w, 'a) git_action \<Rightarrow> bool" where
  "guarded_after E F m = logs m (\<lambda>b _. \<forall>a. plain_log E a \<and> F a \<longrightarrow> guarded_log E (a @ b))"

locale stable_facts =
  fixes F :: "git_log \<Rightarrow> bool"
  assumes stable: "F a \<Longrightarrow> F (a @ b)"
begin

lemma after_bind:
  assumes "keeps (plain_log E) m" "\<And>x. guarded_after E F (f x)"
  shows "guarded_after E F (git_bind m f)"
  unfolding guarded_after_def
proof (rule logs_bind [OF assms(1) [unfolded keeps_def]])
  show "logs (f x) (\<lambda>b _. \<forall>a. plain_log E a \<and> F a \<longrightarrow> guarded_log E (a @ b))" for x
    using assms(2) by (simp add: guarded_after_def)
  show "\<forall>a'. plain_log E a' \<and> F a' \<longrightarrow> guarded_log E (a' @ a @ b)"
    if "plain_log E a" "\<forall>a. plain_log E a \<and> F a \<longrightarrow> guarded_log E (a @ b)" for a b
    using that stable plain.good_append by (metis append.assoc)
qed (auto intro: guarded_plain plain.good_append)

lemma after_return: "guarded_after E F (git_return r)"
  unfolding guarded_after_def by (rule logs_return) (auto intro: guarded_plain)

lemma after_reads: "guarded_after E F (\<lambda>s. (f s, s))"
  unfolding guarded_after_def by (rule logs_reads) (auto intro: guarded_plain)

lemma after_execute:
  assumes "\<And>a. F a \<Longrightarrow> credentials_allowed E a args"
  shows "guarded_after E F (git_bind (execute_git E args cwd None) (\<lambda>x. git_return (g x)))"
  unfolding guarded_after_def
proof (rule logs_bind)
  show "logs (execute_git E args cwd None)
      (\<lambda>new _. new = [] \<or> (\<exists>cwd out. new = [(git_command_of E args cwd None, out)]))"
    by (rule logs_execute_git) auto
  show "logs (git_return (g x)) (\<lambda>new _. new = [])" for x by (rule logs_return) simp
qed (use assms in \<open>auto intro: guarded_plain guarded_last\<close>)

end

interpretation transport_facts: stable_facts "\<lambda>a. clean_environment E \<and> transport_inspected E a" for E :: "'w git_env"
  by unfold_locales (auto intro: inspected_append(1))

interpretation push_facts: stable_facts
    "\<lambda>a. clean_environment E \<and> transport_inspected E a \<and> remotes_inspected E a" for E :: "'w git_env"
  by unfold_locales (auto intro: inspected_append)

lemma guarded_establish:
  assumes "keeps (plain_log E) m" "logs m (\<lambda>new r. is_ok r \<longrightarrow> G new)" "\<And>x. guarded_after E (\<lambda>a. F a \<and> G' a) (f x)"
    and "\<And>a b. F a \<Longrightarrow> F (a @ b)" "\<And>a b. G b \<Longrightarrow> G' (a @ b)"
  shows "guarded_after E F (git_bind m f)"
  unfolding guarded_after_def
proof (rule logs_bind [OF logs_keeps [OF assms(2,1)]])
  show "logs (f x) (\<lambda>b _. \<forall>a. plain_log E a \<and> F a \<and> G' a \<longrightarrow> guarded_log E (a @ b))" for x
    using assms(3) by (simp add: guarded_after_def)
  show "\<forall>a'. plain_log E a' \<and> F a' \<longrightarrow> guarded_log E (a' @ a @ b)"
    if "plain_log E a \<and> (is_ok (Inr x) \<longrightarrow> G a)" "\<forall>a. plain_log E a \<and> F a \<and> G' a \<longrightarrow> guarded_log E (a @ b)" for a b x
    using that assms(4,5) plain.good_append by (metis append.assoc is_ok_simps(2))
qed (auto intro: guarded_plain plain.good_append)

interpretation no_facts: stable_facts "\<lambda>_. True"
  by unfold_locales

lemma git_bind_return: "git_bind (git_return r) f = (case r of Inl e \<Rightarrow> git_return (Inl e) | Inr x \<Rightarrow> f x)"
  by (auto simp: git_bind_def git_return_def fun_eq_iff split: sum.splits)

lemma guarded_transport:
  assumes "\<And>x. guarded_after E (\<lambda>a. clean_environment E \<and> transport_inspected E a) (f x)"
  shows "guarded_after E (\<lambda>_. True) (git_bind (validate_credentialed_transport E repo) f)"
  by (rule guarded_establish [OF plain.keeps_transport logs_transport,
        where F = "\<lambda>_. True" and G' = "\<lambda>a. clean_environment E \<and> transport_inspected E a", simplified])
    (use assms in \<open>auto intro: inspected_append(1)\<close>)

lemma guarded_clone: "guarded_after E (\<lambda>_. True) (clone_repo E url parent name)"
proof -
  let ?F = "\<lambda>a. clean_environment E \<and> transport_inspected E a"
  have last: "guarded_after E ?F (git_bind (\<lambda>s. (guard_err (gv_exists E (gs_world s) d) e, s)) (\<lambda>_.
      git_bind (execute_git E [''clone'', ''--'', u, n] p None) (\<lambda>result. git_return (g result))))"
    if "validate_remote_url (gv_parse_url E) url = Ok u" for u n p d e and g :: "_ \<Rightarrow> bridge_error + 'b"
    by (intro transport_facts.after_bind plain.keeps_reads transport_facts.after_execute)
      (use that in \<open>auto simp: credentials_allowed_def\<close>)
  show ?thesis
    unfolding clone_repo_def git_bind_return Let_def
    by (intro no_facts.after_bind plain.keeps_path guarded_transport)
      (auto intro!: last transport_facts.after_return split: sum.split)
qed

lemma guarded_push_to:
  "guarded_after E (\<lambda>a. clean_environment E \<and> transport_inspected E a \<and> remotes_inspected E a) (run_push E repo publish)"
  "guarded_after E (\<lambda>a. clean_environment E \<and> transport_inspected E a \<and> remotes_inspected E a) (push_to E repo remote)"
proof -
  show run: "guarded_after E (\<lambda>a. clean_environment E \<and> transport_inspected E a \<and> remotes_inspected E a) (run_push E repo publish)"
    for publish
    unfolding run_push_def by (intro push_facts.after_execute) (auto simp: credentials_allowed_def)
  show "guarded_after E (\<lambda>a. clean_environment E \<and> transport_inspected E a \<and> remotes_inspected E a) (push_to E repo remote)"
    unfolding push_to_def git_bind_return
    by (auto intro!: push_facts.after_return run split: option.split sum.split)
qed

lemma guarded_remotes:
  assumes "\<And>x. guarded_after E (\<lambda>a. clean_environment E \<and> transport_inspected E a \<and> remotes_inspected E a) (f x)"
  shows "guarded_after E (\<lambda>a. clean_environment E \<and> transport_inspected E a)
    (git_bind (validate_repository_remotes E repo) f)"
  by (rule guarded_establish [OF plain.keeps_remotes logs_remotes, where G' = "remotes_inspected E"])
    (use assms in \<open>auto intro: inspected_append simp: conj_assoc\<close>)

lemma guarded_push: "guarded_after E (\<lambda>_. True) (git_push E cwd)"
  unfolding git_push_def
  by (intro no_facts.after_bind plain.keeps_path guarded_transport guarded_remotes push_facts.after_bind
      plain.keeps_stdout)
    (auto simp: credentialed_def intro!: guarded_push_to push_facts.after_bind plain.keeps_default_remote)

lemma guarded_finished:
  assumes "guarded_after E (\<lambda>_. True) m"
  shows "logs (finished m) (\<lambda>new _. guarded_log E new)"
proof -
  have "logs m (\<lambda>new _. guarded_log E new)"
    using assms unfolding guarded_after_def by (rule logs_mono) (metis append_Nil plain.good_Nil)
  then show ?thesis
    unfolding finished_def
    by (rule logs_bind [where Q = "\<lambda>_ new _. new = []"]) (auto intro: logs_return)
qed

lemma guarded_git_call: "logs (git_call E r) (\<lambda>new _. guarded_log E new)"
proof (cases "(\<exists>url parent name. r = Git_clone url parent name) \<or> (\<exists>cwd. r = Git_push cwd)")
  case False
  then have "keeps (plain_log E) (git_call E r)" by (intro plain.keeps_plain_call) auto
  then show ?thesis unfolding keeps_def by (rule logs_mono) (rule guarded_plain)
next
  case True
  then show ?thesis by (elim disjE exE) (simp_all add: guarded_finished guarded_clone guarded_push)
qed

end
