(* ===== verification/Git_Properties.thy ===== *)
theory Git_Properties
  imports Git_Guarantees
begin

text \<open>
  The properties of the git service: which commands it runs and under which checks, what its parsers
  make of the output of git, and the bounds of its responses.
\<close>

section \<open>Commands\<close>

text \<open>A repository in which every command succeeds and the branch has an upstream.\<close>

definition demo_repo :: path where "demo_repo = [Root_dir, Normal ''w'']"















section \<open>Configuration\<close>

text \<open>A listing of settings (scope, origin, key, value) as \<open>git config --null --list\<close> prints it.\<close>

type_synonym config_setting = "str \<times> str \<times> str \<times> str"

definition print_config :: "config_setting list \<Rightarrow> str" where
  "print_config settings =
     concat (map (\<lambda>(scope, origin, key, val). scope @ NUL # origin @ NUL # key @ LF # val @ [NUL]) settings)"

definition config_record :: "config_setting \<Rightarrow> str \<times> str \<times> str" where
  "config_record = (\<lambda>(scope, origin, key, val). (scope, origin, key @ LF # val))"

definition printable_setting :: "config_setting \<Rightarrow> bool" where
  "printable_setting = (\<lambda>(scope, origin, key, val).
     NUL \<notin> set scope \<and> NUL \<notin> set origin \<and> NUL \<notin> set key \<and> NUL \<notin> set val \<and> LF \<notin> set key)"

text \<open>A setting is harmless if the bridge itself gave or pins it, or if it runs nothing.\<close>

definition harmless_setting :: "(path \<Rightarrow> str + path) \<Rightarrow> config_setting list \<Rightarrow> config_setting \<Rightarrow> bool" where
  "harmless_setting canonicalize settings = (\<lambda>(scope, origin, key, val).
     trim origin = ''command line:'' \<or> to_ascii_lowercase (trim key) \<in> set pinned_git_config_keys
     \<or> \<not> unsafe_setting canonicalize (map config_record settings) (trim origin) (to_ascii_lowercase (trim key)) (trim val))"

lemma split_print_config:
  "list_all printable_setting settings \<Longrightarrow>
     split_on NUL (print_config settings) =
       concat (map (\<lambda>(scope, origin, key, val). [scope, origin, key @ LF # val]) settings) @ [[]]"
proof (induction settings)
  case (Cons s settings)
  obtain scope origin key val where s: "s = (scope, origin, key, val)" by (cases s)
  have nul: "NUL \<notin> set (key @ LF # val)" using Cons.prems by (auto simp: s printable_setting_def)
  have "print_config (s # settings) = scope @ NUL # origin @ NUL # (key @ LF # val) @ NUL # print_config settings"
    by (simp add: print_config_def s)
  then show ?case
    using Cons nul by (simp add: s printable_setting_def split_on_append_sep del: append_assoc append_Cons)
qed (simp add: print_config_def)

lemma validate_config_record:
  assumes "printable_setting s"
  shows "validate_record canonicalize (map config_record settings) (config_record s) =
     guard_err (\<not> harmless_setting canonicalize settings s) unsafe_configuration"
proof -
  obtain scope origin key val where s: "s = (scope, origin, key, val)" by (cases s)
  have "split_once LF (key @ LF # val) = Some (key, val)"
    using assms by (simp add: split_once_Some s printable_setting_def)
  then show ?thesis
    by (simp add: validate_record_def config_record_def harmless_setting_def s Let_def guard_err_def)
qed

lemma validate_print_config:
  assumes "list_all printable_setting settings"
  shows "validate_effective_git_config canonicalize (print_config settings) =
    (if list_all (harmless_setting canonicalize settings) settings then Ok () else Err unsafe_configuration)"
proof -
  let ?fields = "concat (map (\<lambda>(scope, origin, key, val). [scope, origin, key @ LF # val]) settings)"
  have records: "records_of ?fields = map config_record settings"
    by (induction settings) (auto simp: config_record_def)
  have count: "length ?fields mod 3 = 0"
    by (induction settings) auto
  have each: "try_for_each (validate_record canonicalize (map config_record settings)) (map config_record xs) =
      (if list_all (harmless_setting canonicalize settings) xs then Ok () else Err unsafe_configuration)"
    if "list_all printable_setting xs" for xs
    using that by (induction xs) (simp_all add: validate_config_record guard_err_def)
  show ?thesis
    using assms each [OF assms]
    by (simp add: validate_effective_git_config_def split_print_config Let_def records count)
qed



section \<open>Reading the output of a command\<close>

text \<open>
  C17: reading a stream does not depend on how it arrives. Whatever the sizes of the chunks, the result is
  the beginning of the stream up to the limit, and the flag says exactly whether something was cut off.
\<close>

theorem read_stream_limited_prefix:
  "read_stream_limited chunks max_bytes =
     (let stream = concat (takeWhile (\<lambda>c. c \<noteq> []) chunks) in (take max_bytes stream, max_bytes < length stream))"
  by (simp add: read_stream_limited_def read_stream_loop_spec Let_def)

lemma validate_unterminated:
  assumes "printable_setting (scope, origin, key, val)"
  shows "validate_effective_git_config canonicalize (scope @ NUL # origin @ NUL # key @ LF # val) =
    guard_err (\<not> harmless_setting canonicalize [(scope, origin, key, val)] (scope, origin, key, val)) unsafe_configuration"
proof -
  have "NUL \<notin> set (key @ LF # val)" using assms by (auto simp: printable_setting_def)
  then have "split_on NUL (scope @ NUL # origin @ NUL # key @ LF # val) = [scope, origin, key @ LF # val]"
    using assms by (simp add: printable_setting_def split_on_append_sep split_on_no_sep)
  then show ?thesis
    using validate_config_record [OF assms, of canonicalize "[(scope, origin, key, val)]"]
    by (simp add: validate_effective_git_config_def Let_def config_record_def guard_err_def)
qed

lemma output_of_long_child:
  assumes "length hdr < n" "n = GIT_COMMAND_MAX_OUTPUT_BYTES" "list_all (\<lambda>c. byte c < 0x80) hdr"
  shows "output_of_child \<lparr>ch_stdout = [hdr @ replicate n (CHR ''a'') @ x # rest], ch_stderr = [], ch_wait = Some (Ok (Some 0))\<rparr>
    = Ok \<lparr>out_code = Some 0, out_stdout = hdr @ replicate (n - length hdr) (CHR ''a'') @ LF # truncation_mark, out_stderr = []\<rparr>"
proof -
  let ?cut = "hdr @ replicate (n - length hdr) (CHR ''a'')"
  have ne: "?cut \<noteq> []" "last ?cut = CHR ''a''" using assms(1) by simp_all
  have "utf8_valid ?cut" using assms(3) by (intro utf8_valid_ascii) (auto simp: list_all_iff)
  then have "trim_end (from_utf8_lossy ?cut) = ?cut"
    using ws_suffix_ascii [OF ne(1)] ne(2) by (simp add: from_utf8_lossy_valid trim_end_fixed)
  then have "finalize_output ?cut True = ?cut @ LF # truncation_mark" "finalize_output [] False = []"
    using ne(1) by (simp_all add: finalize_output_def trim_end.simps [of "[]"])
  moreover have "read_stream_limited [hdr @ replicate n (CHR ''a'') @ x # rest] n = (?cut, True)"
    "read_stream_limited [] n = ([], False)"
    using assms(1) unfolding read_stream_limited_def by (simp_all add: read_stream_loop_spec Let_def)
  ultimately show ?thesis using assms(2) by (simp add: output_of_child_def)
qed

text \<open>
  The inspection of the configuration takes a listing that was cut off at the limit of the output for
  a complete one, if the cut is in a value: here the second setting, a program that git runs on
  \<open>git add\<close>, is behind a long harmless value, and the check succeeds.
\<close>

theorem git_truncated_config_accepted:
  "let settings = [(''local'', ''file:.git/config'', ''user.name'', replicate GIT_COMMAND_MAX_OUTPUT_BYTES (CHR ''a'')),
                   (''local'', ''file:.git/config'', ''filter.x.clean'', ''rm'')];
       child = \<lparr>ch_stdout = [print_config settings], ch_stderr = [], ch_wait = Some (Ok (Some 0))\<rparr>
   in \<exists>output. output_of_child child = Ok output \<and> out_code output = Some 0
        \<and> validate_effective_git_config canonicalize (out_stdout output) = Ok ()
        \<and> \<not> is_ok (validate_effective_git_config canonicalize (print_config settings))"
proof -
  obtain scope origin key hdr where local: "scope = ''local''" "origin = ''file:.git/config''" "key = ''user.name''"
    and hdr: "hdr = scope @ NUL # origin @ NUL # key @ [LF]" by blast
  obtain n where n: "n = GIT_COMMAND_MAX_OUTPUT_BYTES" by blast
  let ?evil = "(scope, origin, ''filter.x.clean'', ''rm'')"
  let ?settings = "[(scope, origin, key, replicate n (CHR ''a'')), ?evil]"
  let ?val = "replicate (n - length hdr) (CHR ''a'') @ LF # truncation_mark"
  have texts: "trim origin = origin" "to_ascii_lowercase (trim key) = key" "to_ascii_lowercase (trim ''filter.x.clean'') = ''filter.x.clean''"
    unfolding local by code_simp+
  have short: "length hdr < n" "list_all (\<lambda>c. byte c < 0x80) hdr"
    by (simp_all add: hdr local n GIT_COMMAND_MAX_OUTPUT_BYTES_def)
  have "print_config ?settings = hdr @ replicate n (CHR ''a'') @ NUL # print_config [?evil]"
    by (simp add: print_config_def hdr)
  then have out: "output_of_child \<lparr>ch_stdout = [print_config ?settings], ch_stderr = [], ch_wait = Some (Ok (Some 0))\<rparr>
    = Ok \<lparr>out_code = Some 0, out_stdout = scope @ NUL # origin @ NUL # key @ LF # ?val, out_stderr = []\<rparr>"
    using output_of_long_child [OF short(1) n short(2), of NUL "print_config [?evil]"] by (simp add: hdr)
  have "harmless_setting canonicalize [(scope, origin, key, ?val)] (scope, origin, key, ?val)"
    by (simp add: harmless_setting_def texts) (simp add: local unsafe_setting_def executable_key_def
        unsafe_transport_def starts_with_def ends_with_def)
  then have accepted: "validate_effective_git_config canonicalize (scope @ NUL # origin @ NUL # key @ LF # ?val) = Ok ()"
    by (subst validate_unterminated) (auto simp: printable_setting_def local truncation_mark_def)
  have "\<not> harmless_setting canonicalize ?settings ?evil"
    by (simp add: harmless_setting_def texts) (simp add: local pinned_git_config_keys_eq unsafe_setting_def
        executable_key_def starts_with_def ends_with_def)
  then have refused: "\<not> is_ok (validate_effective_git_config canonicalize (print_config ?settings))"
    by (subst validate_print_config) (auto simp: printable_setting_def local)
  show ?thesis
    using out accepted refused unfolding local n by (simp add: Let_def)
qed

section \<open>Responses\<close>

lemma returned_status_files_spec:
  assumes "used \<le> GIT_STATUS_MAX_BYTES"
  shows "\<exists>k \<le> length es. returned_status_files sz used es = take k es
    \<and> used + sum_list (map sz (take k es)) \<le> GIT_STATUS_MAX_BYTES
    \<and> (k = length es \<or> GIT_STATUS_MAX_BYTES < used + sum_list (map sz (take (Suc k) es)))"
  using assms
proof (induction es arbitrary: used)
  case (Cons e es)
  have sat: "sat_add used (sz e) > GIT_STATUS_MAX_BYTES \<longleftrightarrow> used + sz e > GIT_STATUS_MAX_BYTES"
    by (auto simp: sat_add_def usize_max_def GIT_STATUS_MAX_BYTES_def)
  show ?case
  proof (cases "used + sz e > GIT_STATUS_MAX_BYTES")
    case True
    then show ?thesis using Cons.prems sat by (intro exI [of _ 0]) simp
  next
    case False
    then obtain k where "k \<le> length es" "returned_status_files sz (used + sz e) es = take k es"
        "used + sz e + sum_list (map sz (take k es)) \<le> GIT_STATUS_MAX_BYTES"
        "k = length es \<or> GIT_STATUS_MAX_BYTES < used + sz e + sum_list (map sz (take (Suc k) es))"
      using Cons.IH [of "used + sz e"] by auto
    then show ?thesis using False sat by (intro exI [of _ "Suc k"]) (auto simp: add.assoc)
  qed
qed simp

text \<open>
  C16: the status response is bounded and says what it leaves out. The files are the first entries of the
  status, at most as many as the limit and with at most the budget of JSON bytes; as many as that
  allows; the text is within its budget; and the counts and the flag are exact.
\<close>

theorem git_status_bounded:
  "let r = status_response E repo output entries;
       sz = (\<lambda>e. length (gv_json E (ser_status_entry e)))
   in \<exists>k \<le> min GIT_STATUS_MAX_FILES (length entries).
        gr_files r = take k entries
        \<and> sum_list (map sz (gr_files r)) \<le> GIT_STATUS_MAX_BYTES
        \<and> (k = min GIT_STATUS_MAX_FILES (length entries)
           \<or> GIT_STATUS_MAX_BYTES < sum_list (map sz (take (Suc k) entries)))
        \<and> length (gr_raw r) \<le> GIT_STATUS_MAX_BYTES
        \<and> gr_total_files r = length entries \<and> gr_omitted_files r = length entries - k
        \<and> (gr_truncated r \<longleftrightarrow> GIT_STATUS_MAX_BYTES < length output \<or> k < length entries)"
proof -
  let ?sz = "\<lambda>e. length (gv_json E (ser_status_entry e))"
  let ?es = "take GIT_STATUS_MAX_FILES entries"
  obtain k where k: "k \<le> length ?es" "returned_status_files ?sz 0 ?es = take k ?es"
      "sum_list (map ?sz (take k ?es)) \<le> GIT_STATUS_MAX_BYTES"
      "k = length ?es \<or> GIT_STATUS_MAX_BYTES < sum_list (map ?sz (take (Suc k) ?es))"
    using returned_status_files_spec [OF le0, of ?es ?sz, unfolded add_0] by blast
  have raw: "length (fst (truncate_utf8_bytes output GIT_STATUS_MAX_BYTES)) \<le> GIT_STATUS_MAX_BYTES"
    "snd (truncate_utf8_bytes output GIT_STATUS_MAX_BYTES) \<longleftrightarrow> GIT_STATUS_MAX_BYTES < length output"
    by (rule length_truncate_utf8_bytes) (simp add: truncate_utf8_bytes_def)
  have le: "k \<le> min GIT_STATUS_MAX_FILES (length entries)" using k(1) by simp
  have cut: "take k ?es = take k entries" using le by (simp add: min_absorb1)
  have maximal: "k = min GIT_STATUS_MAX_FILES (length entries)
      \<or> GIT_STATUS_MAX_BYTES < sum_list (map ?sz (take (Suc k) entries))"
    using k(4) le by (cases "k = min GIT_STATUS_MAX_FILES (length entries)") (auto simp: min_absorb1 min.commute)
  have fields: "gr_files (status_response E repo output entries) = take k entries"
      "gr_total_files (status_response E repo output entries) = length entries"
      "gr_omitted_files (status_response E repo output entries) = length entries - k"
      "gr_raw (status_response E repo output entries) = fst (truncate_utf8_bytes output GIT_STATUS_MAX_BYTES)"
      "gr_truncated (status_response E repo output entries) \<longleftrightarrow>
         snd (truncate_utf8_bytes output GIT_STATUS_MAX_BYTES) \<or> k < length entries"
    using le by (auto simp: status_response_def Let_def k(2) cut split: prod.splits)
  show ?thesis
    unfolding Let_def fields using le k(3) maximal raw by (intro exI [of _ k] conjI) (simp_all add: cut)
qed

section \<open>The status of the files\<close>











section \<open>Paths in a repository\<close>

definition file_name_ok :: "str \<Rightarrow> bool" where
  "file_name_ok n = (n \<noteq> [] \<and> n \<noteq> ''.'' \<and> n \<noteq> ''..'' \<and> CHR ''/'' \<notin> set n)"

lemma split_join_on:
  "ps \<noteq> [] \<Longrightarrow> \<forall>p \<in> set ps. c \<notin> set p \<Longrightarrow> split_on c (join_on c ps) = ps"
  by (induction c ps rule: join_on.induct) (auto simp: split_on_no_sep split_on_append_sep)

lemma path_of_join:
  assumes "names \<noteq> []" "\<forall>n \<in> set names. file_name_ok n"
  shows "path_of (join_on (CHR ''/'') names) = map Normal names"
proof -
  have split: "split_on (CHR ''/'') (join_on (CHR ''/'') names) = names"
    using assms by (intro split_join_on) (auto simp: file_name_ok_def)
  have "\<not> (join_on (CHR ''/'') names \<noteq> [] \<and> hd (join_on (CHR ''/'') names) = CHR ''/'')"
  proof -
    obtain n ns where n: "names = n # ns" "n \<noteq> []" "CHR ''/'' \<notin> set n"
      using assms by (cases names) (auto simp: file_name_ok_def)
    then have "hd (join_on (CHR ''/'') names) = hd n" by (cases ns) simp_all
    with n show ?thesis by (metis hd_in_set)
  qed
  moreover have "filter (\<lambda>p. p \<noteq> [] \<and> p \<noteq> ''.'') names = names"
    using assms(2) by (auto simp: file_name_ok_def filter_id_conv)
  moreover have "map path_piece names = map Normal names"
    using assms(2) by (auto simp: path_piece_def file_name_ok_def)
  moreover have "hd names \<noteq> ''.''" using assms by (auto simp: file_name_ok_def)
  ultimately show ?thesis by (simp add: path_of_def split Let_def)
qed

lemma path_of_names: "Normal n \<in> set (path_of s) \<Longrightarrow> file_name_ok n"
  using path_of_normal [of n s] by (simp add: file_name_ok_def)

lemma path_of_root: "\<not> path_is_absolute (path_of s) \<Longrightarrow> Root_dir \<notin> set (path_of s)"
  by (auto simp: path_of_def Let_def path_is_absolute_def path_piece_def split: if_splits)

lemma normalize_names:
  assumes "Root_dir \<notin> set cs"
  shows "\<exists>ms. foldl normalize_component (Root_dir # map Normal ns) cs = Root_dir # map Normal ms
    \<and> set ms \<subseteq> set ns \<union> {n. Normal n \<in> set cs}"
  using assms
proof (induction cs arbitrary: ns)
  case (Cons c cs)
  obtain ks where step: "normalize_component (Root_dir # map Normal ns) c = Root_dir # map Normal ks"
    and ks: "set ks \<subseteq> set ns \<union> {n. Normal n = c}"
  proof (cases c)
    case Parent_dir
    then show ?thesis
      using that [of "butlast ns"]
      by (cases ns rule: rev_cases) (auto simp: path_parent_of_def butlast_append)
  next
    case (Normal n)
    then show ?thesis using that [of "ns @ [n]"] by simp
  qed (use Cons.prems that [of ns] in auto)
  obtain ms where "foldl normalize_component (Root_dir # map Normal ks) cs = Root_dir # map Normal ms"
      "set ms \<subseteq> set ks \<union> {n. Normal n \<in> set cs}"
    using Cons by auto
  with step ks show ?case by (intro exI [of _ ms]) auto
qed auto

lemma normalize_canonical: "normalize_path (Root_dir # map Normal ns) = Root_dir # map Normal ns"
proof -
  have "foldl normalize_component acc (map Normal ns) = acc @ map Normal ns" for acc
    by (induction ns arbitrary: acc) auto
  then show ?thesis by (simp add: normalize_path_def)
qed

text \<open>
  C14: a file to stage or unstage is named by a path inside the repository. For a repository at a
  canonical path, a path that is accepted resolves, with its dots removed, to the repository followed
  by ordinary names, at least one; what is given to git is these names, and reads as exactly that path.
\<close>

theorem git_path_contained:
  assumes "repo = Root_dir # map Normal ns" "\<forall>n \<in> set ns. file_name_ok n"
    and "resolve_repo_relative_path raw repo = Ok rel"
  shows "\<exists>names. names \<noteq> [] \<and> (\<forall>n \<in> set names. file_name_ok n)
    \<and> normalize_path (path_join repo (path_of (trim raw))) = repo @ map Normal names
    \<and> rel = from_utf8_lossy (join_on (CHR ''/'') names)
    \<and> path_of (join_on (CHR ''/'') names) = map Normal names"
proof -
  let ?requested = "path_of (trim raw)"
  from assms(3) obtain relative where rel: "\<not> path_is_absolute ?requested"
      "path_strip_prefix (normalize_path (path_join repo ?requested)) (normalize_path repo) = Some relative"
      "relative \<noteq> []" "rel = to_string_lossy relative"
    by (auto simp: resolve_repo_relative_path_def Let_def split: if_splits option.splits)
  have "path_join repo ?requested = repo @ filter (\<lambda>c. c \<noteq> Cur_dir) ?requested"
    using rel(1) assms(1) by (simp add: path_join_def)
  moreover have "normalize_path (repo @ cs) = foldl normalize_component repo cs" for cs
    using normalize_canonical [of ns] assms(1) by (simp add: normalize_path_def)
  moreover have "Root_dir \<notin> set (filter (\<lambda>c. c \<noteq> Cur_dir) ?requested)" using path_of_root [OF rel(1)] by simp
  from normalize_names [OF this, of ns] obtain ms where
    "foldl normalize_component repo (filter (\<lambda>c. c \<noteq> Cur_dir) ?requested) = Root_dir # map Normal ms"
    and ms: "set ms \<subseteq> set ns \<union> {n. Normal n \<in> set ?requested}"
    using assms(1) by auto
  ultimately have norm: "normalize_path (path_join repo ?requested) = Root_dir # map Normal ms" by simp
  then have app: "Root_dir # map Normal ms = repo @ relative"
    using rel(2) normalize_canonical [of ns] assms(1) by (simp add: path_strip_prefix_Some)
  then obtain names where names: "relative = map Normal names" "set names \<subseteq> set ms"
    using assms(1) by (auto simp: map_eq_append_conv)
  have ok: "\<forall>n \<in> set names. file_name_ok n" using names(2) ms assms(2) path_of_names by blast
  have ne: "names \<noteq> []" using rel(3) names(1) by simp
  have shown: "path_text relative = join_on (CHR ''/'') names"
    using ne names(1) by (cases names) (simp_all add: path_text_def path_is_absolute_def comp_def)
  show ?thesis
    using ne ok norm app names(1) rel(4) shown path_of_join [OF ne ok]
    by (intro exI [of _ names]) (simp add: to_string_lossy_def)
qed

theorem git_path_contained_witness:
  "resolve_repo_relative_path ''a/../b.txt'' demo_repo = Ok ''b.txt''
   \<and> (\<exists>names. names \<noteq> [] \<and> ''b.txt'' = from_utf8_lossy (join_on (CHR ''/'') names)
        \<and> normalize_path (path_join demo_repo (path_of (trim ''a/../b.txt''))) = demo_repo @ map Normal names)"
proof -
  have run: "resolve_repo_relative_path ''a/../b.txt'' demo_repo = Ok ''b.txt''" by code_simp
  have repo: "demo_repo = Root_dir # map Normal [''w'']" "\<forall>n \<in> set [''w'']. file_name_ok n"
    by (simp_all add: demo_repo_def file_name_ok_def)
  show ?thesis using git_path_contained [OF repo run] run by (elim exE conjE) (intro conjI exI; assumption)
qed

section \<open>Branches\<close>

lemma branch_loop_names:
  "distinct (map gb_name (branch_loop seen ls)) \<and> set (map gb_name (branch_loop seen ls)) \<inter> set seen = {}"
proof (induction ls arbitrary: seen)
  case (Cons l ls)
  show ?case
  proof (cases "parse_branch_line l")
    case (Some b)
    with Cons.IH [of "gb_name b # seen"] Cons.IH [of seen] show ?thesis by auto
  qed (use Cons.IH in simp)
qed simp

lemma find_first: "find P xs = Some x \<Longrightarrow> x \<in> set xs \<and> P x"
  by (induction xs) (auto split: if_splits)

lemma resolve_switch_target_cases:
  obtains (local_branch) "\<exists>b \<in> set bs. \<not> gb_remote b \<and> gb_name b = target"
      "resolve_switch_target target bs = \<lparr>st_name = target, st_track_remote = False\<rparr>"
  | (unlisted) "\<not> (\<exists>b \<in> set bs. \<not> gb_remote b \<and> gb_name b = target)"
      "resolve_switch_target target bs = \<lparr>st_name = target, st_track_remote = False\<rparr>"
  | (existing) b l where "b \<in> set bs" "gb_remote b" "gb_name b = target" "branch_remote_name target = Some l"
      "\<exists>b \<in> set bs. \<not> gb_remote b \<and> gb_name b = l" "\<not> (\<exists>b \<in> set bs. \<not> gb_remote b \<and> gb_name b = target)"
      "resolve_switch_target target bs = \<lparr>st_name = l, st_track_remote = False\<rparr>"
  | (track) b where "b \<in> set bs" "gb_remote b" "gb_name b = target \<or> branch_remote_name (gb_name b) = Some target"
      "\<not> (\<exists>b \<in> set bs. \<not> gb_remote b \<and> gb_name b = target)"
      "resolve_switch_target target bs = \<lparr>st_name = gb_name b, st_track_remote = True\<rparr>"
proof (cases "find (\<lambda>b. \<not> gb_remote b \<and> gb_name b = target) bs")
  case (Some b)
  then show thesis
    using find_first [OF Some] by (intro local_branch) (auto simp: resolve_switch_target_def)
next
  case None
  then have no: "\<not> (\<exists>b \<in> set bs. \<not> gb_remote b \<and> gb_name b = target)" by (auto simp: find_None_iff)
  let ?P = "\<lambda>b. gb_remote b \<and> (gb_name b = target \<or> branch_remote_name (gb_name b) = Some target)"
  show thesis
  proof (cases "find ?P bs")
    case None': None
    then show thesis using None no by (intro unlisted) (simp_all add: resolve_switch_target_def)
  next
    case (Some b)
    note b = find_first [OF Some]
    show thesis
    proof (cases "\<exists>l. branch_remote_name (gb_name b) = Some l \<and> (\<exists>b \<in> set bs. \<not> gb_remote b \<and> gb_name b = l)")
      case True
      then obtain l where l: "branch_remote_name (gb_name b) = Some l" "\<exists>b \<in> set bs. \<not> gb_remote b \<and> gb_name b = l"
        by blast
      with no b have "gb_name b = target" by auto
      with l b no None Some show thesis by (intro existing [of b l]) (simp_all add: resolve_switch_target_def list_ex_iff)
    next
      case False
      then have "resolve_switch_target target bs = \<lparr>st_name = gb_name b, st_track_remote = True\<rparr>"
        using None Some by (auto simp: resolve_switch_target_def list_ex_iff split: option.splits)
      with b no show thesis by (intro track [of b]) auto
    qed
  qed
qed

text \<open>
  A switch goes where the client asked. The branches are listed once each, the current one first, then
  the local and then the remote ones, each in the order of their names. Given such a list, the target is
  a local branch of the asked name if there is one; otherwise a remote branch of that name or of that name
  behind its remote, for which a new local branch is set up, or the local branch that already stands for
  it; and a name that is not listed is passed on as it is.
\<close>

theorem git_switch_target_listed:
  "let branches = parse_git_branches raw; t = resolve_switch_target target branches;
       local_names = {gb_name b | b. b \<in> set branches \<and> \<not> gb_remote b};
       remote_names = {gb_name b | b. b \<in> set branches \<and> gb_remote b}
   in distinct (map gb_name branches) \<and> sorted (map branch_key branches)
      \<and> (target \<in> local_names \<longrightarrow> t = \<lparr>st_name = target, st_track_remote = False\<rparr>)
      \<and> (st_track_remote t \<longrightarrow> target \<notin> local_names \<and> st_name t \<in> remote_names
           \<and> (st_name t = target \<or> branch_remote_name (st_name t) = Some target))
      \<and> (\<not> st_track_remote t \<longrightarrow> st_name t = target
           \<or> st_name t \<in> local_names \<and> target \<in> remote_names \<and> branch_remote_name target = Some (st_name t))"
proof -
  let ?bs = "parse_git_branches raw"
  have "distinct (map gb_name (branch_loop [] (lines_of raw)))" using branch_loop_names by blast
  then have listed: "distinct (map gb_name ?bs)" "sorted (map branch_key ?bs)"
    by (simp_all add: parse_git_branches_def distinct_map)
  show ?thesis
    by (cases rule: resolve_switch_target_cases [of ?bs target]) (use listed in \<open>auto simp: Let_def\<close>)
qed

theorem git_switch_target_listed_witness:
  "let raw = ''*'' @ [US] @ ''refs/heads/main'' @ [US] @ ''main'' @ [LF] @ '' '' @ [US] @ ''refs/remotes/origin/dev'' @ [US] @ ''origin/dev'';
       t = resolve_switch_target ''dev'' (parse_git_branches raw)
   in t = \<lparr>st_name = ''origin/dev'', st_track_remote = True\<rparr> \<and> distinct (map gb_name (parse_git_branches raw))"
proof -
  let ?raw = "''*'' @ [US] @ ''refs/heads/main'' @ [US] @ ''main'' @ [LF] @ '' '' @ [US] @ ''refs/remotes/origin/dev'' @ [US] @ ''origin/dev''"
  have "resolve_switch_target ''dev'' (parse_git_branches ?raw) = \<lparr>st_name = ''origin/dev'', st_track_remote = True\<rparr>"
    by code_simp
  then show ?thesis using git_switch_target_listed [of ?raw "''dev''"] unfolding Let_def by blast
qed

text \<open>
  A target that starts with a dash is refused, but a remote branch that is chosen by the name behind its
  remote is passed to \<open>git switch\<close> as it is listed: for a remote whose name starts with a dash the last
  argument of the command is an option.
\<close>

theorem git_switch_passes_option:
  "let raw = '' '' @ [US] @ ''refs/remotes/-Cb/dev'' @ [US] @ ''-Cb/dev''
   in normalize_git_branch_target ''dev'' = Ok ''dev''
      \<and> resolve_switch_target ''dev'' (parse_git_branches raw) = \<lparr>st_name = ''-Cb/dev'', st_track_remote = True\<rparr>
      \<and> \<not> is_ok (normalize_git_branch_target ''-Cb/dev'')"
  by code_simp

end
