(* ===== verification/Interaction_Validation.thy ===== *)
theory Interaction_Validation
  imports Complex_Main Resource_Limits Json_Text "HOL-Library.Word"
begin

unbundle bit_operations_syntax

text \<open>
  The checks on what clients and agents send (\<open>services/rust-bridge/src/interaction_validation.rs\<close>):
  identifiers, and the user-interface surfaces an agent may show, with the wire form of the surfaces
  (\<open>bridge_protocol.rs\<close>). The text of a floating-point number is a parameter.
\<close>

section \<open>Reading parameters\<close>

definition parse_internal_id :: "json option \<Rightarrow> nat option" where
  "parse_internal_id value =
     (case value of
        None \<Rightarrow> None
      | Some v \<Rightarrow>
          (case as_u64 v of
             Some n \<Rightarrow> Some n
           | None \<Rightarrow>
               (case Option.bind (as_i64 v) (\<lambda>i. if 0 \<le> i \<and> i < 2 ^ 64 then Some (nat i) else None) of
                  Some n \<Rightarrow> Some n
                | None \<Rightarrow> Option.bind (as_str v) parse_u64)))"

definition read_string :: "json option \<Rightarrow> str option" where
  "read_string value = Option.bind value as_str"

definition read_bool :: "json option \<Rightarrow> bool option" where
  "read_bool value = Option.bind value as_bool"

definition required_push_id :: "json \<Rightarrow> str \<Rightarrow> bridge_error + str" where
  "required_push_id params field =
     (case map_option trim (read_string (json_get params field)) of
        None \<Rightarrow> Err (invalid_params (field @ '' is required''))
      | Some value \<Rightarrow>
          if value = [] then Err (invalid_params (field @ '' is required''))
          else if PUSH_ID_MAX_BYTES < length value
          then Err (resource_limit ''push_identity_bytes'' PUSH_ID_MAX_BYTES (length value))
          else Ok value)"

section \<open>Numbers\<close>

text \<open>An \<open>f64\<close> is its 64 bits: sign, eleven bits of exponent, 52 bits of mantissa.\<close>

type_synonym f64 = "64 word"

definition f64_is_finite :: "f64 \<Rightarrow> bool" where
  "f64_is_finite x = (drop_bit 52 x AND 0x7FF \<noteq> 0x7FF)"

definition f64_is_zero :: "f64 \<Rightarrow> bool" where
  "f64_is_zero x = (x AND 0x7FFFFFFFFFFFFFFF = 0)"

definition f64_is_nan :: "f64 \<Rightarrow> bool" where
  "f64_is_nan x = (drop_bit 52 x AND 0x7FF = 0x7FF \<and> x AND 0xFFFFFFFFFFFFF \<noteq> 0)"

text \<open>The comparisons with \<open>0.0\<close>; both zeros are equal, and nothing holds of a NaN.\<close>

definition f64_le_zero :: "f64 \<Rightarrow> bool" where
  "f64_le_zero x = (\<not> f64_is_nan x \<and> (bit x 63 \<or> f64_is_zero x))"

definition f64_lt_zero :: "f64 \<Rightarrow> bool" where
  "f64_lt_zero x = (\<not> f64_is_nan x \<and> bit x 63 \<and> \<not> f64_is_zero x)"

section \<open>Surfaces\<close>

datatype bridge_ui_presentation = Workflow_Card | Modal | Banner

datatype bridge_ui_tone = Tone_Neutral | Tone_Info | Tone_Success | Tone_Warning | Tone_Error

datatype bridge_ui_checklist_status = Item_Pending | Item_In_Progress | Item_Completed

datatype bridge_ui_action_style = Style_Primary | Style_Secondary | Style_Destructive

record bridge_ui_checklist_item =
  ci_label :: str
  ci_status :: "bridge_ui_checklist_status option"
  ci_detail :: "str option"

record bridge_ui_key_value_item =
  kv_label :: str
  kv_value :: str

record bridge_ui_action =
  ua_id :: str
  ua_label :: str
  ua_style :: "bridge_ui_action_style option"
  ua_dismisses_surface :: "bool option"

datatype bridge_ui_block =
    Ui_Text str
  | Ui_Markdown str
  | Ui_Checklist "bridge_ui_checklist_item list"
  | Ui_Key_Value "bridge_ui_key_value_item list"
  | Ui_Code str "str option"
  | Ui_Progress str f64 f64 "str option"

record bridge_ui_surface =
  us_id :: str
  us_thread_id :: str
  us_turn_id :: "str option"
  us_kind :: "str option"
  us_presentation :: bridge_ui_presentation
  us_tone :: "bridge_ui_tone option"
  us_title :: str
  us_subtitle :: "str option"
  us_body_markdown :: "str option"
  us_blocks :: "bridge_ui_block list"
  us_actions :: "bridge_ui_action list"
  us_dismissible :: "bool option"
  us_created_at :: "str option"
  us_updated_at :: "str option"

section \<open>The wire form\<close>

definition ser_f64 :: "(f64 \<Rightarrow> str) \<Rightarrow> f64 \<Rightarrow> json" where
  "ser_f64 show_f64 x = (if f64_is_finite x then JFloat (show_f64 x) else JNull)"

definition ser_presentation :: "bridge_ui_presentation \<Rightarrow> json" where
  "ser_presentation p = JString (case p of Workflow_Card \<Rightarrow> ''workflowCard'' | Modal \<Rightarrow> ''modal'' | Banner \<Rightarrow> ''banner'')"

definition ser_tone :: "bridge_ui_tone \<Rightarrow> json" where
  "ser_tone t = JString (case t of Tone_Neutral \<Rightarrow> ''neutral'' | Tone_Info \<Rightarrow> ''info'' | Tone_Success \<Rightarrow> ''success''
     | Tone_Warning \<Rightarrow> ''warning'' | Tone_Error \<Rightarrow> ''error'')"

definition ser_checklist_status :: "bridge_ui_checklist_status \<Rightarrow> json" where
  "ser_checklist_status s = JString (case s of Item_Pending \<Rightarrow> ''pending'' | Item_In_Progress \<Rightarrow> ''inProgress''
     | Item_Completed \<Rightarrow> ''completed'')"

definition ser_action_style :: "bridge_ui_action_style \<Rightarrow> json" where
  "ser_action_style s = JString (case s of Style_Primary \<Rightarrow> ''primary'' | Style_Secondary \<Rightarrow> ''secondary''
     | Style_Destructive \<Rightarrow> ''destructive'')"

definition ser_checklist_item :: "bridge_ui_checklist_item \<Rightarrow> json" where
  "ser_checklist_item i = JObject [(''label'', JString (ci_label i)),
     (''status'', ser_option ser_checklist_status (ci_status i)), (''detail'', ser_option JString (ci_detail i))]"

definition ser_key_value_item :: "bridge_ui_key_value_item \<Rightarrow> json" where
  "ser_key_value_item i = JObject [(''label'', JString (kv_label i)), (''value'', JString (kv_value i))]"

definition ser_action :: "bridge_ui_action \<Rightarrow> json" where
  "ser_action a = JObject [(''id'', JString (ua_id a)), (''label'', JString (ua_label a)),
     (''style'', ser_option ser_action_style (ua_style a)),
     (''dismissesSurface'', ser_option JBool (ua_dismisses_surface a))]"

definition ser_block :: "(f64 \<Rightarrow> str) \<Rightarrow> bridge_ui_block \<Rightarrow> json" where
  "ser_block show_f64 b = JObject (case b of
      Ui_Text t \<Rightarrow> [(''type'', JString ''text''), (''text'', JString t)]
    | Ui_Markdown m \<Rightarrow> [(''type'', JString ''markdown''), (''markdown'', JString m)]
    | Ui_Checklist is \<Rightarrow> [(''type'', JString ''checklist''), (''items'', JArray (map ser_checklist_item is))]
    | Ui_Key_Value is \<Rightarrow> [(''type'', JString ''keyValue''), (''items'', JArray (map ser_key_value_item is))]
    | Ui_Code t l \<Rightarrow> [(''type'', JString ''code''), (''text'', JString t), (''language'', ser_option JString l)]
    | Ui_Progress l v m d \<Rightarrow> [(''type'', JString ''progress''), (''label'', JString l),
        (''value'', ser_f64 show_f64 v), (''max'', ser_f64 show_f64 m), (''detail'', ser_option JString d)])"

definition ser_surface :: "(f64 \<Rightarrow> str) \<Rightarrow> bridge_ui_surface \<Rightarrow> json" where
  "ser_surface show_f64 s = JObject
     [(''id'', JString (us_id s)), (''threadId'', JString (us_thread_id s)),
      (''turnId'', ser_option JString (us_turn_id s)), (''kind'', ser_option JString (us_kind s)),
      (''presentation'', ser_presentation (us_presentation s)), (''tone'', ser_option ser_tone (us_tone s)),
      (''title'', JString (us_title s)), (''subtitle'', ser_option JString (us_subtitle s)),
      (''bodyMarkdown'', ser_option JString (us_body_markdown s)),
      (''blocks'', JArray (map (ser_block show_f64) (us_blocks s))),
      (''actions'', JArray (map ser_action (us_actions s))),
      (''dismissible'', ser_option JBool (us_dismissible s)),
      (''createdAt'', ser_option JString (us_created_at s)), (''updatedAt'', ser_option JString (us_updated_at s))]"

section \<open>The checks\<close>

definition validate_bridge_ui_block :: "bridge_ui_block \<Rightarrow> bridge_error + unit" where
  "validate_bridge_ui_block block =
     (let text_bytes = (case block of Ui_Text t \<Rightarrow> length t | Ui_Markdown m \<Rightarrow> length m | Ui_Code t _ \<Rightarrow> length t | _ \<Rightarrow> 0) in
      if UI_SURFACE_MAX_TEXT_BYTES < text_bytes
      then Err (resource_limit ''ui_surface_text_bytes'' UI_SURFACE_MAX_TEXT_BYTES text_bytes)
      else (case block of
         Ui_Text t \<Rightarrow> if trim t = [] then Err (invalid_params ''text block must not be empty'') else Ok ()
       | Ui_Markdown m \<Rightarrow> if trim m = [] then Err (invalid_params ''markdown block must not be empty'') else Ok ()
       | Ui_Checklist items \<Rightarrow>
           if items = [] then Err (invalid_params ''checklist block must contain at least one item'')
           else if UI_SURFACE_MAX_ITEMS_PER_BLOCK < length items
           then Err (resource_limit ''ui_surface_block_items'' UI_SURFACE_MAX_ITEMS_PER_BLOCK (length items))
           else if list_ex (\<lambda>i. trim (ci_label i) = []) items
           then Err (invalid_params ''checklist item label must not be empty'') else Ok ()
       | Ui_Key_Value items \<Rightarrow>
           if items = [] then Err (invalid_params ''keyValue block must contain at least one item'')
           else if UI_SURFACE_MAX_ITEMS_PER_BLOCK < length items
           then Err (resource_limit ''ui_surface_block_items'' UI_SURFACE_MAX_ITEMS_PER_BLOCK (length items))
           else if list_ex (\<lambda>i. trim (kv_label i) = [] \<or> trim (kv_value i) = []) items
           then Err (invalid_params ''keyValue item label and value must not be empty'') else Ok ()
       | Ui_Code t _ \<Rightarrow> if trim t = [] then Err (invalid_params ''code block must not be empty'') else Ok ()
       | Ui_Progress label v mx _ \<Rightarrow>
           if trim label = [] then Err (invalid_params ''progress label must not be empty'')
           else if \<not> f64_is_finite v \<or> \<not> f64_is_finite mx \<or> f64_le_zero mx \<or> f64_lt_zero v
           then Err (invalid_params ''progress value must be finite and max must be greater than zero'')
           else Ok ()))"

definition validate_ui_action :: "bridge_ui_action \<Rightarrow> bridge_error + unit" where
  "validate_ui_action a =
     (if trim (ua_id a) = [] then Err (invalid_params ''action id must not be empty'')
      else if trim (ua_label a) = [] then Err (invalid_params ''action label must not be empty'')
      else Ok ())"

definition validate_bridge_ui_surface :: "json_text \<Rightarrow> (f64 \<Rightarrow> str) \<Rightarrow> bridge_ui_surface \<Rightarrow> bridge_error + unit" where
  "validate_bridge_ui_surface J show_f64 surface =
     (let encoded_bytes = length (to_string J (ser_surface show_f64 surface)) in
      if UI_SURFACE_MAX_BYTES < encoded_bytes
      then Err (resource_limit ''ui_surface_bytes'' UI_SURFACE_MAX_BYTES encoded_bytes)
      else if UI_SURFACE_MAX_BLOCKS < length (us_blocks surface)
      then Err (resource_limit ''ui_surface_blocks'' UI_SURFACE_MAX_BLOCKS (length (us_blocks surface)))
      else if UI_SURFACE_MAX_ACTIONS < length (us_actions surface)
      then Err (resource_limit ''ui_surface_actions'' UI_SURFACE_MAX_ACTIONS (length (us_actions surface)))
      else if trim (us_id surface) = [] then Err (invalid_params ''id must not be empty'')
      else if trim (us_thread_id surface) = [] then Err (invalid_params ''threadId must not be empty'')
      else if trim (us_title surface) = [] then Err (invalid_params ''title must not be empty'')
      else res_bind (try_for_each validate_bridge_ui_block (us_blocks surface))
        (\<lambda>_. try_for_each validate_ui_action (us_actions surface)))"

section \<open>What the comparisons mean\<close>

text \<open>The number a finite \<open>f64\<close> stands for, from its exponent and its mantissa.\<close>

definition f64_scale :: "nat \<Rightarrow> nat \<Rightarrow> rat" where
  "f64_scale e m = (if e = 0 then of_nat m * 2 / 2 ^ 1075 else of_nat (2 ^ 52 + m) * 2 ^ e / 2 ^ 1075)"

definition f64_magnitude :: "f64 \<Rightarrow> rat" where
  "f64_magnitude x = f64_scale (unat (drop_bit 52 x AND 0x7FF)) (unat (x AND 0xFFFFFFFFFFFFF))"

definition f64_value :: "f64 \<Rightarrow> rat" where
  "f64_value x = (if bit x 63 then - f64_magnitude x else f64_magnitude x)"

lemma f64_masks:
  "x AND 0x7FFFFFFFFFFFFFFF = take_bit 63 (x :: f64)" "x AND 0xFFFFFFFFFFFFF = take_bit 52 x"
  "y AND 0x7FF = take_bit 11 (y :: f64)"
  by (simp_all add: take_bit_eq_mask mask_eq_exp_minus_1)

lemma f64_is_zero_parts:
  "f64_is_zero x \<longleftrightarrow> drop_bit 52 x AND 0x7FF = 0 \<and> x AND 0xFFFFFFFFFFFFF = 0"
proof -
  have "take_bit 63 x = 0 \<longleftrightarrow> take_bit 11 (drop_bit 52 x) = 0 \<and> take_bit 52 x = 0" for x :: f64
  proof
    assume z: "take_bit 63 x = 0"
    have "take_bit 11 (drop_bit 52 x) = drop_bit 52 (take_bit 63 x)" by (simp add: drop_bit_take_bit)
    moreover have "take_bit 52 x = take_bit 52 (take_bit 63 x)" by simp
    ultimately show "take_bit 11 (drop_bit 52 x) = 0 \<and> take_bit 52 x = 0" using z by simp
  next
    assume z: "take_bit 11 (drop_bit 52 x) = 0 \<and> take_bit 52 x = 0"
    then have "\<not> bit x n" if "n < 63" for n
      using that bit_take_bit_iff [of 52 x n] bit_take_bit_iff [of 11 "drop_bit 52 x" "n - 52"]
      by (cases "n < 52") (auto simp: bit_drop_bit_eq)
    then show "take_bit 63 x = 0" by (intro bit_eqI) (simp add: bit_take_bit_iff)
  qed
  then show ?thesis by (simp add: f64_is_zero_def f64_masks)
qed

lemma f64_scale_nonneg: "0 \<le> f64_scale e m"
  by (simp add: f64_scale_def)

lemma f64_scale_zero: "f64_scale e m = 0 \<longleftrightarrow> e = 0 \<and> m = 0"
proof -
  have "(of_nat (2 ^ 52 + m) :: rat) \<noteq> 0" by (metis add_is_0 of_nat_eq_0_iff power_not_zero zero_neq_numeral)
  then show ?thesis by (auto simp: f64_scale_def)
qed

lemma f64_magnitude_nonneg: "0 \<le> f64_magnitude x"
  by (simp add: f64_magnitude_def f64_scale_nonneg)

lemma f64_magnitude_zero: "f64_magnitude x = 0 \<longleftrightarrow> f64_is_zero x"
  by (simp add: f64_magnitude_def f64_scale_zero f64_is_zero_parts unat_eq_0)

lemma f64_finite_not_nan: "f64_is_finite x \<Longrightarrow> \<not> f64_is_nan x"
  by (simp add: f64_is_finite_def f64_is_nan_def)

lemma f64_le_zero_value: "f64_is_finite x \<Longrightarrow> f64_le_zero x \<longleftrightarrow> f64_value x \<le> 0"
  using f64_magnitude_nonneg [of x] f64_magnitude_zero [of x]
  by (auto simp: f64_le_zero_def f64_value_def f64_finite_not_nan)

lemma f64_lt_zero_value: "f64_is_finite x \<Longrightarrow> f64_lt_zero x \<longleftrightarrow> f64_value x < 0"
  using f64_magnitude_nonneg [of x] f64_magnitude_zero [of x]
  by (auto simp: f64_lt_zero_def f64_value_def f64_finite_not_nan)

lemmas f64_comparisons = f64_le_zero_value f64_lt_zero_value

section \<open>Properties\<close>

text \<open>What a block and an action have to satisfy.\<close>

definition ui_block_ok :: "bridge_ui_block \<Rightarrow> bool" where
  "ui_block_ok b = (case b of
      Ui_Text t \<Rightarrow> trim t \<noteq> [] \<and> length t \<le> UI_SURFACE_MAX_TEXT_BYTES
    | Ui_Markdown t \<Rightarrow> trim t \<noteq> [] \<and> length t \<le> UI_SURFACE_MAX_TEXT_BYTES
    | Ui_Code t _ \<Rightarrow> trim t \<noteq> [] \<and> length t \<le> UI_SURFACE_MAX_TEXT_BYTES
    | Ui_Checklist is \<Rightarrow> length is \<in> {1..UI_SURFACE_MAX_ITEMS_PER_BLOCK} \<and> (\<forall>i \<in> set is. trim (ci_label i) \<noteq> [])
    | Ui_Key_Value is \<Rightarrow> length is \<in> {1..UI_SURFACE_MAX_ITEMS_PER_BLOCK}
        \<and> (\<forall>i \<in> set is. trim (kv_label i) \<noteq> [] \<and> trim (kv_value i) \<noteq> [])
    | Ui_Progress l v m _ \<Rightarrow> trim l \<noteq> [] \<and> f64_is_finite v \<and> f64_is_finite m \<and> 0 \<le> f64_value v \<and> 0 < f64_value m)"

lemma validate_block_iff: "is_ok (validate_bridge_ui_block b) \<longleftrightarrow> ui_block_ok b"
proof (cases b)
  case (Ui_Progress l v m d)
  then show ?thesis
    by (auto simp: validate_bridge_ui_block_def ui_block_ok_def f64_comparisons not_le not_less UI_SURFACE_MAX_TEXT_BYTES_def)
next
  case (Ui_Checklist xs)
  then show ?thesis
    by (auto simp: validate_bridge_ui_block_def ui_block_ok_def list_ex_iff Suc_le_eq UI_SURFACE_MAX_TEXT_BYTES_def)
next
  case (Ui_Key_Value xs)
  then show ?thesis
    by (auto simp: validate_bridge_ui_block_def ui_block_ok_def list_ex_iff Suc_le_eq UI_SURFACE_MAX_TEXT_BYTES_def)
qed (auto simp: validate_bridge_ui_block_def ui_block_ok_def Let_def)

lemma validate_action_iff: "is_ok (validate_ui_action a) \<longleftrightarrow> trim (ua_id a) \<noteq> [] \<and> trim (ua_label a) \<noteq> []"
  by (simp add: validate_ui_action_def)

text \<open>
  C36: a surface is accepted exactly when its printed form and its lists are within the limits, its
  identifier, thread and title and the names of its actions are not blank, every text is not blank
  and within its limit, every list of items has between one and the allowed number of items with
  nothing blank, and every progress bar has finite numbers, a value that is not negative and a
  positive maximum.
\<close>

theorem ui_surface_accepted_exactly:
  "validate_bridge_ui_surface J show_f64 s = Ok () \<longleftrightarrow>
     length (to_string J (ser_surface show_f64 s)) \<le> UI_SURFACE_MAX_BYTES
     \<and> length (us_blocks s) \<le> UI_SURFACE_MAX_BLOCKS \<and> length (us_actions s) \<le> UI_SURFACE_MAX_ACTIONS
     \<and> trim (us_id s) \<noteq> [] \<and> trim (us_thread_id s) \<noteq> [] \<and> trim (us_title s) \<noteq> []
     \<and> list_all ui_block_ok (us_blocks s)
     \<and> list_all (\<lambda>a. trim (ua_id a) \<noteq> [] \<and> trim (ua_label a) \<noteq> []) (us_actions s)"
proof -
  have loops: "res_bind (try_for_each validate_bridge_ui_block bs) (\<lambda>_. try_for_each validate_ui_action as) = Ok ()
    \<longleftrightarrow> list_all ui_block_ok bs \<and> list_all (\<lambda>a. trim (ua_id a) \<noteq> [] \<and> trim (ua_label a) \<noteq> []) as" for bs as
  proof (cases "try_for_each validate_bridge_ui_block bs")
    case (Inl e)
    then obtain b where "b \<in> set bs" "\<not> ui_block_ok b"
      using try_for_each_Err [OF Inl] by (metis is_ok_simps(1) validate_block_iff)
    then show ?thesis using Inl by (auto simp: list_all_iff res_bind_def)
  next
    case (Inr u)
    from Inr have "\<forall>b \<in> set bs. ui_block_ok b" by (simp add: try_for_each_Ok validate_block_iff)
    moreover have "res_bind (try_for_each validate_bridge_ui_block bs) f = f u" for f :: "unit \<Rightarrow> bridge_error + unit"
      by (simp add: Inr res_bind_def)
    ultimately show ?thesis by (simp add: list_all_iff try_for_each_Ok validate_action_iff)
  qed
  show ?thesis by (auto simp: validate_bridge_ui_surface_def Let_def loops)
qed

text \<open>A number survives as an identifier in both spellings; nothing else is accepted.\<close>

lemma parse_internal_id_spellings:
  assumes "n < 2 ^ 64"
  shows "parse_internal_id (Some (JInt (int n))) = Some n" "parse_internal_id (Some (JString (show_nat n))) = Some n"
  using assms parse_show_nat [OF assms]
  by (auto simp: parse_internal_id_def as_u64_def as_i64_def as_str_def nat_less_iff)

lemma parse_internal_id_range: "parse_internal_id v = Some n \<Longrightarrow> n < 2 ^ 64"
  by (auto simp: parse_internal_id_def as_u64_def as_i64_def as_str_def parse_u64_def Let_def nat_less_iff
      dest: read_digits_bound [rotated] split: option.splits json.splits if_splits)

lemma required_push_id_Ok:
  "required_push_id params field = Ok v \<Longrightarrow>
     v \<noteq> [] \<and> length v \<le> PUSH_ID_MAX_BYTES \<and> (\<exists>s. json_get params field = Some (JString s) \<and> v = trim s)"
  by (auto simp: required_push_id_def read_string_def as_str_def bind_eq_Some_conv split: option.splits if_splits json.splits)

end
