(* ===== verification/Push_Registry.thy ===== *)
theory Push_Registry
  imports Interaction_Validation Serde Storage Rust_Text
begin

text \<open>
  The devices that receive push notifications (\<open>services/rust-bridge/src/push.rs\<close>): the registry in
  memory and in its file, and the two requests of \<open>websocket_transport.rs\<close> that change it. The text of
  JSON (pretty printed), the texts of system errors and Unicode lower case are parameters.
\<close>

definition PUSH_REGISTRY_MAX_DEVICES :: nat where "PUSH_REGISTRY_MAX_DEVICES = 64"
definition PUSH_TOKEN_MAX_BYTES :: nat where "PUSH_TOKEN_MAX_BYTES = 512"
definition PUSH_PLATFORM_MAX_BYTES :: nat where "PUSH_PLATFORM_MAX_BYTES = 32"
definition PUSH_DEVICE_NAME_MAX_BYTES :: nat where "PUSH_DEVICE_NAME_MAX_BYTES = 128"
definition PUSH_REGISTRY_MAX_BYTES :: nat where "PUSH_REGISTRY_MAX_BYTES = 128 * 1024"
definition PUSH_REGISTRY_FILE_NAME :: str where "PUSH_REGISTRY_FILE_NAME = ''push-registry.json''"

record push_ext =
  p_json :: json_text
  p_show_io :: "io_error \<Rightarrow> str"
  p_to_lowercase :: "str \<Rightarrow> str"

section \<open>Data\<close>

record push_event_preferences =
  pe_turn_completed :: bool
  pe_approval_requested :: bool

definition preferences_default :: push_event_preferences where
  "preferences_default = \<lparr>pe_turn_completed = True, pe_approval_requested = True\<rparr>"

record push_device_registration =
  pd_profile_id :: str
  pd_registration_id :: str
  pd_token :: str
  pd_platform :: str
  pd_device_name :: str
  pd_events :: push_event_preferences
  pd_created_at :: str
  pd_updated_at :: str

record push_registry =
  pr_devices :: "push_device_registration list"

definition registry_default :: push_registry where
  "registry_default = \<lparr>pr_devices = []\<rparr>"

definition parse_push_event_preferences :: "json option \<Rightarrow> push_event_preferences" where
  "parse_push_event_preferences value =
     (case value of
        None \<Rightarrow> preferences_default
      | Some object \<Rightarrow>
          \<lparr>pe_turn_completed = (case read_bool (json_get object ''turnCompleted'') of
               None \<Rightarrow> pe_turn_completed preferences_default | Some b \<Rightarrow> b),
           pe_approval_requested = (case read_bool (json_get object ''approvalRequested'') of
               None \<Rightarrow> pe_approval_requested preferences_default | Some b \<Rightarrow> b)\<rparr>)"

section \<open>The file\<close>

definition ser_preferences :: "push_event_preferences \<Rightarrow> json" where
  "ser_preferences e = JObject [(''turnCompleted'', JBool (pe_turn_completed e)),
     (''approvalRequested'', JBool (pe_approval_requested e))]"

definition ser_device :: "push_device_registration \<Rightarrow> json" where
  "ser_device d = JObject
     [(''profileId'', JString (pd_profile_id d)), (''registrationId'', JString (pd_registration_id d)),
      (''token'', JString (pd_token d)), (''platform'', JString (pd_platform d)),
      (''deviceName'', JString (pd_device_name d)), (''events'', ser_preferences (pd_events d)),
      (''createdAt'', JString (pd_created_at d)), (''updatedAt'', JString (pd_updated_at d))]"

definition ser_registry :: "push_registry \<Rightarrow> json" where
  "ser_registry r = JObject [(''devices'', JArray (map ser_device (pr_devices r)))]"

definition de_preferences :: "json \<Rightarrow> push_event_preferences option" where
  "de_preferences v =
     Option.bind (open_members [''turnCompleted'', ''approvalRequested''] v) (\<lambda>ms.
     Option.bind (field_default ms ''turnCompleted'' True as_bool) (\<lambda>t.
     Option.bind (field_default ms ''approvalRequested'' True as_bool) (\<lambda>a.
     Some \<lparr>pe_turn_completed = t, pe_approval_requested = a\<rparr>)))"

definition device_members :: "str list" where
  "device_members = [''profileId'', ''registrationId'', ''token'', ''platform'', ''deviceName'', ''events'',
     ''createdAt'', ''updatedAt'']"

definition de_device :: "json \<Rightarrow> push_device_registration option" where
  "de_device v =
     Option.bind (open_members device_members v) (\<lambda>ms.
     Option.bind (field_req ms ''profileId'' de_string) (\<lambda>p.
     Option.bind (field_req ms ''registrationId'' de_string) (\<lambda>r.
     Option.bind (field_req ms ''token'' de_string) (\<lambda>t.
     Option.bind (field_default ms ''platform'' [] de_string) (\<lambda>pl.
     Option.bind (field_default ms ''deviceName'' [] de_string) (\<lambda>dn.
     Option.bind (field_default ms ''events'' preferences_default de_preferences) (\<lambda>ev.
     Option.bind (field_req ms ''createdAt'' de_string) (\<lambda>c.
     Option.bind (field_req ms ''updatedAt'' de_string) (\<lambda>u.
     Some \<lparr>pd_profile_id = p, pd_registration_id = r, pd_token = t, pd_platform = pl, pd_device_name = dn,
       pd_events = ev, pd_created_at = c, pd_updated_at = u\<rparr>)))))))))"

definition de_registry :: "json \<Rightarrow> push_registry option" where
  "de_registry v =
     Option.bind (open_members [''devices''] v) (\<lambda>ms.
     Option.bind (field_default ms ''devices'' [] (de_vec de_device)) (\<lambda>ds. Some \<lparr>pr_devices = ds\<rparr>))"

text \<open>What \<open>load\<close> retains of a file.\<close>

definition device_retained :: "push_device_registration \<Rightarrow> bool" where
  "device_retained d =
     (pd_token d \<noteq> [] \<and> pd_profile_id d \<noteq> [] \<and> pd_registration_id d \<noteq> []
      \<and> length (pd_profile_id d) \<le> PUSH_ID_MAX_BYTES \<and> length (pd_registration_id d) \<le> PUSH_ID_MAX_BYTES
      \<and> length (pd_token d) \<le> PUSH_TOKEN_MAX_BYTES \<and> length (pd_platform d) \<le> PUSH_PLATFORM_MAX_BYTES
      \<and> length (pd_device_name d) \<le> PUSH_DEVICE_NAME_MAX_BYTES)"

definition push_registry_path :: "str \<Rightarrow> storage_path" where
  "push_registry_path workdir = \<lparr>path_parent = Some workdir, path_file_name = Some PUSH_REGISTRY_FILE_NAME\<rparr>"

definition push_load :: "push_ext \<Rightarrow> bool \<Rightarrow> directory \<Rightarrow> push_registry" where
  "push_load X readable_file dir =
     (case dir PUSH_REGISTRY_FILE_NAME of
        None \<Rightarrow> registry_default
      | Some contents \<Rightarrow>
          if \<not> readable_file \<or> PUSH_REGISTRY_MAX_BYTES < length contents then registry_default
          else (case Option.bind (from_str (p_json X) contents) de_registry of
                  None \<Rightarrow> registry_default
                | Some r \<Rightarrow> \<lparr>pr_devices = take PUSH_REGISTRY_MAX_DEVICES (filter device_retained (pr_devices r))\<rparr>))"

definition persist_snapshot ::
  "push_ext \<Rightarrow> str \<Rightarrow> io_env \<Rightarrow> push_registry \<Rightarrow> directory \<Rightarrow> (bridge_error + unit) \<times> directory" where
  "persist_snapshot X workdir env snapshot dir =
     (let contents = to_string (p_json X) (ser_registry snapshot) in
      if PUSH_REGISTRY_MAX_BYTES < length contents
      then (Err (resource_limit ''push_registry_bytes'' PUSH_REGISTRY_MAX_BYTES (length contents)), dir)
      else (case atomic_write_private env (push_registry_path workdir) contents dir of
              (Inl e, dir') \<Rightarrow> (Err (server_error (''failed to persist push registry: '' @ p_show_io X e)), dir')
            | (Inr u, dir') \<Rightarrow> (Ok u, dir')))"

text \<open>\<open>self.persist_snapshot(&candidate).await?; *registry = candidate;\<close>\<close>

definition push_commit ::
  "push_ext \<Rightarrow> str \<Rightarrow> io_env \<Rightarrow> push_registry \<Rightarrow> push_registry \<Rightarrow> directory
     \<Rightarrow> (bridge_error + unit) \<times> push_registry \<times> directory" where
  "push_commit X workdir env candidate registry dir =
     (case persist_snapshot X workdir env candidate dir of
        (Inl e, dir') \<Rightarrow> (Err e, registry, dir')
      | (Inr u, dir') \<Rightarrow> (Ok u, candidate, dir'))"

section \<open>Operations\<close>

fun update_first :: "('a \<Rightarrow> bool) \<Rightarrow> ('a \<Rightarrow> 'a) \<Rightarrow> 'a list \<Rightarrow> 'a list" where
  "update_first P f [] = []"
| "update_first P f (x # xs) = (if P x then f x # xs else x # update_first P f xs)"

text \<open>The devices after a registration, before they are persisted.\<close>

definition register_candidate ::
  "str \<Rightarrow> push_device_registration \<Rightarrow> push_device_registration list \<Rightarrow> bridge_error + push_device_registration list" where
  "register_candidate now new devices =
     res_bind
       (case List.find (\<lambda>d. pd_registration_id d = pd_registration_id new) devices of
          Some existing \<Rightarrow>
            if pd_profile_id existing \<noteq> pd_profile_id new
            then Err (invalid_params ''registrationId is already bound to another profileId'')
            else Ok (update_first (\<lambda>d. pd_registration_id d = pd_registration_id new)
                   (\<lambda>d. d\<lparr>pd_token := pd_token new, pd_platform := pd_platform new,
                          pd_device_name := pd_device_name new, pd_events := pd_events new, pd_updated_at := now\<rparr>)
                   devices)
        | None \<Rightarrow>
            if PUSH_REGISTRY_MAX_DEVICES \<le> length devices
            then Err (resource_limit ''push_registry_devices'' PUSH_REGISTRY_MAX_DEVICES (length devices + 1))
            else Ok (devices @ [new\<lparr>pd_created_at := now, pd_updated_at := now\<rparr>]))
       (\<lambda>ds. Ok (filter (\<lambda>d. pd_registration_id d = pd_registration_id new \<or> pd_token d \<noteq> pd_token new) ds))"

definition push_register ::
  "push_ext \<Rightarrow> str \<Rightarrow> io_env \<Rightarrow> str \<Rightarrow> push_device_registration \<Rightarrow> push_registry \<Rightarrow> directory
     \<Rightarrow> (bridge_error + nat) \<times> push_registry \<times> directory" where
  "push_register X workdir env now new registry dir =
     (case register_candidate now new (pr_devices registry) of
        Inl e \<Rightarrow> (Err e, registry, dir)
      | Inr ds \<Rightarrow>
          (case push_commit X workdir env (registry\<lparr>pr_devices := ds\<rparr>) registry dir of
             (Inl e, registry', dir') \<Rightarrow> (Err e, registry', dir')
           | (Inr _, registry', dir') \<Rightarrow> (Ok (length ds), registry', dir')))"

text \<open>\<open>unregister\<close> and \<open>unregister_token\<close> retain the other devices and write only on a change.\<close>

definition push_retain ::
  "push_ext \<Rightarrow> str \<Rightarrow> io_env \<Rightarrow> (push_device_registration \<Rightarrow> bool) \<Rightarrow> push_registry \<Rightarrow> directory
     \<Rightarrow> (bridge_error + bool) \<times> push_registry \<times> directory" where
  "push_retain X workdir env keep registry dir =
     (let ds = filter keep (pr_devices registry) in
      if length ds = length (pr_devices registry) then (Ok False, registry, dir)
      else (case push_commit X workdir env (registry\<lparr>pr_devices := ds\<rparr>) registry dir of
              (Inl e, registry', dir') \<Rightarrow> (Err e, registry', dir')
            | (Inr _, registry', dir') \<Rightarrow> (Ok True, registry', dir')))"

definition push_unregister ::
  "push_ext \<Rightarrow> str \<Rightarrow> io_env \<Rightarrow> str \<Rightarrow> str \<Rightarrow> push_registry \<Rightarrow> directory
     \<Rightarrow> (bridge_error + bool) \<times> push_registry \<times> directory" where
  "push_unregister X workdir env profile_id registration_id registry dir =
     push_retain X workdir env (\<lambda>d. pd_profile_id d \<noteq> profile_id \<or> pd_registration_id d \<noteq> registration_id) registry dir"

definition unregister_token ::
  "push_ext \<Rightarrow> str \<Rightarrow> io_env \<Rightarrow> str \<Rightarrow> push_registry \<Rightarrow> directory
     \<Rightarrow> (bridge_error + bool) \<times> push_registry \<times> directory" where
  "unregister_token X workdir env token registry dir =
     push_retain X workdir env (\<lambda>d. pd_token d \<noteq> token) registry dir"

section \<open>The requests\<close>

definition read_trimmed :: "json \<Rightarrow> str \<Rightarrow> str option" where
  "read_trimmed params field =
     (case map_option trim (read_string (json_get params field)) of
        None \<Rightarrow> None | Some v \<Rightarrow> if v = [] then None else Some v)"

definition parse_push_registration :: "push_ext \<Rightarrow> json \<Rightarrow> bridge_error + push_device_registration" where
  "parse_push_registration X params =
     res_bind (required_push_id params ''profileId'') (\<lambda>profile_id.
     res_bind (required_push_id params ''registrationId'') (\<lambda>registration_id.
     case read_trimmed params ''token'' of
       None \<Rightarrow> Err (invalid_params ''push token is required'')
     | Some token \<Rightarrow>
         let platform = (case read_string (json_get params ''platform'') of
                           None \<Rightarrow> ''unknown'' | Some v \<Rightarrow> p_to_lowercase X (trim v));
             device_name = (case read_trimmed params ''deviceName'' of None \<Rightarrow> ''Unknown device'' | Some v \<Rightarrow> v);
             events = parse_push_event_preferences (json_get params ''events'')
         in if PUSH_TOKEN_MAX_BYTES < length token
            then Err (resource_limit ''push_token_bytes'' PUSH_TOKEN_MAX_BYTES (length token))
            else if PUSH_PLATFORM_MAX_BYTES < length platform
            then Err (resource_limit ''push_platform_bytes'' PUSH_PLATFORM_MAX_BYTES (length platform))
            else if PUSH_DEVICE_NAME_MAX_BYTES < length device_name
            then Err (resource_limit ''push_device_name_bytes'' PUSH_DEVICE_NAME_MAX_BYTES (length device_name))
            else Ok \<lparr>pd_profile_id = profile_id, pd_registration_id = registration_id, pd_token = token,
                     pd_platform = platform, pd_device_name = device_name, pd_events = events,
                     pd_created_at = [], pd_updated_at = []\<rparr>))"

definition push_register_request ::
  "push_ext \<Rightarrow> str \<Rightarrow> io_env \<Rightarrow> str \<Rightarrow> json option \<Rightarrow> push_registry \<Rightarrow> directory
     \<Rightarrow> (bridge_error + json) \<times> push_registry \<times> directory" where
  "push_register_request X workdir env now params registry dir =
     (case parse_push_registration X (case params of None \<Rightarrow> JObject [] | Some p \<Rightarrow> p) of
        Inl e \<Rightarrow> (Err e, registry, dir)
      | Inr new \<Rightarrow>
          (case push_register X workdir env now new registry dir of
             (Inl e, registry', dir') \<Rightarrow> (Err e, registry', dir')
           | (Inr count, registry', dir') \<Rightarrow>
               (Ok (JObject [(''ok'', JBool True), (''deviceCount'', JInt (int count))]), registry', dir')))"

definition push_unregister_request ::
  "push_ext \<Rightarrow> str \<Rightarrow> io_env \<Rightarrow> json option \<Rightarrow> push_registry \<Rightarrow> directory
     \<Rightarrow> (bridge_error + json) \<times> push_registry \<times> directory" where
  "push_unregister_request X workdir env params registry dir =
     (let p = (case params of None \<Rightarrow> JObject [] | Some p \<Rightarrow> p) in
      case res_bind (required_push_id p ''profileId'') (\<lambda>a.
             res_bind (required_push_id p ''registrationId'') (\<lambda>b. Ok (a, b))) of
        Inl e \<Rightarrow> (Err e, registry, dir)
      | Inr (profile_id, registration_id) \<Rightarrow>
          (case push_unregister X workdir env profile_id registration_id registry dir of
             (Inl e, registry', dir') \<Rightarrow> (Err e, registry', dir')
           | (Inr removed, registry', dir') \<Rightarrow>
               (Ok (JObject [(''ok'', JBool True), (''removed'', JBool removed)]), registry', dir')))"

end
