(* ===== verification/Push_Delivery.thy ===== *)
theory Push_Delivery
  imports Push_Registry Queue_Agent Client_Hub
begin

text \<open>
  Push notifications (\<open>services/rust-bridge/src/push_delivery.rs\<close>): which events notify which devices,
  the preview of a reply, the requests to the push service with their retries, the tickets and
  receipts it answers with. The service itself is a parameter: each request has its answer as an input.
\<close>

definition EXPO_PUSH_SEND_ENDPOINT :: str where "EXPO_PUSH_SEND_ENDPOINT = ''https://exp.host/--/api/v2/push/send''"
definition EXPO_PUSH_RECEIPTS_ENDPOINT :: str where "EXPO_PUSH_RECEIPTS_ENDPOINT = ''https://exp.host/--/api/v2/push/getReceipts''"
definition EXPO_PUSH_BATCH_SIZE :: nat where "EXPO_PUSH_BATCH_SIZE = 100"
definition PUSH_PREVIEW_MAX_THREADS :: nat where "PUSH_PREVIEW_MAX_THREADS = 256"
definition PUSH_PREVIEW_ACCUMULATE_CAP :: nat where "PUSH_PREVIEW_ACCUMULATE_CAP = 8000"
definition PUSH_PREVIEW_MAX_CHARS :: nat where "PUSH_PREVIEW_MAX_CHARS = 140"
definition EXPO_RECEIPT_BATCH_SIZE :: nat where "EXPO_RECEIPT_BATCH_SIZE = 1000"
definition PUSH_SEND_MAX_ATTEMPTS :: nat where "PUSH_SEND_MAX_ATTEMPTS = 4"
definition PUSH_OBSERVATION_WAIT_MS :: nat where "PUSH_OBSERVATION_WAIT_MS = 750"

section \<open>State\<close>

datatype push_event = Turn_Completed | Approval_Requested

definition push_event_str :: "push_event \<Rightarrow> str" where
  "push_event_str e = (case e of Turn_Completed \<Rightarrow> ''turn_completed'' | Approval_Requested \<Rightarrow> ''approval_requested'')"

text \<open>What the service does: requests, waits, counters, background checks.\<close>

datatype push_output =
    Http_post str json "str option"
  | Sleep_ms nat
  | Push_attempted nat
  | Push_transport_failure nat
  | Push_outcome nat nat
  | Push_receipt_error
  | Spawn_receipt_check "(str \<times> str) list"

record push_service =
  ps_registry :: push_registry
  ps_dir :: directory
  ps_workdir :: str
  ps_project_label :: str
  ps_access_token :: "str option"
  ps_recent_replies :: "(str, str) btree"
  ps_active_deliveries :: nat
  ps_pending_receipt_checks :: nat
  ps_outputs :: "push_output list"

definition push_emit :: "push_output \<Rightarrow> push_service \<Rightarrow> push_service" where
  "push_emit x S = S\<lparr>ps_outputs := ps_outputs S @ [x]\<rparr>"

definition push_service_load :: "push_ext \<Rightarrow> bool \<Rightarrow> str \<Rightarrow> directory \<Rightarrow> str \<Rightarrow> str option \<Rightarrow> push_service" where
  "push_service_load X readable_file workdir dir project_label expo_access_token =
     \<lparr>ps_registry = push_load X readable_file dir, ps_dir = dir, ps_workdir = workdir,
      ps_project_label = project_label,
      ps_access_token = (case map_option trim expo_access_token of
         None \<Rightarrow> None | Some v \<Rightarrow> if v = [] then None else Some v),
      ps_recent_replies = [], ps_active_deliveries = 0, ps_pending_receipt_checks = 0, ps_outputs = []\<rparr>"

text \<open>\<open>AtomicU64::fetch_sub(1)\<close> wraps around.\<close>

definition fetch_dec :: "nat \<Rightarrow> nat" where
  "fetch_dec n = (n + (2 ^ 64 - 1)) mod 2 ^ 64"

section \<open>The preview of a reply\<close>

text \<open>\<open>victim\<close> is the key the hash map happens to list first.\<close>

definition accumulate_canonical_reply :: "str \<Rightarrow> str \<Rightarrow> str \<Rightarrow> push_service \<Rightarrow> push_service" where
  "accumulate_canonical_reply victim thread_id content S =
     (if content = [] then S
      else
        let replies = (if \<not> bt_contains (ps_recent_replies S) thread_id
                \<and> PUSH_PREVIEW_MAX_THREADS \<le> length (ps_recent_replies S)
              then bt_remove victim (ps_recent_replies S) else ps_recent_replies S);
            entry = (case map_of replies thread_id of None \<Rightarrow> [] | Some e \<Rightarrow> e);
            entry' = (if length entry < PUSH_PREVIEW_ACCUMULATE_CAP
              then entry @ fst (truncate_utf8_bytes content (PUSH_PREVIEW_ACCUMULATE_CAP - length entry)) else entry)
        in S\<lparr>ps_recent_replies := bt_insert thread_id entry' replies\<rparr>)"

text \<open>\<open>str::split_whitespace\<close>, over the characters of the text.\<close>

fun words_of :: "str \<Rightarrow> str list \<Rightarrow> str list" where
  "words_of acc [] = (if acc = [] then [] else [acc])"
| "words_of acc (c # cs) =
     (if ws_char c then (if acc = [] then words_of [] cs else acc # words_of [] cs) else words_of (acc @ c) cs)"

definition split_whitespace :: "str \<Rightarrow> str list" where
  "split_whitespace s = words_of [] (chars_of s)"

definition ellipsis :: str where "ellipsis = [CHR 0xE2, CHR 0x80, CHR 0xA6]"

definition truncate_chars :: "str \<Rightarrow> nat \<Rightarrow> str" where
  "truncate_chars s max_chars =
     (if length (chars_of s) \<le> max_chars then s
      else if max_chars = 0 then []
      else trim_end (concat (take (max_chars - 1) (chars_of s))) @ ellipsis)"

definition reply_preview :: "str \<Rightarrow> str option" where
  "reply_preview raw =
     (case List.find (\<lambda>l. l \<noteq> []) (rev (map trim (lines_of raw))) of
        None \<Rightarrow> None
      | Some last_line \<Rightarrow>
          let collapsed = join_on (CHR '' '') (split_whitespace last_line)
          in if collapsed = [] then None else Some (truncate_chars collapsed PUSH_PREVIEW_MAX_CHARS))"

definition take_reply_preview :: "str \<Rightarrow> push_service \<Rightarrow> str option \<times> push_service" where
  "take_reply_preview thread_id S =
     (case map_of (ps_recent_replies S) thread_id of
        None \<Rightarrow> (None, S)
      | Some raw \<Rightarrow> (reply_preview raw, S\<lparr>ps_recent_replies := bt_remove thread_id (ps_recent_replies S)\<rparr>))"

section \<open>Requests\<close>

text \<open>No response, or a status with the \<open>Retry-After\<close> header and the body where it is JSON.\<close>

datatype http_answer = No_response | Response nat "str option" "json option"

definition retryable :: "nat \<Rightarrow> bool" where
  "retryable http_status = (http_status = 429 \<or> 500 \<le> http_status \<and> http_status < 600)"

definition retry_wait :: "str option \<Rightarrow> nat \<Rightarrow> nat" where
  "retry_wait retry_after delay_ms =
     (case Option.bind retry_after parse_u64 of
        None \<Rightarrow> delay_ms
      | Some secs \<Rightarrow> min (sat_mul secs 1000) 8000)"

function post_loop ::
  "(nat \<Rightarrow> http_answer) \<Rightarrow> str \<Rightarrow> json \<Rightarrow> nat \<Rightarrow> nat \<Rightarrow> push_service \<Rightarrow> json option \<times> push_service" where
  "post_loop answers url body attempt delay_ms S =
     (if PUSH_SEND_MAX_ATTEMPTS < attempt then (None, S)
      else
        let S1 = push_emit (Http_post url body (ps_access_token S)) S in
        (case answers attempt of
           Response http_status retry_after value \<Rightarrow>
             if retryable http_status then
               if PUSH_SEND_MAX_ATTEMPTS \<le> attempt then (None, S1)
               else post_loop answers url body (attempt + 1) (min (delay_ms * 2) 8000)
                      (push_emit (Sleep_ms (retry_wait retry_after delay_ms)) S1)
             else (value, S1)
         | No_response \<Rightarrow>
             if PUSH_SEND_MAX_ATTEMPTS \<le> attempt then (None, S1)
             else post_loop answers url body (attempt + 1) (min (delay_ms * 2) 8000)
                    (push_emit (Sleep_ms delay_ms) S1)))"
  by pat_completeness auto
termination
  by (relation "measure (\<lambda>(_, _, _, attempt, _, _). Suc PUSH_SEND_MAX_ATTEMPTS - attempt)") auto

declare post_loop.simps [simp del]

definition post_with_retry :: "(nat \<Rightarrow> http_answer) \<Rightarrow> str \<Rightarrow> json \<Rightarrow> push_service \<Rightarrow> json option \<times> push_service" where
  "post_with_retry answers url body S = post_loop answers url body 1 500 S"

text \<open>\<open>slice::chunks\<close>.\<close>

function chunks :: "nat \<Rightarrow> 'a list \<Rightarrow> 'a list list" where
  "chunks n xs = (if xs = [] then [] else take (max 1 n) xs # chunks n (drop (max 1 n) xs))"
  by pat_completeness auto
termination
  by (relation "measure (\<lambda>(_, xs). length xs)") auto

declare chunks.simps [simp del]

section \<open>Sending\<close>

type_synonym push_target = "str \<times> str \<times> str"

definition push_targets :: "push_event \<Rightarrow> push_registry \<Rightarrow> push_target list" where
  "push_targets event r =
     map (\<lambda>d. (pd_token d, pd_profile_id d, pd_registration_id d))
       (filter (\<lambda>d. case event of Turn_Completed \<Rightarrow> pe_turn_completed (pd_events d)
                    | Approval_Requested \<Rightarrow> pe_approval_requested (pd_events d)) (pr_devices r))"

definition set_member :: "str \<Rightarrow> json \<Rightarrow> json \<Rightarrow> json" where
  "set_member k v j = (case j of JObject kvs \<Rightarrow> JObject (object_insert k v kvs) | _ \<Rightarrow> j)"

definition push_message :: "str \<Rightarrow> str \<Rightarrow> json \<Rightarrow> str option \<Rightarrow> push_target \<Rightarrow> json" where
  "push_message title body extra_data category_id target =
     (case target of (token, profile_id, registration_id) \<Rightarrow>
        let target_data = set_member ''registrationId'' (JString registration_id)
              (set_member ''profileId'' (JString profile_id) extra_data);
            msg = JObject [(''to'', JString token), (''title'', JString title), (''body'', JString body),
              (''data'', target_data), (''sound'', JString ''default''), (''priority'', JString ''high'')]
        in case category_id of None \<Rightarrow> msg | Some c \<Rightarrow> set_member ''categoryId'' (JString c) msg)"

definition error_kind :: "json \<Rightarrow> str option" where
  "error_kind j = Option.bind (json_get j ''details'') (\<lambda>details. read_string (json_get details ''error''))"

text \<open>The tickets of a batch, counted and sorted.\<close>

record ticket_outcome =
  to_accepted :: nat
  to_failed :: nat
  to_stale :: "str list"
  to_pending :: "(str \<times> str) list"

definition read_ticket :: "json \<times> push_target \<Rightarrow> ticket_outcome \<Rightarrow> ticket_outcome" where
  "read_ticket p t =
     (case p of (ticket, token, _) \<Rightarrow>
        (case read_string (json_get ticket ''status'') of
           Some http_status \<Rightarrow>
             if http_status = ''ok'' then
               t\<lparr>to_accepted := to_accepted t + 1,
                 to_pending := (case read_string (json_get ticket ''id'') of
                    None \<Rightarrow> to_pending t | Some i \<Rightarrow> to_pending t @ [(i, token)])\<rparr>
             else if http_status = ''error'' then
               t\<lparr>to_failed := to_failed t + 1,
                 to_stale := (if error_kind ticket = Some ''DeviceNotRegistered'' then to_stale t @ [token] else to_stale t)\<rparr>
             else t\<lparr>to_failed := to_failed t + 1\<rparr>
         | None \<Rightarrow> t\<lparr>to_failed := to_failed t + 1\<rparr>))"

definition read_tickets :: "json list \<Rightarrow> push_target list \<Rightarrow> ticket_outcome" where
  "read_tickets tickets chunk =
     fold read_ticket (zip tickets chunk)
       \<lparr>to_accepted = 0, to_failed = length chunk - length tickets, to_stale = [], to_pending = []\<rparr>"

definition unregister_stale_token :: "push_ext \<Rightarrow> io_env \<Rightarrow> str \<Rightarrow> push_service \<Rightarrow> push_service" where
  "unregister_stale_token X env token S =
     (case unregister_token X (ps_workdir S) env token (ps_registry S) (ps_dir S) of
        (_, registry', dir') \<Rightarrow> S\<lparr>ps_registry := registry', ps_dir := dir'\<rparr>)"

definition unregister_stale :: "push_ext \<Rightarrow> (nat \<Rightarrow> io_env) \<Rightarrow> str list \<Rightarrow> push_service \<Rightarrow> push_service" where
  "unregister_stale X ios tokens S =
     fold (\<lambda>(n, token). unregister_stale_token X (ios n) token) (enumerate 0 tokens) S"

definition spawn_receipt_check :: "(str \<times> str) list \<Rightarrow> push_service \<Rightarrow> push_service" where
  "spawn_receipt_check receipts S =
     (if receipts = [] then S
      else push_emit (Spawn_receipt_check receipts)
             (S\<lparr>ps_pending_receipt_checks := fetch_inc (ps_pending_receipt_checks S)\<rparr>))"

text \<open>The answers and faults one batch meets.\<close>

record batch_env =
  be_answers :: "nat \<Rightarrow> http_answer"
  be_ios :: "nat \<Rightarrow> io_env"

definition send_batch ::
  "push_ext \<Rightarrow> batch_env \<Rightarrow> str \<Rightarrow> str \<Rightarrow> str \<Rightarrow> json \<Rightarrow> str option \<Rightarrow> push_target list \<Rightarrow> push_service \<Rightarrow> push_service" where
  "send_batch X E endpoint title body extra_data category_id chunk S =
     (let S1 = push_emit (Push_attempted (length chunk)) S;
          messages = map (push_message title body extra_data category_id) chunk
      in case post_with_retry (be_answers E) endpoint (JArray messages) S1 of
           (None, S2) \<Rightarrow> push_emit (Push_transport_failure (length chunk)) S2
         | (Some answer, S2) \<Rightarrow>
             (case Option.bind (json_get answer ''data'') as_array of
                None \<Rightarrow> push_emit (Push_transport_failure (length chunk)) S2
              | Some tickets \<Rightarrow>
                  let t = read_tickets tickets chunk;
                      S3 = push_emit (Push_outcome (to_accepted t) (to_failed t)) S2
                  in spawn_receipt_check (to_pending t) (unregister_stale X (be_ios E) (to_stale t) S3)))"

definition send_to_endpoint ::
  "push_ext \<Rightarrow> (nat \<Rightarrow> batch_env) \<Rightarrow> str \<Rightarrow> str \<Rightarrow> str \<Rightarrow> json \<Rightarrow> str option \<Rightarrow> push_target list
     \<Rightarrow> push_service \<Rightarrow> push_service" where
  "send_to_endpoint X Es endpoint title body extra_data category_id targets S =
     (let S1 = S\<lparr>ps_active_deliveries := fetch_inc (ps_active_deliveries S)\<rparr>;
          S2 = fold (\<lambda>(n, chunk). send_batch X (Es n) endpoint title body extra_data category_id chunk)
                 (enumerate 0 (chunks EXPO_PUSH_BATCH_SIZE targets)) S1
      in S2\<lparr>ps_active_deliveries := fetch_dec (ps_active_deliveries S2)\<rparr>)"

definition send_canonical_push ::
  "push_ext \<Rightarrow> (nat \<Rightarrow> batch_env) \<Rightarrow> str \<Rightarrow> str \<Rightarrow> push_event \<Rightarrow> str option \<Rightarrow> str option \<Rightarrow> str option \<Rightarrow> bool
     \<Rightarrow> push_service \<Rightarrow> push_service" where
  "send_canonical_push X Es notification_id endpoint event thread_id approval_id preview observed S =
     (let targets = push_targets event (ps_registry S) in
      if targets = [] then S
      else if observed then S
      else
        let (title, body) = (case event of
               Turn_Completed \<Rightarrow> (''Turn finished'', case preview of
                  None \<Rightarrow> ''The agent finished working in '' @ ps_project_label S | Some p \<Rightarrow> p)
             | Approval_Requested \<Rightarrow> (''Approval needed'',
                  ''The agent is waiting for your approval in '' @ ps_project_label S));
            extra_data = JObject [(''type'', JString (push_event_str event)), (''notificationId'', JString notification_id),
              (''threadId'', ser_option JString thread_id), (''approvalId'', ser_option JString approval_id)];
            category_id = (if event = Approval_Requested then Some ''approval'' else None)
        in send_to_endpoint X Es endpoint title body extra_data category_id targets S)"

section \<open>Events\<close>

definition completion_is_final :: "queue_completion_disposition \<Rightarrow> bool" where
  "completion_is_final d = (d = Final)"

text \<open>
  What one event meets: the state the queue has at each poll of the wait for the fate of the run, what
  others do to the hub while an observation is awaited, the drawn identifier, the answers of the push
  service, and the key a full preview cache lists first.
\<close>

record ('c, 'p) push_event_env =
  pv_queue :: "(nat \<times> (queue_service \<times> nat \<times> bool) list) option"
  pv_meanwhile :: "('c, 'p) client_hub \<Rightarrow> ('c, 'p) client_hub"
  pv_notification_id :: str
  pv_batches :: "nat \<Rightarrow> batch_env"
  pv_victim :: str

definition observe_candidate ::
  "('c, 'p) push_event_env \<Rightarrow> bool \<Rightarrow> nat \<Rightarrow> ('c, 'p) client_hub \<Rightarrow> bool \<times> ('c, 'p) client_hub" where
  "observe_candidate E foreground_present cand h =
     (if foreground_present then take_push_observation (pv_meanwhile E) h cand PUSH_OBSERVATION_WAIT_MS
      else (False, discard_push_observation h cand))"

definition handle_run_ended ::
  "push_ext \<Rightarrow> ('c, 'p) push_event_env \<Rightarrow> str \<Rightarrow> canonical_hub_event \<Rightarrow> str \<Rightarrow> ('c, 'p) client_hub \<Rightarrow> push_service
     \<Rightarrow> ('c, 'p) client_hub \<times> push_service" where
  "handle_run_ended X E endpoint received thread_id h S =
     (case take_reply_preview thread_id S of (preview, S1) \<Rightarrow>
        (case pv_queue E of
           None \<Rightarrow> (discard_push_observation h (che_event_id received), S1)
         | Some (started, polls) \<Rightarrow>
             if (case wait_for_completion_disposition (che_event_id received) started polls of
                   None \<Rightarrow> True | Some d \<Rightarrow> \<not> completion_is_final d)
             then (discard_push_observation h (che_event_id received), S1)
             else (case observe_candidate E (che_foreground_mobile_present received) (che_event_id received) h of
                     (observed, h1) \<Rightarrow>
                       (h1, send_canonical_push X (pv_batches E) (pv_notification_id E) endpoint Turn_Completed
                              (Some thread_id) None preview observed S1))))"

definition push_handle_event ::
  "push_ext \<Rightarrow> ('c, 'p) push_event_env \<Rightarrow> str \<Rightarrow> canonical_hub_event \<Rightarrow> ('c, 'p) client_hub \<Rightarrow> push_service
     \<Rightarrow> ('c, 'p) client_hub \<times> push_service" where
  "push_handle_event X E endpoint received h S =
     (case che_event received of
        MessageChunk _ thread_id _ _ _ role _ content _ \<Rightarrow>
          if role = Agent then (h, accumulate_canonical_reply (pv_victim E) thread_id content S) else (h, S)
      | RunFinished _ thread_id _ _ _ _ \<Rightarrow> handle_run_ended X E endpoint received thread_id h S
      | RunFailed _ thread_id _ _ _ _ \<Rightarrow> handle_run_ended X E endpoint received thread_id h S
      | PermissionRequested approval \<Rightarrow>
          (case observe_candidate E (che_foreground_mobile_present received) (che_event_id received) h of
             (observed, h1) \<Rightarrow>
               (h1, send_canonical_push X (pv_batches E) (pv_notification_id E) endpoint Approval_Requested
                      (Some (approval_thread_id approval)) (Some (approval_request_id approval)) None observed S))
      | _ \<Rightarrow> (h, S))"

section \<open>Receipts\<close>

definition stale_receipt :: "(str \<times> str) list \<Rightarrow> str \<times> json \<Rightarrow> str option" where
  "stale_receipt chunk p =
     (if read_string (json_get (snd p) ''status'') = Some ''error'' \<and> error_kind (snd p) = Some ''DeviceNotRegistered''
      then map_option snd (List.find (\<lambda>(i, _). i = fst p) chunk) else None)"

definition check_receipt_batch :: "push_ext \<Rightarrow> batch_env \<Rightarrow> str \<Rightarrow> (str \<times> str) list \<Rightarrow> push_service \<Rightarrow> push_service" where
  "check_receipt_batch X E endpoint chunk S =
     (case post_with_retry (be_answers E) endpoint (JObject [(''ids'', JArray (map (JString \<circ> fst) chunk))]) S of
        (None, S1) \<Rightarrow> S1
      | (Some answer, S1) \<Rightarrow>
          (case Option.bind (json_get answer ''data'') as_object of
             None \<Rightarrow> S1
           | Some members \<Rightarrow>
               let S2 = fold (\<lambda>p. if read_string (json_get (snd p) ''status'') = Some ''error''
                               then push_emit Push_receipt_error else id) members S1
               in unregister_stale X (be_ios E) (List.map_filter (stale_receipt chunk) members) S2))"

definition check_receipts :: "push_ext \<Rightarrow> (nat \<Rightarrow> batch_env) \<Rightarrow> str \<Rightarrow> (str \<times> str) list \<Rightarrow> push_service \<Rightarrow> push_service" where
  "check_receipts X Es endpoint receipts S =
     fold (\<lambda>(n, chunk). check_receipt_batch X (Es n) endpoint chunk)
       (enumerate 0 (chunks EXPO_RECEIPT_BATCH_SIZE receipts)) S"

text \<open>The background task of \<open>spawn_receipt_check\<close>, after its delay.\<close>

definition receipt_check_task :: "push_ext \<Rightarrow> (nat \<Rightarrow> batch_env) \<Rightarrow> (str \<times> str) list \<Rightarrow> push_service \<Rightarrow> push_service" where
  "receipt_check_task X Es receipts S =
     (let S1 = check_receipts X Es EXPO_PUSH_RECEIPTS_ENDPOINT receipts S
      in S1\<lparr>ps_pending_receipt_checks := fetch_dec (ps_pending_receipt_checks S1)\<rparr>)"

definition pending_delivery_count :: "push_service \<Rightarrow> nat" where
  "pending_delivery_count S = sat_add (ps_active_deliveries S) (ps_pending_receipt_checks S)"

end
