(* ===== verification/Push_Guarantees.thy ===== *)
theory Push_Guarantees
  imports Push_Registry
begin

text \<open>
  The registry of push devices as an instance of \<open>durable_state\<close>, its runs under any fault of the file
  system, and what a registration does.
\<close>

section \<open>The file reads back\<close>

lemma as_bool_JBool [simp]: "as_bool (JBool b) = Some b"
  by (simp add: as_bool_def)

lemmas reading_members = open_members_def struct_members_def field_req_def field_default_def

lemma de_preferences_ser [simp]: "de_preferences (ser_preferences e) = Some e"
  by (simp add: de_preferences_def ser_preferences_def reading_members)

lemma de_device_ser: "de_device (ser_device d) = Some d"
  by (simp add: de_device_def ser_device_def reading_members device_members_def)

lemma de_registry_ser: "de_registry (ser_registry r) = Some r"
  by (simp add: de_registry_def ser_registry_def reading_members de_vec_def opt_traverse_map de_device_ser)

section \<open>Memory and file\<close>

text \<open>Registries \<open>load\<close> gives back unchanged.\<close>

definition registry_ok :: "push_registry \<Rightarrow> bool" where
  "registry_ok r = (list_all device_retained (pr_devices r) \<and> length (pr_devices r) \<le> PUSH_REGISTRY_MAX_DEVICES)"

lemma registry_ok_default [simp]: "registry_ok registry_default"
  by (simp add: registry_ok_def registry_default_def)

lemma push_load_ok: "registry_ok (push_load X b dir)"
  by (auto simp: push_load_def registry_ok_def registry_default_def list_all_iff dest: in_set_takeD
      split: option.splits)

lemma push_load_written:
  assumes "json_codec (p_json X)" "registry_ok r"
    and "dir PUSH_REGISTRY_FILE_NAME = Some (to_string (p_json X) (ser_registry r))"
    and "length (to_string (p_json X) (ser_registry r)) \<le> PUSH_REGISTRY_MAX_BYTES"
  shows "push_load X True dir = r"
proof -
  have "filter device_retained (pr_devices r) = pr_devices r"
    using assms(2) by (simp add: registry_ok_def list_all_iff filter_id_conv)
  then show ?thesis
    using assms(2-4)
    by (simp add: push_load_def json_codec.parse_print [OF assms(1)] de_registry_ser registry_ok_def)
qed

lemma persist_snapshot_result:
  assumes "persist_snapshot X w env s dir = (r, dir')" "is_ok r \<or> task_joins env"
  shows "dir' PUSH_REGISTRY_FILE_NAME =
      (if is_ok r then Some (to_string (p_json X) (ser_registry s)) else dir PUSH_REGISTRY_FILE_NAME)
    \<and> (is_ok r \<longrightarrow> length (to_string (p_json X) (ser_registry s)) \<le> PUSH_REGISTRY_MAX_BYTES)"
proof (cases "PUSH_REGISTRY_MAX_BYTES < length (to_string (p_json X) (ser_registry s))")
  case True
  then show ?thesis using assms by (auto simp: persist_snapshot_def)
next
  case False
  obtain q where w: "atomic_write_private env (push_registry_path w) (to_string (p_json X) (ser_registry s)) dir = (q, dir')"
      "is_ok q = is_ok r"
    using assms False by (auto simp: persist_snapshot_def Let_def split: prod.splits sum.splits)
  then show ?thesis
    using atomic_write_private_file [OF _ _ w(1), of PUSH_REGISTRY_FILE_NAME] assms(2) False
    by (simp add: push_registry_path_def)
qed

lemma push_commit_cases:
  assumes "push_commit X w env s mem dir = (r, mem', dir')"
  shows "persist_snapshot X w env s dir = (r, dir') \<and> mem' = (if is_ok r then s else mem)"
  using assms by (auto simp: push_commit_def split: prod.splits sum.splits)

text \<open>The registry provides the interface of a durable state.\<close>

lemma push_durable:
  assumes "json_codec (p_json X)"
  shows "durable_state (push_commit X w) (\<lambda>dir. Ok (push_load X True dir) :: bridge_error + push_registry)
    PUSH_REGISTRY_FILE_NAME registry_ok"
proof
  fix env s mem dir u mem' dir'
  assume c: "push_commit X w env s mem dir = (Ok u, mem', dir')" and ok: "registry_ok s"
  show "mem' = s \<and> Ok (push_load X True dir') = (Ok s :: bridge_error + push_registry)"
    using push_commit_cases [OF c] persist_snapshot_result [of X w env s dir "Ok u" dir']
      push_load_written [OF assms ok, of dir'] by simp
next
  fix env s mem dir e mem' dir'
  assume c: "push_commit X w env s mem dir = (Err e, mem', dir')" and j: "task_joins env"
  show "mem' = mem \<and> dir' PUSH_REGISTRY_FILE_NAME = dir PUSH_REGISTRY_FILE_NAME"
    using push_commit_cases [OF c] persist_snapshot_result [of X w env s dir "Err e" dir'] j by simp
next
  fix dir dir' :: directory
  assume "dir PUSH_REGISTRY_FILE_NAME = dir' PUSH_REGISTRY_FILE_NAME"
  then show "Ok (push_load X True dir) = (Ok (push_load X True dir') :: bridge_error + push_registry)"
    by (simp add: push_load_def)
qed

section \<open>What a registration does to the devices\<close>

lemma update_first_unchanged: "\<forall>x \<in> set xs. \<not> P x \<Longrightarrow> update_first P f xs = xs"
  by (induction xs) auto

lemma find_update_first:
  assumes "List.find P xs = Some x"
  shows "\<exists>as bs. xs = as @ x # bs \<and> (\<forall>a \<in> set as. \<not> P a) \<and> P x \<and> update_first P f xs = as @ f x # bs"
  using assms
proof (induction xs)
  case (Cons y ys)
  show ?case
  proof (cases "P y")
    case True
    with Cons.prems show ?thesis by (intro exI [of _ "[]"] exI [of _ ys]) simp
  next
    case False
    with Cons obtain as bs where "ys = as @ x # bs" "\<forall>a \<in> set as. \<not> P a" "P x" "update_first P f ys = as @ f x # bs"
      by auto
    with False show ?thesis by (intro exI [of _ "y # as"] exI [of _ bs]) simp
  qed
qed simp

lemma find_value:
  "(\<forall>x \<in> set xs. P x \<longrightarrow> v = f x) \<Longrightarrow> ((\<forall>x \<in> set xs. \<not> P x) \<longrightarrow> v = w) \<Longrightarrow>
     v = (case List.find P xs of None \<Rightarrow> w | Some x \<Rightarrow> f x)"
  by (induction xs) auto

text \<open>Identifiers and tokens occur once.\<close>

definition devices_distinct :: "push_device_registration list \<Rightarrow> bool" where
  "devices_distinct ds = (distinct (map pd_registration_id ds) \<and> distinct (map pd_token ds))"

lemma devices_distinct_filter: "devices_distinct ds \<Longrightarrow> devices_distinct (filter P ds)"
  by (simp add: devices_distinct_def distinct_map_filter)

lemma register_candidate_cases:
  assumes "register_candidate now new ds = Ok ds'"
  obtains as x bs where "ds = as @ x # bs" "pd_registration_id x = pd_registration_id new"
      "pd_profile_id x = pd_profile_id new"
      "ds' = filter (\<lambda>d. pd_registration_id d = pd_registration_id new \<or> pd_token d \<noteq> pd_token new)
         (as @ new\<lparr>pd_created_at := pd_created_at x, pd_updated_at := now\<rparr> # bs)"
  | "\<forall>d \<in> set ds. pd_registration_id d \<noteq> pd_registration_id new" "length ds < PUSH_REGISTRY_MAX_DEVICES"
      "ds' = filter (\<lambda>d. pd_registration_id d = pd_registration_id new \<or> pd_token d \<noteq> pd_token new)
         (ds @ [new\<lparr>pd_created_at := now, pd_updated_at := now\<rparr>])"
proof (cases "List.find (\<lambda>d. pd_registration_id d = pd_registration_id new) ds")
  case None
  then have new: "\<forall>d \<in> set ds. pd_registration_id d \<noteq> pd_registration_id new" by (simp add: find_None_iff)
  show ?thesis
    by (rule that(2) [OF new]) (use assms None in \<open>auto simp: register_candidate_def res_bind_def not_le split: if_splits\<close>)
next
  case (Some x)
  let ?f = "\<lambda>d. d\<lparr>pd_token := pd_token new, pd_platform := pd_platform new,
    pd_device_name := pd_device_name new, pd_events := pd_events new, pd_updated_at := now\<rparr>"
  obtain as bs where split: "ds = as @ x # bs" "pd_registration_id x = pd_registration_id new"
      "update_first (\<lambda>d. pd_registration_id d = pd_registration_id new) ?f ds = as @ ?f x # bs"
    using find_update_first [OF Some, of ?f] by blast
  have same: "pd_profile_id x = pd_profile_id new"
    "ds' = filter (\<lambda>d. pd_registration_id d = pd_registration_id new \<or> pd_token d \<noteq> pd_token new) (as @ ?f x # bs)"
    using assms Some split(3) by (auto simp: register_candidate_def res_bind_def split: if_splits)
  have upd: "?f x = new\<lparr>pd_created_at := pd_created_at x, pd_updated_at := now\<rparr>"
    using same(1) split(2) by (cases x; cases new) simp
  show ?thesis by (rule that(1) [OF split(1,2) same(1)]) (simp only: same(2) upd)
qed

text \<open>In a registry with distinct identifiers: the new device, and the others that share nothing with it.\<close>

lemma register_candidate_effect:
  assumes "register_candidate now new ds = Ok ds'" "devices_distinct ds"
  obtains d where "d \<in> set ds'" "d = new\<lparr>pd_created_at := pd_created_at d, pd_updated_at := now\<rparr>"
    "(\<forall>x \<in> set ds. pd_registration_id x = pd_registration_id new \<longrightarrow> pd_created_at d = pd_created_at x)"
    "(\<forall>x \<in> set ds. pd_registration_id x \<noteq> pd_registration_id new) \<longrightarrow> pd_created_at d = now"
    "set ds' = insert d {x \<in> set ds. pd_registration_id x \<noteq> pd_registration_id new \<and> pd_token x \<noteq> pd_token new}"
    "devices_distinct ds'" "length ds' \<le> max (length ds) PUSH_REGISTRY_MAX_DEVICES"
  using assms(1)
proof (cases rule: register_candidate_cases)
  case (1 as x bs)
  let ?d = "new\<lparr>pd_created_at := pd_created_at x, pd_updated_at := now\<rparr>"
  have others: "pd_registration_id y \<noteq> pd_registration_id new" if "y \<in> set as \<union> set bs" for y
    using that assms(2) 1(1,2) by (auto simp: devices_distinct_def) (metis image_eqI)+
  have ds': "ds' = filter (\<lambda>y. pd_token y \<noteq> pd_token new) as @ ?d # filter (\<lambda>y. pd_token y \<noteq> pd_token new) bs"
    using 1(4) others by (simp cong: filter_cong)
  show ?thesis
  proof (rule that [of ?d])
    show "set ds' = insert ?d {y \<in> set ds. pd_registration_id y \<noteq> pd_registration_id new \<and> pd_token y \<noteq> pd_token new}"
      using others 1(2) by (auto simp: ds' 1(1))
    show "devices_distinct ds'"
      using assms(2) 1(2) by (auto simp: devices_distinct_def ds' 1(1) distinct_map_filter) 
    show "\<forall>y \<in> set ds. pd_registration_id y = pd_registration_id new \<longrightarrow> pd_created_at ?d = pd_created_at y"
      using others by (auto simp: 1(1))
    have "length ds' \<le> length ds" by (simp add: ds' 1(1) add_mono le_SucI)
    then show "length ds' \<le> max (length ds) PUSH_REGISTRY_MAX_DEVICES" by simp
  qed (auto simp: ds' 1(1,2))
next
  case 2
  let ?d = "new\<lparr>pd_created_at := now, pd_updated_at := now\<rparr>"
  have ds': "ds' = filter (\<lambda>y. pd_token y \<noteq> pd_token new) ds @ [?d]"
    using 2 by (simp cong: filter_cong)
  show ?thesis
  proof (rule that [of ?d])
    show "devices_distinct ds'"
      using assms(2) 2(1) by (auto simp: devices_distinct_def ds' distinct_map_filter)
    have "length (filter (\<lambda>y. pd_token y \<noteq> pd_token new) ds) < PUSH_REGISTRY_MAX_DEVICES"
      using 2(2) length_filter_le le_less_trans by blast
    then show "length ds' \<le> max (length ds) PUSH_REGISTRY_MAX_DEVICES" by (simp add: ds')
  qed (use 2(1) in \<open>auto simp: ds'\<close>)
qed

section \<open>Runs\<close>

lemma required_push_id_valid:
  "required_push_id params field = Ok v \<Longrightarrow> v \<noteq> [] \<and> length v \<le> PUSH_ID_MAX_BYTES"
  using required_push_id_Ok by blast

lemma parse_push_registration_retained:
  "parse_push_registration X params = Ok new \<Longrightarrow> device_retained new"
  by (auto simp: parse_push_registration_def res_bind_def device_retained_def read_trimmed_def not_less Let_def
      dest!: required_push_id_valid split: sum.splits option.splits if_splits)

text \<open>
  The registry from the first start on: requests of clients and tokens that turn out stale, with any
  fault of the file system (the worker task is joined), and restarts at any time.
\<close>

inductive push_run :: "push_ext \<Rightarrow> str \<Rightarrow> push_registry \<Rightarrow> directory \<Rightarrow> bool" for X w where
  start: "dir PUSH_REGISTRY_FILE_NAME = None \<Longrightarrow> push_run X w (push_load X True dir) dir"
| restart: "push_run X w mem dir \<Longrightarrow> push_run X w (push_load X True dir) dir"
| register: "push_run X w mem dir \<Longrightarrow> task_joins env \<Longrightarrow>
    push_register_request X w env now params mem dir = (r, mem', dir') \<Longrightarrow> push_run X w mem' dir'"
| unregister: "push_run X w mem dir \<Longrightarrow> task_joins env \<Longrightarrow>
    push_unregister_request X w env params mem dir = (r, mem', dir') \<Longrightarrow> push_run X w mem' dir'"
| stale: "push_run X w mem dir \<Longrightarrow> task_joins env \<Longrightarrow>
    unregister_token X w env token mem dir = (q, mem', dir') \<Longrightarrow> push_run X w mem' dir'"

definition push_inv :: "push_ext \<Rightarrow> push_registry \<Rightarrow> directory \<Rightarrow> bool" where
  "push_inv X mem dir = (push_load X True dir = mem \<and> registry_ok mem \<and> devices_distinct (pr_devices mem))"

lemma push_commit_inv:
  assumes "json_codec (p_json X)" "push_inv X mem dir" "task_joins env"
    and "registry_ok s" "devices_distinct (pr_devices s)" "push_commit X w env s mem dir = (r, mem', dir')"
  shows "push_inv X mem' dir'"
proof -
  have "(Ok (push_load X True dir') :: bridge_error + push_registry) = Ok mem'"
    by (rule durable_state.commit_synced [OF push_durable [OF assms(1)] _ assms(3,4,6)])
      (use assms(2) in \<open>simp add: push_inv_def\<close>)
  then show ?thesis using assms(2,4,5) push_commit_cases [OF assms(6)] by (auto simp: push_inv_def)
qed

lemma push_retain_inv:
  assumes "json_codec (p_json X)" "push_inv X mem dir" "task_joins env"
    and "push_retain X w env keep mem dir = (r, mem', dir')"
  shows "push_inv X mem' dir'"
proof (cases "length (filter keep (pr_devices mem)) = length (pr_devices mem)")
  case True
  then show ?thesis using assms by (simp add: push_retain_def Let_def)
next
  case False
  let ?s = "mem\<lparr>pr_devices := filter keep (pr_devices mem)\<rparr>"
  obtain q where c: "push_commit X w env ?s mem dir = (q, mem', dir')"
    using assms(4) False by (auto simp: push_retain_def Let_def split: prod.splits sum.splits)
  have "length (filter keep (pr_devices mem)) \<le> PUSH_REGISTRY_MAX_DEVICES"
    using assms(2) length_filter_le [of keep "pr_devices mem"] unfolding push_inv_def registry_ok_def by linarith
  then have "registry_ok ?s" "devices_distinct (pr_devices ?s)"
    using assms(2) by (auto simp: push_inv_def registry_ok_def list_all_iff devices_distinct_filter)
  then show ?thesis using push_commit_inv [OF assms(1-3) _ _ c] by blast
qed

lemma push_register_inv:
  assumes "json_codec (p_json X)" "push_inv X mem dir" "task_joins env" "device_retained new"
    and "push_register X w env now new mem dir = (r, mem', dir')"
  shows "push_inv X mem' dir'"
proof (cases "register_candidate now new (pr_devices mem)")
  case (Inl e)
  then show ?thesis using assms by (simp add: push_register_def)
next
  case (Inr ds)
  let ?s = "mem\<lparr>pr_devices := ds\<rparr>"
  obtain q where c: "push_commit X w env ?s mem dir = (q, mem', dir')"
    using assms(5) Inr by (auto simp: push_register_def split: prod.splits sum.splits)
  have dist: "devices_distinct (pr_devices mem)" using assms(2) by (simp add: push_inv_def)
  obtain d where same: "d = new\<lparr>pd_created_at := pd_created_at d, pd_updated_at := now\<rparr>"
      and d: "set ds = insert d {x \<in> set (pr_devices mem). pd_registration_id x \<noteq> pd_registration_id new \<and> pd_token x \<noteq> pd_token new}"
      "devices_distinct ds" "length ds \<le> max (length (pr_devices mem)) PUSH_REGISTRY_MAX_DEVICES"
    by (rule register_candidate_effect [OF Inr dist])
  have "device_retained d" using assms(4) by (subst same) (simp add: device_retained_def)
  then have "registry_ok ?s" "devices_distinct (pr_devices ?s)"
    using d assms(2) by (auto simp: push_inv_def registry_ok_def list_all_iff)
  then show ?thesis using push_commit_inv [OF assms(1-3) _ _ c] by blast
qed

lemma push_run_inv:
  assumes "json_codec (p_json X)" "push_run X w mem dir"
  shows "push_inv X mem dir"
  using assms(2)
proof (induction rule: push_run.induct)
  case (start dir)
  then show ?case by (simp add: push_inv_def push_load_def registry_default_def registry_ok_def devices_distinct_def)
next
  case (restart mem dir)
  then show ?case by (simp add: push_inv_def)
next
  case (register mem dir env now params r mem' dir')
  show ?case
  proof (cases "parse_push_registration X (case params of None \<Rightarrow> JObject [] | Some p \<Rightarrow> p)")
    case (Inl e)
    then show ?thesis using register by (simp add: push_register_request_def)
  next
    case (Inr new)
    then obtain q where "push_register X w env now new mem dir = (q, mem', dir')"
      using register(3) by (auto simp: push_register_request_def split: prod.splits sum.splits)
    then show ?thesis
      using push_register_inv [OF assms(1) register(4,2) parse_push_registration_retained [OF Inr]] by blast
  qed
next
  case (unregister mem dir env params r mem' dir')
  then consider "mem' = mem \<and> dir' = dir" | p i q where "push_unregister X w env p i mem dir = (q, mem', dir')"
    by (auto simp: push_unregister_request_def Let_def split: prod.splits sum.splits)
  then show ?case
  proof cases
    case 2
    then show ?thesis using push_retain_inv [OF assms(1) unregister(4,2)] unfolding push_unregister_def by blast
  qed (use unregister(4) in simp)
next
  case (stale mem dir env token q mem' dir')
  then show ?case using push_retain_inv [OF assms(1)] unfolding unregister_token_def by blast
qed

section \<open>A concrete registry\<close>

definition demo_push :: push_ext where
  "demo_push = \<lparr>p_json = plain_json, p_show_io = (\<lambda>_. ''I/O error''), p_to_lowercase = to_ascii_lowercase\<rparr>"

lemma demo_push_codec: "json_codec (p_json demo_push)"
  by (simp add: demo_push_def plain.json_codec_axioms)

interpretation push_store: durable_state "push_commit demo_push ''/w''"
  "\<lambda>dir. Ok (push_load demo_push True dir) :: bridge_error + push_registry" PUSH_REGISTRY_FILE_NAME registry_ok
  by (rule push_durable [OF demo_push_codec])

definition demo_params :: json where
  "demo_params = JObject [(''profileId'', JString ''p''), (''registrationId'', JString ''r''), (''token'', JString ''t'')]"

definition demo_device :: push_device_registration where
  "demo_device = \<lparr>pd_profile_id = ''p'', pd_registration_id = ''r'', pd_token = ''t'', pd_platform = ''unknown'',
     pd_device_name = ''Unknown device'', pd_events = preferences_default, pd_created_at = [], pd_updated_at = []\<rparr>"

lemma demo_params_parse: "parse_push_registration demo_push demo_params = Ok demo_device"
  by code_simp

lemma demo_push_run: "push_run demo_push ''/w'' registry_default Map.empty"
  using push_run.start [of Map.empty demo_push "''/w''"] by (simp add: push_load_def)

section \<open>Properties\<close>



text \<open>
  The newest registration of a device counts. A registration that succeeds leaves exactly one device
  with its identifier and exactly one with its token, the same one, with the data of the request; it
  keeps the time the device was first registered, and every other device stays as it is; one that
  fails changes neither memory nor the file.
\<close>

theorem push_registration_latest_wins:
  assumes "json_codec (p_json X)" "push_run X w mem dir" "task_joins env"
    and "parse_push_registration X params = Ok new"
    and "push_register_request X w env now (Some params) mem dir = (r, mem', dir')"
  shows "if is_ok r
    then \<exists>d. pr_devices mem' \<noteq> [] \<and> d = new\<lparr>pd_created_at := pd_created_at d, pd_updated_at := now\<rparr>
      \<and> set (pr_devices mem') = insert d {x \<in> set (pr_devices mem).
            pd_registration_id x \<noteq> pd_registration_id new \<and> pd_token x \<noteq> pd_token new}
      \<and> pd_created_at d = (case List.find (\<lambda>x. pd_registration_id x = pd_registration_id new) (pr_devices mem) of
            None \<Rightarrow> now | Some x \<Rightarrow> pd_created_at x)
    else mem' = mem \<and> dir' PUSH_REGISTRY_FILE_NAME = dir PUSH_REGISTRY_FILE_NAME"
proof -
  have dist: "devices_distinct (pr_devices mem)" using push_run_inv [OF assms(1,2)] by (simp add: push_inv_def)
  show ?thesis
  proof (cases "register_candidate now new (pr_devices mem)")
    case (Inl e)
    then show ?thesis using assms(4,5) by (auto simp: push_register_request_def push_register_def)
  next
    case (Inr ds)
    obtain q where c: "push_commit X w env (mem\<lparr>pr_devices := ds\<rparr>) mem dir = (q, mem', dir')" "is_ok q = is_ok r"
      using assms(4,5) Inr
      by (auto simp: push_register_request_def push_register_def split: prod.splits sum.splits)
    note C = push_commit_cases [OF c(1)] 
    show ?thesis
    proof (cases "is_ok r")
      case False
      then show ?thesis using C persist_snapshot_result [of X w env "mem\<lparr>pr_devices := ds\<rparr>" dir q dir'] assms(3) c(2)
        by simp
    next
      case True
      obtain d where d: "d \<in> set ds" "d = new\<lparr>pd_created_at := pd_created_at d, pd_updated_at := now\<rparr>"
          "\<forall>x \<in> set (pr_devices mem). pd_registration_id x = pd_registration_id new \<longrightarrow> pd_created_at d = pd_created_at x"
          "(\<forall>x \<in> set (pr_devices mem). pd_registration_id x \<noteq> pd_registration_id new) \<longrightarrow> pd_created_at d = now"
          "set ds = insert d {x \<in> set (pr_devices mem). pd_registration_id x \<noteq> pd_registration_id new \<and> pd_token x \<noteq> pd_token new}"
        by (rule register_candidate_effect [OF Inr dist])
      have created: "pd_created_at d = (case List.find (\<lambda>x. pd_registration_id x = pd_registration_id new) (pr_devices mem) of
            None \<Rightarrow> now | Some x \<Rightarrow> pd_created_at x)"
        by (rule find_value [OF d(3,4)])
      have devices: "pr_devices mem' = ds" "ds \<noteq> []" using C True c(2) d(1) by auto
      show ?thesis unfolding if_P [OF True] devices(1)
        by (intro exI [of _ d] conjI) (rule devices(2) d(2,5) created)+
    qed
  qed
qed

theorem push_registration_latest_wins_witness:
  "\<exists>r mem dir. push_register_request demo_push ''/w'' all_good ''now'' (Some demo_params) registry_default Map.empty
     = (r, mem, dir) \<and> (is_ok r \<longrightarrow> map pd_token (pr_devices mem) \<noteq> [])"
proof -
  obtain r mem dir where q: "push_register_request demo_push ''/w'' all_good ''now'' (Some demo_params)
      registry_default Map.empty = (r, mem, dir)" by (metis prod_cases3)
  have j: "task_joins all_good" by (simp add: all_good_def)
  show ?thesis
    using push_registration_latest_wins [OF demo_push_codec demo_push_run j demo_params_parse q] q
    by (metis Nil_is_map_conv)
qed

end
