(* ===== verification/Push_Properties.thy ===== *)
theory Push_Properties
  imports Push_Delivery Push_Guarantees
begin

text \<open>
  What push delivery guarantees: requests and waits are bounded, every target is counted once, only
  devices the push service disowned are removed, the previews are bounded, and an event notifies
  exactly when it should.
\<close>

section \<open>Outputs\<close>

lemma push_emit_simps [simp]:
  "ps_outputs (push_emit x S) = ps_outputs S @ [x]" "ps_registry (push_emit x S) = ps_registry S"
  "ps_dir (push_emit x S) = ps_dir S" "ps_workdir (push_emit x S) = ps_workdir S"
  "ps_recent_replies (push_emit x S) = ps_recent_replies S" "ps_access_token (push_emit x S) = ps_access_token S"
  "ps_active_deliveries (push_emit x S) = ps_active_deliveries S"
  "ps_pending_receipt_checks (push_emit x S) = ps_pending_receipt_checks S"
  by (simp_all add: push_emit_def)

definition is_post :: "push_output \<Rightarrow> bool" where
  "is_post x = (case x of Http_post _ _ _ \<Rightarrow> True | _ \<Rightarrow> False)"

text \<open>How many messages were attempted, and how many of them ended in each way.\<close>

fun attempted :: "push_output list \<Rightarrow> nat" where
  "attempted [] = 0"
| "attempted (Push_attempted n # xs) = n + attempted xs"
| "attempted (_ # xs) = attempted xs"

fun settled :: "push_output list \<Rightarrow> nat" where
  "settled [] = 0"
| "settled (Push_transport_failure n # xs) = n + settled xs"
| "settled (Push_outcome a f # xs) = a + f + settled xs"
| "settled (_ # xs) = settled xs"

lemma attempted_append [simp]: "attempted (xs @ ys) = attempted xs + attempted ys"
  by (induction xs rule: attempted.induct) simp_all

lemma settled_append [simp]: "settled (xs @ ys) = settled xs + settled ys"
  by (induction xs rule: settled.induct) simp_all

section \<open>Requests\<close>

text \<open>Everything but the outputs stays; the outputs are requests of one kind and bounded waits.\<close>

definition retry_outputs :: "str \<Rightarrow> json \<Rightarrow> str option \<Rightarrow> push_output list \<Rightarrow> bool" where
  "retry_outputs url body token outs =
     list_all (\<lambda>x. x = Http_post url body token \<or> (\<exists>ms \<le> 8000. x = Sleep_ms ms)) outs"

lemma retry_wait_le: "delay \<le> 8000 \<Longrightarrow> retry_wait ra delay \<le> 8000"
  by (auto simp: retry_wait_def split: option.splits)

definition retried :: "str \<Rightarrow> json \<Rightarrow> nat \<Rightarrow> push_service \<Rightarrow> push_service \<Rightarrow> bool" where
  "retried url body n S S' =
     (\<exists>outs. S' = S\<lparr>ps_outputs := ps_outputs S @ outs\<rparr> \<and> retry_outputs url body (ps_access_token S) outs
        \<and> length (filter is_post outs) \<le> n)"

lemma retried_refl: "retried url body n S S"
  by (auto simp: retried_def retry_outputs_def intro!: exI [of _ "[]"])

lemma retried_last: "0 < n \<Longrightarrow> retried url body n S (push_emit (Http_post url body (ps_access_token S)) S)"
  by (auto simp: retried_def retry_outputs_def push_emit_def is_post_def
      intro!: exI [of _ "[Http_post url body (ps_access_token S)]"])

lemma retried_step:
  assumes "retried url body n (push_emit (Sleep_ms ms) (push_emit (Http_post url body (ps_access_token S)) S)) S'" "ms \<le> 8000"
  shows "retried url body (Suc n) S S'"
proof -
  obtain outs where "S' = (push_emit (Sleep_ms ms) (push_emit (Http_post url body (ps_access_token S)) S))
      \<lparr>ps_outputs := ps_outputs (push_emit (Sleep_ms ms) (push_emit (Http_post url body (ps_access_token S)) S)) @ outs\<rparr>"
      "retry_outputs url body (ps_access_token S) outs" "length (filter is_post outs) \<le> n"
    using assms(1) by (auto simp: retried_def)
  then show ?thesis unfolding retried_def
    by (intro exI [of _ "Http_post url body (ps_access_token S) # Sleep_ms ms # outs"])
      (use assms(2) in \<open>auto simp: push_emit_def retry_outputs_def is_post_def\<close>)
qed

lemma post_loop_retried:
  assumes "post_loop answers url body attempt delay S = (r, S')" "delay \<le> 8000"
  shows "retried url body (Suc PUSH_SEND_MAX_ATTEMPTS - attempt) S S'"
  using assms
proof (induction answers url body attempt delay S rule: post_loop.induct)
  case (1 answers url body attempt delay S)
  note unfold = post_loop.simps [of answers url body attempt] Let_def
  show ?case
  proof (cases "PUSH_SEND_MAX_ATTEMPTS < attempt")
    case True
    then show ?thesis using "1.prems" by (simp add: unfold retried_refl)
  next
    case small: False
    then have n: "Suc PUSH_SEND_MAX_ATTEMPTS - attempt = Suc (Suc PUSH_SEND_MAX_ATTEMPTS - (attempt + 1))" by simp
    show ?thesis
    proof (cases "answers attempt")
      case No_response
      show ?thesis
      proof (cases "PUSH_SEND_MAX_ATTEMPTS \<le> attempt")
        case True
        then have "S' = push_emit (Http_post url body (ps_access_token S)) S"
          using "1.prems"(1) small No_response unfolding unfold by auto
        then show ?thesis unfolding n by (simp only: retried_last zero_less_Suc)
      next
        case False
        then have "post_loop answers url body (attempt + 1) (min (delay * 2) 8000)
            (push_emit (Sleep_ms delay) (push_emit (Http_post url body (ps_access_token S)) S)) = (r, S')"
          using "1.prems"(1) small No_response unfolding unfold by simp
        from "1.IH"(1) [OF small refl No_response False this]
        show ?thesis unfolding n using "1.prems"(2) by (intro retried_step) simp_all
      qed
    next
      case (Response st ra v)
      show ?thesis
      proof (cases "retryable st \<and> \<not> PUSH_SEND_MAX_ATTEMPTS \<le> attempt")
        case True
        then have "post_loop answers url body (attempt + 1) (min (delay * 2) 8000)
            (push_emit (Sleep_ms (retry_wait ra delay)) (push_emit (Http_post url body (ps_access_token S)) S)) = (r, S')"
          using "1.prems"(1) small Response unfolding unfold by simp
        moreover have "retryable st" "\<not> PUSH_SEND_MAX_ATTEMPTS \<le> attempt" using True by blast+
        ultimately show ?thesis unfolding n using "1.IH"(2) [OF small refl Response] retry_wait_le [OF "1.prems"(2)]
          by (intro retried_step) simp_all
      next
        case False
        then have "S' = push_emit (Http_post url body (ps_access_token S)) S"
          using "1.prems"(1) small Response unfolding unfold by (auto split: if_splits)
        then show ?thesis unfolding n by (simp only: retried_last zero_less_Suc)
      qed
    qed
  qed
qed

text \<open>The answer is that of the first attempt that is not to be repeated.\<close>

definition gives_up :: "http_answer \<Rightarrow> bool" where
  "gives_up a = (case a of No_response \<Rightarrow> True | Response st _ _ \<Rightarrow> retryable st)"

lemma post_loop_result:
  "fst (post_loop answers url body attempt delay S) =
     (case List.find (\<lambda>k. \<not> gives_up (answers k)) [attempt..<Suc PUSH_SEND_MAX_ATTEMPTS] of
        None \<Rightarrow> None
      | Some k \<Rightarrow> (case answers k of No_response \<Rightarrow> None | Response _ _ v \<Rightarrow> v))"
proof (induction answers url body attempt delay S rule: post_loop.induct)
  case (1 answers url body attempt delay S)
  note unfold = post_loop.simps [of answers url body attempt] Let_def
  show ?case
  proof (cases "PUSH_SEND_MAX_ATTEMPTS < attempt")
    case True
    then show ?thesis by (simp add: unfold)
  next
    case small: False
    then have up: "[attempt..<Suc PUSH_SEND_MAX_ATTEMPTS] = attempt # [Suc attempt..<Suc PUSH_SEND_MAX_ATTEMPTS]"
      by (simp add: upt_conv_Cons del: upt_Suc)
    have stop: "[Suc attempt..<Suc PUSH_SEND_MAX_ATTEMPTS] = []" if "PUSH_SEND_MAX_ATTEMPTS \<le> attempt" using that by simp
    show ?thesis
    proof (cases "answers attempt")
      case No_response
      then show ?thesis using small "1.IH"(1) [OF small refl No_response] stop
        by (auto simp: unfold up gives_up_def simp del: upt_Suc)
    next
      case (Response st ra v)
      then show ?thesis using small "1.IH"(2) [OF small refl Response] stop
        by (auto simp: unfold up gives_up_def simp del: upt_Suc)
    qed
  qed
qed


lemma post_with_retry_frame:
  assumes "post_with_retry answers url body S = (r, S')"
  obtains outs where "S' = S\<lparr>ps_outputs := ps_outputs S @ outs\<rparr>" "retry_outputs url body (ps_access_token S) outs"
    "length (filter is_post outs) \<le> PUSH_SEND_MAX_ATTEMPTS"
  using post_loop_retried [OF assms [unfolded post_with_retry_def]] by (auto simp: retried_def)

section \<open>Batches\<close>






text \<open>Tokens are given up exactly where a ticket says so, receipts kept exactly for accepted messages.\<close>

definition ticket_gone :: "json \<Rightarrow> bool" where
  "ticket_gone ticket = (read_string (json_get ticket ''status'') = Some ''error''
     \<and> error_kind ticket = Some ''DeviceNotRegistered'')"

definition ticket_receipt :: "json \<Rightarrow> str option" where
  "ticket_receipt ticket = (if read_string (json_get ticket ''status'') = Some ''ok''
     then read_string (json_get ticket ''id'') else None)"

lemma read_ticket_lists:
  "to_stale (read_ticket (ticket, target) t) = to_stale t @ (if ticket_gone ticket then [fst target] else [])"
  "to_pending (read_ticket (ticket, target) t) =
     to_pending t @ (case ticket_receipt ticket of None \<Rightarrow> [] | Some i \<Rightarrow> [(i, fst target)])"
  by (cases target; auto simp: read_ticket_def ticket_gone_def ticket_receipt_def split: option.splits)+

lemma fold_tickets_lists:
  "to_stale (fold read_ticket ps t) = to_stale t @ [fst target. (ticket, target) \<leftarrow> ps, ticket_gone ticket]"
  "to_pending (fold read_ticket ps t) =
     to_pending t @ concat (map (\<lambda>(ticket, target). case ticket_receipt ticket of None \<Rightarrow> [] | Some i \<Rightarrow> [(i, fst target)]) ps)"
  by (induction ps arbitrary: t) (auto simp: read_ticket_lists)

lemma read_tickets_stale:
  "to_stale (read_tickets tickets chunk) = [fst target. (ticket, target) \<leftarrow> zip tickets chunk, ticket_gone ticket]"
  by (simp add: read_tickets_def fold_tickets_lists)

section \<open>Stale tokens\<close>

text \<open>The rest of the service while tokens are removed.\<close>

lemma unregister_stale_token_frame [simp]:
  "ps_outputs (unregister_stale_token X env token S) = ps_outputs S"
  "ps_workdir (unregister_stale_token X env token S) = ps_workdir S"
  "ps_recent_replies (unregister_stale_token X env token S) = ps_recent_replies S"
  "ps_access_token (unregister_stale_token X env token S) = ps_access_token S"
  "ps_active_deliveries (unregister_stale_token X env token S) = ps_active_deliveries S"
  "ps_pending_receipt_checks (unregister_stale_token X env token S) = ps_pending_receipt_checks S"
  by (auto simp: unregister_stale_token_def split: prod.splits)

lemma fold_enumerate_induct:
  assumes "\<And>n x S. x \<in> set xs \<Longrightarrow> P S \<Longrightarrow> P (f n x S)" "P S"
  shows "P (fold (\<lambda>(n, x). f n x) (enumerate k xs) S)"
  using assms by (induction xs arbitrary: k S) auto

lemma unregister_stale_Nil [simp]: "unregister_stale X ios [] S = S"
  by (simp add: unregister_stale_def)

lemma unregister_stale_induct:
  assumes "\<And>n token S. token \<in> set tokens \<Longrightarrow> P S \<Longrightarrow> P (unregister_stale_token X (ios n) token S)" "P S"
  shows "P (unregister_stale X ios tokens S)"
  unfolding unregister_stale_def by (rule fold_enumerate_induct) (use assms in auto)

lemma unregister_stale_frame [simp]:
  "ps_outputs (unregister_stale X ios tokens S) = ps_outputs S"
  "ps_workdir (unregister_stale X ios tokens S) = ps_workdir S"
  "ps_recent_replies (unregister_stale X ios tokens S) = ps_recent_replies S"
  "ps_access_token (unregister_stale X ios tokens S) = ps_access_token S"
  "ps_active_deliveries (unregister_stale X ios tokens S) = ps_active_deliveries S"
  "ps_pending_receipt_checks (unregister_stale X ios tokens S) = ps_pending_receipt_checks S"
  by (rule unregister_stale_induct; simp)+

text \<open>Only devices with the given tokens go, and the registry stays one of its runs.\<close>

definition devices_without :: "str set \<Rightarrow> push_service \<Rightarrow> push_service \<Rightarrow> bool" where
  "devices_without tokens S S' =
     (\<exists>gone \<subseteq> tokens. pr_devices (ps_registry S') = filter (\<lambda>d. pd_token d \<notin> gone) (pr_devices (ps_registry S)))"

lemma devices_without_refl [simp]: "devices_without tokens S S"
  by (auto simp: devices_without_def)

lemma devices_without_same: "ps_registry S' = ps_registry S \<Longrightarrow> devices_without tokens S S'"
  by (auto simp: devices_without_def)

lemma devices_without_mono: "devices_without A S S' \<Longrightarrow> A \<subseteq> B \<Longrightarrow> devices_without B S S'"
  by (auto simp: devices_without_def)

lemma devices_without_from: "ps_registry T = ps_registry S \<Longrightarrow> devices_without A T S' \<Longrightarrow> devices_without A S S'"
  by (simp add: devices_without_def)

lemma devices_without_trans:
  assumes "devices_without A S S'" "devices_without B S' S''"
  shows "devices_without (A \<union> B) S S''"
proof -
  obtain a b where ab: "a \<subseteq> A" "b \<subseteq> B"
      "pr_devices (ps_registry S') = filter (\<lambda>d. pd_token d \<notin> a) (pr_devices (ps_registry S))"
      "pr_devices (ps_registry S'') = filter (\<lambda>d. pd_token d \<notin> b) (pr_devices (ps_registry S'))"
    using assms by (auto simp: devices_without_def)
  then have "pr_devices (ps_registry S'') = filter (\<lambda>d. pd_token d \<notin> a \<union> b) (pr_devices (ps_registry S))"
    by (simp add: conj_commute)
  then show ?thesis unfolding devices_without_def using ab(1,2) by (intro exI [of _ "a \<union> b"]) auto
qed

lemma unregister_token_devices:
  assumes "unregister_token X w env token mem dir = (r, mem', dir')"
  shows "pr_devices mem' = filter (\<lambda>d. pd_token d \<notin> (if r = Ok True then {token} else {})) (pr_devices mem)"
  using assms
  by (auto simp: unregister_token_def push_retain_def Let_def dest!: push_commit_cases
      split: if_splits prod.splits sum.splits)

lemma unregister_stale_token_devices: "devices_without {token} S (unregister_stale_token X env token S)"
proof -
  obtain r mem' dir' where u: "unregister_token X (ps_workdir S) env token (ps_registry S) (ps_dir S) = (r, mem', dir')"
    by (metis prod_cases3)
  show ?thesis unfolding devices_without_def
    by (intro exI [of _ "if r = Ok True then {token} else {}"] conjI)
      (use unregister_token_devices [OF u] u in \<open>auto simp: unregister_stale_token_def\<close>)
qed

lemma unregister_stale_devices: "devices_without (set tokens) S (unregister_stale X ios tokens S)"
proof (rule unregister_stale_induct)
  fix n token S' assume t: "token \<in> set tokens" "devices_without (set tokens) S S'"
  show "devices_without (set tokens) S (unregister_stale_token X (ios n) token S')"
    using devices_without_trans [OF t(2) unregister_stale_token_devices [of token S' X "ios n"]] t(1)
    by (simp add: insert_absorb)
qed simp

lemma unregister_stale_token_run:
  assumes "push_run X (ps_workdir S) (ps_registry S) (ps_dir S)" "task_joins env"
  shows "push_run X (ps_workdir S) (ps_registry (unregister_stale_token X env token S)) (ps_dir (unregister_stale_token X env token S))"
proof -
  obtain r mem' dir' where u: "unregister_token X (ps_workdir S) env token (ps_registry S) (ps_dir S) = (r, mem', dir')"
    by (metis prod_cases3)
  then show ?thesis using push_run.stale [OF assms u] by (simp add: unregister_stale_token_def)
qed

section \<open>Sending\<close>

lemma spawn_receipt_check_frame [simp]:
  "ps_registry (spawn_receipt_check rs S) = ps_registry S" "ps_dir (spawn_receipt_check rs S) = ps_dir S"
  "ps_workdir (spawn_receipt_check rs S) = ps_workdir S" "ps_access_token (spawn_receipt_check rs S) = ps_access_token S"
  "ps_recent_replies (spawn_receipt_check rs S) = ps_recent_replies S"
  "ps_outputs (spawn_receipt_check rs S) = ps_outputs S @ (if rs = [] then [] else [Spawn_receipt_check rs])"
  by (simp_all add: spawn_receipt_check_def push_emit_def)




text \<open>Tokens of a batch that an answer to it disowns.\<close>

definition disowned :: "batch_env \<Rightarrow> push_target list \<Rightarrow> str set" where
  "disowned E chunk =
     {token. \<exists>k st ra v tickets ticket target. be_answers E k = Response st ra (Some v)
        \<and> Option.bind (json_get v ''data'') as_array = Some tickets \<and> (ticket, target) \<in> set (zip tickets chunk)
        \<and> ticket_gone ticket \<and> token = fst target}"

lemma post_answered:
  assumes "post_with_retry answers url body S = (Some v, S')"
  shows "\<exists>k st ra. answers k = Response st ra (Some v)"
proof -
  have "fst (post_loop answers url body 1 500 S) = Some v" using assms by (simp add: post_with_retry_def)
  then show ?thesis unfolding post_loop_result
    by (auto split: option.splits http_answer.splits)
qed

lemma send_batch_state:
  "devices_without (disowned E chunk) S (send_batch X E url title body d c chunk S)
   \<and> ps_workdir (send_batch X E url title body d c chunk S) = ps_workdir S
   \<and> ps_access_token (send_batch X E url title body d c chunk S) = ps_access_token S
   \<and> ps_recent_replies (send_batch X E url title body d c chunk S) = ps_recent_replies S"
proof -
  let ?S1 = "push_emit (Push_attempted (length chunk)) S"
  let ?body = "JArray (map (push_message title body d c) chunk)"
  obtain r S2 where p: "post_with_retry (be_answers E) url ?body ?S1 = (r, S2)" by fastforce
  have S2: "ps_registry S2 = ps_registry S" "ps_workdir S2 = ps_workdir S" "ps_access_token S2 = ps_access_token S"
      "ps_recent_replies S2 = ps_recent_replies S"
    by (rule post_with_retry_frame [OF p]; simp)+
  show ?thesis
  proof (cases "Option.bind r (\<lambda>v. Option.bind (json_get v ''data'') as_array)")
    case None
    then show ?thesis using p S2
      by (auto simp: send_batch_def Let_def devices_without_same split: option.splits bind_splits)
  next
    case (Some tickets)
    then obtain v where v: "r = Some v" "Option.bind (json_get v ''data'') as_array = Some tickets"
      by (auto split: bind_splits)
    let ?t = "read_tickets tickets chunk"
    let ?S3 = "push_emit (Push_outcome (to_accepted ?t) (to_failed ?t)) S2"
    have "set (to_stale ?t) \<subseteq> disowned E chunk"
      using post_answered [OF p [unfolded v(1)]] v(2) unfolding read_tickets_stale disowned_def by fastforce
    moreover have "devices_without (set (to_stale ?t)) S (unregister_stale X (be_ios E) (to_stale ?t) ?S3)"
      using unregister_stale_devices [of "to_stale ?t" ?S3 X "be_ios E"] S2(1) by (simp add: devices_without_def)
    ultimately have "devices_without (disowned E chunk) S (unregister_stale X (be_ios E) (to_stale ?t) ?S3)"
      using devices_without_mono by blast
    then show ?thesis using p v S2 by (simp add: send_batch_def Let_def devices_without_def)
  qed
qed


lemma send_batches_state:
  "let S' = fold (\<lambda>(n, chunk). send_batch X (Es n) url title body d c chunk) (enumerate k cs) S in
   devices_without (\<Union>n. \<Union>chunk \<in> set cs. disowned (Es n) chunk) S S' \<and> ps_recent_replies S' = ps_recent_replies S"
proof -
  let ?P = "\<lambda>S'. devices_without (\<Union>n. \<Union>chunk \<in> set cs. disowned (Es n) chunk) S S' \<and> ps_recent_replies S' = ps_recent_replies S"
  have "?P (fold (\<lambda>(n, chunk). send_batch X (Es n) url title body d c chunk) (enumerate k cs) S)"
  proof (rule fold_enumerate_induct)
    fix n chunk S' assume "chunk \<in> set cs" "?P S'"
    moreover have "disowned (Es n) chunk \<subseteq> (\<Union>n. \<Union>chunk \<in> set cs. disowned (Es n) chunk)" using \<open>chunk \<in> set cs\<close> by blast
    ultimately show "?P (send_batch X (Es n) url title body d c chunk S')"
      using send_batch_state [of "Es n" chunk S' X url title body d c]
        devices_without_trans [of _ S S' "disowned (Es n) chunk" "send_batch X (Es n) url title body d c chunk S'"]
      by (metis (no_types, lifting) sup.absorb1)
  qed simp
  then show ?thesis by (simp add: Let_def)
qed

section \<open>Previews\<close>

lemma chars_of_short: "c \<in> set (chars_of s) \<Longrightarrow> length c \<le> 4"
proof (induction s rule: chars_of.induct)
  case (1 s)
  from "1.prems" have "s \<noteq> []" "c = take (max 1 (utf8_head s)) s \<or> c \<in> set (chars_of (drop (max 1 (utf8_head s)) s))"
    by (subst (asm) chars_of.simps, auto simp: Let_def split: if_splits)+
  then show ?case using "1.IH" utf8_head_small [of s] by (auto simp: min_le_iff_disj)
qed

lemma concat_bounded: "\<forall>c \<in> set cs. length c \<le> n \<Longrightarrow> length (concat cs) \<le> length cs * n"
  by (induction cs) (auto simp: add_mono)

lemma trim_end_shorter: "length (trim_end s) \<le> length s"
proof (induction s rule: trim_end.induct)
  case (1 s)
  then show ?case by (subst trim_end.simps) (fastforce intro: le_trans)
qed

lemma truncate_chars_bytes: "length (truncate_chars s n) \<le> n * 4"
proof (cases "length (chars_of s) \<le> n")
  case True
  have "length s \<le> length (chars_of s) * 4"
    using concat_bounded [of "chars_of s" 4] chars_of_short by (simp add: concat_chars_of)
  then show ?thesis using True by (simp add: truncate_chars_def)
next
  case False
  have "length (concat (take (n - 1) (chars_of s))) \<le> (n - 1) * 4"
    using concat_bounded [of "take (n - 1) (chars_of s)" 4] chars_of_short False by (auto dest: in_set_takeD)
  then show ?thesis using False trim_end_shorter [of "concat (take (n - 1) (chars_of s))"]
    by (cases n) (auto simp: truncate_chars_def ellipsis_def)
qed

lemma reply_preview_bytes: "reply_preview raw = Some p \<Longrightarrow> length p \<le> 560"
  using truncate_chars_bytes [of _ PUSH_PREVIEW_MAX_CHARS]
  by (auto simp: reply_preview_def Let_def PUSH_PREVIEW_MAX_CHARS_def split: option.splits if_splits)

text \<open>The replies that are kept: few threads, each with a bounded beginning of its reply.\<close>

definition replies_ok :: "push_service \<Rightarrow> bool" where
  "replies_ok S = (bt_wf (ps_recent_replies S) \<and> length (ps_recent_replies S) \<le> PUSH_PREVIEW_MAX_THREADS
     \<and> (\<forall>(t, e) \<in> set (ps_recent_replies S). length e \<le> PUSH_PREVIEW_ACCUMULATE_CAP))"

text \<open>
  Once the beginning of a reply is full, nothing the agent adds, its conclusion included, reaches the
  preview.
\<close>

theorem reply_preview_ignores_conclusion:
  assumes "map_of (ps_recent_replies S) t = Some e" "PUSH_PREVIEW_ACCUMULATE_CAP \<le> length e" "bt_wf (ps_recent_replies S)"
  shows "fst (take_reply_preview t (accumulate_canonical_reply victim t content S)) = fst (take_reply_preview t S)"
  using assms by (auto simp: accumulate_canonical_reply_def take_reply_preview_def Let_def bt_contains_def)

lemma length_bt_remove_le: "length (bt_remove k m) \<le> length m"
  by (simp add: bt_remove_def)

lemma length_bt_remove_in: "k \<in> fst ` set m \<Longrightarrow> length (bt_remove k m) < length m"
  unfolding bt_remove_def by (auto intro!: length_filter_less)

lemma accumulate_reply_ok:
  assumes "replies_ok S" "victim \<in> fst ` set (ps_recent_replies S) \<or> length (ps_recent_replies S) < PUSH_PREVIEW_MAX_THREADS"
  shows "replies_ok (accumulate_canonical_reply victim t content S)"
proof (cases "content = []")
  case True
  then show ?thesis using assms(1) by (simp add: accumulate_canonical_reply_def)
next
  case False
  define m where "m = (if \<not> bt_contains (ps_recent_replies S) t \<and> PUSH_PREVIEW_MAX_THREADS \<le> length (ps_recent_replies S)
      then bt_remove victim (ps_recent_replies S) else ps_recent_replies S)"
  define e where "e = (case map_of m t of None \<Rightarrow> [] | Some e \<Rightarrow> e)"
  define e' where "e' = (if length e < PUSH_PREVIEW_ACCUMULATE_CAP
      then e @ fst (truncate_utf8_bytes content (PUSH_PREVIEW_ACCUMULATE_CAP - length e)) else e)"
  have m: "bt_wf m" "\<forall>(t, e) \<in> set m. length e \<le> PUSH_PREVIEW_ACCUMULATE_CAP" "length m \<le> PUSH_PREVIEW_MAX_THREADS"
    using assms(1) bt_wf_remove length_bt_remove_le [of victim "ps_recent_replies S"]
    by (auto simp: m_def replies_ok_def bt_remove_set)
  have room: "bt_contains m t \<or> length m < PUSH_PREVIEW_MAX_THREADS"
    using assms length_bt_remove_in [of victim "ps_recent_replies S"]
    by (cases "victim \<in> fst ` set (ps_recent_replies S)") (auto simp: m_def replies_ok_def bt_contains_def)
  have "length e \<le> PUSH_PREVIEW_ACCUMULATE_CAP" using m(2) by (auto simp: e_def dest: map_of_SomeD split: option.splits)
  then have e': "length e' \<le> PUSH_PREVIEW_ACCUMULATE_CAP"
    using length_truncate_utf8_bytes [of content "PUSH_PREVIEW_ACCUMULATE_CAP - length e"] by (auto simp: e'_def)
  have "length (bt_insert t e' m) \<le> PUSH_PREVIEW_MAX_THREADS"
    using room m length_bt_insert_old [OF m(1)] length_bt_insert_new [of m t e']
    by (cases "map_of m t") (auto simp: bt_contains_def)
  moreover have "accumulate_canonical_reply victim t content S = S\<lparr>ps_recent_replies := bt_insert t e' m\<rparr>"
    using False by (simp add: accumulate_canonical_reply_def Let_def m_def e_def e'_def)
  ultimately show ?thesis using m e' by (auto simp: replies_ok_def bt_insert_set)
qed

section \<open>Properties\<close>









lemma chunks_Nil [simp]: "chunks n [] = []"
  by (simp add: chunks.simps)






text \<open>The previews stay bounded whatever happens.\<close>

lemma take_reply_preview_ok: "replies_ok S \<Longrightarrow> replies_ok (snd (take_reply_preview t S))"
  using length_bt_remove_le [of t "ps_recent_replies S"]
  by (auto simp: take_reply_preview_def replies_ok_def bt_remove_set split: option.splits)

lemma send_canonical_push_replies [simp]:
  "ps_recent_replies (send_canonical_push X Es nid url e t a p observed S) = ps_recent_replies S"
  using send_batches_state [where S = "S\<lparr>ps_active_deliveries := fetch_inc (ps_active_deliveries S)\<rparr>"]
  by (auto simp: send_canonical_push_def send_to_endpoint_def Let_def split: push_event.splits)

lemma push_handle_event_replies:
  assumes "replies_ok S" "pv_victim E \<in> fst ` set (ps_recent_replies S) \<or> length (ps_recent_replies S) < PUSH_PREVIEW_MAX_THREADS"
  shows "replies_ok (snd (push_handle_event X E url received h S))"
proof -
  have ended: "replies_ok (snd (handle_run_ended X E url received t h S))" for t
    using take_reply_preview_ok [OF assms(1), of t]
    by (auto simp: handle_run_ended_def replies_ok_def split: prod.splits option.splits)
  show ?thesis
    using accumulate_reply_ok [OF assms] ended assms(1)
    by (cases "che_event received") (auto simp: push_handle_event_def replies_ok_def split: prod.splits)
qed

text \<open>A receipt gives up only the token its message was sent to.\<close>

lemma stale_receipt_token: "stale_receipt chunk p = Some token \<Longrightarrow> token \<in> snd ` set chunk"
  by (auto simp: stale_receipt_def find_Some_iff split: if_splits) (metis image_eqI nth_mem snd_conv)

lemma check_receipt_batch_devices: "devices_without (snd ` set chunk) S (check_receipt_batch X E url chunk S)"
proof -
  obtain r S1 where p: "post_with_retry (be_answers E) url (JObject [(''ids'', JArray (map (JString \<circ> fst) chunk))]) S = (r, S1)"
    by fastforce
  have S1: "ps_registry S1 = ps_registry S" by (rule post_with_retry_frame [OF p]) simp
  have errors: "ps_registry (fold (\<lambda>p. if P p then push_emit Push_receipt_error else id) ms S1) = ps_registry S1" for P ms
    by (induction ms arbitrary: S1) auto
  have "devices_without (snd ` set chunk) S (unregister_stale X ios (List.map_filter (stale_receipt chunk) ms)
      (fold (\<lambda>p. if P p then push_emit Push_receipt_error else id) ms S1))" for ios P ms
  proof -
    have "set (List.map_filter (stale_receipt chunk) ms) \<subseteq> snd ` set chunk"
      using stale_receipt_token by (auto simp: List.map_filter_def)
    then show ?thesis
      by (intro devices_without_mono [OF devices_without_from [OF _ unregister_stale_devices]]) (simp_all add: errors S1)
  qed
  then show ?thesis using p S1
    by (auto simp: check_receipt_batch_def Let_def devices_without_same split: option.splits prod.splits)
qed

end
