(* ===== verification/Spec2Isabelle.thy ===== *)
theory Spec2Isabelle
  imports Hub_Guarantees Identity Storage Retirement_Fence Journal_Guarantees Mcp_Guarantees Agent_Messaging
    Queue_Safety Queue_Agent_Properties Scheduler_Properties Git_Properties Push_Properties
begin

text \<open>
  A verification library of the DapperCode bridge, the Rust service under
  \<open>services/rust-bridge\<close> that sits between coding agents (processes that speak ACP) and the mobile
  and desktop clients that drive them.

  \<^bold>\<open>The program.\<close> A \<^emph>\<open>thread\<close> is a conversation with one agent session. Clients connect to the
  \<^emph>\<open>hub\<close>, which numbers every notification, keeps the last ones for replay and hands them to the
  \<^emph>\<open>outbox\<close> of each client. A message for a thread goes to the thread's \<^emph>\<open>queue\<close>: it starts a turn
  at once, or waits until the running turn ends, or steers the running turn; a durable
  \<^emph>\<open>submission store\<close> makes sure that a message is dispatched at most once, across crashes. Prompts for
  a later time are kept by the \<^emph>\<open>scheduler\<close>, which hands them to the queue when they are due. A
  thread is deleted under the \<^emph>\<open>retirement fence\<close>, which keeps new work away, and the
  \<^emph>\<open>retirement journal\<close>, which finishes a deletion after a crash. Agents talk to each other through
  tools guarded by \<^emph>\<open>MCP credentials\<close> and in \<^emph>\<open>envelopes\<close> users cannot forge. What is durable is
  written by one routine that replaces a private file atomically. The \<^emph>\<open>path policy\<close> decides which
  files a client may name; the \<^emph>\<open>git service\<close> runs git in a repository it does not trust. \<^emph>\<open>Push
  delivery\<close> tells registered devices that a turn ended or an approval is needed.

  \<^bold>\<open>The theories\<close>, with the sources they model (under \<open>services/rust-bridge/src\<close> unless said otherwise).
  \<^item> \<open>Prelude\<close>, \<open>Json\<close>, \<open>Json_Text\<close>, \<open>Btree_Map\<close>, \<open>Serde\<close>: results as sums, Rust strings as byte lists,
    saturating and wrapping arithmetic, JSON values, the laws of a JSON text codec as the locale
    \<open>json_codec\<close>, ordered maps with their interface \<open>finite_map\<close>, derived (de)serialisers.
  \<^item> \<open>Resource_Limits\<close>: \<open>crates/core\<close> (limits, error values, truncation at a character boundary).
  \<^item> \<open>Base64_Codec\<close>, \<open>Identity\<close>: \<open>acp/identity.rs\<close>; the base64 engine is the locale \<open>url_safe_no_pad\<close>,
    interpreted on RFC 4648.
  \<^item> \<open>Storage\<close>: \<open>storage.rs\<close> and \<open>crates/platform\<close> (Unix): a directory as a map from names to bytes, an
    \<open>io_env\<close> that says which system call fails. The locale \<open>durable_state\<close> is the contract of a component
    that commits to memory and one file; the journal, the scheduler and the push registry provide it.
  \<^item> \<open>Replay\<close>, \<open>Client_Outbox\<close>, \<open>Canonical_Events\<close>, \<open>Client_Hub\<close>, \<open>Client_Hub_Props\<close>, \<open>Hub_Guarantees\<close>:
    \<open>replay.rs\<close>, \<open>client_outbox.rs\<close>, \<open>acp/events.rs\<close>, \<open>client_hub.rs\<close>; the channel is the locale
    \<open>bounded_channel\<close>.
  \<^item> \<open>Retirement_Fence\<close>: the fence of \<open>queue_service.rs\<close>; \<open>Retirement_Journal\<close>, \<open>Journal_Guarantees\<close>:
    \<open>retirement_journal.rs\<close>.
  \<^item> \<open>Mcp_Credentials\<close>, \<open>Mcp_Guarantees\<close>, \<open>Agent_Messaging\<close>: \<open>agent_messaging.rs\<close>.
  \<^item> \<open>Queue_Types\<close>, \<open>Submission_Store\<close>, \<open>Bridge_Prompt\<close>, \<open>Thread_Queue\<close>, \<open>Queue_Actions\<close>, \<open>Queue_Dispatch\<close>,
    \<open>Queue_Agent\<close>: \<open>queue_service.rs\<close> with the types of \<open>bridge_protocol.rs\<close> and the prompt conversion of
    \<open>runtime_backend.rs\<close>. \<open>Submission_Guarantees\<close>, \<open>Submission_Properties\<close>, \<open>Queue_Guarantees\<close>,
    \<open>Queue_Properties\<close>, \<open>Queue_Agent_Properties\<close> hold what they guarantee; \<open>Message_Queue\<close> is the abstract machine of a thread's
    messages, \<open>Queue_Refinement\<close> and \<open>Queue_Safety\<close> show that the queue refines it.
  \<^item> \<open>Scheduled_Prompts\<close>, \<open>Scheduler\<close>, \<open>Scheduler_Guarantees\<close>, \<open>Scheduler_Properties\<close>:
    \<open>scheduled_prompts.rs\<close>.
  \<^item> \<open>Path_Policy\<close>: \<open>crates/path-policy\<close> with the descriptor-relative file operations of \<open>crates/platform\<close>
    (Unix), over a graph of inodes that others may change between any two system calls.
  \<^item> \<open>Rust_Text\<close>: more of \<open>str\<close>. \<open>Git_Terminal\<close>, \<open>Git_Config\<close>, \<open>Git_Parse\<close>, \<open>Git_Service\<close>: \<open>services/terminal.rs\<close>
    and \<open>services/git.rs\<close>, the operations as actions over a world and a log of the commands run.
    \<open>Git_Guarantees\<close> has the rules for such logs, with the locales \<open>log_predicate\<close>, \<open>command_policy\<close> and
    \<open>stable_facts\<close>; \<open>Git_Properties\<close> the properties.
  \<^item> \<open>Interaction_Validation\<close>: \<open>interaction_validation.rs\<close>; a floating-point number is its 64 bits.
  \<^item> \<open>Push_Registry\<close>, \<open>Push_Guarantees\<close>, \<open>Push_Delivery\<close>, \<open>Push_Properties\<close>: \<open>push.rs\<close>, \<open>push_delivery.rs\<close> and the
    two requests of \<open>websocket_transport.rs\<close> that register devices; the registry provides \<open>durable_state\<close>.

  \<^bold>\<open>Correspondence.\<close> A struct is a record, an enum a datatype, a method a function that takes the state
  and returns its result with the new state. A method runs under a lock of the service, or of the thread
  it concerns, from its first read to its last write, so it is one step; where the source gives
  the lock back in the middle (delivering steers, the worker of the scheduler) the method is split there
  and its parts are steps. What goes to other parts (broadcasts, turns, spawned tasks) is an output
  list of the state. Code outside the repository (the agents, JSON text, base64, SHA-256, UUIDs, time
  formats, channels) is a parameter: a function argument with its documented laws as hypotheses, or an
  answer in an environment record. Clock readings and failures of system calls are inputs. Hash
  maps are sorted association lists; no result depends on their order. Components with a state machine
  have an inductive step relation over all operations (\<open>hub_reachable\<close>, \<open>fence_reachable\<close>,
  \<open>journal_run\<close>, \<open>cred_reachable\<close>, \<open>store_run\<close>, \<open>queue_reachable\<close>, \<open>sched_run\<close>, \<open>push_run\<close>), in which any
  system call may fail at any time.

  \<^bold>\<open>What is shown.\<close> Hub: replay has no gaps or repetitions, a broadcast reaches every client or
  disconnects it, the registry and the push observations are consistent and bounded, the newest
  presence report wins. Identity, envelopes and files: round trips, no forging, atomic replacement.
  Fence and journal: admitted work and a deletion never overlap, a restart recovers the journal.
  Credentials: the tables are consistent and bounded, revocation is effective. Submissions: a
  pending submission survives a crash, reservations are all or nothing, a restart loses no answer.
  Queue: a send starts at most one turn and only after the submission is on disk, the queue is
  dispatched in order, no operation loses, duplicates or invents a message (refinement), scheduled
  prompts are out of the clients' reach, steering terminates, a message between agents is accounted for
  in its journal. Scheduler: its file and memory agree in
  every reachable state and are well formed, a stored cancellation is final while the service runs,
  processing a prompt starts at most one turn, the worker never sleeps past a due prompt. Paths: a
  file served to a client lies beneath an allowed root, is no link and was reached through no link;
  a resolved path stays in scope. Git: no command before the configuration was inspected, no
  credentials before the transport and the remotes were, exact parsers, bounded responses. Surfaces:
  accepted exactly when well formed and within the limits. Push: the registry is durable and bounded,
  an event notifies exactly the devices it should, deliveries account for every message. Five
  theorems show behaviour that looks unintended: \<open>steering_stopped_by_stale_error\<close>,
  \<open>shutdown_revives_cancelled_prompt\<close>, \<open>git_truncated_config_accepted\<close>, \<open>git_switch_passes_option\<close> and
  \<open>reply_preview_ignores_conclusion\<close>.

  \<^bold>\<open>Bounds and fuel.\<close> A retry loop takes the list of its attempts (the faults each meets) and returns
  \<open>None\<close> when the list ends, that is while it is still waiting; theorems about such loops say that a
  successful attempt ends them. Drawing a fresh identifier takes the list of drawn candidates and
  returns as soon as one is free. The rounds of a steering drain take a list of environments;
  a list longer than the steers waiting is enough. Counters and
  sizes are natural numbers with Rust's saturation or wrap-around written out; \<open>usize\<close> has 64 bits.

  \<^bold>\<open>Not modelled.\<close> The AG-UI projector and its generated wire types, the ACP runtime (agent processes,
  sessions, snapshots), workspace services
  (attachments, previews), HTTP and WebSocket routing, the desktop operator and broker, the back
  ends for other platforms, process supervision and observability. In the modelled files: tests,
  \<open>Drop\<close> order beyond the two guards modelled, log lines, poisoning of standard mutexes, and overflow
  of time stamps. Deadlocks between locks are outside the models, whose steps are atomic.
\<close>

end
